(* ===== verification/Prelude.thy ===== *)
theory Prelude
  imports Complex_Main "HOL-Library.AList" "HOL-Library.Sublist"
begin

text \<open>
  Shared vocabulary and automation: Python dictionaries as association lists (insertion
  order kept, as Python keeps it), decimal strings and Python's parsing of them, whitespace
  handling of \<open>str.strip\<close>, and generic list facts. Nothing here models a particular
  source file; the components below are stated over these definitions.
\<close>

named_theorems dict_simps "lookup, key and membership laws of dictionaries"
named_theorems disk_simps "reading back persistent files"

section \<open>Dictionaries\<close>

text \<open>
  \<open>d[k] = v\<close> overwrites in place or appends (\<open>AList.update\<close>), \<open>d.pop(k, None)\<close> removes
  (\<open>AList.delete\<close>), \<open>d.get(k)\<close> looks up (\<open>map_of\<close>). Keys are distinct in every dictionary
  a Python program can build: \<open>wfd\<close>.
\<close>

type_synonym ('k, 'v) dict = "('k \<times> 'v) list"

abbreviation dget :: "('k, 'v) dict \<Rightarrow> 'k \<Rightarrow> 'v option" where
  "dget d k \<equiv> map_of d k"

abbreviation dset :: "'k \<Rightarrow> 'v \<Rightarrow> ('k, 'v) dict \<Rightarrow> ('k, 'v) dict" where
  "dset k v d \<equiv> AList.update k v d"

abbreviation dpop :: "'k \<Rightarrow> ('k, 'v) dict \<Rightarrow> ('k, 'v) dict" where
  "dpop k d \<equiv> AList.delete k d"

abbreviation dkeys :: "('k, 'v) dict \<Rightarrow> 'k list" where
  "dkeys d \<equiv> map fst d"

abbreviation dvals :: "('k, 'v) dict \<Rightarrow> 'v list" where
  "dvals d \<equiv> map snd d"

abbreviation wfd :: "('k, 'v) dict \<Rightarrow> bool" where
  "wfd d \<equiv> distinct (map fst d)"

definition dhas :: "('k, 'v) dict \<Rightarrow> 'k \<Rightarrow> bool" where
  "dhas d k \<longleftrightarrow> map_of d k \<noteq> None"

lemma dget_dset [simp, dict_simps]: "dget (dset k v d) = (dget d)(k \<mapsto> v)"
  by (rule update_conv')

lemma dget_dpop [simp, dict_simps]: "dget (dpop k d) = (dget d)(k := None)"
  by (rule delete_conv')

lemma wfd_dset [simp, intro]: "wfd d \<Longrightarrow> wfd (dset k v d)"
  by (rule distinct_update)

lemma wfd_dpop [simp, intro]: "wfd d \<Longrightarrow> wfd (dpop k d)"
  by (rule distinct_delete)

lemma dget_filter_keys:
  "dget (filter (\<lambda>p. P (fst p)) d) k = (if P k then dget d k else None)"
  by (induction d) auto

lemma dget_filter_items:
  "wfd d \<Longrightarrow> dget (filter Q d) k = (case dget d k of None \<Rightarrow> None | Some v \<Rightarrow> if Q (k, v) then Some v else None)"
proof (induction d)
  case (Cons p d)
  then show ?case
    by (cases p) (auto split: option.splits dest: map_of_SomeD simp: image_iff)
qed simp

lemma wfd_filter [simp, intro]: "wfd d \<Longrightarrow> wfd (filter Q d)"
  by (induction d) (auto simp: image_iff)

lemma dget_in_set: "wfd d \<Longrightarrow> (k, v) \<in> set d \<longleftrightarrow> dget d k = Some v"
  by (simp add: map_of_eq_Some_iff)

text \<open>With distinct keys, dropping the keys of some entries drops just those entries.\<close>

lemma filter_keys_of:
  assumes "wfd d"
  shows "filter (\<lambda>p. fst p \<notin> fst ` set (filter Q d)) d = filter (\<lambda>p. \<not> Q p) d"
proof (rule filter_cong [OF refl])
  fix p assume p: "p \<in> set d"
  have "q = p" if "q \<in> set d" "fst q = fst p" for q
    using that p assms by (metis eq_key_imp_eq_value prod.collapse)
  with p show "(fst p \<notin> fst ` set (filter Q d)) = (\<not> Q p)" by force
qed

lemma dpop_eq_filter: "dpop k d = filter (\<lambda>p. fst p \<noteq> k) d"
  by (induction d) auto

lemma set_dpop [dict_simps]: "set (dpop k d) = {p \<in> set d. fst p \<noteq> k}"
  by (simp add: dpop_eq_filter)

section \<open>Popping a list of keys\<close>

text \<open>\<open>for k in ks: d.pop(k, None)\<close>.\<close>

definition dpops :: "'k list \<Rightarrow> ('k, 'v) dict \<Rightarrow> ('k, 'v) dict" where
  "dpops ks d = fold dpop ks d"

lemma dpops_Nil [simp]: "dpops [] d = d"
  by (simp add: dpops_def)

lemma dpops_Cons [simp]: "dpops (k # ks) d = dpops ks (dpop k d)"
  by (simp add: dpops_def)

lemma dget_dpops [simp, dict_simps]:
  "dget (dpops ks d) k = (if k \<in> set ks then None else dget d k)"
  by (induction ks arbitrary: d) auto

lemma wfd_dpops [simp, intro]: "wfd d \<Longrightarrow> wfd (dpops ks d)"
  by (induction ks arbitrary: d) auto

section \<open>Decimal numerals\<close>

definition digit_char :: "nat \<Rightarrow> char" where
  "digit_char n = char_of (48 + n)"

definition is_digit :: "char \<Rightarrow> bool" where
  "is_digit c \<longleftrightarrow> 48 \<le> (of_char c :: nat) \<and> (of_char c :: nat) \<le> 57"

definition digit_val :: "char \<Rightarrow> nat" where
  "digit_val c = of_char c - 48"

fun str_nat :: "nat \<Rightarrow> string" where
  "str_nat n = (if n < 10 then [digit_char n] else str_nat (n div 10) @ [digit_char (n mod 10)])"

declare str_nat.simps [simp del]

text \<open>Python's \<open>str(i)\<close> on an integer.\<close>

definition str_int :: "int \<Rightarrow> string" where
  "str_int i = (if i < 0 then CHR ''-'' # str_nat (nat (- i)) else str_nat (nat i))"

text \<open>\<open>s.isdigit()\<close> on ASCII text.\<close>

definition is_digits :: "string \<Rightarrow> bool" where
  "is_digits s \<longleftrightarrow> s \<noteq> [] \<and> list_all is_digit s"

text \<open>The digits of \<open>int(s)\<close>, with single underscores allowed between digits.\<close>

fun scan_digits :: "nat \<Rightarrow> bool \<Rightarrow> string \<Rightarrow> nat option" where
  "scan_digits acc ok [] = (if ok then Some acc else None)"
| "scan_digits acc ok (c # cs) =
     (if is_digit c then scan_digits (10 * acc + digit_val c) True cs
      else if c = CHR ''_'' \<and> ok then scan_digits acc False cs
      else None)"

lemma digit_char_props [simp]:
  assumes "n < 10"
  shows "is_digit (digit_char n)" and "digit_val (digit_char n) = n"
  using assms by (simp_all add: is_digit_def digit_val_def digit_char_def)

lemma str_nat_digits: "is_digits (str_nat n)"
proof (induction n rule: str_nat.induct)
  case (1 n)
  show ?case
  proof (cases "n < 10")
    case True
    then show ?thesis by (simp add: str_nat.simps [of n] is_digits_def)
  next
    case False
    with 1 show ?thesis by (simp add: str_nat.simps [of n] is_digits_def)
  qed
qed


lemma scan_digits_all:
  "list_all is_digit s \<Longrightarrow> scan_digits acc ok s =
     (if s = [] \<and> \<not> ok then None else Some (foldl (\<lambda>a c. 10 * a + digit_val c) acc s))"
  by (induction s arbitrary: acc ok) auto

lemma foldl_str_nat: "foldl (\<lambda>a c. 10 * a + digit_val c) 0 (str_nat n) = n"
proof (induction n rule: str_nat.induct)
  case (1 n)
  then show ?case by (cases "n < 10") (simp_all add: str_nat.simps [of n])
qed

lemma scan_str_nat: "scan_digits 0 False (str_nat n) = Some n"
  using str_nat_digits [of n] foldl_str_nat [of n]
  by (simp add: scan_digits_all is_digits_def)

section \<open>Whitespace\<close>

text \<open>The ASCII whitespace \<open>str.strip()\<close> removes.\<close>

definition is_space :: "char \<Rightarrow> bool" where
  "is_space c \<longleftrightarrow> (let n = (of_char c :: nat) in n = 32 \<or> (9 \<le> n \<and> n \<le> 13) \<or> (28 \<le> n \<and> n \<le> 31))"

definition lstrip :: "string \<Rightarrow> string" where
  "lstrip s = dropWhile is_space s"

definition rstrip :: "string \<Rightarrow> string" where
  "rstrip s = rev (dropWhile is_space (rev s))"

definition strip :: "string \<Rightarrow> string" where
  "strip s = rstrip (lstrip s)"

text \<open>\<open>s.lstrip("-")\<close>, used before \<open>isdigit()\<close> on VMID keys.\<close>

definition lstrip_minus :: "string \<Rightarrow> string" where
  "lstrip_minus s = dropWhile (\<lambda>c. c = CHR ''-'') s"

definition looks_numeric :: "string \<Rightarrow> bool" where
  "looks_numeric s \<longleftrightarrow> is_digits (lstrip_minus s)"

text \<open>\<open>int(s)\<close> on a string: \<open>None\<close> stands for \<open>ValueError\<close>.\<close>

definition parse_int :: "string \<Rightarrow> int option" where
  "parse_int s =
     (case strip s of
        [] \<Rightarrow> None
      | c # cs \<Rightarrow>
          if c = CHR ''-'' then map_option (\<lambda>n. - int n) (scan_digits 0 False cs)
          else if c = CHR ''+'' then map_option int (scan_digits 0 False cs)
          else map_option int (scan_digits 0 False (c # cs)))"

lemma strip_no_space: "(\<And>c. c \<in> set s \<Longrightarrow> \<not> is_space c) \<Longrightarrow> strip s = s"
  using dropWhile_id [of "rev s" is_space] dropWhile_id [of s is_space]
  by (simp add: strip_def rstrip_def lstrip_def)

lemma digit_not_space: "is_digit c \<Longrightarrow> \<not> is_space c"
  by (auto simp: is_digit_def is_space_def Let_def)

lemma digit_not_sign: "is_digit c \<Longrightarrow> c \<noteq> CHR ''-'' \<and> c \<noteq> CHR ''+''"
  by (auto simp: is_digit_def)

lemma minus_not_space: "\<not> is_space (CHR ''-'')"
  by (simp add: is_space_def Let_def)

lemma str_int_no_space: "c \<in> set (str_int i) \<Longrightarrow> \<not> is_space c"
  using str_nat_digits [of "nat i"] str_nat_digits [of "nat (- i)"]
  by (auto simp: str_int_def is_digits_def list_all_iff digit_not_space minus_not_space
      split: if_splits)

lemma parse_str_int [simp]: "parse_int (str_int i) = Some i"
proof -
  have s: "strip (str_int i) = str_int i"
    by (rule strip_no_space) (rule str_int_no_space)
  show ?thesis
  proof (cases "i < 0")
    case True
    then show ?thesis by (simp add: parse_int_def s) (simp add: str_int_def scan_str_nat)
  next
    case False
    obtain c cs where c: "str_nat (nat i) = c # cs" and d: "is_digit c"
      using str_nat_digits [of "nat i"] by (cases "str_nat (nat i)") (auto simp: is_digits_def)
    have "parse_int (str_int i) = map_option int (scan_digits 0 False (str_nat (nat i)))"
      using False c digit_not_sign [OF d] by (simp add: parse_int_def s) (simp add: str_int_def)
    with False show ?thesis by (simp add: scan_str_nat)
  qed
qed

lemma str_int_inj [simp]: "str_int i = str_int j \<longleftrightarrow> i = j"
  by (metis option.inject parse_str_int)

lemma looks_numeric_str_int [simp]: "looks_numeric (str_int i)"
proof -
  have d: "dropWhile (\<lambda>c. c = CHR ''-'') (str_nat n) = str_nat n" for n
    using str_nat_digits [of n]
    by (intro dropWhile_id) (auto simp: is_digits_def list_all_iff dest: digit_not_sign)
  show ?thesis
    using str_nat_digits by (auto simp: looks_numeric_def lstrip_minus_def str_int_def d)
qed

lemma str_int_nonempty [simp]: "str_int i \<noteq> []"
  using str_nat_digits [of "nat i"] by (auto simp: str_int_def is_digits_def)

section \<open>Rounding\<close>

text \<open>\<open>int(x)\<close> on a float truncates towards zero.\<close>

definition trunc :: "rat \<Rightarrow> int" where
  "trunc x = (if 0 \<le> x then \<lfloor>x\<rfloor> else \<lceil>x\<rceil>)"

lemma trunc_of_int [simp]: "trunc (of_int i) = i"
  by (simp add: trunc_def)

end
