(* ===== verification/Guard.thy ===== *)
theory Guard
  imports PyValue
begin

text \<open>
  \<open>agent/src/cs_guard.py\<close>: the execution-layer guard every command that changes a
  simulation VM goes through. A VMID may be acted on only if it parses as an integer, is
  not in the host's protected set and is not below the simulation floor.
\<close>

definition SIM_VMIN :: int where
  "SIM_VMIN = 90000"

definition DEFAULT_PROTECTED_VMIDS :: "int set" where
  "DEFAULT_PROTECTED_VMIDS = {1001}"

definition resolve_protected_vmids :: "(string, pyval) dict option \<Rightarrow> int set" where
  "resolve_protected_vmids cs_cfg =
     (case cs_cfg of
        None \<Rightarrow> DEFAULT_PROTECTED_VMIDS
      | Some cfg \<Rightarrow>
          if cfg = [] then DEFAULT_PROTECTED_VMIDS
          else (case dget cfg ''protected_vmids'' of
                  None \<Rightarrow> DEFAULT_PROTECTED_VMIDS
                | Some PNone \<Rightarrow> DEFAULT_PROTECTED_VMIDS
                | Some cfg_list \<Rightarrow>
                    (case py_iter cfg_list of
                       Inl e \<Rightarrow> DEFAULT_PROTECTED_VMIDS
                     | Inr vs \<Rightarrow>
                         (case map_result py_int vs of
                            Inl e \<Rightarrow> DEFAULT_PROTECTED_VMIDS
                          | Inr ids \<Rightarrow> set ids))))"

definition assert_sim_vm :: "pyval \<Rightarrow> int set \<Rightarrow> int \<Rightarrow> int result" where
  "assert_sim_vm vmid protected sim_min =
     (case py_int vmid of
        Inl e \<Rightarrow> Inl (GuardError InvalidVmid)
      | Inr vid \<Rightarrow>
          if vid \<in> protected then Inl (GuardError (ProtectedVmid vid))
          else if vid < sim_min then Inl (GuardError (BelowFloor vid sim_min))
          else Inr vid)"

definition is_sim_vm :: "pyval \<Rightarrow> int set \<Rightarrow> int \<Rightarrow> bool" where
  "is_sim_vm vmid protected sim_min =
     (case assert_sim_vm vmid protected sim_min of Inr _ \<Rightarrow> True | Inl _ \<Rightarrow> False)"

text \<open>The guard as its callers use it: an integer VMID and the default floor.\<close>

abbreviation guard_vmid :: "int \<Rightarrow> int set \<Rightarrow> int result" where
  "guard_vmid vid protected \<equiv> assert_sim_vm (PInt vid) protected SIM_VMIN"

section \<open>What the guard lets through\<close>

lemma assert_sim_vm_Inr:
  "assert_sim_vm v prot m = Inr vid \<longleftrightarrow> py_int v = Inr vid \<and> vid \<notin> prot \<and> m \<le> vid"
  by (auto simp: assert_sim_vm_def split: sum.splits if_splits)

lemma assert_sim_vm_Inl:
  "assert_sim_vm v prot m = Inl e \<Longrightarrow> \<exists>r. e = GuardError r"
  by (auto simp: assert_sim_vm_def split: sum.splits if_splits)

lemma guard_vmid_cases:
  obtains (ok) "guard_vmid vid prot = Inr vid" "vid \<notin> prot" "SIM_VMIN \<le> vid"
  | (refused) r where "guard_vmid vid prot = Inl (GuardError r)" "vid \<in> prot \<or> vid < SIM_VMIN"
  by (cases "vid \<in> prot"; cases "vid < SIM_VMIN") (auto simp: assert_sim_vm_def)

lemma is_sim_vm_iff:
  "is_sim_vm v prot m \<longleftrightarrow> (\<exists>vid. py_int v = Inr vid \<and> vid \<notin> prot \<and> m \<le> vid)"
  by (cases "py_int v") (auto simp: is_sim_vm_def assert_sim_vm_def)

lemma protected_default_cases:
  "resolve_protected_vmids None = {1001}"
  "resolve_protected_vmids (Some []) = {1001}"
  by (simp_all add: resolve_protected_vmids_def DEFAULT_PROTECTED_VMIDS_def)

lemma resolve_protected_ints:
  assumes "dget cfg ''protected_vmids'' = Some (PList (map PInt ids))"
  shows "resolve_protected_vmids (Some cfg) = set ids"
proof -
  have "map_result py_int (map PInt ids) = Inr ids"
    by (induction ids) auto
  with assms show ?thesis by (auto simp: resolve_protected_vmids_def)
qed

text \<open>
  C1: whatever the hub sends as the protected list, and whatever type the VMID arrives in,
  the guard with the default floor accepts exactly the integers that are at least 90000 and
  not in the resolved protected set; so the hub container 1001 is refused under every
  configuration, also under one that removes it from the list.
\<close>

theorem guard_accepts_exactly_sim_vms:
  "(assert_sim_vm v (resolve_protected_vmids cfg) SIM_VMIN = Inr vid) =
     (py_int v = Inr vid \<and> 90000 \<le> vid \<and> vid \<notin> resolve_protected_vmids cfg)
   \<and> is_sim_vm v (resolve_protected_vmids cfg) SIM_VMIN =
       (\<exists>i. assert_sim_vm v (resolve_protected_vmids cfg) SIM_VMIN = Inr i)
   \<and> \<not> is_sim_vm (PInt 1001) (resolve_protected_vmids cfg) SIM_VMIN"
  by (simp add: assert_sim_vm_Inr is_sim_vm_iff SIM_VMIN_def) blast

end
