(* ===== verification/Pressure.thy ===== *)
theory Pressure
  imports Prelude
begin

text \<open>
  \<open>agent/src/resource_pressure.py\<close>: the back-pressure score and the throttled poll
  interval. Python floats are exact rationals here; rounding is not modelled.
\<close>

definition load_signal :: "rat option \<Rightarrow> rat \<Rightarrow> rat list" where
  "load_signal v limit =
     (case v of None \<Rightarrow> []
      | Some x \<Rightarrow> if 0 < limit then [max 0 x / limit] else [])"

text \<open>\<open>max(xs) if xs else 0.0\<close>\<close>

fun max_or_zero :: "rat list \<Rightarrow> rat" where
  "max_or_zero [] = 0"
| "max_or_zero (x # xs) = fold max xs x"

definition pressure_score ::
    "rat option \<Rightarrow> rat option \<Rightarrow> rat option \<Rightarrow> rat \<Rightarrow> rat \<Rightarrow> rat \<Rightarrow> rat" where
  "pressure_score cpu_pct mem_pct loop_lag_ms cpu_ceiling mem_ceiling lag_ceiling =
     max_or_zero (load_signal cpu_pct cpu_ceiling @ load_signal mem_pct mem_ceiling
                  @ load_signal loop_lag_ms lag_ceiling)"

definition combine_pressure :: "rat option list \<Rightarrow> rat" where
  "combine_pressure scores = max_or_zero (concat (map (\<lambda>s. case s of None \<Rightarrow> [] | Some x \<Rightarrow> [x]) scores))"

definition ramp_frac :: "rat \<Rightarrow> rat \<Rightarrow> rat" where
  "ramp_frac pressure soft = (pressure - soft) / max (1 / 1000000) (1 - soft)"

definition throttle_interval :: "rat \<Rightarrow> rat option \<Rightarrow> rat \<Rightarrow> rat \<Rightarrow> rat" where
  "throttle_interval base pressure soft max_mult =
     (case pressure of
        None \<Rightarrow> base
      | Some p \<Rightarrow>
          if p \<le> soft then base
          else
            let mult = (if p \<le> 1 then 1 + 2 * ramp_frac p soft
                        else min max_mult (3 + (p - 1) * (max_mult - 3)))
            in base * min max_mult mult)"

section \<open>The maximum of the signals\<close>

lemma le_fold_max: "z \<le> fold max xs (x::rat) \<longleftrightarrow> z \<le> x \<or> (\<exists>y \<in> set xs. z \<le> y)"
  by (induction xs arbitrary: x) (auto simp: le_max_iff_disj)

lemma le_max_or_zero: "0 < z \<Longrightarrow> z \<le> max_or_zero xs \<longleftrightarrow> (\<exists>y \<in> set xs. z \<le> y)"
  by (cases xs) (auto simp: le_fold_max)

lemma max_or_zero_nonneg: "(\<And>x. x \<in> set xs \<Longrightarrow> 0 \<le> x) \<Longrightarrow> 0 \<le> max_or_zero xs"
  by (cases xs) (auto simp: le_fold_max)

lemma load_signal_nonneg: "x \<in> set (load_signal v c) \<Longrightarrow> 0 \<le> x"
  by (auto simp: load_signal_def split: option.splits if_splits)

lemma pressure_score_nonneg: "0 \<le> pressure_score a b c ca cb cc"
  unfolding pressure_score_def
  by (rule max_or_zero_nonneg) (auto dest: load_signal_nonneg)

text \<open>
  One overloaded axis is enough. The score is at least 1 exactly when some measured
  signal with a positive ceiling is at or above its ceiling, and it is never negative.
\<close>

theorem pressure_score_overloaded_iff:
  "0 \<le> pressure_score cpu mem lag cc mc lc \<and>
   (1 \<le> pressure_score cpu mem lag cc mc lc) =
     ((\<exists>x. cpu = Some x \<and> 0 < cc \<and> cc \<le> x) \<or> (\<exists>x. mem = Some x \<and> 0 < mc \<and> mc \<le> x)
      \<or> (\<exists>x. lag = Some x \<and> 0 < lc \<and> lc \<le> x))"
proof -
  have one: "(\<exists>y \<in> set (load_signal v c). 1 \<le> y) = (\<exists>x. v = Some x \<and> 0 < c \<and> c \<le> x)" for v c
    by (cases v) (simp_all add: load_signal_def pos_le_divide_eq le_max_iff_disj)
  show ?thesis
    by (simp only: pressure_score_nonneg simp_thms)
       (simp add: pressure_score_def le_max_or_zero bex_Un one)
qed

section \<open>The throttle multiplier\<close>

text \<open>The multiplier \<open>throttle_interval\<close> applies, on its own.\<close>

definition throttle_mult :: "rat \<Rightarrow> rat \<Rightarrow> rat \<Rightarrow> rat" where
  "throttle_mult p soft max_mult =
     (if p \<le> soft then 1
      else min max_mult (if p \<le> 1 then 1 + 2 * ramp_frac p soft
                         else min max_mult (3 + (p - 1) * (max_mult - 3))))"

lemma throttle_interval_mult:
  "throttle_interval base (Some p) soft mm = base * throttle_mult p soft mm"
  by (simp add: throttle_interval_def throttle_mult_def Let_def)

lemma ramp_mono: "p \<le> q \<Longrightarrow> ramp_frac p soft \<le> ramp_frac q soft"
  unfolding ramp_frac_def by (intro divide_right_mono) (auto simp: le_max_iff_disj)

lemma ramp_le_1:
  assumes "p \<le> 1"
  shows "ramp_frac p soft \<le> 1"
proof -
  have "0 < max (1 / 1000000) (1 - soft)" by (simp add: less_max_iff_disj)
  then show ?thesis using assms by (simp add: ramp_frac_def pos_divide_le_eq)
qed

lemma ramp_nonneg: "soft \<le> p \<Longrightarrow> 0 \<le> ramp_frac p soft"
  unfolding ramp_frac_def by (intro divide_nonneg_nonneg) (auto simp: le_max_iff_disj)

lemma throttle_mult_bounds:
  assumes "3 \<le> mm" shows "1 \<le> throttle_mult p soft mm" "throttle_mult p soft mm \<le> mm"
proof -
  have "0 \<le> (p - 1) * (mm - 3)" if "1 < p"
    using that assms by (intro mult_nonneg_nonneg) auto
  moreover have "0 \<le> ramp_frac p soft" if "soft < p"
    using that by (intro ramp_nonneg) simp
  ultimately show "1 \<le> throttle_mult p soft mm" "throttle_mult p soft mm \<le> mm"
    using assms by (auto simp: throttle_mult_def)
qed

lemma throttle_mult_mono:
  assumes "3 \<le> mm" "p \<le> q"
  shows "throttle_mult p soft mm \<le> throttle_mult q soft mm"
proof -
  consider "p \<le> soft" | "soft < p" "q \<le> 1" | "soft < p" "p \<le> 1" "1 < q" | "soft < p" "1 < p"
    by linarith
  then show ?thesis
  proof cases
    case 1
    then show ?thesis using throttle_mult_bounds [OF assms(1)] by (simp add: throttle_mult_def [of p])
  next
    case 2
    then show ?thesis using ramp_mono [OF assms(2), of soft] assms(2)
      by (auto simp: throttle_mult_def)
  next
    case 3
    have "0 \<le> (q - 1) * (mm - 3)" using 3 assms by (intro mult_nonneg_nonneg) auto
    moreover have "2 * ramp_frac p soft \<le> 2" using ramp_le_1 [of p soft] 3 by simp
    ultimately have "1 + 2 * ramp_frac p soft \<le> 3 + (q - 1) * (mm - 3)" by linarith
    then show ?thesis using 3 assms(1) by (simp add: throttle_mult_def min.coboundedI2)
  next
    case 4
    have "(p - 1) * (mm - 3) \<le> (q - 1) * (mm - 3)" using assms by (intro mult_right_mono) auto
    then show ?thesis using 4 assms by (auto simp: throttle_mult_def)
  qed
qed

text \<open>
  With a cap of at least 3 (the default is 8) and a base interval that is not negative,
  the throttled interval never falls below the base, never exceeds the base times the cap,
  and grows with the pressure.
\<close>

theorem throttle_interval_bounded_monotone:
  assumes "3 \<le> max_mult" and "0 \<le> base" and "p \<le> q"
  shows "base \<le> throttle_interval base (Some p) soft max_mult
     \<and> throttle_interval base (Some p) soft max_mult \<le> base * max_mult
     \<and> throttle_interval base (Some p) soft max_mult \<le> throttle_interval base (Some q) soft max_mult"
  using mult_left_mono [OF throttle_mult_bounds(1) [OF assms(1)] assms(2)]
    mult_left_mono [OF throttle_mult_bounds(2) [OF assms(1)] assms(2)]
    mult_left_mono [OF throttle_mult_mono [OF assms(1,3)] assms(2)]
  by (simp add: throttle_interval_mult)

theorem throttle_interval_bounded_monotone_witness:
  "(60::rat) \<le> throttle_interval 60 (Some (9/10)) (85/100) 8
     \<and> throttle_interval 60 (Some (9/10)) (85/100) 8 \<le> 60 * 8
     \<and> throttle_interval 60 (Some (9/10)) (85/100) 8 \<le> throttle_interval 60 (Some (3/2)) (85/100) 8"
  by (rule throttle_interval_bounded_monotone) simp_all

text \<open>
  Below a cap of 3 neither holds: with a cap of 2 the interval at pressure 10 is
  negative, so it is below the base and below the interval at pressure 1.
\<close>

theorem throttle_interval_small_cap_not_monotone:
  "throttle_interval 10 (Some 10) (85/100) 2 = - 60
   \<and> throttle_interval 10 (Some 1) (85/100) 2 = 20"
  by (simp add: throttle_interval_def ramp_frac_def)

end
