(* ===== verification/Disk.thy ===== *)
theory Disk
  imports PyValue
begin

text \<open>
  The agent's persistent state: the JSON files under \<open>/var/lib/pxmx\<close>, their contents as
  records, how a read sees each kind of damaged file, and how a write can fail. Every
  module that keeps such a file (\<open>usb_state_store\<close>, \<open>usb_quarantine\<close>,
  \<open>usb_resource_gate\<close>, \<open>guest_watchdog\<close>) uses the same few lines to read and write it;
  the contract those lines satisfy is the locale \<open>json_file\<close>, interpreted below for each
  file.
\<close>

section \<open>File contents\<close>

text \<open>
  What a path can hold when it is opened for reading. \<open>Garbled\<close> is text that is not JSON
  (a truncated write), or a file that cannot be opened; \<open>OtherShape\<close> is valid JSON that is
  not the container the reader expects, with its truth value. Files are assumed to be UTF-8
  text and the documents in them to have the value types the agent writes.
\<close>

datatype 'a stored = Missing | EmptyFile | Garbled | OtherShape bool | Stored 'a

text \<open>One per-VM or per-bus entry of each kind.\<close>

record reboot_entry =
  cloned_at :: rat
  reboot_at :: rat
  rb_bus :: "string option"
  rb_image :: int

record retry_entry =
  start_ts :: rat
  last_ts :: rat
  rt_bus :: "string option"
  rt_image :: int
  rt_type :: string

record gh_entry =
  gh_state :: string
  gh_cand :: "string option"
  gh_streak :: int
  gh_vmid :: int
  gh_at :: rat
  gh_ssids :: "(string \<times> int option) list option"
  gh_held :: "bool option"
  gh_unsure :: "bool option"

record health_entry =
  dh_fails :: int
  last_attempt :: rat
  dh_stage :: string
  dh_vmid :: "int option"

record hostname_fix_entry =
  hf_attempts :: int
  hf_last :: rat
  hf_expected :: string
  hf_actual :: string
  hf_stamped :: bool

record detach_entry =
  dt_n :: int
  dt_first :: rat
  dt_last :: rat

text \<open>
  The state document \<open>usb_state.json\<close> as the program holds it in memory. The first eleven
  maps always exist after a load; the last four appear when first used, so they are options.
\<close>

record usb_state =
  vmid_to_bus :: "(string, string) dict"
  bus_to_vmid :: "(string, string) dict"
  vmid_to_image :: "(string, int) dict"
  excluded_buses :: "(string, rat) dict"
  quarantined :: "(string, pyval) dict"
  missing_since :: "(string, rat) dict"
  vidpid_by_bus :: "(string, string) dict"
  post_prov_retry :: "(string, retry_entry) dict"
  post_prov_reboot :: "(string, reboot_entry) dict"
  guest_health :: "(string, gh_entry) dict"
  hostname_fix :: "(string, hostname_fix_entry) dict"
  detach_reclones :: "(string, detach_entry) dict option"
  dongle_health :: "(string, health_entry) dict option"
  detached_since :: "(string, rat) dict option"
  detach_restarted :: "(string, rat) dict option"

text \<open>
  The same document on disk: any map may be missing from it, or be something that is not an
  object.
\<close>

datatype 'a saved_map = Absent | NotADict | Saved 'a

record usb_doc =
  d_vmid_to_bus :: "(string, string) dict saved_map"
  d_bus_to_vmid :: "(string, string) dict saved_map"
  d_vmid_to_image :: "(string, int) dict saved_map"
  d_excluded_buses :: "(string, rat) dict saved_map"
  d_quarantined :: "(string, pyval) dict saved_map"
  d_missing_since :: "(string, rat) dict saved_map"
  d_vidpid_by_bus :: "(string, string) dict saved_map"
  d_post_prov_retry :: "(string, retry_entry) dict saved_map"
  d_post_prov_reboot :: "(string, reboot_entry) dict saved_map"
  d_guest_health :: "(string, gh_entry) dict saved_map"
  d_hostname_fix :: "(string, hostname_fix_entry) dict saved_map"
  d_detach_reclones :: "(string, detach_entry) dict saved_map"
  d_dongle_health :: "(string, health_entry) dict saved_map"
  d_detached_since :: "(string, rat) dict saved_map"
  d_detach_restarted :: "(string, rat) dict saved_map"

record orphan =
  or_vmid :: int
  or_bus :: string
  or_ts :: int

record quarantine_entry =
  q_fails :: int
  q_since :: int
  q_reason :: string
  q_strikes :: int
  q_permanent :: bool
  q_first_strike :: int
  q_last_strike :: int

record resource_cache =
  rc_cpu :: "(rat \<times> rat) list"
  rc_mem :: "(rat \<times> rat) list"
  rc_started :: rat

record watch_entry =
  last_ok :: "rat option"
  silent_since :: "rat option"
  ping_error_streak :: "int option"
  last_ping_error :: "string option"
  last_ping_error_ts :: "rat option"
  last_action :: "string option"
  last_action_ts :: "rat option"
  wd_actions :: "int option"

section \<open>The directory and the ways a write ends\<close>

text \<open>
  The next writes end as the fault plan says: normally, by failing to open the file (nothing
  changes), or torn after the file was truncated, leaving it empty or with a JSON prefix. An
  exhausted plan means no more faults.
\<close>

datatype fault = WriteOk | OpenFails | TornEmpty | TornPartial

record disk =
  usb_file :: "usb_doc stored"
  orphan_file :: "orphan list stored"
  quarantine_file :: "(string, quarantine_entry) dict stored"
  destroy_fails_file :: "(string, int) dict stored"
  delete_gate_file :: "rat stored"
  resource_cache_file :: "resource_cache stored"
  vmid_audit_file :: "rat stored"
  guest_watchdog_file :: "(string, watch_entry) dict stored"
  reset_log_file :: "(string, rat list) dict stored"
  faults :: "fault list"

definition empty_disk :: disk where
  "empty_disk = \<lparr>usb_file = Missing, orphan_file = Missing, quarantine_file = Missing,
     destroy_fails_file = Missing, delete_gate_file = Missing, resource_cache_file = Missing,
     vmid_audit_file = Missing, guest_watchdog_file = Missing, reset_log_file = Missing, faults = []\<rparr>"

fun next_fault :: "fault list \<Rightarrow> fault \<times> fault list" where
  "next_fault [] = (WriteOk, [])"
| "next_fault (f # fs) = (f, fs)"

text \<open>\<open>with open(path, "w") as f: json.dump(x, f)\<close> under \<open>except OSError\<close>.\<close>

definition write_plain :: "('a stored \<Rightarrow> disk \<Rightarrow> disk) \<Rightarrow> 'a \<Rightarrow> disk \<Rightarrow> disk" where
  "write_plain put x d =
     (case next_fault (faults d) of
        (WriteOk, fs) \<Rightarrow> put (Stored x) (d\<lparr>faults := fs\<rparr>)
      | (OpenFails, fs) \<Rightarrow> d\<lparr>faults := fs\<rparr>
      | (TornEmpty, fs) \<Rightarrow> put EmptyFile (d\<lparr>faults := fs\<rparr>)
      | (TornPartial, fs) \<Rightarrow> put Garbled (d\<lparr>faults := fs\<rparr>))"

text \<open>The same through a temporary file and \<open>os.replace\<close>: all or nothing.\<close>

definition write_atomic :: "('a stored \<Rightarrow> disk \<Rightarrow> disk) \<Rightarrow> 'a \<Rightarrow> disk \<Rightarrow> disk" where
  "write_atomic put x d =
     (case next_fault (faults d) of
        (WriteOk, fs) \<Rightarrow> put (Stored x) (d\<lparr>faults := fs\<rparr>)
      | (_, fs) \<Rightarrow> d\<lparr>faults := fs\<rparr>)"

text \<open>Reading with a fallback for everything that is not the expected document.\<close>

definition read_or :: "'a \<Rightarrow> 'a stored \<Rightarrow> 'a" where
  "read_or dflt s = (case s of Stored x \<Rightarrow> x | _ \<Rightarrow> dflt)"

lemma read_or_simps [simp]:
  "read_or a (Stored x) = x" "read_or a Missing = a" "read_or a EmptyFile = a"
  "read_or a Garbled = a" "read_or a (OtherShape b) = a"
  by (simp_all add: read_or_def)

lemma no_faults_update [simp]: "faults d = [] \<Longrightarrow> d\<lparr>faults := []\<rparr> = d"
  by (cases d) simp

section \<open>The contract of a JSON file\<close>

locale json_file =
  fixes get :: "disk \<Rightarrow> 'a stored"
    and put :: "'a stored \<Rightarrow> disk \<Rightarrow> disk"
  assumes get_put: "get (put s d) = s"
    and put_put: "put s (put t d) = put s d"
    and put_get: "put (get d) d = d"
    and get_faults: "get (d\<lparr>faults := fs\<rparr>) = get d"
    and faults_put: "faults (put s d) = faults d"
begin

lemma plain_ok: "faults d = [] \<Longrightarrow> get (write_plain put x d) = Stored x"
  by (simp add: write_plain_def get_put)

lemma plain_cases:
  "get (write_plain put x d) \<in> {Stored x, get d, EmptyFile, Garbled}"
  by (auto simp: write_plain_def get_put get_faults split: prod.splits fault.splits)

lemma plain_faults: "faults d = [] \<Longrightarrow> faults (write_plain put x d) = []"
  by (simp add: write_plain_def faults_put)

lemma plain_overwrites:
  "faults d = [] \<Longrightarrow> write_plain put y (write_plain put x d) = write_plain put y d"
  by (simp add: write_plain_def faults_put put_put)

lemma plain_idle: "get d = Stored x \<Longrightarrow> faults d = [] \<Longrightarrow> write_plain put x d = d"
  using put_get [of d] by (simp add: write_plain_def)

lemma atomic_ok: "faults d = [] \<Longrightarrow> get (write_atomic put x d) = Stored x"
  by (simp add: write_atomic_def get_put)

lemma atomic_cases: "get (write_atomic put x d) = Stored x \<or> get (write_atomic put x d) = get d"
  by (auto simp: write_atomic_def get_put get_faults split: prod.splits fault.splits)

lemma atomic_faults: "faults d = [] \<Longrightarrow> faults (write_atomic put x d) = []"
  by (simp add: write_atomic_def faults_put)

end

abbreviation put_usb :: "usb_doc stored \<Rightarrow> disk \<Rightarrow> disk" where
  "put_usb s d \<equiv> d\<lparr>usb_file := s\<rparr>"

abbreviation put_orphans :: "orphan list stored \<Rightarrow> disk \<Rightarrow> disk" where
  "put_orphans s d \<equiv> d\<lparr>orphan_file := s\<rparr>"

abbreviation put_quarantine :: "(string, quarantine_entry) dict stored \<Rightarrow> disk \<Rightarrow> disk" where
  "put_quarantine s d \<equiv> d\<lparr>quarantine_file := s\<rparr>"

abbreviation put_fails :: "(string, int) dict stored \<Rightarrow> disk \<Rightarrow> disk" where
  "put_fails s d \<equiv> d\<lparr>destroy_fails_file := s\<rparr>"

abbreviation put_gate :: "rat stored \<Rightarrow> disk \<Rightarrow> disk" where
  "put_gate s d \<equiv> d\<lparr>delete_gate_file := s\<rparr>"

abbreviation put_cache :: "resource_cache stored \<Rightarrow> disk \<Rightarrow> disk" where
  "put_cache s d \<equiv> d\<lparr>resource_cache_file := s\<rparr>"

abbreviation put_audit :: "rat stored \<Rightarrow> disk \<Rightarrow> disk" where
  "put_audit s d \<equiv> d\<lparr>vmid_audit_file := s\<rparr>"

abbreviation put_watchdog :: "(string, watch_entry) dict stored \<Rightarrow> disk \<Rightarrow> disk" where
  "put_watchdog s d \<equiv> d\<lparr>guest_watchdog_file := s\<rparr>"

abbreviation put_resets :: "(string, rat list) dict stored \<Rightarrow> disk \<Rightarrow> disk" where
  "put_resets s d \<equiv> d\<lparr>reset_log_file := s\<rparr>"

interpretation usbf: json_file usb_file put_usb
  by unfold_locales simp_all

interpretation orphf: json_file orphan_file put_orphans
  by unfold_locales simp_all

interpretation quarf: json_file quarantine_file put_quarantine
  by unfold_locales simp_all

interpretation failf: json_file destroy_fails_file put_fails
  by unfold_locales simp_all

interpretation gatef: json_file delete_gate_file put_gate
  by unfold_locales simp_all

interpretation cachef: json_file resource_cache_file put_cache
  by unfold_locales simp_all

interpretation auditf: json_file vmid_audit_file put_audit
  by unfold_locales simp_all

interpretation watchf: json_file guest_watchdog_file put_watchdog
  by unfold_locales simp_all

interpretation resetf: json_file reset_log_file put_resets
  by unfold_locales simp_all

section \<open>Writes leave the other files alone\<close>

lemma usb_write_frame [simp, disk_simps]:
  "orphan_file (write_plain put_usb x d) = orphan_file d"
  "quarantine_file (write_plain put_usb x d) = quarantine_file d"
  "destroy_fails_file (write_plain put_usb x d) = destroy_fails_file d"
  "delete_gate_file (write_plain put_usb x d) = delete_gate_file d"
  "guest_watchdog_file (write_plain put_usb x d) = guest_watchdog_file d"
  by (simp_all add: write_plain_def split: prod.splits fault.splits)

lemma orphan_write_frame [simp, disk_simps]:
  "usb_file (write_plain put_orphans y d) = usb_file d"
  "quarantine_file (write_plain put_orphans y d) = quarantine_file d"
  "destroy_fails_file (write_plain put_orphans y d) = destroy_fails_file d"
  "delete_gate_file (write_plain put_orphans y d) = delete_gate_file d"
  "guest_watchdog_file (write_plain put_orphans y d) = guest_watchdog_file d"
  by (simp_all add: write_plain_def split: prod.splits fault.splits)

lemma quarantine_write_frame [simp, disk_simps]:
  "usb_file (write_plain put_quarantine z d) = usb_file d"
  "orphan_file (write_plain put_quarantine z d) = orphan_file d"
  "destroy_fails_file (write_plain put_quarantine z d) = destroy_fails_file d"
  "delete_gate_file (write_plain put_quarantine z d) = delete_gate_file d"
  by (simp_all add: write_plain_def split: prod.splits fault.splits)

lemma fails_write_frame [simp, disk_simps]:
  "usb_file (write_plain put_fails w d) = usb_file d"
  "orphan_file (write_plain put_fails w d) = orphan_file d"
  "quarantine_file (write_plain put_fails w d) = quarantine_file d"
  "delete_gate_file (write_plain put_fails w d) = delete_gate_file d"
  "guest_watchdog_file (write_plain put_fails w d) = guest_watchdog_file d"
  by (simp_all add: write_plain_def split: prod.splits fault.splits)

lemma gate_write_frame [simp, disk_simps]:
  "usb_file (write_plain put_gate v d) = usb_file d"
  "orphan_file (write_plain put_gate v d) = orphan_file d"
  "quarantine_file (write_plain put_gate v d) = quarantine_file d"
  "destroy_fails_file (write_plain put_gate v d) = destroy_fails_file d"
  by (simp_all add: write_plain_def split: prod.splits fault.splits)

lemmas plain_ok = usbf.plain_ok orphf.plain_ok quarf.plain_ok failf.plain_ok gatef.plain_ok
lemmas plain_faults = usbf.plain_faults orphf.plain_faults quarf.plain_faults
  failf.plain_faults gatef.plain_faults

declare plain_ok [simp] and plain_faults [simp]

end
