(* ===== verification/UsbStore.thy ===== *)
theory UsbStore
  imports Disk
begin

text \<open>
  \<open>agent/src/usb_state_store.py\<close>: the VM/bus bookkeeping in \<open>usb_state.json\<close> and the
  orphan registry \<open>orphan_vms.json\<close>. Every operation loads the document, edits it and saves
  it back; the edits are separate functions on \<open>usb_state\<close> so that the laws of the two maps
  can be stated without the file. Pruning of vanished VMs, which also edits the destroy-fail
  counters, is in \<open>Ghosts\<close>.
\<close>

section \<open>Orphan registry\<close>

definition read_orphans :: "disk \<Rightarrow> orphan list" where
  "read_orphans d = read_or [] (orphan_file d)"

definition write_orphans :: "orphan list \<Rightarrow> disk \<Rightarrow> disk" where
  "write_orphans entries d = write_plain put_orphans entries d"

text \<open>The result of \<open>add_orphan_vm\<close> is the VMID, the bus and the flag \<open>orphaned\<close>.\<close>

definition add_orphan_vm :: "int \<Rightarrow> string \<Rightarrow> rat \<Rightarrow> disk \<Rightarrow> (int \<times> string \<times> bool) \<times> disk" where
  "add_orphan_vm vmid bus now d =
     (let entries = filter (\<lambda>e. or_vmid e \<noteq> vmid) (read_orphans d);
          entry = \<lparr>or_vmid = vmid, or_bus = bus, or_ts = trunc now\<rparr>
      in ((vmid, bus, True), write_orphans (entries @ [entry]) d))"

definition remove_orphan_vm :: "int \<Rightarrow> disk \<Rightarrow> disk" where
  "remove_orphan_vm vmid d = write_orphans (filter (\<lambda>e. or_vmid e \<noteq> vmid) (read_orphans d)) d"

definition get_orphan_vms :: "disk \<Rightarrow> orphan list" where
  "get_orphan_vms d = read_orphans d"

section \<open>The state document\<close>

definition new_usb_state :: usb_state where
  "new_usb_state = \<lparr>vmid_to_bus = [], bus_to_vmid = [], vmid_to_image = [], excluded_buses = [],
     quarantined = [], missing_since = [], vidpid_by_bus = [], post_prov_retry = [],
     post_prov_reboot = [], guest_health = [], hostname_fix = [], detach_reclones = None,
     dongle_health = None, detached_since = None, detach_restarted = None\<rparr>"

fun always_map :: "('k, 'v) dict saved_map \<Rightarrow> ('k, 'v) dict" where
  "always_map Absent = []"
| "always_map NotADict = []"
| "always_map (Saved m) = m"

fun optional_map :: "('k, 'v) dict saved_map \<Rightarrow> ('k, 'v) dict option" where
  "optional_map Absent = None"
| "optional_map NotADict = Some []"
| "optional_map (Saved m) = Some m"

definition of_doc :: "usb_doc \<Rightarrow> usb_state" where
  "of_doc doc = \<lparr>
     vmid_to_bus = always_map (d_vmid_to_bus doc), bus_to_vmid = always_map (d_bus_to_vmid doc),
     vmid_to_image = always_map (d_vmid_to_image doc),
     excluded_buses = always_map (d_excluded_buses doc),
     quarantined = always_map (d_quarantined doc), missing_since = always_map (d_missing_since doc),
     vidpid_by_bus = always_map (d_vidpid_by_bus doc),
     post_prov_retry = always_map (d_post_prov_retry doc),
     post_prov_reboot = always_map (d_post_prov_reboot doc),
     guest_health = always_map (d_guest_health doc), hostname_fix = always_map (d_hostname_fix doc),
     detach_reclones = optional_map (d_detach_reclones doc),
     dongle_health = optional_map (d_dongle_health doc),
     detached_since = optional_map (d_detached_since doc),
     detach_restarted = optional_map (d_detach_restarted doc)\<rparr>"

fun saved_option :: "('k, 'v) dict option \<Rightarrow> ('k, 'v) dict saved_map" where
  "saved_option None = Absent"
| "saved_option (Some m) = Saved m"

definition to_doc :: "usb_state \<Rightarrow> usb_doc" where
  "to_doc st = \<lparr>
     d_vmid_to_bus = Saved (vmid_to_bus st), d_bus_to_vmid = Saved (bus_to_vmid st),
     d_vmid_to_image = Saved (vmid_to_image st), d_excluded_buses = Saved (excluded_buses st),
     d_quarantined = Saved (quarantined st), d_missing_since = Saved (missing_since st),
     d_vidpid_by_bus = Saved (vidpid_by_bus st), d_post_prov_retry = Saved (post_prov_retry st),
     d_post_prov_reboot = Saved (post_prov_reboot st), d_guest_health = Saved (guest_health st),
     d_hostname_fix = Saved (hostname_fix st),
     d_detach_reclones = saved_option (detach_reclones st),
     d_dongle_health = saved_option (dongle_health st),
     d_detached_since = saved_option (detached_since st),
     d_detach_restarted = saved_option (detach_restarted st)\<rparr>"

definition load_usb_state :: "disk \<Rightarrow> usb_state" where
  "load_usb_state d = (case usb_file d of Stored doc \<Rightarrow> of_doc doc | _ \<Rightarrow> new_usb_state)"

definition save_usb_state :: "usb_state \<Rightarrow> disk \<Rightarrow> disk" where
  "save_usb_state st d = write_plain put_usb (to_doc st) d"

lemma optional_saved_option [simp]: "optional_map (saved_option m) = m"
  by (cases m) simp_all

lemma of_doc_to_doc [simp]: "of_doc (to_doc st) = st"
  by (cases st) (simp add: of_doc_def to_doc_def)

lemma load_save [simp, disk_simps]: "faults d = [] \<Longrightarrow> load_usb_state (save_usb_state st d) = st"
  by (simp add: load_usb_state_def save_usb_state_def)

lemma save_faults [simp]: "faults d = [] \<Longrightarrow> faults (save_usb_state st d) = []"
  by (simp add: save_usb_state_def)

lemma save_usb_frame [simp, disk_simps]:
  "orphan_file (save_usb_state st d) = orphan_file d"
  "quarantine_file (save_usb_state st d) = quarantine_file d"
  "destroy_fails_file (save_usb_state st d) = destroy_fails_file d"
  "delete_gate_file (save_usb_state st d) = delete_gate_file d"
  "guest_watchdog_file (save_usb_state st d) = guest_watchdog_file d"
  by (simp_all add: save_usb_state_def)

lemma write_orphans_frame [simp, disk_simps]:
  "load_usb_state (write_orphans es d) = load_usb_state d"
  "quarantine_file (write_orphans es d) = quarantine_file d"
  "destroy_fails_file (write_orphans es d) = destroy_fails_file d"
  "delete_gate_file (write_orphans es d) = delete_gate_file d"
  "guest_watchdog_file (write_orphans es d) = guest_watchdog_file d"
  by (simp_all add: write_orphans_def load_usb_state_def)

lemma write_orphans_faults [simp]: "faults d = [] \<Longrightarrow> faults (write_orphans es d) = []"
  by (simp add: write_orphans_def)

lemma read_write_orphans [simp, disk_simps]: "faults d = [] \<Longrightarrow> read_orphans (write_orphans es d) = es"
  by (simp add: read_orphans_def write_orphans_def)

lemma load_cong: "usb_file d = usb_file d' \<Longrightarrow> load_usb_state d = load_usb_state d'"
  by (simp add: load_usb_state_def)

section \<open>Assignments\<close>

text \<open>\<open>x or y\<close> on two optional strings, and \<open>if s:\<close> on one.\<close>

fun or_str :: "string option \<Rightarrow> string option \<Rightarrow> string option" where
  "or_str None y = y"
| "or_str (Some s) y = (if s = [] then y else Some s)"

fun str_set :: "string option \<Rightarrow> bool" where
  "str_set None = False"
| "str_set (Some s) = (s \<noteq> [])"

definition clear_assignment_st :: "int \<Rightarrow> string option \<Rightarrow> usb_state \<Rightarrow> usb_state" where
  "clear_assignment_st vmid bus st =
     (let v = str_int vmid;
          b = or_str (dget (vmid_to_bus st) v) bus;
          st1 = st\<lparr>vmid_to_bus := dpop v (vmid_to_bus st)\<rparr>;
          st2 = (case b of
                   None \<Rightarrow> st1
                 | Some bus' \<Rightarrow>
                     if bus' = [] then st1
                     else st1\<lparr>bus_to_vmid := dpop bus' (bus_to_vmid st1),
                              missing_since := dpop bus' (missing_since st1),
                              guest_health := dpop bus' (guest_health st1)\<rparr>)
      in st2\<lparr>vmid_to_image := dpop v (vmid_to_image st2),
             post_prov_reboot := dpop v (post_prov_reboot st2),
             hostname_fix := dpop v (hostname_fix st2)\<rparr>)"

definition clear_assignment :: "int \<Rightarrow> string option \<Rightarrow> disk \<Rightarrow> disk" where
  "clear_assignment vmid bus d = save_usb_state (clear_assignment_st vmid bus (load_usb_state d)) d"

text \<open>
  \<open>isinstance(st.get(m), dict) and st[m].pop(bus, None) is not None\<close> for the three recovery
  maps; the file is rewritten only when one of them had the bus.
\<close>

fun ohas :: "('k, 'v) dict option \<Rightarrow> 'k \<Rightarrow> bool" where
  "ohas None k = False"
| "ohas (Some d) k = dhas d k"

definition clear_recovery_state_st :: "string \<Rightarrow> usb_state \<Rightarrow> bool \<times> usb_state" where
  "clear_recovery_state_st bus st =
     (let changed = (ohas (detach_reclones st) bus \<or> ohas (dongle_health st) bus
                     \<or> dhas (guest_health st) bus)
      in (changed, st\<lparr>detach_reclones := map_option (dpop bus) (detach_reclones st),
                      dongle_health := map_option (dpop bus) (dongle_health st),
                      guest_health := dpop bus (guest_health st)\<rparr>))"

definition clear_recovery_state :: "string option \<Rightarrow> disk \<Rightarrow> disk" where
  "clear_recovery_state bus d =
     (case bus of
        None \<Rightarrow> d
      | Some b \<Rightarrow>
          if b = [] then d
          else (case clear_recovery_state_st b (load_usb_state d) of
                  (changed, st) \<Rightarrow> if changed then save_usb_state st d else d))"

definition POST_PROV_REBOOT_DELAY_S :: rat where
  "POST_PROV_REBOOT_DELAY_S = 900"

definition stamp_post_prov_reboot ::
    "int \<Rightarrow> string option \<Rightarrow> int \<Rightarrow> rat \<Rightarrow> usb_state \<Rightarrow> usb_state" where
  "stamp_post_prov_reboot vmid bus image_num now st =
     st\<lparr>post_prov_reboot := dset (str_int vmid)
          \<lparr>cloned_at = now, reboot_at = now + POST_PROV_REBOOT_DELAY_S, rb_bus = bus,
           rb_image = image_num\<rparr> (post_prov_reboot st)\<rparr>"

definition set_assignment_st :: "int \<Rightarrow> string \<Rightarrow> int \<Rightarrow> rat \<Rightarrow> usb_state \<Rightarrow> usb_state" where
  "set_assignment_st vmid bus image_num now st =
     (let v = str_int vmid;
          st1 = (case dget (vmid_to_bus st) v of
                   Some old_bus \<Rightarrow>
                     if old_bus \<noteq> [] \<and> old_bus \<noteq> bus
                     then st\<lparr>bus_to_vmid := dpop old_bus (bus_to_vmid st),
                             missing_since := dpop old_bus (missing_since st),
                             vidpid_by_bus := dpop old_bus (vidpid_by_bus st)\<rparr>
                     else st
                 | None \<Rightarrow> st);
          st2 = (case dget (bus_to_vmid st1) bus of
                   Some prev_vmid \<Rightarrow>
                     if prev_vmid \<noteq> v
                     then st1\<lparr>vmid_to_bus := dpop prev_vmid (vmid_to_bus st1),
                              vmid_to_image := dpop prev_vmid (vmid_to_image st1)\<rparr>
                     else st1
                 | None \<Rightarrow> st1);
          st3 = st2\<lparr>vmid_to_bus := dset v bus (vmid_to_bus st2),
                    bus_to_vmid := dset bus v (bus_to_vmid st2),
                    vmid_to_image := dset v image_num (vmid_to_image st2),
                    missing_since := dpop bus (missing_since st2)\<rparr>
      in stamp_post_prov_reboot vmid (Some bus) image_num now st3)"

definition set_assignment :: "int \<Rightarrow> string \<Rightarrow> int \<Rightarrow> rat \<Rightarrow> disk \<Rightarrow> disk" where
  "set_assignment vmid bus image_num now d =
     save_usb_state (set_assignment_st vmid bus image_num now (load_usb_state d)) d"

definition bus_for_vmid :: "int \<Rightarrow> disk \<Rightarrow> string option" where
  "bus_for_vmid vmid d = dget (vmid_to_bus (load_usb_state d)) (str_int vmid)"

section \<open>Repairing the reverse map\<close>

text \<open>\<open>buses_by_vmid.setdefault(str(vmid), []).append(bus)\<close> over the reverse map.\<close>

definition add_bus :: "string \<times> string \<Rightarrow> (string, string list) dict \<Rightarrow> (string, string list) dict" where
  "add_bus p g = (case p of (bus, vmid) \<Rightarrow>
     dset vmid ((case dget g vmid of None \<Rightarrow> [] | Some bs \<Rightarrow> bs) @ [bus]) g)"

definition group_buses :: "(string, string) dict \<Rightarrow> (string, string list) dict" where
  "group_buses b2v = fold add_bus b2v []"

text \<open>The bus a VM keeps: the one its forward entry names if it is a candidate, else the newest.\<close>

definition kept_bus :: "(string, string) dict \<Rightarrow> string \<Rightarrow> string list \<Rightarrow> string" where
  "kept_bus v2b vmid buses =
     (case dget v2b vmid of Some b \<Rightarrow> if b \<in> set buses then b else last buses | None \<Rightarrow> last buses)"

definition duplicate_buses :: "(string, string) dict \<Rightarrow> string \<Rightarrow> string list \<Rightarrow> string list" where
  "duplicate_buses v2b vmid buses = filter (\<lambda>b. b \<noteq> kept_bus v2b vmid buses) buses"

text \<open>Drop a VM's other buses with their records, then point the forward map at the kept one.\<close>

definition keep_one_bus :: "string \<Rightarrow> string list \<Rightarrow> usb_state \<Rightarrow> usb_state" where
  "keep_one_bus vmid buses st =
     (let keep = kept_bus (vmid_to_bus st) vmid buses;
          dups = duplicate_buses (vmid_to_bus st) vmid buses;
          st1 = st\<lparr>bus_to_vmid := dpops dups (bus_to_vmid st),
                   missing_since := dpops dups (missing_since st),
                   vidpid_by_bus := dpops dups (vidpid_by_bus st)\<rparr>
      in if dget (vmid_to_bus st1) vmid \<noteq> Some keep
         then st1\<lparr>vmid_to_bus := dset vmid keep (vmid_to_bus st1)\<rparr> else st1)"

text \<open>
  One VM's list of buses: repair the forward map if there is exactly one bus, else keep one
  and drop the others. The accumulator holds the state, the VMIDs whose duplicates were
  dropped (one entry per dropped bus) and whether anything changed.
\<close>

definition reconcile_vm ::
    "string \<times> string list \<Rightarrow> usb_state \<times> int list \<times> bool \<Rightarrow> (usb_state \<times> int list \<times> bool) result" where
  "reconcile_vm e acc =
     (case e of (vmid, buses) \<Rightarrow> case acc of (st, pruned, changed) \<Rightarrow>
        if length buses = 1 then
          (if dget (vmid_to_bus st) vmid \<noteq> Some (hd buses)
           then Inr (st\<lparr>vmid_to_bus := dset vmid (hd buses) (vmid_to_bus st)\<rparr>, pruned, True)
           else Inr acc)
        else
          (let dups = duplicate_buses (vmid_to_bus st) vmid buses;
               changed' = (changed \<or> dups \<noteq> []
                           \<or> dget (vmid_to_bus st) vmid \<noteq> Some (kept_bus (vmid_to_bus st) vmid buses))
           in if dups \<noteq> [] \<and> looks_numeric vmid then
                (case parse_int vmid of
                   None \<Rightarrow> Inl ValueError
                 | Some i \<Rightarrow> Inr (keep_one_bus vmid buses st, pruned @ replicate (length dups) i, changed'))
              else Inr (keep_one_bus vmid buses st, pruned, changed')))"

fun reconcile_all ::
    "(string \<times> string list) list \<Rightarrow> usb_state \<times> int list \<times> bool \<Rightarrow> (usb_state \<times> int list \<times> bool) result" where
  "reconcile_all [] acc = Inr acc"
| "reconcile_all (e # es) acc =
     (case reconcile_vm e acc of Inl x \<Rightarrow> Inl x | Inr acc' \<Rightarrow> reconcile_all es acc')"

definition reconcile_bus_map :: "disk \<Rightarrow> int list result \<times> disk" where
  "reconcile_bus_map d =
     (let st = load_usb_state d in
      case reconcile_all (group_buses (bus_to_vmid st)) (st, [], False) of
        Inl e \<Rightarrow> (Inl e, d)
      | Inr (st', pruned, changed) \<Rightarrow>
          (Inr (sort (remdups pruned)), if changed then save_usb_state st' d else d))"

section \<open>The two maps are inverse to each other\<close>

definition paired :: "usb_state \<Rightarrow> bool" where
  "paired st \<longleftrightarrow> wfd (vmid_to_bus st) \<and> wfd (bus_to_vmid st)
     \<and> (\<forall>p \<in> set (vmid_to_bus st). dget (bus_to_vmid st) (snd p) = Some (fst p) \<and> snd p \<noteq> [])
     \<and> (\<forall>p \<in> set (bus_to_vmid st). dget (vmid_to_bus st) (snd p) = Some (fst p))"

lemma pairedI:
  assumes "wfd (vmid_to_bus st)" "wfd (bus_to_vmid st)" "dget (bus_to_vmid st) [] = None"
    "\<And>v b. dget (vmid_to_bus st) v = Some b \<longleftrightarrow> dget (bus_to_vmid st) b = Some v"
  shows "paired st"
  using assms by (auto simp: paired_def dget_in_set [symmetric])

lemma paired_iff: "paired st \<Longrightarrow> dget (vmid_to_bus st) v = Some b \<longleftrightarrow> dget (bus_to_vmid st) b = Some v"
  by (fastforce simp: paired_def dget_in_set [symmetric])

lemma paired_no_empty: "paired st \<Longrightarrow> dget (bus_to_vmid st) [] = None"
  by (rule ccontr) (force simp: paired_iff [symmetric] paired_def dest!: map_of_SomeD)

lemma paired_wfd: "paired st \<Longrightarrow> wfd (vmid_to_bus st) \<and> wfd (bus_to_vmid st)"
  by (simp add: paired_def)

lemma paired_empty_bus: "paired st \<Longrightarrow> dget (vmid_to_bus st) v \<noteq> Some []"
  using paired_iff [of st v "[]"] paired_no_empty [of st] by auto

lemma paired_new [simp]: "paired new_usb_state"
  by (simp add: paired_def new_usb_state_def)

lemma paired_clear_assignment:
  assumes "paired st"
    and "\<And>b. dget (vmid_to_bus st) (str_int vmid) = None \<Longrightarrow> bus = Some b \<Longrightarrow> b \<noteq> []
           \<Longrightarrow> dget (bus_to_vmid st) b = None"
  shows "paired (clear_assignment_st vmid bus st)"
proof (rule pairedI)
  let ?v = "str_int vmid"
  note iff = paired_iff [OF assms(1)]
  show "wfd (vmid_to_bus (clear_assignment_st vmid bus st))"
    "wfd (bus_to_vmid (clear_assignment_st vmid bus st))"
    using paired_wfd [OF assms(1)] by (auto simp: clear_assignment_st_def Let_def split: option.splits)
  show "dget (bus_to_vmid (clear_assignment_st vmid bus st)) [] = None"
    using paired_no_empty [OF assms(1)] by (auto simp: clear_assignment_st_def Let_def split: option.splits)
  fix v b
  show "(dget (vmid_to_bus (clear_assignment_st vmid bus st)) v = Some b) =
        (dget (bus_to_vmid (clear_assignment_st vmid bus st)) b = Some v)"
  proof (cases "dget (vmid_to_bus st) ?v")
    case None
    then have "dget (bus_to_vmid (clear_assignment_st vmid bus st)) = dget (bus_to_vmid st)"
      using assms(2) by (auto simp: clear_assignment_st_def Let_def split: option.splits)
    moreover have "dget (vmid_to_bus (clear_assignment_st vmid bus st)) = dget (vmid_to_bus st)"
      using None by (auto simp: clear_assignment_st_def Let_def split: option.splits)
    ultimately show ?thesis by (simp add: iff)
  next
    case (Some b0)
    then have "b0 \<noteq> []" using paired_empty_bus [OF assms(1)] by auto
    with Some have "dget (bus_to_vmid (clear_assignment_st vmid bus st)) = (dget (bus_to_vmid st))(b0 := None)"
      and "dget (vmid_to_bus (clear_assignment_st vmid bus st)) = (dget (vmid_to_bus st))(?v := None)"
      by (auto simp: clear_assignment_st_def Let_def)
    then show ?thesis using Some iff by (auto split: if_splits) (metis option.inject)
  qed
qed

text \<open>The reverse map once the VM's previous bus has been released.\<close>

definition released :: "usb_state \<Rightarrow> string \<Rightarrow> string \<Rightarrow> (string, string) dict" where
  "released st v bus =
     (case dget (vmid_to_bus st) v of
        Some old \<Rightarrow> if old \<noteq> [] \<and> old \<noteq> bus then dpop old (bus_to_vmid st) else bus_to_vmid st
      | None \<Rightarrow> bus_to_vmid st)"

lemma set_assignment_maps:
  "vmid_to_bus (set_assignment_st vmid bus img now st) =
     dset (str_int vmid) bus
       (case dget (released st (str_int vmid) bus) bus of
          Some prev \<Rightarrow> if prev \<noteq> str_int vmid then dpop prev (vmid_to_bus st) else vmid_to_bus st
        | None \<Rightarrow> vmid_to_bus st)"
  "bus_to_vmid (set_assignment_st vmid bus img now st) =
     dset bus (str_int vmid) (released st (str_int vmid) bus)"
  by (auto simp: set_assignment_st_def released_def Let_def stamp_post_prov_reboot_def
      split: option.splits)

lemma wfd_released: "wfd (bus_to_vmid st) \<Longrightarrow> wfd (released st v bus)"
  by (auto simp: released_def split: option.splits)

lemma paired_set_assignment:
  assumes "paired st" and "bus \<noteq> []"
  shows "paired (set_assignment_st vmid bus img now st)"
proof (rule pairedI)
  note iff = paired_iff [OF assms(1)]
  show "wfd (vmid_to_bus (set_assignment_st vmid bus img now st))"
    "wfd (bus_to_vmid (set_assignment_st vmid bus img now st))"
    using paired_wfd [OF assms(1)]
    by (auto simp: set_assignment_maps wfd_released split: option.splits)
  show "dget (bus_to_vmid (set_assignment_st vmid bus img now st)) [] = None"
    using paired_no_empty [OF assms(1)] assms(2)
    by (auto simp: set_assignment_maps released_def split: option.splits)
  fix v b
  show "(dget (vmid_to_bus (set_assignment_st vmid bus img now st)) v = Some b) =
        (dget (bus_to_vmid (set_assignment_st vmid bus img now st)) b = Some v)"
    using iff [of v b] iff [of "str_int vmid"] iff [of v bus] iff [of _ bus]
      paired_empty_bus [OF assms(1)]
    by (auto simp: set_assignment_maps released_def split: option.splits if_splits)
       (metis option.inject)+
qed

section \<open>What the repair does\<close>

lemma kept_bus_in: "buses \<noteq> [] \<Longrightarrow> kept_bus v2b vmid buses \<in> set buses"
  by (auto simp: kept_bus_def split: option.splits)

lemma kept_bus_cong: "dget v2b vmid = dget v2b' vmid \<Longrightarrow> kept_bus v2b vmid bs = kept_bus v2b' vmid bs"
  by (simp add: kept_bus_def)

lemma kept_bus_single [simp]: "kept_bus v2b vmid [b] = b"
  by (auto simp: kept_bus_def split: option.splits)

lemma keep_one_bus_maps:
  "bus_to_vmid (keep_one_bus vmid buses st) =
     dpops (duplicate_buses (vmid_to_bus st) vmid buses) (bus_to_vmid st)"
  "dget (vmid_to_bus (keep_one_bus vmid buses st)) =
     (dget (vmid_to_bus st))(vmid \<mapsto> kept_bus (vmid_to_bus st) vmid buses)"
  by (auto simp: keep_one_bus_def Let_def map_upd_triv)

lemma keep_one_bus_idle:
  "duplicate_buses (vmid_to_bus st) vmid buses = [] \<Longrightarrow>
   dget (vmid_to_bus st) vmid = Some (kept_bus (vmid_to_bus st) vmid buses) \<Longrightarrow>
   keep_one_bus vmid buses st = st"
  by (simp add: keep_one_bus_def Let_def)

text \<open>Every step has the effect of \<open>keep_one_bus\<close>, the single-bus repair included.\<close>

lemma reconcile_vm_Inr:
  assumes "reconcile_vm (vmid, buses) (st, pr, ch) = Inr (st', pr', ch')" and "buses \<noteq> []"
  shows "st' = keep_one_bus vmid buses st \<and> (\<not> ch' \<longrightarrow> st' = st \<and> \<not> ch)"
proof (cases "length buses = 1")
  case True
  then obtain b where b: "buses = [b]" by (cases buses) auto
  have "keep_one_bus vmid [b] st =
      (if dget (vmid_to_bus st) vmid \<noteq> Some b then st\<lparr>vmid_to_bus := dset vmid b (vmid_to_bus st)\<rparr> else st)"
    by (simp add: keep_one_bus_def duplicate_buses_def Let_def)
  with assms(1) show ?thesis by (auto simp: b reconcile_vm_def split: if_splits)
next
  case False
  with assms(1) have "st' = keep_one_bus vmid buses st"
    and "ch' = (ch \<or> duplicate_buses (vmid_to_bus st) vmid buses \<noteq> []
            \<or> dget (vmid_to_bus st) vmid \<noteq> Some (kept_bus (vmid_to_bus st) vmid buses))"
    by (auto simp: reconcile_vm_def Let_def split: if_splits option.splits)
  then show ?thesis by (auto simp: keep_one_bus_idle)
qed

lemma reconcile_all_Cons:
  assumes "reconcile_all (e # es) acc = Inr r"
  obtains acc' where "reconcile_vm e acc = Inr acc'" "reconcile_all es acc' = Inr r"
  using assms by (auto split: sum.splits)

text \<open>The fold of the state change alone.\<close>

fun keep_all :: "(string \<times> string list) list \<Rightarrow> usb_state \<Rightarrow> usb_state" where
  "keep_all [] st = st"
| "keep_all (e # es) st = keep_all es (keep_one_bus (fst e) (snd e) st)"

lemma reconcile_all_Inr:
  assumes "reconcile_all es (st, pr, ch) = Inr (st', pr', ch')" and "\<forall>e \<in> set es. snd e \<noteq> []"
  shows "st' = keep_all es st \<and> (\<not> ch' \<longrightarrow> st' = st \<and> \<not> ch)"
  using assms
proof (induction es arbitrary: st pr ch)
  case (Cons e es)
  from Cons.prems(1) obtain st1 pr1 ch1 where 1: "reconcile_vm e (st, pr, ch) = Inr (st1, pr1, ch1)"
    and 2: "reconcile_all es (st1, pr1, ch1) = Inr (st', pr', ch')"
    by (rule reconcile_all_Cons) (metis prod.exhaust)
  have "st1 = keep_one_bus (fst e) (snd e) st \<and> (\<not> ch1 \<longrightarrow> st1 = st \<and> \<not> ch)"
    by (rule reconcile_vm_Inr) (use 1 Cons.prems(2) in auto)
  moreover have "st' = keep_all es st1 \<and> (\<not> ch' \<longrightarrow> st' = st1 \<and> \<not> ch1)"
    by (rule Cons.IH [OF 2]) (use Cons.prems(2) in auto)
  ultimately show ?case by auto
qed simp

lemma keep_all_forward:
  "distinct (map fst es) \<Longrightarrow> dget (vmid_to_bus (keep_all es st)) v =
     (case dget es v of None \<Rightarrow> dget (vmid_to_bus st) v | Some bs \<Rightarrow> Some (kept_bus (vmid_to_bus st) v bs))"
proof (induction es arbitrary: st)
  case (Cons e es)
  let ?st = "keep_one_bus (fst e) (snd e) st"
  have "dget es (fst e) = None" using Cons.prems by (simp add: map_of_eq_None_iff)
  moreover have "v \<noteq> fst e \<Longrightarrow> kept_bus (vmid_to_bus ?st) v bs = kept_bus (vmid_to_bus st) v bs" for bs
    by (intro kept_bus_cong) (simp add: keep_one_bus_maps)
  ultimately show ?case
    using Cons by (cases e; cases "v = fst e") (auto simp: keep_one_bus_maps split: option.splits)
qed simp

lemma keep_all_reverse:
  "distinct (map fst es) \<Longrightarrow> dget (bus_to_vmid (keep_all es st)) b =
     (if \<exists>e \<in> set es. b \<in> set (duplicate_buses (vmid_to_bus st) (fst e) (snd e)) then None
      else dget (bus_to_vmid st) b)"
proof (induction es arbitrary: st)
  case (Cons e es)
  let ?st = "keep_one_bus (fst e) (snd e) st"
  have "duplicate_buses (vmid_to_bus ?st) (fst f) (snd f) = duplicate_buses (vmid_to_bus st) (fst f) (snd f)"
    if "f \<in> set es" for f
  proof -
    have "fst f \<noteq> fst e" using Cons.prems that by (metis distinct.simps(2) image_eqI list.set_map list.simps(9))
    then have "kept_bus (vmid_to_bus ?st) (fst f) (snd f) = kept_bus (vmid_to_bus st) (fst f) (snd f)"
      by (intro kept_bus_cong) (simp add: keep_one_bus_maps)
    then show ?thesis by (simp add: duplicate_buses_def)
  qed
  then show ?case using Cons by (simp add: keep_one_bus_maps)
qed simp

subsection \<open>Grouping\<close>

definition buses_of :: "(string, string) dict \<Rightarrow> string \<Rightarrow> string list" where
  "buses_of b2v v = map fst (filter (\<lambda>p. snd p = v) b2v)"

lemma fold_add_bus:
  "dget (fold add_bus xs g) v =
     (if buses_of xs v = [] then dget g v
      else Some ((case dget g v of None \<Rightarrow> [] | Some bs \<Rightarrow> bs) @ buses_of xs v))"
proof (induction xs arbitrary: g)
  case (Cons p xs)
  show ?case
    using Cons.IH [of "add_bus p g"]
    by (cases p) (auto simp: add_bus_def buses_of_def split: option.splits)
qed (simp add: buses_of_def)

lemma fold_add_bus_wfd: "wfd g \<Longrightarrow> wfd (fold add_bus xs g)"
  by (induction xs arbitrary: g) (auto simp: add_bus_def split: prod.splits)

lemma group_buses:
  "dget (group_buses b2v) v = (if buses_of b2v v = [] then None else Some (buses_of b2v v))"
  "wfd (group_buses b2v)"
  by (simp_all add: group_buses_def fold_add_bus fold_add_bus_wfd)

lemma in_buses_of: "wfd b2v \<Longrightarrow> b \<in> set (buses_of b2v v) \<longleftrightarrow> dget b2v b = Some v"
  by (auto simp: buses_of_def dget_in_set [symmetric] image_iff)

lemma group_buses_mem:
  "e \<in> set (group_buses b2v) \<longleftrightarrow> snd e = buses_of b2v (fst e) \<and> snd e \<noteq> []"
  using dget_in_set [OF group_buses(2), of "fst e" "snd e"] by (auto simp: group_buses(1))

lemma keep_all_group:
  assumes "wfd (bus_to_vmid st)"
  defines "st' \<equiv> keep_all (group_buses (bus_to_vmid st)) st"
  shows "dget (bus_to_vmid st') b = Some v \<longleftrightarrow>
      dget (bus_to_vmid st) b = Some v \<and> b = kept_bus (vmid_to_bus st) v (buses_of (bus_to_vmid st) v)"
    and "dget (vmid_to_bus st') v =
      (if v \<in> set (dvals (bus_to_vmid st))
       then Some (kept_bus (vmid_to_bus st) v (buses_of (bus_to_vmid st) v)) else dget (vmid_to_bus st) v)"
proof -
  have bex: "(\<exists>e \<in> set (group_buses (bus_to_vmid st)). P (fst e) (snd e)) \<longleftrightarrow>
      (\<exists>w. buses_of (bus_to_vmid st) w \<noteq> [] \<and> P w (buses_of (bus_to_vmid st) w))" for P
    by (simp add: Bex_def group_buses_mem)
  have ne: "dget (bus_to_vmid st) b = Some v \<Longrightarrow> buses_of (bus_to_vmid st) v \<noteq> []"
    using in_buses_of [OF assms(1), of b v] by force
  show "dget (bus_to_vmid st') b = Some v \<longleftrightarrow>
      dget (bus_to_vmid st) b = Some v \<and> b = kept_bus (vmid_to_bus st) v (buses_of (bus_to_vmid st) v)"
    unfolding st'_def keep_all_reverse [OF group_buses(2)]
      bex [of "\<lambda>v bs. b \<in> set (duplicate_buses (vmid_to_bus st) v bs)"]
    using in_buses_of [OF assms(1), of b] ne by (auto simp: duplicate_buses_def)
  have "buses_of (bus_to_vmid st) v = [] \<longleftrightarrow> v \<notin> set (dvals (bus_to_vmid st))"
    by (auto simp: buses_of_def filter_empty_conv)
  then show "dget (vmid_to_bus st') v =
      (if v \<in> set (dvals (bus_to_vmid st))
       then Some (kept_bus (vmid_to_bus st) v (buses_of (bus_to_vmid st) v)) else dget (vmid_to_bus st) v)"
    unfolding st'_def keep_all_forward [OF group_buses(2)] by (simp add: group_buses(1))
qed

lemma reconcile_bus_map_Inr:
  assumes "reconcile_bus_map d = (Inr pruned, d')" and "faults d = []"
  shows "load_usb_state d' = keep_all (group_buses (bus_to_vmid (load_usb_state d))) (load_usb_state d)"
proof -
  let ?st = "load_usb_state d"
  from assms(1) obtain st' pr ch where
    r: "reconcile_all (group_buses (bus_to_vmid ?st)) (?st, [], False) = Inr (st', pr, ch)"
    and d': "d' = (if ch then save_usb_state st' d else d)"
    by (auto simp: reconcile_bus_map_def Let_def split: sum.splits prod.splits)
  have "st' = keep_all (group_buses (bus_to_vmid ?st)) ?st \<and> (\<not> ch \<longrightarrow> st' = ?st \<and> \<not> False)"
    by (rule reconcile_all_Inr [OF r]) (auto simp: group_buses_mem)
  with d' assms(2) show ?thesis by auto
qed

section \<open>Properties\<close>

lemma forward_entry_in_clear:
  "dget (vmid_to_bus (clear_assignment_st vmid bus st)) = (dget (vmid_to_bus st))(str_int vmid := None)"
  by (auto simp: clear_assignment_st_def Let_def split: option.splits)

text \<open>
  C6: \<open>set_assignment\<close> keeps the two maps inverse to each other. Afterwards the VM holds the
  bus in both directions, whoever held the bus before has lost it, every other VM keeps its
  bus, the bus is not missing any more, and the settle reboot is due
  \<open>POST_PROV_REBOOT_DELAY_S\<close> seconds later.
\<close>

theorem set_assignment_bijection:
  assumes "paired (load_usb_state d)" and "bus \<noteq> []" and "faults d = []"
  shows "let st' = load_usb_state (set_assignment vmid bus img now d) in paired st'
    \<and> bus_for_vmid vmid (set_assignment vmid bus img now d) = Some bus
    \<and> dget (bus_to_vmid st') bus = Some (str_int vmid)
    \<and> (\<forall>w. w \<noteq> vmid \<longrightarrow> bus_for_vmid w (set_assignment vmid bus img now d) =
          (if bus_for_vmid w d = Some bus then None else bus_for_vmid w d))
    \<and> dget (missing_since st') bus = None
    \<and> map_option reboot_at (dget (post_prov_reboot st') (str_int vmid)) = Some (now + 900)"
proof -
  let ?st = "load_usb_state d"
  define st' where "st' = load_usb_state (set_assignment vmid bus img now d)"
  have st': "st' = set_assignment_st vmid bus img now ?st"
    by (simp add: st'_def set_assignment_def assms(3))
  have pr: "paired st'" unfolding st' by (rule paired_set_assignment [OF assms(1,2)])
  have bfv: "bus_for_vmid w (set_assignment vmid bus img now d) = dget (vmid_to_bus st') (str_int w)" for w
    by (simp add: bus_for_vmid_def st'_def)
  have old: "bus_for_vmid w d = dget (vmid_to_bus ?st) (str_int w)" for w
    by (simp add: bus_for_vmid_def)
  have others: "dget (vmid_to_bus st') (str_int w) =
      (if dget (vmid_to_bus ?st) (str_int w) = Some bus then None else dget (vmid_to_bus ?st) (str_int w))"
    if "w \<noteq> vmid" for w
    using that paired_iff [OF assms(1), of "str_int w" bus] paired_iff [OF assms(1), of _ bus]
    by (auto simp: st' set_assignment_maps released_def split: option.splits)
  have "dget (missing_since st') bus = None"
    and "map_option reboot_at (dget (post_prov_reboot st') (str_int vmid)) = Some (now + 900)"
    by (auto simp: st' set_assignment_st_def stamp_post_prov_reboot_def POST_PROV_REBOOT_DELAY_S_def
        Let_def split: option.splits)
  then show ?thesis
    using pr others unfolding st'_def [symmetric] Let_def bfv old by (simp add: st' set_assignment_maps)
qed

theorem set_assignment_bijection_witness:
  "paired (load_usb_state (set_assignment 90002 ''1-4'' 1 1000 (set_assignment 90001 ''1-4'' 1 0 empty_disk)))
   \<and> bus_for_vmid 90001 (set_assignment 90002 ''1-4'' 1 1000 (set_assignment 90001 ''1-4'' 1 0 empty_disk)) = None"
proof -
  let ?d0 = "empty_disk" and ?d1 = "set_assignment 90001 ''1-4'' 1 0 empty_disk"
  have l0: "load_usb_state ?d0 = new_usb_state" by (simp add: load_usb_state_def empty_disk_def)
  have f0: "faults ?d0 = []" by (simp add: empty_disk_def)
  have f1: "faults ?d1 = []" by (simp add: set_assignment_def f0)
  have p1: "paired (load_usb_state ?d1)" and b1: "bus_for_vmid 90001 ?d1 = Some ''1-4''"
    using set_assignment_bijection [of ?d0 "''1-4''" 90001 1 0] f0 l0 by (simp_all add: Let_def)
  show ?thesis
    using set_assignment_bijection [of ?d1 "''1-4''" 90002 1 1000] f1 p1 b1 by (simp add: Let_def)
qed



text \<open>
  C22: whatever duplicates the reverse map holds, a completed \<open>reconcile_bus_map\<close> leaves every
  tracked VM with exactly one bus, one it had before, and with the forward map naming that bus;
  a VM the forward map already placed on one of its buses stays there, and no VM is dropped.
\<close>

theorem reconcile_bus_map_repairs:
  assumes "reconcile_bus_map d = (Inr pruned, d')" and "faults d = []"
    and "wfd (bus_to_vmid (load_usb_state d))"
  shows "let st = load_usb_state d; st' = load_usb_state d' in (\<forall>b v. dget (bus_to_vmid st') b = Some v \<longrightarrow>
             dget (vmid_to_bus st') v = Some b \<and> dget (bus_to_vmid st) b = Some v)
    \<and> (\<forall>b c v. dget (bus_to_vmid st') b = Some v \<longrightarrow> dget (bus_to_vmid st') c = Some v \<longrightarrow> b = c)
    \<and> (\<forall>b v. dget (bus_to_vmid st) b = Some v \<longrightarrow> (\<exists>c. dget (bus_to_vmid st') c = Some v))
    \<and> (\<forall>b v. dget (bus_to_vmid st) b = Some v \<longrightarrow> dget (vmid_to_bus st) v = Some b \<longrightarrow>
             dget (bus_to_vmid st') b = Some v)"
proof -
  define st st' where "st = load_usb_state d" and "st' = load_usb_state d'"
  have st': "st' = keep_all (group_buses (bus_to_vmid st)) st"
    unfolding st'_def st_def by (rule reconcile_bus_map_Inr [OF assms(1,2)])
  note wf = assms(3) [folded st_def]
  note rev = keep_all_group(1) [OF wf, folded st'] and fwd = keep_all_group(2) [OF wf, folded st']
  have vals: "dget (bus_to_vmid st) b = Some v \<Longrightarrow> v \<in> set (dvals (bus_to_vmid st))" for b v
    by (force dest: map_of_SomeD)
  have kept: "dget (bus_to_vmid st) (kept_bus (vmid_to_bus st) v (buses_of (bus_to_vmid st) v)) = Some v"
    if "dget (bus_to_vmid st) b = Some v" for b v
  proof -
    have "buses_of (bus_to_vmid st) v \<noteq> []" using that in_buses_of [OF wf, of b v] by force
    then show ?thesis
      using kept_bus_in [of "buses_of (bus_to_vmid st) v"] by (simp add: in_buses_of [OF wf])
  qed
  have stay: "kept_bus (vmid_to_bus st) v (buses_of (bus_to_vmid st) v) = b"
    if "dget (bus_to_vmid st) b = Some v" "dget (vmid_to_bus st) v = Some b" for b v
    using that in_buses_of [OF wf, of b v] by (simp add: kept_bus_def)
  show ?thesis
    unfolding st_def [symmetric] st'_def [symmetric] Let_def
    using rev fwd vals kept stay by (intro conjI allI impI) auto
qed

theorem reconcile_bus_map_repairs_witness:
  "dget (bus_to_vmid (load_usb_state (snd (reconcile_bus_map
      (save_usb_state (new_usb_state\<lparr>bus_to_vmid := [(''1-1'', str_int 90001), (''1-2'', str_int 90001)],
                                     vmid_to_bus := [(str_int 90001, ''1-1'')]\<rparr>) empty_disk))))) ''1-1'' = Some (str_int 90001)"
proof -
  let ?st = "new_usb_state\<lparr>bus_to_vmid := [(''1-1'', str_int 90001), (''1-2'', str_int 90001)],
                           vmid_to_bus := [(str_int 90001, ''1-1'')]\<rparr>"
  let ?d = "save_usb_state ?st empty_disk"
  have f: "faults ?d = []" and l: "load_usb_state ?d = ?st" by (simp_all add: empty_disk_def)
  obtain pr d' where r: "reconcile_bus_map ?d = (Inr pr, d')"
    unfolding reconcile_bus_map_def l
    by (simp add: group_buses_def add_bus_def reconcile_vm_def duplicate_buses_def kept_bus_def Let_def)
  have "wfd (bus_to_vmid (load_usb_state ?d))" unfolding l by simp
  from reconcile_bus_map_repairs [OF r f this, unfolded l Let_def]
  have "dget (bus_to_vmid ?st) b = Some v \<Longrightarrow> dget (vmid_to_bus ?st) v = Some b \<Longrightarrow>
      dget (bus_to_vmid (load_usb_state d')) b = Some v" for b v by blast
  from this [of "''1-1''" "str_int 90001"] show ?thesis by (simp add: r)
qed

text \<open>
  C23: however the write of \<open>usb_state.json\<close> ends, the next load succeeds: it gives the new
  document, or the old one if the file could not be opened, or the empty document if the
  write was torn after the truncation, which is when every assignment is lost.
\<close>

theorem save_usb_state_crash:
  "load_usb_state (save_usb_state st d) =
     (case faults d of
        [] \<Rightarrow> st
      | WriteOk # _ \<Rightarrow> st
      | OpenFails # _ \<Rightarrow> load_usb_state d
      | TornEmpty # _ \<Rightarrow> new_usb_state
      | TornPartial # _ \<Rightarrow> new_usb_state)"
  by (auto simp: save_usb_state_def write_plain_def load_usb_state_def split: list.splits fault.splits)

end
