(* ===== verification/Text.thy ===== *)
theory Text
  imports PyValue
begin

text \<open>
  The string methods the code applies to command output and configuration text: substring
  tests, \<open>split\<close>, \<open>splitlines\<close>, \<open>partition\<close>, \<open>join\<close>. Text is
  ASCII; the long dash of some messages stands for its UTF-8 bytes.
\<close>

section \<open>Substrings\<close>

fun has_prefix :: "string \<Rightarrow> string \<Rightarrow> bool" where
  "has_prefix [] s = True"
| "has_prefix (p # ps) [] = False"
| "has_prefix (p # ps) (c # cs) = (p = c \<and> has_prefix ps cs)"

fun has_infix :: "string \<Rightarrow> string \<Rightarrow> bool" where
  "has_infix p [] = (p = [])"
| "has_infix p (c # cs) = (has_prefix p (c # cs) \<or> has_infix p cs)"

lemma has_prefix_iff: "has_prefix p s \<longleftrightarrow> (\<exists>t. s = p @ t)"
  by (induction p s rule: has_prefix.induct) auto

lemma has_infix_iff: "has_infix p s \<longleftrightarrow> (\<exists>a b. s = a @ p @ b)"
proof (induction p s rule: has_infix.induct)
  case (2 p c cs)
  have "(\<exists>a b. c # cs = a @ p @ b) \<longleftrightarrow> (\<exists>b. c # cs = p @ b) \<or> (\<exists>a b. cs = a @ p @ b)"
    by (metis append_Cons append_Nil list.inject neq_Nil_conv)
  with 2 show ?case by (simp add: has_prefix_iff)
qed simp

section \<open>Lines and words\<close>

definition em_dash :: string where
  "em_dash = [char_of (226::nat), char_of (128::nat), char_of (148::nat)]"

definition is_line_break :: "char \<Rightarrow> bool" where
  "is_line_break c \<longleftrightarrow>
     (let n = (of_char c :: nat) in (10 \<le> n \<and> n \<le> 13) \<or> (28 \<le> n \<and> n \<le> 30))"

text \<open>\<open>s.splitlines()\<close>: CR LF is one break, and a final break starts no further line.\<close>

fun lines_from :: "string \<Rightarrow> string \<Rightarrow> string list" where
  "lines_from acc [] = (if acc = [] then [] else [rev acc])"
| "lines_from acc [c] = (if is_line_break c then [rev acc] else [rev (c # acc)])"
| "lines_from acc (c # d # cs) =
     (if of_char c = (13::nat) \<and> of_char d = (10::nat) then rev acc # lines_from [] cs
      else if is_line_break c then rev acc # lines_from [] (d # cs)
      else lines_from (c # acc) (d # cs))"

definition splitlines :: "string \<Rightarrow> string list" where
  "splitlines s = lines_from [] s"

text \<open>\<open>s.split()\<close>: the maximal runs without whitespace.\<close>

fun words_from :: "string \<Rightarrow> string \<Rightarrow> string list" where
  "words_from acc [] = (if acc = [] then [] else [rev acc])"
| "words_from acc (c # cs) =
     (if is_space c then (if acc = [] then words_from [] cs else rev acc # words_from [] cs)
      else words_from (c # acc) cs)"

definition split_ws :: "string \<Rightarrow> string list" where
  "split_ws s = words_from [] s"

text \<open>\<open>s.split(c)\<close> with a one-character separator: empty fields are kept.\<close>

fun fields_from :: "char \<Rightarrow> string \<Rightarrow> string \<Rightarrow> string list" where
  "fields_from x acc [] = [rev acc]"
| "fields_from x acc (c # cs) =
     (if c = x then rev acc # fields_from x [] cs else fields_from x (c # acc) cs)"

definition split_on :: "char \<Rightarrow> string \<Rightarrow> string list" where
  "split_on x s = fields_from x [] s"

text \<open>\<open>s.partition(c)\<close> when the separator occurs, as the pair of the two sides.\<close>

definition partition_on :: "char \<Rightarrow> string \<Rightarrow> string \<times> string" where
  "partition_on x s = (takeWhile (\<lambda>c. c \<noteq> x) s, drop 1 (dropWhile (\<lambda>c. c \<noteq> x) s))"

lemma fields_from_ne: "fields_from x a s \<noteq> []"
  by (induction x a s rule: fields_from.induct) auto

lemma join_split: "join_sep [x] (fields_from x acc s) = rev acc @ s"
proof (induction x acc s rule: fields_from.induct)
  case (2 x acc c cs)
  show ?case
  proof (cases "c = x")
    case True
    obtain y ys where "fields_from x [] cs = y # ys" using fields_from_ne by (metis neq_Nil_conv)
    with 2 True show ?thesis by simp
  next
    case False
    with 2 show ?thesis by simp
  qed
qed simp

lemma split_on_join: "join_sep [x] (split_on x s) = s"
  by (simp add: split_on_def join_split)

lemma fields_from_no_sep: "x \<notin> set acc \<Longrightarrow> f \<in> set (fields_from x acc s) \<Longrightarrow> x \<notin> set f"
  by (induction x acc s rule: fields_from.induct) (auto split: if_splits)

lemma fields_from_append:
  "x \<notin> set a \<Longrightarrow> fields_from x acc (a @ x # s) = (rev acc @ a) # fields_from x [] s"
  by (induction a arbitrary: acc) auto

lemma fields_from_last: "x \<notin> set a \<Longrightarrow> fields_from x acc a = [rev acc @ a]"
  by (induction a arbitrary: acc) auto

lemma split_on_of_join:
  "fs \<noteq> [] \<Longrightarrow> \<forall>f\<in>set fs. x \<notin> set f \<Longrightarrow> split_on x (join_sep [x] fs) = fs"
proof (induction "[x]" fs rule: join_sep.induct)
  case (2 f)
  then show ?case by (simp add: split_on_def fields_from_last)
next
  case (3 f g fs)
  then have "split_on x (join_sep [x] (g # fs)) = g # fs" by simp
  with 3 show ?case by (simp add: split_on_def fields_from_append)
qed simp

end
