(* ===== verification/Quarantine.thy ===== *)
theory Quarantine
  imports UsbStore Text
begin

text \<open>
  \<open>agent/src/usb_quarantine.py\<close>: the bus exclusions kept in \<open>usb_state.json\<close>, the dongle
  quarantine with its strike count in \<open>usb_quarantine.json\<close>, the destroy-failure counters in
  \<open>destroy_fails.json\<close> and the kernel-log matcher that triggers quarantines, together with
  the recovery sweep and the exclusion expiry that \<open>run_provision_loop\<close> applies to them
  (\<open>agent/src/usb_provision.py\<close>, layers 1 and 4c).
\<close>

definition QUARANTINE_MAX_FAILS :: int where "QUARANTINE_MAX_FAILS = 3"
definition DESTROY_MAX_FAILS :: int where "DESTROY_MAX_FAILS = 3"
definition QUARANTINE_RECOVERY_S :: rat where "QUARANTINE_RECOVERY_S = 3600"
definition QUARANTINE_PERMANENT_STRIKES :: int where "QUARANTINE_PERMANENT_STRIKES = 5"
definition DMESG_USB_QUARANTINE_MIN :: nat where "DMESG_USB_QUARANTINE_MIN = 3"

lemmas quarantine_limits = QUARANTINE_MAX_FAILS_def QUARANTINE_PERMANENT_STRIKES_def
  QUARANTINE_RECOVERY_S_def DESTROY_MAX_FAILS_def

section \<open>Bus exclusions\<close>

definition clear_excluded_buses :: "disk \<Rightarrow> nat \<times> disk" where
  "clear_excluded_buses d =
     (let st = load_usb_state d
      in (length (excluded_buses st), save_usb_state (st\<lparr>excluded_buses := []\<rparr>) d))"

definition exclude_bus :: "string \<Rightarrow> rat \<Rightarrow> disk \<Rightarrow> disk" where
  "exclude_bus bus now d =
     (let st = load_usb_state d
      in save_usb_state (st\<lparr>excluded_buses := dset bus now (excluded_buses st)\<rparr>) d)"

text \<open>
  The expiry of exclusions in a provisioning pass: an exclusion ends when its bus is absent
  or its cooldown is over; a stamp of at most 1e9 (the old bare 1) counts as expired.
\<close>

definition exclusion_since :: "rat \<Rightarrow> rat" where
  "exclusion_since v = (if 1000000000 < v then v else 0)"

definition expire_exclusions :: "(string \<Rightarrow> bool) \<Rightarrow> rat \<Rightarrow> rat \<Rightarrow> usb_state \<Rightarrow> usb_state" where
  "expire_exclusions present cooldown now st =
     st\<lparr>excluded_buses := filter (\<lambda>(bus, v). \<not> (\<not> present bus \<or> cooldown \<le> now - exclusion_since v))
          (excluded_buses st)\<rparr>"

section \<open>Dongle quarantine\<close>

definition read_quarantine :: "disk \<Rightarrow> (string, quarantine_entry) dict" where
  "read_quarantine d = read_or [] (quarantine_file d)"

definition save_quarantine :: "(string, quarantine_entry) dict \<Rightarrow> disk \<Rightarrow> disk" where
  "save_quarantine q d = write_plain put_quarantine q d"

text \<open>
  Clearing one bus reads the file itself: a corrupt file is left as it is, and JSON that is
  neither an object nor empty raises (\<open>list.pop\<close> takes one argument, other values have no
  \<open>pop\<close>); clearing all overwrites whatever is there.
\<close>

definition clear_quarantine :: "string option \<Rightarrow> disk \<Rightarrow> unit result \<times> disk" where
  "clear_quarantine bus d =
     (if str_set bus then
        (case quarantine_file d of
           Stored q \<Rightarrow> (Inr (), save_quarantine (dpop (the bus) q) d)
         | Missing \<Rightarrow> (Inr (), save_quarantine [] d)
         | EmptyFile \<Rightarrow> (Inr (), save_quarantine [] d)
         | OtherShape t \<Rightarrow> if t then (Inl TypeError, d) else (Inr (), save_quarantine [] d)
         | Garbled \<Rightarrow> (Inr (), d))
      else (Inr (), save_quarantine [] d))"

text \<open>The entry a new quarantine episode writes over the old one, with one more strike.\<close>

definition strike_entry :: "quarantine_entry option \<Rightarrow> string \<Rightarrow> rat \<Rightarrow> quarantine_entry" where
  "strike_entry old reason now =
     (let t = trunc now;
          strikes = (case old of None \<Rightarrow> 0 | Some e \<Rightarrow> q_strikes e) + 1;
          first = (case old of None \<Rightarrow> 0 | Some e \<Rightarrow> q_first_strike e)
      in \<lparr>q_fails = QUARANTINE_MAX_FAILS, q_since = t, q_reason = reason, q_strikes = strikes,
          q_permanent = (QUARANTINE_PERMANENT_STRIKES \<le> strikes),
          q_first_strike = (if first \<noteq> 0 then first else t), q_last_strike = t\<rparr>)"

text \<open>\<open>quarantine_bus\<close> on the map: \<open>None\<close> when it returns without writing.\<close>

definition quarantine_bus_map ::
    "string \<Rightarrow> string \<Rightarrow> rat \<Rightarrow> (string, quarantine_entry) dict \<Rightarrow> (string, quarantine_entry) dict option" where
  "quarantine_bus_map bus reason now q =
     (let entry = dget q bus
      in if (case entry of None \<Rightarrow> False | Some e \<Rightarrow> q_permanent e) then None
         else if QUARANTINE_MAX_FAILS \<le> (case entry of None \<Rightarrow> 0 | Some e \<Rightarrow> q_fails e) then None
         else Some (dset bus (strike_entry entry reason now) q))"

definition quarantine_bus :: "string \<Rightarrow> string \<Rightarrow> rat \<Rightarrow> disk \<Rightarrow> disk" where
  "quarantine_bus bus reason now d =
     (case quarantine_bus_map bus reason now (read_quarantine d) of
        None \<Rightarrow> d
      | Some q \<Rightarrow> save_quarantine q d)"

text \<open>
  The recovery sweep of a provisioning pass: an entry that is quarantined, not permanent and
  old enough gets its failure count reset; its strike history stays.
\<close>

definition recovers :: "rat \<Rightarrow> quarantine_entry \<Rightarrow> bool" where
  "recovers now e \<longleftrightarrow> \<not> q_permanent e \<and> QUARANTINE_MAX_FAILS \<le> q_fails e
     \<and> QUARANTINE_RECOVERY_S \<le> now - of_int (q_since e)"

definition recover_map ::
    "rat \<Rightarrow> (string, quarantine_entry) dict \<Rightarrow> (string, quarantine_entry) dict" where
  "recover_map now q = map (\<lambda>(bus, e). (bus, if recovers now e then e\<lparr>q_fails := 0\<rparr> else e)) q"

definition recover_quarantine :: "rat \<Rightarrow> disk \<Rightarrow> disk" where
  "recover_quarantine now d =
     (let q = read_quarantine d
      in if list_ex (\<lambda>(bus, e). recovers now e) q then save_quarantine (recover_map now q) d else d)"

text \<open>Whether the provisioning loop leaves a bus alone.\<close>

definition sidelined :: "quarantine_entry \<Rightarrow> bool" where
  "sidelined e \<longleftrightarrow> q_permanent e \<or> QUARANTINE_MAX_FAILS \<le> q_fails e"

section \<open>Destroy-failure counters\<close>

definition read_destroy_fails :: "disk \<Rightarrow> (string, int) dict" where
  "read_destroy_fails d = read_or [] (destroy_fails_file d)"

definition save_destroy_fails :: "(string, int) dict \<Rightarrow> disk \<Rightarrow> disk" where
  "save_destroy_fails fs d = write_plain put_fails fs d"

text \<open>The result is the pair of \<open>count\<close> and \<open>orphaned\<close>.\<close>

definition record_destroy_fail :: "int \<Rightarrow> string \<Rightarrow> rat \<Rightarrow> disk \<Rightarrow> (int \<times> bool) \<times> disk" where
  "record_destroy_fail vmid bus now d =
     (let fails = read_destroy_fails d;
          count = (case dget fails (str_int vmid) of None \<Rightarrow> 0 | Some n \<Rightarrow> n) + 1;
          orphaned = (DESTROY_MAX_FAILS \<le> count)
      in if orphaned
         then ((count, True), save_destroy_fails (dpop (str_int vmid) fails) (snd (add_orphan_vm vmid bus now d)))
         else ((count, False), save_destroy_fails (dset (str_int vmid) count fails) d))"

definition clear_destroy_fails :: "int \<Rightarrow> disk \<Rightarrow> disk" where
  "clear_destroy_fails vmid d = save_destroy_fails (dpop (str_int vmid) (read_destroy_fails d)) d"

section \<open>Kernel-log lines\<close>

text \<open>
  The pattern \<open>_USB_DMESG_ERROR_RE\<close>: the text \<open>usb\<close>, a space, digits, a dash, digits and
  dots, a colon, then one of the error phrases anywhere after it; letters match in either
  case. The character classes exclude the separators, so at one start position there is at
  most one way to read the bus id.
\<close>

definition word_char :: "char \<Rightarrow> bool" where
  "word_char c = (let n = (of_char c :: nat) in (48 \<le> n \<and> n \<le> 57) \<or> (65 \<le> n \<and> n \<le> 90)
     \<or> (97 \<le> n \<and> n \<le> 122) \<or> n = 95)"

text \<open>\<open>p\b\<close> for a phrase that ends in a word character.\<close>

fun has_infix_word :: "string \<Rightarrow> string \<Rightarrow> bool" where
  "has_infix_word p [] = False"
| "has_infix_word p (c # cs) =
     (has_prefix p (c # cs) \<and>
        (case drop (length p) (c # cs) of [] \<Rightarrow> True | x # _ \<Rightarrow> \<not> word_char x)
      \<or> has_infix_word p cs)"

text \<open>\<open>reset .*fail\<close>\<close>

fun has_reset_fail :: "string \<Rightarrow> bool" where
  "has_reset_fail [] = False"
| "has_reset_fail (c # cs) =
     (has_prefix ''reset '' (c # cs) \<and> has_infix ''fail'' (drop 6 (c # cs)) \<or> has_reset_fail cs)"

definition error_phrase :: "string \<Rightarrow> bool" where
  "error_phrase s =
     (has_infix ''device descriptor read'' s \<or> has_infix ''unable to enumerate'' s
      \<or> has_infix ''not accepting address'' s \<or> has_infix_word ''error -71'' s
      \<or> has_infix_word ''error -110'' s
      \<or> has_infix (''can'' @ [char_of (39::nat)] @ ''t set config'') s
      \<or> has_infix ''cannot enable port'' s \<or> has_reset_fail s)"

text \<open>The bus id that starts right here, with the text after its colon.\<close>

definition bus_id_here :: "string \<Rightarrow> (string \<times> string) option" where
  "bus_id_here s =
     (if has_prefix ''usb '' s then
        (let r = drop 4 s; a = takeWhile is_digit r; r1 = dropWhile is_digit r;
             bus_char = (\<lambda>c. is_digit c \<or> c = CHR ''.'');
             b = takeWhile bus_char (tl r1); r2 = dropWhile bus_char (tl r1)
         in if a \<noteq> [] \<and> r1 \<noteq> [] \<and> hd r1 = CHR ''-'' \<and> b \<noteq> [] \<and> r2 \<noteq> [] \<and> hd r2 = CHR '':''
            then Some (a @ ''-'' @ b, tl r2) else None)
      else None)"

fun match_usb_error :: "string \<Rightarrow> string option" where
  "match_usb_error [] = None"
| "match_usb_error (c # cs) =
     (case bus_id_here (c # cs) of
        Some (bus, rest) \<Rightarrow> if error_phrase rest then Some bus else match_usb_error cs
      | None \<Rightarrow> match_usb_error cs)"

text \<open>The worker \<open>_count\<close> of \<open>scan_dmesg_usb_errors\<close>, on the lines of the kernel log.\<close>

definition count_line :: "string \<Rightarrow> (string, nat) dict \<Rightarrow> (string, nat) dict" where
  "count_line line errs =
     (case match_usb_error (lower line) of
        None \<Rightarrow> errs
      | Some bus \<Rightarrow> dset bus ((case dget errs bus of None \<Rightarrow> 0 | Some n \<Rightarrow> n) + 1) errs)"

definition count_usb_errors :: "string list \<Rightarrow> (string, nat) dict" where
  "count_usb_errors lines = fold count_line lines []"

text \<open>
  Layer 4c: quarantine each watched bus with enough error lines that is not quarantined yet.
  \<open>reason\<close> renders the message from the count.
\<close>

definition quarantine_one_noisy ::
    "(string \<Rightarrow> bool) \<Rightarrow> (nat \<Rightarrow> string) \<Rightarrow> rat \<Rightarrow> string \<times> nat \<Rightarrow> disk \<Rightarrow> disk" where
  "quarantine_one_noisy watched reason now e d =
     (case e of (bus, n) \<Rightarrow>
        if DMESG_USB_QUARANTINE_MIN \<le> n \<and> watched bus
           \<and> (case dget (read_quarantine d) bus of None \<Rightarrow> True | Some en \<Rightarrow> q_fails en < QUARANTINE_MAX_FAILS)
        then quarantine_bus bus (reason n) now d else d)"

definition quarantine_noisy ::
    "(string \<Rightarrow> bool) \<Rightarrow> (nat \<Rightarrow> string) \<Rightarrow> rat \<Rightarrow> (string, nat) dict \<Rightarrow> disk \<Rightarrow> disk" where
  "quarantine_noisy watched reason now errs d = fold (quarantine_one_noisy watched reason now) errs d"

section \<open>Reading back\<close>

lemma read_save_quarantine [simp, disk_simps]:
  "faults d = [] \<Longrightarrow> read_quarantine (save_quarantine q d) = q"
  by (simp add: read_quarantine_def save_quarantine_def)

lemma save_quarantine_faults [simp]: "faults d = [] \<Longrightarrow> faults (save_quarantine q d) = []"
  by (simp add: save_quarantine_def)

lemma read_save_quarantine_cases:
  "read_quarantine (save_quarantine q d) \<in> {q, read_quarantine d, []}"
  using quarf.plain_cases [of q d] by (auto simp: read_quarantine_def save_quarantine_def)

lemma save_quarantine_frame [simp, disk_simps]:
  "load_usb_state (save_quarantine q d) = load_usb_state d"
  "read_orphans (save_quarantine q d) = read_orphans d"
  "destroy_fails_file (save_quarantine q d) = destroy_fails_file d"
  by (simp_all add: save_quarantine_def load_usb_state_def read_orphans_def)

lemma read_save_fails [simp, disk_simps]:
  "faults d = [] \<Longrightarrow> read_destroy_fails (save_destroy_fails fs d) = fs"
  by (simp add: read_destroy_fails_def save_destroy_fails_def)

lemma save_fails_frame [simp, disk_simps]:
  "load_usb_state (save_destroy_fails fs d) = load_usb_state d"
  "read_orphans (save_destroy_fails fs d) = read_orphans d"
  "read_quarantine (save_destroy_fails fs d) = read_quarantine d"
  "delete_gate_file (save_destroy_fails fs d) = delete_gate_file d"
  "guest_watchdog_file (save_destroy_fails fs d) = guest_watchdog_file d"
  by (simp_all add: save_destroy_fails_def load_usb_state_def read_orphans_def read_quarantine_def)

lemma save_fails_faults [simp]: "faults d = [] \<Longrightarrow> faults (save_destroy_fails fs d) = []"
  by (simp add: save_destroy_fails_def)

lemma read_fails_save_usb [simp, disk_simps]:
  "read_destroy_fails (save_usb_state st d) = read_destroy_fails d"
  "read_quarantine (save_usb_state st d) = read_quarantine d"
  "read_orphans (save_usb_state st d) = read_orphans d"
  by (simp_all add: read_destroy_fails_def read_quarantine_def read_orphans_def)

lemma read_fails_orphans [simp, disk_simps]:
  "read_destroy_fails (write_orphans es d) = read_destroy_fails d"
  "read_quarantine (write_orphans es d) = read_quarantine d"
  by (simp_all add: read_destroy_fails_def read_quarantine_def)

section \<open>The quarantine as a state machine\<close>

text \<open>
  The operations the agent and the operator apply, with the clock as they read it. Writes may
  fail or be torn at any step.
\<close>

inductive q_step :: "rat \<times> disk \<Rightarrow> rat \<times> disk \<Rightarrow> bool" where
  fault: "t \<le> t' \<Longrightarrow> q_step (t, d) (t', quarantine_bus bus reason t' d)"
| recover: "t \<le> t' \<Longrightarrow> q_step (t, d) (t', recover_quarantine t' d)"
| clear: "clear_quarantine bus d = (r, d') \<Longrightarrow> q_step (t, d) (t, d')"

inductive q_reach :: "rat \<times> disk \<Rightarrow> bool" where
  start: "read_quarantine d = [] \<Longrightarrow> 0 \<le> t \<Longrightarrow> q_reach (t, d)"
| step: "q_reach s \<Longrightarrow> q_step s s' \<Longrightarrow> q_reach s'"

inductive_cases q_stepE: "q_step (t, d) s'"

definition entry_ok :: "rat \<Rightarrow> quarantine_entry \<Rightarrow> bool" where
  "entry_ok t e \<longleftrightarrow> (q_fails e = 0 \<or> q_fails e = QUARANTINE_MAX_FAILS)
     \<and> 1 \<le> q_strikes e \<and> q_strikes e \<le> QUARANTINE_PERMANENT_STRIKES
     \<and> (q_permanent e \<longleftrightarrow> q_strikes e = QUARANTINE_PERMANENT_STRIKES)
     \<and> (q_permanent e \<longrightarrow> q_fails e = QUARANTINE_MAX_FAILS)
     \<and> q_since e = q_last_strike e \<and> 0 \<le> q_first_strike e
     \<and> q_first_strike e \<le> q_last_strike e \<and> of_int (q_last_strike e) \<le> t"

definition map_ok :: "rat \<Rightarrow> (string, quarantine_entry) dict \<Rightarrow> bool" where
  "map_ok t q \<longleftrightarrow> (\<forall>(b, e) \<in> set q. entry_ok t e)"

lemma map_okD: "map_ok t q \<Longrightarrow> dget q b = Some e \<Longrightarrow> entry_ok t e"
  by (auto simp: map_ok_def dest: map_of_SomeD)

lemma map_ok_Nil [simp]: "map_ok t []"
  by (simp add: map_ok_def)

lemma set_dset: "set (dset k v d) \<subseteq> insert (k, v) (set d)"
  by (induction d) auto

lemma map_ok_mono: "map_ok t q \<Longrightarrow> t \<le> t' \<Longrightarrow> map_ok t' q"
  by (fastforce simp: map_ok_def entry_ok_def)

lemma trunc_le: "0 \<le> x \<Longrightarrow> of_int (trunc x) \<le> x"
  by (simp add: trunc_def)

lemma of_int_le_trunc: "of_int i \<le> x \<Longrightarrow> 0 \<le> i \<Longrightarrow> i \<le> trunc x"
  by (auto simp: trunc_def le_floor_iff intro: order_trans [of 0 "of_int i :: rat"])

lemma trunc_nonneg: "0 \<le> x \<Longrightarrow> 0 \<le> trunc x"
  by (simp add: trunc_def)

lemma strike_entry_ok:
  assumes "0 \<le> t'" "\<And>old. entry = Some old \<Longrightarrow> entry_ok t old \<and> \<not> q_permanent old" "t \<le> t'"
  shows "entry_ok t' (strike_entry entry reason t')"
proof (cases entry)
  case None
  then show ?thesis using assms(1)
    by (simp add: strike_entry_def entry_ok_def quarantine_limits trunc_le trunc_nonneg Let_def)
next
  case (Some old)
  with assms have "entry_ok t old" "\<not> q_permanent old" by auto
  moreover from this assms(3) have "q_first_strike old \<le> trunc t'"
    by (auto simp: entry_ok_def intro!: of_int_le_trunc)
  ultimately show ?thesis using assms(1) Some
    by (auto simp: strike_entry_def entry_ok_def quarantine_limits trunc_le trunc_nonneg Let_def)
qed

lemma quarantine_bus_map_ok:
  assumes "map_ok t q" "0 \<le> t" "t \<le> t'" "quarantine_bus_map bus reason t' q = Some q'"
  shows "map_ok t' q'"
proof -
  have "entry_ok t' (strike_entry (dget q bus) reason t')"
    using assms map_okD [OF assms(1)]
    by (intro strike_entry_ok [where t = t]) (auto simp: quarantine_bus_map_def Let_def split: if_splits)
  then show ?thesis
    using map_ok_mono [OF assms(1,3)] assms(4) set_dset [of bus "strike_entry (dget q bus) reason t'" q]
    by (auto simp: map_ok_def quarantine_bus_map_def Let_def split: if_splits)
qed

lemma recover_map_ok: "map_ok t q \<Longrightarrow> map_ok t (recover_map now q)"
  by (fastforce simp: map_ok_def recover_map_def entry_ok_def recovers_def)

lemma q_step_ok:
  assumes "q_step s s'" "map_ok (fst s) (read_quarantine (snd s))" "0 \<le> fst s"
  shows "map_ok (fst s') (read_quarantine (snd s')) \<and> 0 \<le> fst s'"
  using assms
proof (induction rule: q_step.induct)
  case (fault t t' d bus reason)
  then have "map_ok t' (read_quarantine d)" by (auto intro: map_ok_mono)
  moreover have "map_ok t' q'" if "quarantine_bus_map bus reason t' (read_quarantine d) = Some q'" for q'
    using that fault quarantine_bus_map_ok [of t "read_quarantine d" t'] by simp
  ultimately show ?case
    using fault read_save_quarantine_cases
    by (auto simp: quarantine_bus_def split: option.splits) (metis empty_iff insert_iff map_ok_Nil)
next
  case (recover t t' d)
  then have "map_ok t' (read_quarantine d)" by (auto intro: map_ok_mono)
  with recover_map_ok [OF this] recover show ?case
    using read_save_quarantine_cases [of "recover_map t' (read_quarantine d)" d]
    by (auto simp: recover_quarantine_def Let_def)
next
  case (clear bus d r d' t)
  have "map_ok t q" if "quarantine_file d = Stored q" for q
    using that clear by (simp add: read_quarantine_def)
  then have "map_ok t (dpop b q)" if "quarantine_file d = Stored q" for q b
    using that by (auto simp: map_ok_def dict_simps)
  then show ?case
    using clear read_save_quarantine_cases [of _ d]
    by (auto simp: clear_quarantine_def split: if_splits stored.splits)
       (metis empty_iff insert_iff map_ok_Nil)+
qed

lemma q_reach_ok: "q_reach s \<Longrightarrow> map_ok (fst s) (read_quarantine (snd s)) \<and> 0 \<le> fst s"
  by (induction rule: q_reach.induct) (auto dest: q_step_ok)

text \<open>
  C15: in every state the quarantine can reach, whatever writes failed on the way, a bus is
  either eligible (no failures) or fully quarantined, has between one and five strikes, and is
  permanent exactly at five strikes; a permanent bus is never in the eligible state, and its
  first strike is not after its last, which is not in the future.
\<close>

theorem quarantine_reachable_ok:
  assumes "q_reach (t, d)" and "dget (read_quarantine d) bus = Some e"
  shows "(q_fails e = 0 \<or> q_fails e = 3) \<and> 1 \<le> q_strikes e \<and> q_strikes e \<le> 5
     \<and> (q_permanent e \<longleftrightarrow> q_strikes e = 5) \<and> (q_permanent e \<longrightarrow> q_fails e = 3)
     \<and> q_first_strike e \<le> q_last_strike e \<and> of_int (q_last_strike e) \<le> t"
  using map_okD [OF _ assms(2)] q_reach_ok [OF assms(1)]
  by (auto simp: entry_ok_def quarantine_limits)

theorem quarantine_reachable_ok_witness:
  "\<exists>e. dget (read_quarantine (quarantine_bus ''3-1.2'' ''test'' 50 empty_disk)) ''3-1.2'' = Some e
     \<and> q_strikes e \<le> 5"
proof -
  have r0: "read_quarantine empty_disk = []" by (simp add: read_quarantine_def empty_disk_def)
  have f0: "faults empty_disk = []" by (simp add: empty_disk_def)
  obtain e where e: "dget (read_quarantine (quarantine_bus ''3-1.2'' ''test'' 50 empty_disk)) ''3-1.2'' = Some e"
    by (simp add: quarantine_bus_def r0 quarantine_bus_map_def f0 quarantine_limits Let_def)
  have "q_reach (50, quarantine_bus ''3-1.2'' ''test'' 50 empty_disk)"
    by (rule q_reach.step [OF q_reach.start [of empty_disk 0]]) (simp_all add: r0 q_step.fault)
  from quarantine_reachable_ok [OF this e] e show ?thesis by blast
qed

section \<open>Permanence, strikes and destroy failures\<close>

lemma dget_recover_map [simp]:
  "dget (recover_map now q) b =
     map_option (\<lambda>e. if recovers now e then e\<lparr>q_fails := 0\<rparr> else e) (dget q b)"
  unfolding recover_map_def by (rule map_of_map [unfolded o_def, THEN fun_cong])

lemma recover_map_idle: "\<not> list_ex (\<lambda>(b, e). recovers now e) q \<Longrightarrow> recover_map now q = q"
  by (auto simp: recover_map_def list_ex_iff intro!: map_idI)

lemma read_recover [simp]:
  "faults d = [] \<Longrightarrow> read_quarantine (recover_quarantine now d) = recover_map now (read_quarantine d)"
  using recover_map_idle [of now "read_quarantine d"] by (simp add: recover_quarantine_def Let_def)

lemma recover_faults [simp]: "faults d = [] \<Longrightarrow> faults (recover_quarantine now d) = []"
  by (simp add: recover_quarantine_def Let_def)

lemma quarantine_faults [simp]: "faults d = [] \<Longrightarrow> faults (quarantine_bus b r now d) = []"
  by (simp add: quarantine_bus_def split: option.splits)

lemma dget_quarantine_bus:
  assumes "faults d = []"
  shows "dget (read_quarantine (quarantine_bus b r now d)) x =
    (let q = read_quarantine d in
     if x = b \<and> \<not> (case dget q b of None \<Rightarrow> False | Some e \<Rightarrow> sidelined e)
     then Some (strike_entry (dget q b) r now) else dget q x)"
proof (cases "dget (read_quarantine d) b")
  case None
  with assms show ?thesis
    by (simp add: quarantine_bus_def quarantine_bus_map_def Let_def QUARANTINE_MAX_FAILS_def)
next
  case (Some e)
  with assms show ?thesis
    by (simp add: quarantine_bus_def quarantine_bus_map_def sidelined_def Let_def)
qed

text \<open>What the agent itself does to the quarantine, as a program of operations.\<close>

datatype q_op = Fault string string rat | Sweep rat

fun run_op :: "q_op \<Rightarrow> disk \<Rightarrow> disk" where
  "run_op (Fault b r now) d = quarantine_bus b r now d"
| "run_op (Sweep now) d = recover_quarantine now d"

lemma run_op_faults [simp]: "faults d = [] \<Longrightarrow> faults (run_op x d) = []"
  by (cases x) simp_all

lemma run_op_permanent:
  "faults d = [] \<Longrightarrow> dget (read_quarantine d) bus = Some e \<Longrightarrow> q_permanent e \<Longrightarrow>
   dget (read_quarantine (run_op x d)) bus = Some e"
  by (cases x) (auto simp: dget_quarantine_bus sidelined_def recovers_def Let_def)

text \<open>
  A permanent quarantine ends only by the operator. No sequence of further faults and
  recovery sweeps, at whatever times, changes the entry; \<open>clear_quarantine\<close> on the bus
  removes it and leaves every other bus as it was.
\<close>

theorem quarantine_permanent_stays:
  assumes "faults d = []" and "dget (read_quarantine d) bus = Some e" and "q_permanent e"
  shows "dget (read_quarantine (fold run_op ops d)) bus = Some e
    \<and> (bus \<noteq> [] \<longrightarrow> fst (clear_quarantine (Some bus) d) = Inr ()
         \<and> (\<forall>x. dget (read_quarantine (snd (clear_quarantine (Some bus) d))) x =
                (if x = bus then None else dget (read_quarantine d) x)))"
proof
  show "dget (read_quarantine (fold run_op ops d)) bus = Some e"
    using assms by (induction ops arbitrary: d) (simp_all add: run_op_permanent)
  from assms(2) obtain q where "quarantine_file d = Stored q" "read_quarantine d = q"
    by (cases "quarantine_file d") (auto simp: read_quarantine_def)
  then show "bus \<noteq> [] \<longrightarrow> fst (clear_quarantine (Some bus) d) = Inr ()
         \<and> (\<forall>x. dget (read_quarantine (snd (clear_quarantine (Some bus) d))) x =
                (if x = bus then None else dget (read_quarantine d) x))"
    using assms(1) by (simp add: clear_quarantine_def)
qed

text \<open>
  One flap of a faulty dongle: it fails, is quarantined, and sits out the recovery period;
  \<open>flaps n\<close> is \<open>n\<close> of them an hour apart.
\<close>

fun flaps :: "string \<Rightarrow> string \<Rightarrow> rat \<Rightarrow> nat \<Rightarrow> disk \<Rightarrow> disk" where
  "flaps b r t 0 d = d"
| "flaps b r t (Suc n) d =
     (let t' = t + 3601 * of_nat n
      in recover_quarantine (t' + 3601) (quarantine_bus b r t' (flaps b r t n d)))"

lemma flaps_faults [simp]: "faults d = [] \<Longrightarrow> faults (flaps b r t n d) = []"
  by (induction n) (simp_all add: Let_def)

definition flapped :: "nat \<Rightarrow> quarantine_entry option \<Rightarrow> bool" where
  "flapped n eo \<longleftrightarrow>
     (case eo of None \<Rightarrow> n = 0
      | Some e \<Rightarrow> n \<noteq> 0 \<and> q_strikes e = int (min n 5) \<and> (q_permanent e \<longleftrightarrow> 5 \<le> n)
          \<and> q_fails e = (if 5 \<le> n then 3 else 0))"

lemma strike_recovers:
  assumes "0 \<le> t" "\<not> q_permanent (strike_entry eo r t)"
  shows "recovers (t + 3601) (strike_entry eo r t)"
  using assms trunc_le [of t] by (simp add: recovers_def strike_entry_def quarantine_limits Let_def)

lemma flapped_step:
  assumes "flapped n eo" "0 \<le> t"
  shows "flapped (Suc n) (Some (let e = (if \<exists>x. eo = Some x \<and> sidelined x then the eo
       else strike_entry eo r t) in if recovers (t + 3601) e then e\<lparr>q_fails := 0\<rparr> else e))"
proof (cases "\<exists>x. eo = Some x \<and> sidelined x")
  case True
  then obtain x where x: "eo = Some x" "sidelined x" by blast
  with assms(1) have "5 \<le> n" "q_permanent x"
    by (auto simp: flapped_def sidelined_def quarantine_limits split: if_splits)
  with x assms(1) show ?thesis by (simp add: flapped_def recovers_def)
next
  case False
  let ?e = "strike_entry eo r t"
  have n: "n \<le> 4" using assms(1) False
    by (auto simp: flapped_def sidelined_def split: option.splits)
  have s: "q_strikes ?e = int (Suc n)" "q_permanent ?e \<longleftrightarrow> n = 4" "q_fails ?e = 3"
    using assms(1) n
    by (auto simp: flapped_def strike_entry_def quarantine_limits Let_def split: option.splits)
  have "recovers (t + 3601) ?e \<longleftrightarrow> n \<noteq> 4"
    using strike_recovers [OF assms(2), of eo r] s(2) by (auto simp: recovers_def)
  with False s n show ?thesis by (auto simp: flapped_def)
qed

text \<open>
  C24: the strikes escalate. Starting from a bus without history, a dongle that fails again
  after every recovery collects one strike per flap; after each of the first four recoveries
  it may be used again, and the fifth makes the quarantine permanent for good.
\<close>

theorem quarantine_escalates:
  assumes "faults d = []" and "0 \<le> t" and "dget (read_quarantine d) bus = None"
  shows "case dget (read_quarantine (flaps bus reason t n d)) bus of
      None \<Rightarrow> n = 0
    | Some e \<Rightarrow> n \<noteq> 0 \<and> q_strikes e = int (min n 5) \<and> (sidelined e \<longleftrightarrow> 5 \<le> n)"
proof -
  have "flapped n (dget (read_quarantine (flaps bus reason t n d)) bus)"
  proof (induction n)
    case 0
    then show ?case using assms by (simp add: flapped_def)
  next
    case (Suc n)
    let ?eo = "dget (read_quarantine (flaps bus reason t n d)) bus"
    let ?t = "t + 3601 * of_nat n"
    let ?e = "if \<exists>x. ?eo = Some x \<and> sidelined x then the ?eo else strike_entry ?eo reason ?t"
    have "dget (read_quarantine (quarantine_bus bus reason ?t (flaps bus reason t n d))) bus = Some ?e"
      using assms(1) by (cases ?eo) (simp_all add: dget_quarantine_bus Let_def)
    then have "dget (read_quarantine (flaps bus reason t (Suc n) d)) bus
        = Some (let e = ?e in if recovers (?t + 3601) e then e\<lparr>q_fails := 0\<rparr> else e)"
      using assms(1) by (simp add: Let_def)
    with flapped_step [OF Suc, of ?t reason] assms(2) show ?case by simp
  qed
  then show ?thesis
    by (auto simp: flapped_def sidelined_def quarantine_limits split: option.splits)
qed

text \<open>
  A VM that cannot be destroyed is orphaned at the third failure in a row, not before:
  the calls report 1, 2 and 3 failures, only the third with the orphan flag. It then has
  exactly one registry entry, the counter is gone, and other VMs' counters and registry
  entries are untouched.
\<close>

theorem destroy_fails_orphan_at_third:
  assumes "faults d = []" and "dget (read_destroy_fails d) (str_int vmid) = None"
  shows "let s1 = record_destroy_fail vmid b1 t1 d; s2 = record_destroy_fail vmid b2 t2 (snd s1);
             s3 = record_destroy_fail vmid b3 t3 (snd s2); d3 = snd s3
    in fst s1 = (1, False) \<and> fst s2 = (2, False) \<and> fst s3 = (3, True)
     \<and> read_orphans (snd s2) = read_orphans d
     \<and> filter (\<lambda>e. or_vmid e = vmid) (read_orphans d3) = [\<lparr>or_vmid = vmid, or_bus = b3, or_ts = trunc t3\<rparr>]
     \<and> filter (\<lambda>e. or_vmid e \<noteq> vmid) (read_orphans d3) = filter (\<lambda>e. or_vmid e \<noteq> vmid) (read_orphans d)
     \<and> (\<forall>w. dget (read_destroy_fails d3) (str_int w) =
            (if w = vmid then None else dget (read_destroy_fails d) (str_int w)))"
proof -
  have f: "faults (save_destroy_fails x y) = []" if "faults y = []" for x y using that by simp
  show ?thesis
    using assms
    by (simp add: record_destroy_fail_def DESTROY_MAX_FAILS_def add_orphan_vm_def Let_def disk_simps)
qed

section \<open>The kernel-log matcher\<close>

lemma dget_count_line:
  "dget (count_line l errs) bus =
     (if match_usb_error (lower l) = Some bus
      then Some ((case dget errs bus of None \<Rightarrow> 0 | Some n \<Rightarrow> n) + 1) else dget errs bus)"
  by (auto simp: count_line_def split: option.splits)

lemma dget_count_fold:
  "dget (fold count_line ls errs) bus =
     (let n = length (filter (\<lambda>l. match_usb_error (lower l) = Some bus) ls)
      in if n = 0 then dget errs bus
         else Some ((case dget errs bus of None \<Rightarrow> 0 | Some m \<Rightarrow> m) + n))"
  by (induction ls arbitrary: errs) (simp_all add: dget_count_line Let_def split: option.splits)

lemma wfd_count_errors: "wfd errs \<Longrightarrow> wfd (fold count_line ls errs)"
  by (induction ls arbitrary: errs) (auto simp: count_line_def split: option.splits)

lemma dget_noisy_fold:
  assumes "faults d = []" "wfd errs"
  shows "dget (read_quarantine (fold (quarantine_one_noisy watched reason now) errs d)) bus =
    (case dget errs bus of
       None \<Rightarrow> dget (read_quarantine d) bus
     | Some n \<Rightarrow>
         if 3 \<le> n \<and> watched bus
            \<and> \<not> (case dget (read_quarantine d) bus of None \<Rightarrow> False | Some e \<Rightarrow> sidelined e)
         then Some (strike_entry (dget (read_quarantine d) bus) (reason n) now)
         else dget (read_quarantine d) bus)"
  using assms
proof (induction errs arbitrary: d)
  case (Cons e errs)
  obtain b n where e: "e = (b, n)" by force
  let ?d = "quarantine_one_noisy watched reason now (b, n) d"
  have f: "faults ?d = []" using Cons.prems(1) by (simp add: quarantine_one_noisy_def)
  have one: "dget (read_quarantine ?d) x =
      (if x = b \<and> 3 \<le> n \<and> watched b
          \<and> \<not> (case dget (read_quarantine d) b of None \<Rightarrow> False | Some e \<Rightarrow> sidelined e)
       then Some (strike_entry (dget (read_quarantine d) b) (reason n) now)
       else dget (read_quarantine d) x)" for x
    using Cons.prems(1)
    by (auto simp: quarantine_one_noisy_def DMESG_USB_QUARANTINE_MIN_def dget_quarantine_bus
        sidelined_def not_less Let_def split: option.splits)
  have "dget errs b = None" using Cons.prems(2) by (auto simp: e map_of_eq_None_iff)
  with Cons.IH [OF f] Cons.prems(2) show ?case
    by (cases "bus = b"; cases "dget errs bus") (simp_all add: one e)
qed simp

text \<open>
  The kernel log quarantines a bus exactly when at least three of its lines report a USB
  error on it, the bus is one the host watches, and it is not sidelined already; every other
  bus keeps its entry.
\<close>

theorem noisy_buses_quarantined:
  assumes "faults d = []"
  shows "dget (read_quarantine (quarantine_noisy watched reason now (count_usb_errors lines) d)) bus =
    (let n = length (filter (\<lambda>l. match_usb_error (lower l) = Some bus) lines);
         old = dget (read_quarantine d) bus
     in if 3 \<le> n \<and> watched bus \<and> \<not> (case old of None \<Rightarrow> False | Some e \<Rightarrow> sidelined e)
        then Some (strike_entry old (reason n) now) else old)"
proof -
  have "wfd (count_usb_errors lines)" by (simp add: count_usb_errors_def wfd_count_errors)
  then show ?thesis
    using assms
    by (simp add: quarantine_noisy_def dget_noisy_fold) (simp add: count_usb_errors_def dget_count_fold Let_def)
qed

section \<open>Concrete inputs\<close>

lemma empty_disk_reads [simp]:
  "faults empty_disk = []" "read_quarantine empty_disk = []" "read_destroy_fails empty_disk = []"
  "read_orphans empty_disk = []" "load_usb_state empty_disk = new_usb_state"
  by (simp_all add: empty_disk_def read_quarantine_def read_destroy_fails_def read_orphans_def
      load_usb_state_def)

theorem quarantine_escalates_witness:
  "\<exists>e. dget (read_quarantine (flaps ''3-1'' ''err'' 0 5 empty_disk)) ''3-1'' = Some e \<and> sidelined e"
  using quarantine_escalates [of empty_disk 0 "''3-1''" 5 "''err''"] by (auto split: option.splits)

theorem quarantine_permanent_stays_witness:
  "\<exists>e. dget (read_quarantine (recover_quarantine 99999 (save_quarantine
      [(''3-1'', strike_entry None ''x'' 0\<lparr>q_permanent := True\<rparr>)] empty_disk))) ''3-1'' = Some e"
  using quarantine_permanent_stays
    [of "save_quarantine [(''3-1'', strike_entry None ''x'' 0\<lparr>q_permanent := True\<rparr>)] empty_disk"
        "''3-1''" "strike_entry None ''x'' 0\<lparr>q_permanent := True\<rparr>" "[Sweep 99999]"]
  by simp

theorem destroy_fails_orphan_at_third_witness:
  "fst (record_destroy_fail 90001 ''1-1'' 30 (snd (record_destroy_fail 90001 ''1-1'' 20
      (snd (record_destroy_fail 90001 ''1-1'' 10 empty_disk))))) = (3, True)"
  using destroy_fails_orphan_at_third
    [of empty_disk 90001 "''1-1''" 10 "''1-1''" 20 "''1-1''" 30]
  by (simp add: Let_def)

theorem noisy_buses_quarantined_witness:
  "dget (read_quarantine (quarantine_noisy (\<lambda>_. True) (\<lambda>_. ''err'') 5 (count_usb_errors []) empty_disk)) ''3-1'' = None"
  using noisy_buses_quarantined [of empty_disk "\<lambda>_. True" "\<lambda>_. ''err''" 5 "[]" "''3-1''"] by simp

end
