(* ===== verification/Ghosts.thy ===== *)
theory Ghosts
  imports Quarantine
begin

text \<open>
  Dropping the VMs that no longer exist on the host: \<open>prune_ghost_vms\<close> of
  \<open>agent/src/usb_state_store.py\<close>, which edits the state document, the destroy-failure
  counters and the orphan registry.
\<close>

text \<open>
  The local test \<open>_gone\<close>. A key such as \<open>--5\<close> passes the digit test after its dashes are
  stripped but is not an integer, so the conversion raises.
\<close>

definition gone :: "int set \<Rightarrow> string \<Rightarrow> bool result" where
  "gone existing v =
     (if looks_numeric v
      then (case parse_int v of None \<Rightarrow> Inl ValueError | Some i \<Rightarrow> Inr (i \<notin> existing))
      else Inr False)"

fun filter_result :: "('a \<Rightarrow> bool result) \<Rightarrow> 'a list \<Rightarrow> 'a list result" where
  "filter_result f [] = Inr []"
| "filter_result f (x # xs) =
     rbind (f x) (\<lambda>b. rbind (filter_result f xs) (\<lambda>ys. Inr (if b then x # ys else ys)))"

definition key_int :: "string \<Rightarrow> int" where
  "key_int v = (case parse_int v of Some i \<Rightarrow> i | None \<Rightarrow> 0)"

text \<open>The four passes over the maps, with the VMIDs each one prunes.\<close>

definition prune_ghosts_st :: "int set \<Rightarrow> usb_state \<Rightarrow> (int set \<times> usb_state) result" where
  "prune_ghosts_st existing st =
     rbind (filter_result (\<lambda>p. gone existing (snd p)) (bus_to_vmid st)) (\<lambda>g1.
     let b1 = map fst g1;
         st1 = st\<lparr>bus_to_vmid := dpops b1 (bus_to_vmid st),
                  missing_since := dpops b1 (missing_since st),
                  vidpid_by_bus := dpops b1 (vidpid_by_bus st)\<rparr>
     in rbind (filter_result (\<lambda>p. gone existing (fst p)) (vmid_to_bus st1)) (\<lambda>g2.
     let b2 = map snd g2;
         st2 = st1\<lparr>vmid_to_bus := dpops (map fst g2) (vmid_to_bus st1),
                   missing_since := dpops b2 (missing_since st1),
                   vidpid_by_bus := dpops b2 (vidpid_by_bus st1)\<rparr>
     in rbind (filter_result (gone existing) (dkeys (vmid_to_image st2))) (\<lambda>g3.
     let st3 = st2\<lparr>vmid_to_image := dpops g3 (vmid_to_image st2)\<rparr>
     in rbind (filter_result (gone existing) (dkeys (post_prov_reboot st3))) (\<lambda>g4.
     let st4 = st3\<lparr>post_prov_reboot := dpops g4 (post_prov_reboot st3)\<rparr>
     in Inr (key_int ` set (map snd g1 @ map fst g2 @ g3 @ g4), st4)))))"

text \<open>
  The counters and the registry are cleared VM by VM; the source iterates over a set, here
  the VMIDs are taken in increasing order.
\<close>

definition forget_vm_files :: "int \<Rightarrow> disk \<Rightarrow> disk" where
  "forget_vm_files v d = remove_orphan_vm v (clear_destroy_fails v d)"

definition prune_ghost_vms :: "int set \<Rightarrow> disk \<Rightarrow> int list result \<times> disk" where
  "prune_ghost_vms existing d =
     (case prune_ghosts_st existing (load_usb_state d) of
        Inl e \<Rightarrow> (Inl e, d)
      | Inr (pruned, st) \<Rightarrow>
          (Inr (sorted_list_of_set pruned),
           if pruned \<noteq> {} then fold forget_vm_files (sorted_list_of_set pruned) (save_usb_state st d)
           else d))"

section \<open>What is pruned\<close>

lemma filter_result_Inr:
  "filter_result f xs = Inr ys \<Longrightarrow> ys = filter (\<lambda>x. f x = Inr True) xs \<and> (\<forall>x\<in>set xs. \<exists>b. f x = Inr b)"
  by (induction xs arbitrary: ys) (auto simp: rbind_def split: sum.splits if_splits)

lemma gone_True: "gone existing v = Inr True \<Longrightarrow> key_int v \<notin> existing"
  by (auto simp: gone_def key_int_def split: if_splits option.splits)

lemma gone_str_int [simp]: "gone existing (str_int i) = Inr (i \<notin> existing)"
  by (simp add: gone_def)

lemma dget_dpops_filter:
  "wfd m \<Longrightarrow> dget (dpops (map fst (filter P m)) m) k = Some v \<longleftrightarrow> dget m k = Some v \<and> \<not> P (k, v)"
  by (force simp: dget_in_set [symmetric] dest: eq_key_imp_eq_value)

lemma dget_dpops_keys:
  "dget (dpops (filter P (dkeys m)) m) k = (if P k then None else dget m k)"
  by (auto simp: map_of_eq_None_iff)

lemma prune_ghosts_st_Inr:
  assumes "prune_ghosts_st existing st = Inr (pruned, st')"
  shows "st' = st\<lparr>bus_to_vmid := bus_to_vmid st', vmid_to_bus := vmid_to_bus st',
      vmid_to_image := vmid_to_image st', post_prov_reboot := post_prov_reboot st',
      missing_since := missing_since st', vidpid_by_bus := vidpid_by_bus st'\<rparr>
   \<and> bus_to_vmid st' = dpops (map fst (filter (\<lambda>p. gone existing (snd p) = Inr True) (bus_to_vmid st))) (bus_to_vmid st)
   \<and> vmid_to_bus st' = dpops (map fst (filter (\<lambda>p. gone existing (fst p) = Inr True) (vmid_to_bus st))) (vmid_to_bus st)
   \<and> vmid_to_image st' = dpops (filter (\<lambda>v. gone existing v = Inr True) (dkeys (vmid_to_image st))) (vmid_to_image st)
   \<and> post_prov_reboot st' = dpops (filter (\<lambda>v. gone existing v = Inr True) (dkeys (post_prov_reboot st))) (post_prov_reboot st)
   \<and> finite pruned \<and> (\<forall>i\<in>pruned. i \<notin> existing)"
  using assms
  by (auto simp: prune_ghosts_st_def rbind_def Let_def gone_True split: sum.splits
      dest!: filter_result_Inr)

lemma prune_ghosts_st_reports:
  assumes "prune_ghosts_st existing st = Inr (pruned, st')" "gone existing v = Inr True"
    "(b, v) \<in> set (bus_to_vmid st) \<or> (v, b) \<in> set (vmid_to_bus st)"
  shows "key_int v \<in> pruned"
proof -
  obtain g1 g2 g3 g4 where g: "filter_result (\<lambda>p. gone existing (snd p)) (bus_to_vmid st) = Inr g1"
    "filter_result (\<lambda>p. gone existing (fst p)) (vmid_to_bus st) = Inr g2"
    "pruned = key_int ` set (map snd g1 @ map fst g2 @ g3 @ g4)"
    using assms(1) unfolding prune_ghosts_st_def rbind_def Let_def
    by (simp split: sum.splits) blast
  have "(b, v) \<in> set g1 \<or> (v, b) \<in> set g2"
    using assms(2,3) filter_result_Inr [OF g(1)] filter_result_Inr [OF g(2)] by simp
  then have "v \<in> set (map snd g1) \<or> v \<in> set (map fst g2)"
    by (auto intro: rev_image_eqI)
  then have "v \<in> set (map snd g1 @ map fst g2 @ g3 @ g4)" by auto
  then show ?thesis unfolding g(3) by (rule imageI)
qed

lemma prune_ghosts_st_none: "prune_ghosts_st existing st = Inr ({}, st') \<Longrightarrow> st' = st"
  by (auto simp: prune_ghosts_st_def rbind_def Let_def split: sum.splits)

lemma forget_vm_files_simps [simp]:
  assumes "faults d = []"
  shows "faults (forget_vm_files v d) = []" "load_usb_state (forget_vm_files v d) = load_usb_state d"
    "read_orphans (forget_vm_files v d) = filter (\<lambda>e. or_vmid e \<noteq> v) (read_orphans d)"
    "read_destroy_fails (forget_vm_files v d) = dpop (str_int v) (read_destroy_fails d)"
  using assms by (simp_all add: forget_vm_files_def remove_orphan_vm_def clear_destroy_fails_def disk_simps)

lemma fold_forget_vm_files:
  assumes "faults d = []"
  shows "faults (fold forget_vm_files vs d) = []
    \<and> load_usb_state (fold forget_vm_files vs d) = load_usb_state d
    \<and> read_orphans (fold forget_vm_files vs d) = filter (\<lambda>e. or_vmid e \<notin> set vs) (read_orphans d)
    \<and> read_destroy_fails (fold forget_vm_files vs d) = dpops (map str_int vs) (read_destroy_fails d)"
  using assms
proof (induction vs arbitrary: d)
  case (Cons v vs)
  then show ?case by (auto intro: filter_cong)
qed (simp add: filter_id_conv)

text \<open>
  A completed pruning removes from the bus, VM, image and settle-reboot maps exactly the
  entries of numeric VMIDs the host does not have, whichever side of a half-cleared
  assignment they were stranded on, and nothing else. Every VMID removed from the two
  assignment maps is reported, no reported VMID exists on the host, and the reported VMs
  also lose their orphan entries and destroy-failure counters while the others keep theirs.
\<close>

theorem prune_ghosts_exact:
  assumes "prune_ghost_vms existing d = (Inr pruned, d')" and "faults d = []"
    and "wfd (bus_to_vmid (load_usb_state d))" and "wfd (vmid_to_bus (load_usb_state d))"
  shows "let st = load_usb_state d; st' = load_usb_state d' in
      (\<forall>b v. dget (bus_to_vmid st') b = Some v \<longleftrightarrow> dget (bus_to_vmid st) b = Some v \<and> gone existing v \<noteq> Inr True)
    \<and> (\<forall>v b. dget (vmid_to_bus st') v = Some b \<longleftrightarrow> dget (vmid_to_bus st) v = Some b \<and> gone existing v \<noteq> Inr True)
    \<and> (\<forall>v. dget (vmid_to_image st') v = (if gone existing v = Inr True then None else dget (vmid_to_image st) v))
    \<and> (\<forall>v. dget (post_prov_reboot st') v = (if gone existing v = Inr True then None else dget (post_prov_reboot st) v))
    \<and> set pruned \<inter> existing = {}
    \<and> (\<forall>b v. dget (bus_to_vmid st) b = Some v \<and> gone existing v = Inr True \<longrightarrow> key_int v \<in> set pruned)
    \<and> read_orphans d' = filter (\<lambda>e. or_vmid e \<notin> set pruned) (read_orphans d)
    \<and> (\<forall>v. dget (read_destroy_fails d') (str_int v) =
           (if v \<in> set pruned then None else dget (read_destroy_fails d) (str_int v)))"
proof -
  let ?st = "load_usb_state d"
  obtain ps st' where p: "prune_ghosts_st existing ?st = Inr (ps, st')"
    and pr: "pruned = sorted_list_of_set ps"
    and d': "d' = (if ps \<noteq> {} then fold forget_vm_files pruned (save_usb_state st' d) else d)"
    using assms(1) by (auto simp: prune_ghost_vms_def split: sum.splits)
  note st' = prune_ghosts_st_Inr [OF p]
  then have set_pr: "set pruned = ps" by (simp add: pr)
  have l: "load_usb_state d' = st'"
    and orph: "read_orphans d' = filter (\<lambda>e. or_vmid e \<notin> set pruned) (read_orphans d)"
    and fails: "read_destroy_fails d' = dpops (map str_int pruned) (read_destroy_fails d)"
    using assms(2) fold_forget_vm_files [of "save_usb_state st' d" pruned]
      prune_ghosts_st_none [of existing ?st st'] p
    by (auto simp: d' pr disk_simps)
  have b2v: "dget (bus_to_vmid st') b = Some v \<longleftrightarrow> dget (bus_to_vmid ?st) b = Some v \<and> gone existing v \<noteq> Inr True" for b v
    using dget_dpops_filter [OF assms(3), of "\<lambda>p. gone existing (snd p) = Inr True" b v] st' by simp
  have v2b: "dget (vmid_to_bus st') v = Some b \<longleftrightarrow> dget (vmid_to_bus ?st) v = Some b \<and> gone existing v \<noteq> Inr True" for b v
    using dget_dpops_filter [OF assms(4), of "\<lambda>p. gone existing (fst p) = Inr True" v b] st' by simp
  have img: "dget (vmid_to_image st') v = (if gone existing v = Inr True then None else dget (vmid_to_image ?st) v)"
    "dget (post_prov_reboot st') v = (if gone existing v = Inr True then None else dget (post_prov_reboot ?st) v)" for v
    using st' by (simp_all only: dget_dpops_keys)
  have rep: "\<forall>b v. dget (bus_to_vmid ?st) b = Some v \<and> gone existing v = Inr True \<longrightarrow> key_int v \<in> set pruned"
    "set pruned \<inter> existing = {}"
    using st' set_pr prune_ghosts_st_reports [OF p] by (auto dest: map_of_SomeD)
  have "dget (read_destroy_fails d') (str_int v) =
           (if v \<in> set pruned then None else dget (read_destroy_fails d) (str_int v))" for v
    by (simp add: fails image_iff)
  then show ?thesis
    unfolding Let_def l using b2v v2b img rep orph by blast
qed

theorem prune_ghosts_exact_witness:
  "dget (bus_to_vmid (load_usb_state (snd (prune_ghost_vms {90002}
      (set_assignment 90001 ''1-4'' 1 0 (set_assignment 90002 ''1-3'' 1 0 empty_disk)))))) ''1-4'' = None"
proof -
  let ?d = "set_assignment 90001 ''1-4'' 1 0 (set_assignment 90002 ''1-3'' 1 0 empty_disk)"
  have f: "faults ?d = []" by (simp add: set_assignment_def)
  have l: "bus_to_vmid (load_usb_state ?d) = [(''1-3'', str_int 90002), (''1-4'', str_int 90001)]"
     "vmid_to_bus (load_usb_state ?d) = [(str_int 90002, ''1-3''), (str_int 90001, ''1-4'')]"
     "vmid_to_image (load_usb_state ?d) = [(str_int 90002, 1), (str_int 90001, 1)]"
     "dkeys (post_prov_reboot (load_usb_state ?d)) = [str_int 90002, str_int 90001]"
    by (simp_all add: set_assignment_def set_assignment_st_def stamp_post_prov_reboot_def
        new_usb_state_def Let_def)
  obtain ps st' where "prune_ghosts_st {90002} (load_usb_state ?d) = Inr (ps, st')"
    by (simp add: prune_ghosts_st_def l Let_def)
  then obtain pr d' where r: "prune_ghost_vms {90002} ?d = (Inr pr, d')"
    by (simp add: prune_ghost_vms_def)
  have w: "wfd (bus_to_vmid (load_usb_state ?d))" "wfd (vmid_to_bus (load_usb_state ?d))"
    by (simp_all add: l)
  from prune_ghosts_exact [OF r f w]
  have "dget (bus_to_vmid (load_usb_state d')) ''1-4'' \<noteq> Some v" if "gone {90002} v = Inr True" for v
    using that by (auto simp: Let_def)
  moreover have "dget (bus_to_vmid (load_usb_state d')) ''1-4'' = Some v \<Longrightarrow> v = str_int 90001" for v
    using prune_ghosts_exact [OF r f w] by (auto simp: Let_def l)
  ultimately have "dget (bus_to_vmid (load_usb_state d')) ''1-4'' = None"
    by (cases "dget (bus_to_vmid (load_usb_state d')) ''1-4''") (simp, fastforce)
  then show ?thesis by (simp add: r)
qed

end
