(* ===== verification/Batch.thy ===== *)
theory Batch
  imports PyValue
begin

text \<open>
  The tracker of the fleet reclone in \<open>agent/src/usb_provision.py\<close> (\<open>_reclone_state\<close> and
  \<open>_reclone_stop\<close>): its mutators, the abstract batch they implement, and what holds in every
  state they can reach. Times are arguments.
\<close>

definition RECLONE_STALE_S :: rat where "RECLONE_STALE_S = 3600"

section \<open>State\<close>

record done_entry =
  de_vmid :: "int option"
  de_name :: string
  de_ok :: bool
  de_at :: rat

record last_run =
  lr_at :: rat
  lr_completed :: int
  lr_failed :: int
  lr_type :: string

record batch =
  b_status :: string
  b_current :: "int option"
  b_phase :: string
  b_total :: int
  b_completed :: int
  b_failed :: int
  b_started :: rat
  b_type :: string
  b_log :: "done_entry list"
  b_names :: "(int, string) dict"
  b_ended :: "rat option"
  b_last :: "last_run option"

text \<open>\<open>None\<close> is the empty dictionary.\<close>

record tracker =
  tr_batch :: "batch option"
  tr_stop :: bool

definition no_batch :: tracker where
  "no_batch = \<lparr>tr_batch = None, tr_stop = False\<rparr>"

definition running :: "tracker \<Rightarrow> bool" where
  "running t = (case tr_batch t of None \<Rightarrow> False | Some b \<Rightarrow> b_status b = ''running'')"

section \<open>Operations\<close>

definition clear_reclone_state :: "rat \<Rightarrow> tracker \<Rightarrow> bool \<times> tracker" where
  "clear_reclone_state now t =
     (if (case tr_batch t of None \<Rightarrow> False
          | Some b \<Rightarrow> b_status b = ''running'' \<and> now - b_started b < RECLONE_STALE_S)
      then (False, t) else (True, t\<lparr>tr_batch := None\<rparr>))"

definition start_reclone_batch :: "int \<Rightarrow> string \<Rightarrow> rat \<Rightarrow> tracker \<Rightarrow> bool \<times> tracker" where
  "start_reclone_batch n rtype now t =
     (if running t then (False, t)
      else (True, \<lparr>tr_batch = Some \<lparr>b_status = ''running'', b_current = None, b_phase = [], b_total = n,
              b_completed = 0, b_failed = 0, b_started = now, b_type = (if rtype = [] then ''manual'' else rtype),
              b_log = [], b_names = [], b_ended = None, b_last = None\<rparr>,
            tr_stop = False\<rparr>))"

definition request_reclone_stop :: "tracker \<Rightarrow> bool \<times> tracker" where
  "request_reclone_stop t = (if running t then (True, t\<lparr>tr_stop := True\<rparr>) else (False, t))"

definition reclone_stop_requested :: "tracker \<Rightarrow> bool" where
  "reclone_stop_requested t = tr_stop t"

definition on_batch :: "(batch \<Rightarrow> batch) \<Rightarrow> tracker \<Rightarrow> tracker" where
  "on_batch f t = t\<lparr>tr_batch := map_option f (tr_batch t)\<rparr>"

definition mark_reclone_progress :: "int \<Rightarrow> string \<Rightarrow> string \<Rightarrow> tracker \<Rightarrow> tracker" where
  "mark_reclone_progress vid phase name t =
     (if \<not> running t then t
      else on_batch (\<lambda>b. b\<lparr>b_current := Some vid, b_phase := phase,
                           b_names := (if name = [] then b_names b else dset vid name (b_names b))\<rparr>) t)"

definition log_entry :: "int \<Rightarrow> bool \<Rightarrow> string \<Rightarrow> rat \<Rightarrow> batch \<Rightarrow> done_entry" where
  "log_entry vid ok name now b =
     \<lparr>de_vmid = Some vid,
      de_name = (if name \<noteq> [] then name else case dget (b_names b) vid of None \<Rightarrow> [] | Some s \<Rightarrow> s),
      de_ok = ok, de_at = now\<rparr>"

definition mark_reclone_vm_done :: "int \<Rightarrow> bool \<Rightarrow> string \<Rightarrow> rat \<Rightarrow> tracker \<Rightarrow> tracker" where
  "mark_reclone_vm_done vid ok name now t =
     (if \<not> running t then t
      else on_batch (\<lambda>b. b\<lparr>b_log := b_log b @ [log_entry vid ok name now b],
                           b_completed := b_completed b + (if ok then 1 else 0),
                           b_failed := b_failed b + (if ok then 0 else 1),
                           b_current := (if b_current b = Some vid then None else b_current b),
                           b_phase := (if b_current b = Some vid then [] else b_phase b)\<rparr>) t)"

definition end_reclone_batch :: "string \<Rightarrow> rat \<Rightarrow> tracker \<Rightarrow> tracker" where
  "end_reclone_batch status now t =
     on_batch (\<lambda>b. b\<lparr>b_status := (if status = [] then ''completed'' else status), b_ended := Some now,
                     b_last := Some \<lparr>lr_at = now, lr_completed = b_completed b, lr_failed = b_failed b, lr_type = b_type b\<rparr>,
                     b_names := []\<rparr>) t"

section \<open>What a batch promises\<close>

text \<open>
  The abstract batch: idle, running with the verdicts so far, or over with its verdicts. The
  stop flag belongs to the batch that is running or was last started.
\<close>

datatype spec_batch = Idle | Running int rat "(int \<times> bool) list" | Over string "(int \<times> bool) list"

definition verdicts :: "batch \<Rightarrow> (int \<times> bool) list" where
  "verdicts b = List.map_filter (\<lambda>e. map_option (\<lambda>v. (v, de_ok e)) (de_vmid e)) (b_log b)"

definition abs_batch :: "tracker \<Rightarrow> spec_batch" where
  "abs_batch t =
     (case tr_batch t of
        None \<Rightarrow> Idle
      | Some b \<Rightarrow> if b_status b = ''running'' then Running (b_total b) (b_started b) (verdicts b)
                 else Over (b_status b) (verdicts b))"

fun spec_start :: "int \<Rightarrow> rat \<Rightarrow> spec_batch \<Rightarrow> bool \<times> spec_batch" where
  "spec_start n now (Running m s vs) = (False, Running m s vs)"
| "spec_start n now b = (True, Running n now [])"

fun spec_done :: "int \<Rightarrow> bool \<Rightarrow> spec_batch \<Rightarrow> spec_batch" where
  "spec_done vid ok (Running n s vs) = Running n s (vs @ [(vid, ok)])"
| "spec_done vid ok b = b"

fun spec_end :: "string \<Rightarrow> spec_batch \<Rightarrow> spec_batch" where
  "spec_end status Idle = Idle"
| "spec_end status (Running n s vs) = Over status vs"
| "spec_end status (Over st vs) = Over status vs"

fun spec_clear :: "rat \<Rightarrow> spec_batch \<Rightarrow> bool \<times> spec_batch" where
  "spec_clear now (Running n s vs) = (if now < s + 3600 then (False, Running n s vs) else (True, Idle))"
| "spec_clear now b = (True, Idle)"

section \<open>Refinement\<close>

lemma verdicts_append [simp]:
  "List.map_filter f (xs @ ys) = List.map_filter f xs @ List.map_filter f ys"
  by (simp add: List.map_filter_def)

lemmas batch_ops = start_reclone_batch_def mark_reclone_progress_def mark_reclone_vm_done_def
  end_reclone_batch_def clear_reclone_state_def request_reclone_stop_def

lemma abs_start: "map_prod id abs_batch (start_reclone_batch n rtype now t) = spec_start n now (abs_batch t)"
  by (cases "tr_batch t") (auto simp: batch_ops abs_batch_def running_def verdicts_def List.map_filter_def)

lemma abs_done: "abs_batch (mark_reclone_vm_done vid ok name now t) = spec_done vid ok (abs_batch t)"
  by (cases "tr_batch t")
     (auto simp: batch_ops abs_batch_def running_def on_batch_def verdicts_def log_entry_def List.map_filter_def)

lemma abs_same:
  "abs_batch (mark_reclone_progress vid phase name t) = abs_batch t"
  "abs_batch (snd (request_reclone_stop t)) = abs_batch t"
  by (cases "tr_batch t"; auto simp: batch_ops abs_batch_def running_def on_batch_def verdicts_def)+

lemma abs_clear: "map_prod id abs_batch (clear_reclone_state now t) = spec_clear now (abs_batch t)"
  by (cases "tr_batch t") (auto simp: clear_reclone_state_def abs_batch_def RECLONE_STALE_S_def algebra_simps)

lemma abs_end:
  "status \<notin> {[], ''running''} \<Longrightarrow> abs_batch (end_reclone_batch status now t) = spec_end status (abs_batch t)"
  by (cases "tr_batch t") (auto simp: batch_ops abs_batch_def on_batch_def verdicts_def)

text \<open>
  C16: the tracker implements the abstract batch: one batch at a time (a start is refused while
  one runs), a verdict per finished VM in order, a terminal status at the end, and clearing
  refused to a running batch younger than an hour. Progress marks and stop requests do not
  show in it, and marks outside a batch are lost.
\<close>

theorem tracker_refines_batch:
  "map_prod id abs_batch (start_reclone_batch n rtype now t) = spec_start n now (abs_batch t)
   \<and> abs_batch (mark_reclone_vm_done vid ok name now t) = spec_done vid ok (abs_batch t)
   \<and> abs_batch (mark_reclone_progress vid phase name t) = abs_batch t
   \<and> map_prod id abs_batch (clear_reclone_state now t) = spec_clear now (abs_batch t)
   \<and> abs_batch (snd (request_reclone_stop t)) = abs_batch t
   \<and> (if status \<in> {[], ''running''} then True
      else abs_batch (end_reclone_batch status now t) = spec_end status (abs_batch t))"
  using abs_start abs_done abs_same abs_clear abs_end by auto

section \<open>Reachable states\<close>

inductive tracker_step :: "tracker \<Rightarrow> tracker \<Rightarrow> bool" where
  Start: "tracker_step t (snd (start_reclone_batch n rtype now t))"
| Stop: "tracker_step t (snd (request_reclone_stop t))"
| Progress: "tracker_step t (mark_reclone_progress vid phase name t)"
| Done: "tracker_step t (mark_reclone_vm_done vid ok name now t)"
| Finish: "status \<noteq> ''running'' \<Longrightarrow> tracker_step t (end_reclone_batch status now t)"
| Clear: "tracker_step t (snd (clear_reclone_state now t))"

definition tracker_ok :: "tracker \<Rightarrow> bool" where
  "tracker_ok t = (case tr_batch t of None \<Rightarrow> True | Some b \<Rightarrow>
     b_completed b = int (length (filter de_ok (b_log b)))
     \<and> b_failed b = int (length (filter (\<lambda>e. \<not> de_ok e) (b_log b)))
     \<and> list_all (\<lambda>e. de_vmid e \<noteq> None) (b_log b)
     \<and> (b_ended b = None \<longleftrightarrow> b_status b = ''running'')
     \<and> (case b_last b of None \<Rightarrow> b_status b = ''running''
        | Some r \<Rightarrow> b_status b \<noteq> ''running'' \<and> lr_completed r = b_completed b \<and> lr_failed r = b_failed b))"

lemma tracker_step_ok: "tracker_step t t' \<Longrightarrow> tracker_ok t \<Longrightarrow> tracker_ok t'"
  by (induction rule: tracker_step.induct)
     (auto simp: tracker_ok_def batch_ops on_batch_def running_def log_entry_def split: option.splits)

text \<open>
  C29: the books of a batch. In every state the mutators can reach from the empty tracker, the
  counters are the numbers of logged successes and failures, each log entry names its VM, an
  ended batch and only an ended batch has an end time and a last-run summary, and the summary
  shows its counters.
\<close>

theorem tracker_reachable_ok:
  assumes "tracker_step\<^sup>*\<^sup>* no_batch t"
  shows "tracker_ok t"
  using assms
  by (induction rule: rtranclp_induct) (auto simp: tracker_step_ok, simp add: tracker_ok_def no_batch_def)

theorem tracker_reachable_ok_witness:
  "tracker_ok (mark_reclone_vm_done 90001 True [] 5 (snd (start_reclone_batch 1 [] 4 no_batch)))"
proof -
  have "tracker_step\<^sup>*\<^sup>* no_batch (snd (start_reclone_batch 1 [] 4 no_batch))"
    by (rule r_into_rtranclp, rule tracker_step.Start)
  then have "tracker_step\<^sup>*\<^sup>* no_batch (mark_reclone_vm_done 90001 True [] 5 (snd (start_reclone_batch 1 [] 4 no_batch)))"
    by (rule rtranclp.rtrancl_into_rtrancl) (rule tracker_step.Done)
  then show ?thesis by (rule tracker_reachable_ok)
qed

end
