(* ===== verification/Ledger.thy ===== *)
theory Ledger
  imports PyValue
begin

text \<open>
  The ledger of long operations: the cache \<open>agent._cs_seen_cmds\<close> of
  \<open>agent/src/cs_commands.py\<close> together with the set of running tasks \<open>agent._cs_long_ops\<close> and
  the two slots of \<open>agent/src/cs_sim.py\<close>. The hub delivers a command again when it has not seen
  its result; the ledger decides whether that means the old reply, the recorded result, or a
  new task. Command ids are strings; times are arguments.
\<close>

section \<open>State\<close>

definition CS_CMD_DEDUP_TTL_S :: rat where "CS_CMD_DEDUP_TTL_S = 600"

type_synonym reply = "(string \<times> pyval) list"

record seen =
  se_ts :: rat
  se_accept :: reply
  se_task :: nat
  se_terminal :: "reply option"

text \<open>A task that is not over: what it was asked, when it was spawned, whether it got its turn.\<close>

record job =
  jb_task :: nat
  jb_action :: string
  jb_data :: "(string, pyval) dict"
  jb_cmd :: string
  jb_since :: rat
  jb_runs :: bool

record ledger =
  lg_seen :: "(string, seen) dict"
  lg_live :: "job list"
  lg_next :: nat

definition empty_ledger :: ledger where
  "empty_ledger = \<lparr>lg_seen = [], lg_live = [], lg_next = 0\<rparr>"

section \<open>Delivery\<close>

definition forget_old :: "rat \<Rightarrow> (string, seen) dict \<Rightarrow> (string, seen) dict" where
  "forget_old now d = filter (\<lambda>p. \<not> (CS_CMD_DEDUP_TTL_S < now - se_ts (snd p))) d"

definition is_live :: "nat \<Rightarrow> ledger \<Rightarrow> bool" where
  "is_live n L \<longleftrightarrow> n \<in> set (map jb_task (lg_live L))"

definition accepted :: "string \<Rightarrow> string \<Rightarrow> reply" where
  "accepted action cmd =
     [(''status'', PStr ''ACCEPTED''), (''message'', PStr (action @ '' accepted'')),
      (''cs_cmd_id'', PStr cmd), (''action'', PStr action)]"

definition spawn_job :: "rat \<Rightarrow> string \<Rightarrow> (string, pyval) dict \<Rightarrow> string \<Rightarrow> ledger \<Rightarrow> ledger" where
  "spawn_job now action data cmd L =
     \<lparr>lg_seen = dset cmd \<lparr>se_ts = now, se_accept = accepted action cmd, se_task = lg_next L, se_terminal = None\<rparr> (lg_seen L),
      lg_live = lg_live L @ [\<lparr>jb_task = lg_next L, jb_action = action, jb_data = data, jb_cmd = cmd,
                              jb_since = now, jb_runs = False\<rparr>],
      lg_next = lg_next L + 1\<rparr>"

definition deliver :: "rat \<Rightarrow> string \<Rightarrow> (string, pyval) dict \<Rightarrow> string \<Rightarrow> ledger \<Rightarrow> reply \<times> ledger" where
  "deliver now action data cmd L0 =
     (let L = L0\<lparr>lg_seen := forget_old now (lg_seen L0)\<rparr> in
      case dget (lg_seen L) cmd of
        Some e \<Rightarrow>
          if is_live (se_task e) L then (se_accept e, L)
          else (case se_terminal e of
                  Some r \<Rightarrow> (r, L)
                | None \<Rightarrow> (accepted action cmd, spawn_job now action data cmd L))
      | None \<Rightarrow> (accepted action cmd, spawn_job now action data cmd L))"

section \<open>The life of a task\<close>

text \<open>The operations that pace themselves and take no slot.\<close>

definition BATCH_LONG_OPS :: "string set" where
  "BATCH_LONG_OPS = {''proxmox_reclone_all'', ''delete_vms''}"

definition LONG_OP_SLOTS :: nat where "LONG_OP_SLOTS = 2"

definition takes_slot :: "job \<Rightarrow> bool" where
  "takes_slot j \<longleftrightarrow> jb_action j \<notin> BATCH_LONG_OPS"

definition slots_taken :: "ledger \<Rightarrow> nat" where
  "slots_taken L = length (filter (\<lambda>j. jb_runs j \<and> takes_slot j) (lg_live L))"

definition may_run :: "job \<Rightarrow> ledger \<Rightarrow> bool" where
  "may_run j L \<longleftrightarrow> \<not> jb_runs j \<and> (takes_slot j \<longrightarrow> slots_taken L < LONG_OP_SLOTS)"

definition set_running :: "nat \<Rightarrow> ledger \<Rightarrow> ledger" where
  "set_running n L = L\<lparr>lg_live := map (\<lambda>j. if jb_task j = n then j\<lparr>jb_runs := True\<rparr> else j) (lg_live L)\<rparr>"

text \<open>What \<open>_terminal\<close> records, and the done callback that drops a task.\<close>

definition result_reply :: "string \<Rightarrow> string \<Rightarrow> string \<Rightarrow> string \<Rightarrow> reply" where
  "result_reply cmd action status msg =
     [(''status'', PStr (if status = ''completed'' then ''SUCCESS'' else ''ERROR'')), (''message'', PStr msg),
      (''cs_cmd_id'', PStr cmd), (''action'', PStr action)]"

definition note_terminal :: "string \<Rightarrow> reply \<Rightarrow> ledger \<Rightarrow> ledger" where
  "note_terminal cmd r L =
     (case dget (lg_seen L) cmd of
        None \<Rightarrow> L
      | Some e \<Rightarrow> L\<lparr>lg_seen := dset cmd (e\<lparr>se_terminal := Some r\<rparr>) (lg_seen L)\<rparr>)"

definition end_job :: "nat \<Rightarrow> ledger \<Rightarrow> ledger" where
  "end_job n L = L\<lparr>lg_live := filter (\<lambda>j. jb_task j \<noteq> n) (lg_live L)\<rparr>"

section \<open>Steps\<close>

text \<open>
  What happens to the ledger, in any order: time passes, a command is delivered, a waiting task
  gets its turn, a task reports its result, a task ends (with or without having reported).
\<close>

inductive ledger_step :: "ledger \<times> rat \<Rightarrow> ledger \<times> rat \<Rightarrow> bool" where
  Pass: "t \<le> t' \<Longrightarrow> ledger_step (L, t) (L, t')"
| Deliver: "ledger_step (L, t) (snd (deliver t action data cmd L), t)"
| Turn: "j \<in> set (lg_live L) \<Longrightarrow> may_run j L \<Longrightarrow> ledger_step (L, t) (set_running (jb_task j) L, t)"
| Report: "j \<in> set (lg_live L) \<Longrightarrow> ledger_step (L, t) (note_terminal (jb_cmd j) r L, t)"
| End: "ledger_step (L, t) (end_job n L, t)"

section \<open>What every reachable ledger satisfies\<close>

definition ledger_ok :: "ledger \<times> rat \<Rightarrow> bool" where
  "ledger_ok s = (case s of (L, t) \<Rightarrow>
     wfd (lg_seen L) \<and> distinct (map jb_task (lg_live L))
     \<and> list_all (\<lambda>j. jb_task j < lg_next L) (lg_live L)
     \<and> list_all (\<lambda>e. se_task e < lg_next L) (dvals (lg_seen L))
     \<and> slots_taken L \<le> LONG_OP_SLOTS
     \<and> list_all (\<lambda>j. jb_since j + CS_CMD_DEDUP_TTL_S < t
         \<or> (case dget (lg_seen L) (jb_cmd j) of None \<Rightarrow> False
            | Some e \<Rightarrow> se_task e = jb_task j \<and> se_ts e = jb_since j)) (lg_live L))"

lemma ledger_okI:
  assumes "wfd (lg_seen L)" "distinct (map jb_task (lg_live L))"
    and "\<And>j. j \<in> set (lg_live L) \<Longrightarrow> jb_task j < lg_next L"
    and "\<And>c e. dget (lg_seen L) c = Some e \<Longrightarrow> se_task e < lg_next L"
    and "slots_taken L \<le> LONG_OP_SLOTS"
    and "\<And>j. j \<in> set (lg_live L) \<Longrightarrow> \<not> jb_since j + CS_CMD_DEDUP_TTL_S < t \<Longrightarrow>
           \<exists>e. dget (lg_seen L) (jb_cmd j) = Some e \<and> se_task e = jb_task j \<and> se_ts e = jb_since j"
  shows "ledger_ok (L, t)"
proof -
  have "list_all (\<lambda>e. se_task e < lg_next L) (dvals (lg_seen L))"
    using assms(4) dget_in_set [OF assms(1)] by (fastforce simp: list_all_iff)
  moreover have "list_all (\<lambda>j. jb_task j < lg_next L) (lg_live L)"
    using assms(3) by (simp add: list_all_iff)
  moreover have "list_all (\<lambda>j. jb_since j + CS_CMD_DEDUP_TTL_S < t
      \<or> (case dget (lg_seen L) (jb_cmd j) of None \<Rightarrow> False
         | Some e \<Rightarrow> se_task e = jb_task j \<and> se_ts e = jb_since j)) (lg_live L)"
    unfolding list_all_iff
  proof
    fix j assume "j \<in> set (lg_live L)"
    from assms(6) [OF this]
    show "jb_since j + CS_CMD_DEDUP_TTL_S < t
      \<or> (case dget (lg_seen L) (jb_cmd j) of None \<Rightarrow> False
         | Some e \<Rightarrow> se_task e = jb_task j \<and> se_ts e = jb_since j)"
      by (cases "jb_since j + CS_CMD_DEDUP_TTL_S < t") auto
  qed
  ultimately show ?thesis using assms(1,2,5) by (simp add: ledger_ok_def)
qed

lemma ledger_okD:
  assumes "ledger_ok (L, t)"
  shows "wfd (lg_seen L)" "distinct (map jb_task (lg_live L))"
    and "j \<in> set (lg_live L) \<Longrightarrow> jb_task j < lg_next L"
    and "dget (lg_seen L) c = Some e \<Longrightarrow> se_task e < lg_next L"
    and "slots_taken L \<le> LONG_OP_SLOTS"
    and "j \<in> set (lg_live L) \<Longrightarrow> \<not> jb_since j + CS_CMD_DEDUP_TTL_S < t \<Longrightarrow>
           \<exists>e. dget (lg_seen L) (jb_cmd j) = Some e \<and> se_task e = jb_task j \<and> se_ts e = jb_since j"
proof -
  show "wfd (lg_seen L)" "distinct (map jb_task (lg_live L))" "slots_taken L \<le> LONG_OP_SLOTS"
    using assms by (simp_all add: ledger_ok_def)
  show "jb_task j < lg_next L" if "j \<in> set (lg_live L)"
    using assms that by (auto simp: ledger_ok_def list_all_iff)
  show "se_task e < lg_next L" if "dget (lg_seen L) c = Some e"
    using assms map_of_SomeD [OF that] by (force simp: ledger_ok_def list_all_iff)
  show "\<exists>e. dget (lg_seen L) (jb_cmd j) = Some e \<and> se_task e = jb_task j \<and> se_ts e = jb_since j"
    if j: "j \<in> set (lg_live L)" "\<not> jb_since j + CS_CMD_DEDUP_TTL_S < t"
  proof (cases "dget (lg_seen L) (jb_cmd j)")
    case None
    with assms j show ?thesis by (force simp: ledger_ok_def list_all_iff)
  next
    case (Some e)
    with assms j show ?thesis by (force simp: ledger_ok_def list_all_iff)
  qed
qed

lemma forget_old_get:
  "wfd d \<Longrightarrow> dget (forget_old now d) c =
     (case dget d c of None \<Rightarrow> None | Some e \<Rightarrow> if CS_CMD_DEDUP_TTL_S < now - se_ts e then None else Some e)"
  by (simp add: forget_old_def dget_filter_items split: option.splits)

lemma forget_ok:
  assumes "ledger_ok (L, t)"
  shows "ledger_ok (L\<lparr>lg_seen := forget_old t (lg_seen L)\<rparr>, t)"
proof (rule ledger_okI, goal_cases)
  note ok = ledger_okD [OF assms]
  case 1
  show ?case using ok(1) by (simp add: forget_old_def)
next
  case 2
  show ?case using ledger_okD(2) [OF assms] by simp
next
  case (3 j)
  then show ?case using ledger_okD(3) [OF assms] by simp
next
  case (4 c e)
  then show ?case using ledger_okD(4) [OF assms]
    by (auto simp: forget_old_get [OF ledger_okD(1) [OF assms]] split: option.splits if_splits)
next
  case 5
  show ?case using ledger_okD(5) [OF assms] by (simp add: slots_taken_def)
next
  case (6 j)
  then show ?case using ledger_okD(6) [OF assms, of j]
    by (auto simp: forget_old_get [OF ledger_okD(1) [OF assms]])
qed

text \<open>A spawned task takes the entry of its command; only a dead or expired one had it.\<close>

lemma spawn_ok:
  assumes L: "ledger_ok (L, t)"
    and free: "\<And>e. dget (lg_seen L) cmd = Some e \<Longrightarrow> \<not> is_live (se_task e) L"
  shows "ledger_ok (spawn_job t action data cmd L, t)"
proof (rule ledger_okI)
  note ok = ledger_okD [OF L]
  show "wfd (lg_seen (spawn_job t action data cmd L))" using ok(1) by (simp add: spawn_job_def)
  show "distinct (map jb_task (lg_live (spawn_job t action data cmd L)))"
    using ok(2) ok(3) by (auto simp: spawn_job_def dest!: ok(3))
  show "jb_task j < lg_next (spawn_job t action data cmd L)"
    if "j \<in> set (lg_live (spawn_job t action data cmd L))" for j
    using that ok(3) by (force simp: spawn_job_def)
  show "se_task e < lg_next (spawn_job t action data cmd L)"
    if "dget (lg_seen (spawn_job t action data cmd L)) c = Some e" for c e
    using that ok(4) by (force simp: spawn_job_def split: if_splits)
  show "slots_taken (spawn_job t action data cmd L) \<le> LONG_OP_SLOTS"
    using ok(5) by (simp add: slots_taken_def spawn_job_def)
  show "\<exists>e. dget (lg_seen (spawn_job t action data cmd L)) (jb_cmd j) = Some e \<and> se_task e = jb_task j \<and> se_ts e = jb_since j"
    if j: "j \<in> set (lg_live (spawn_job t action data cmd L))" "\<not> jb_since j + CS_CMD_DEDUP_TTL_S < t" for j
  proof (cases "j \<in> set (lg_live L)")
    case True
    then obtain e where e: "dget (lg_seen L) (jb_cmd j) = Some e" "se_task e = jb_task j" "se_ts e = jb_since j"
      using ok(6) j(2) by blast
    moreover have "jb_cmd j \<noteq> cmd" using free e True by (auto simp: is_live_def)
    ultimately show ?thesis by (simp add: spawn_job_def)
  next
    case False
    with j(1) show ?thesis by (simp add: spawn_job_def)
  qed
qed

lemma deliver_ok:
  assumes "ledger_ok (L, t)"
  shows "ledger_ok (snd (deliver t action data cmd L), t)"
proof -
  let ?L = "L\<lparr>lg_seen := forget_old t (lg_seen L)\<rparr>"
  have "ledger_ok (spawn_job t action data cmd ?L, t)"
    if "\<And>e. dget (lg_seen ?L) cmd = Some e \<Longrightarrow> \<not> is_live (se_task e) ?L"
    by (rule spawn_ok [OF forget_ok [OF assms] that])
  with forget_ok [OF assms] show ?thesis
    by (cases "dget (lg_seen ?L) cmd") (simp_all add: deliver_def Let_def split: option.splits)
qed

lemma take_turn:
  assumes "distinct (map jb_task js)" "j \<in> set js"
  shows "length (filter (\<lambda>i. jb_runs i \<and> takes_slot i) (map (\<lambda>i. if jb_task i = jb_task j then i\<lparr>jb_runs := True\<rparr> else i) js))
    \<le> length (filter (\<lambda>i. jb_runs i \<and> takes_slot i) js) + (if takes_slot j then 1 else 0)"
  using assms
proof (induction js)
  case (Cons i js)
  let ?f = "\<lambda>i. if jb_task i = jb_task j then i\<lparr>jb_runs := True\<rparr> else i"
  show ?case
  proof (cases "i = j")
    case True
    with Cons.prems(1) have "map (\<lambda>i. if jb_task i = jb_task j then i\<lparr>jb_runs := True\<rparr> else i) js = js"
      by (intro map_idI) (auto simp: image_iff)
    with True show ?thesis by (simp add: takes_slot_def del: filter_map length_filter_map)
  next
    case False
    with Cons.prems have "jb_task i \<noteq> jb_task j" by (auto simp: image_iff)
    moreover from False Cons.prems have "length (filter (\<lambda>i. jb_runs i \<and> takes_slot i) (map ?f js))
        \<le> length (filter (\<lambda>i. jb_runs i \<and> takes_slot i) js) + (if takes_slot j then 1 else 0)"
      by (intro Cons.IH) auto
    ultimately show ?thesis
      by (cases "takes_slot j"; cases "jb_runs i \<and> takes_slot i") (auto simp del: filter_map length_filter_map)
  qed
qed simp

lemma turn_ok:
  assumes L: "ledger_ok (L, t)" and j: "j \<in> set (lg_live L)" "may_run j L"
  shows "ledger_ok (set_running (jb_task j) L, t)"
proof (rule ledger_okI)
  note ok = ledger_okD [OF L]
  let ?f = "\<lambda>i. if jb_task i = jb_task j then i\<lparr>jb_runs := True\<rparr> else i"
  have t: "map jb_task (map ?f js) = map jb_task js" for js by (induction js) auto
  show "wfd (lg_seen (set_running (jb_task j) L))" using ok(1) by (simp add: set_running_def)
  show "distinct (map jb_task (lg_live (set_running (jb_task j) L)))"
    using ok(2) t [of "lg_live L"] by (simp add: set_running_def del: map_map)
  show "jb_task i < lg_next (set_running (jb_task j) L)" if "i \<in> set (lg_live (set_running (jb_task j) L))" for i
    using that ok(3) [OF j(1)] by (auto simp: set_running_def dest: ok(3) split: if_splits)
  show "se_task e < lg_next (set_running (jb_task j) L)"
    if "dget (lg_seen (set_running (jb_task j) L)) c = Some e" for c e
    using that ok(4) by (simp add: set_running_def)
  show "slots_taken (set_running (jb_task j) L) \<le> LONG_OP_SLOTS"
    using take_turn [OF ok(2) j(1)] j(2) ok(5)
    by (auto simp: slots_taken_def set_running_def may_run_def split: if_splits)
  show "\<exists>e. dget (lg_seen (set_running (jb_task j) L)) (jb_cmd i) = Some e \<and> se_task e = jb_task i \<and> se_ts e = jb_since i"
    if "i \<in> set (lg_live (set_running (jb_task j) L))" "\<not> jb_since i + CS_CMD_DEDUP_TTL_S < t" for i
    using that by (auto simp: set_running_def dest: ok(6) split: if_splits)
qed

lemma report_ok:
  assumes L: "ledger_ok (L, t)"
  shows "ledger_ok (note_terminal cmd r L, t)"
proof (cases "dget (lg_seen L) cmd")
  case None
  with L show ?thesis by (simp add: note_terminal_def)
next
  case (Some e)
  note ok = ledger_okD [OF L]
  show ?thesis
  proof (rule ledger_okI)
    show "wfd (lg_seen (note_terminal cmd r L))" using ok(1) Some by (simp add: note_terminal_def)
    show "distinct (map jb_task (lg_live (note_terminal cmd r L)))" using ok(2) Some by (simp add: note_terminal_def)
    show "jb_task j < lg_next (note_terminal cmd r L)" if "j \<in> set (lg_live (note_terminal cmd r L))" for j
      using that ok(3) Some by (simp add: note_terminal_def)
    show "se_task x < lg_next (note_terminal cmd r L)" if "dget (lg_seen (note_terminal cmd r L)) c = Some x" for c x
      using that ok(4) Some by (auto simp: note_terminal_def split: if_splits)
    show "slots_taken (note_terminal cmd r L) \<le> LONG_OP_SLOTS"
      using ok(5) Some by (simp add: note_terminal_def slots_taken_def)
    show "\<exists>x. dget (lg_seen (note_terminal cmd r L)) (jb_cmd j) = Some x \<and> se_task x = jb_task j \<and> se_ts x = jb_since j"
      if "j \<in> set (lg_live (note_terminal cmd r L))" "\<not> jb_since j + CS_CMD_DEDUP_TTL_S < t" for j
      using that ok(6) [of j] Some by (auto simp: note_terminal_def)
  qed
qed

lemma end_ok:
  assumes L: "ledger_ok (L, t)"
  shows "ledger_ok (end_job n L, t)"
proof (rule ledger_okI)
  note ok = ledger_okD [OF L]
  show "distinct (map jb_task (lg_live (end_job n L)))"
    using ok(2) by (simp add: end_job_def distinct_map_filter)
  have "length (filter P (filter Q xs)) \<le> length (filter P xs)" for P Q and xs :: "job list"
    by (induction xs) auto
  then show "slots_taken (end_job n L) \<le> LONG_OP_SLOTS"
    using ok(5) unfolding slots_taken_def end_job_def by (fastforce intro: order_trans)
qed (use ledger_okD [OF L] in \<open>auto simp: end_job_def\<close>)

lemma ledger_step_ok: "ledger_step s s' \<Longrightarrow> ledger_ok s \<Longrightarrow> ledger_ok s'"
proof (induction rule: ledger_step.induct)
  case (Pass t t' L)
  then show ?case by (auto simp: ledger_ok_def list_all_iff)
qed (simp_all add: deliver_ok turn_ok report_ok end_ok)

lemma ledger_reachable:
  assumes "ledger_step\<^sup>*\<^sup>* (empty_ledger, 0) s"
  shows "ledger_ok s"
  using assms
  by (induction rule: rtranclp_induct)
     (auto simp: ledger_step_ok, simp add: ledger_ok_def empty_ledger_def slots_taken_def)


text \<open>The steps of two commands delivered at the same time.\<close>

definition two_jobs :: ledger where
  "two_jobs = snd (deliver 5 ''delete_vm'' [] ''b'' (snd (deliver 5 ''delete_vm'' [] ''a'' empty_ledger)))"

lemma two_jobs_live:
  "lg_live two_jobs =
     [\<lparr>jb_task = 0, jb_action = ''delete_vm'', jb_data = [], jb_cmd = ''a'', jb_since = 5, jb_runs = False\<rparr>,
      \<lparr>jb_task = 1, jb_action = ''delete_vm'', jb_data = [], jb_cmd = ''b'', jb_since = 5, jb_runs = False\<rparr>]"
  by (simp add: two_jobs_def deliver_def spawn_job_def empty_ledger_def Let_def forget_old_def CS_CMD_DEDUP_TTL_S_def)

lemma two_jobs_reached: "ledger_step\<^sup>*\<^sup>* (empty_ledger, 0) (two_jobs, 5)"
proof -
  have "ledger_step (empty_ledger, 0) (empty_ledger, 5)" by (rule ledger_step.Pass) simp
  moreover have "ledger_step (empty_ledger, 5) (snd (deliver 5 ''delete_vm'' [] ''a'' empty_ledger), 5)"
    by (rule ledger_step.Deliver)
  moreover have "ledger_step (snd (deliver 5 ''delete_vm'' [] ''a'' empty_ledger), 5) (two_jobs, 5)"
    unfolding two_jobs_def by (rule ledger_step.Deliver)
  ultimately show ?thesis by (meson rtranclp.rtrancl_into_rtrancl rtranclp.rtrancl_refl)
qed


section \<open>What a second delivery gets\<close>

text \<open>
  The three answers to a repeated command. If the ledger still knows the command and its
  task is alive, the first reply comes again and nothing is spawned; if the task is over and
  reported, its result comes; if the task died without a word, or the entry is older than ten
  minutes, exactly one new task is spawned for it - even when the old one is still running.
\<close>

theorem redelivery_answers:
  assumes "wfd (lg_seen L)" "dget (lg_seen L) cmd = Some e"
  shows "case deliver t action data cmd L of (r, M) \<Rightarrow>
    if CS_CMD_DEDUP_TTL_S < t - se_ts e \<or> (\<not> is_live (se_task e) L \<and> se_terminal e = None)
    then r = accepted action cmd \<and> map jb_cmd (lg_live M) = map jb_cmd (lg_live L) @ [cmd]
      \<and> jb_task (last (lg_live M)) = lg_next L
    else lg_live M = lg_live L \<and> r = (if is_live (se_task e) L then se_accept e else the (se_terminal e))"
  using assms
  by (auto simp: deliver_def Let_def forget_old_get spawn_job_def is_live_def split: option.splits)

theorem redelivery_answers_witness:
  "lg_live (snd (deliver 700 ''reclone_vm'' [] ''a'' (snd (deliver 5 ''reclone_vm'' [] ''a'' empty_ledger)))) \<noteq> []
   \<and> (case deliver 700 ''reclone_vm'' [] ''a'' (snd (deliver 5 ''reclone_vm'' [] ''a'' empty_ledger)) of
        (r, M) \<Rightarrow> map jb_cmd (lg_live M) = [''a'', ''a''])"
proof -
  let ?L = "snd (deliver 5 ''reclone_vm'' [] ''a'' empty_ledger)"
  let ?e = "\<lparr>se_ts = 5, se_accept = accepted ''reclone_vm'' ''a'', se_task = 0, se_terminal = None\<rparr>"
  have L: "wfd (lg_seen ?L)" "dget (lg_seen ?L) ''a'' = Some ?e" "map jb_cmd (lg_live ?L) = [''a'']"
    by (simp_all add: deliver_def spawn_job_def empty_ledger_def forget_old_def)
  from redelivery_answers [OF L(1,2), of 700 "''reclone_vm''" "[]"] L(3)
  show ?thesis by (auto simp: CS_CMD_DEDUP_TTL_S_def split: prod.splits)
qed

end
