(* ===== verification/Host.thy ===== *)
theory Host
  imports Ghosts Text Guard Batch Ledger
begin

text \<open>
  The host the agent runs on, and the effects of its coroutines. The programs the agent
  shells out to (\<open>qm\<close>, \<open>pct\<close>, \<open>pvesh\<close>, \<open>kill\<close>, \<open>systemctl\<close>) and the kernel are not part of
  the repository: they are a \<open>machine\<close>, an argument of every operation, over a hidden state
  \<open>'h\<close>. The agent's own state is the record \<open>world\<close>: its files, its in-memory marks, and the
  trace of everything it did to the outside. An operation maps a world to a result (a value
  or the exception raised) and the next world; operations are composed with \<open>bnd\<close> and
  \<open>catch\<close>. One task runs at a time: cancellation and the interleaving of tasks are not
  modelled except where a definition takes an explicit order.
\<close>

named_theorems emits_intro "rules that bound what an operation does to the outside"

section \<open>Machines and worlds\<close>

text \<open>
  How a subprocess ends: an exit code with decoded standard output and error, the timeout
  (the child is killed), or no such program.
\<close>

datatype outcome = Exited int string string | TimedOut | NoProgram

text \<open>What the agent changes in files that it does not keep its own state in.\<close>

datatype file_change =
    Touch string
  | Remove string
  | RemoveTree string
  | MakeDir string
  | WriteText string string
  | Rename string string
  | CopyFile string string
  | Chmod string int

text \<open>
  \<open>m_exec\<close> runs a program (\<open>argv\<close>, timeout), \<open>m_file\<close> and \<open>m_dir\<close> read a path, \<open>m_list\<close> is
  \<open>os.listdir\<close>, \<open>m_link\<close> the last component of what a symbolic link points to, \<open>m_which\<close> looks
  a program up, \<open>m_write\<close> changes a file and tells whether that worked.
\<close>

record 'h machine =
  m_exec :: "string list \<Rightarrow> int \<Rightarrow> 'h \<Rightarrow> outcome \<times> 'h"
  m_clock :: "'h \<Rightarrow> rat"
  m_pause :: "rat \<Rightarrow> 'h \<Rightarrow> 'h"
  m_file :: "string \<Rightarrow> 'h \<Rightarrow> string option"
  m_dir :: "string \<Rightarrow> 'h \<Rightarrow> bool"
  m_list :: "string \<Rightarrow> 'h \<Rightarrow> string list"
  m_link :: "string \<Rightarrow> 'h \<Rightarrow> string option"
  m_which :: "string \<Rightarrow> 'h \<Rightarrow> bool"
  m_write :: "file_change \<Rightarrow> 'h \<Rightarrow> bool \<times> 'h"
  m_stamp :: "'h \<Rightarrow> string"
  m_names :: "(string, string) dict"
  m_node :: string

text \<open>
  What the outside sees: a command with its outcome, a detached process, a pause, an event
  sent to the hub (its name and its payload), a change of a file.
\<close>

datatype event =
    Cmd "string list" outcome
  | Detached "string list"
  | Slept rat
  | Sent string "(string \<times> pyval) list"
  | Changed file_change

record prov_item =
  pi_vmid :: int
  pi_status :: string
  pi_bus :: string
  pi_vidpid :: string

text \<open>
  The rest of the module state of the provisioning brain: why the last pass stopped, when it
  last ran, the published halt, the totals of the current run, and when the two watchdogs of
  the pass last ran.
\<close>

record halt =
  ht_reason :: string
  ht_cpu :: "rat option"
  ht_cpu_limit :: int
  ht_mem :: "rat option"
  ht_mem_limit :: int
  ht_ts :: int

record brain =
  br_reason :: string
  br_seen :: rat
  br_auto :: bool
  br_paused :: bool
  br_halt :: "halt option"
  br_started :: int
  br_total :: nat
  br_done :: nat
  br_failed :: nat
  br_cancelled :: nat
  br_health :: rat
  br_names :: rat

record 'h world =
  host :: 'h
  store :: disk
  trace :: "event list"
  deleting :: "(int, rat) dict"
  recloning :: "(int, rat) dict"
  prov_running :: bool
  prov_items :: "prov_item list"
  cpu_hist :: "(rat \<times> rat) list"
  mem_hist :: "(rat \<times> rat) list"
  sampling_started :: rat
  cache_loaded :: bool
  cache_saved :: rat
  lspci_cache :: "(string, string) dict"
  pci_hold :: "(string, int) dict"
  verified_pools :: "string list"
  tracker_of :: tracker
  pass_state :: usb_state
  ledger_of :: ledger
  brain_of :: brain

type_synonym ('h, 'a) op = "'h world \<Rightarrow> 'a result \<times> 'h world"

section \<open>Composition\<close>

definition ret :: "'a \<Rightarrow> ('h, 'a) op" where
  "ret x w = (Inr x, w)"

definition throw :: "exn \<Rightarrow> ('h, 'a) op" where
  "throw e w = (Inl e, w)"

definition lift :: "'a result \<Rightarrow> ('h, 'a) op" where
  "lift r w = (r, w)"

definition bnd :: "('h, 'a) op \<Rightarrow> ('a \<Rightarrow> ('h, 'b) op) \<Rightarrow> ('h, 'b) op" where
  "bnd p f w = (case p w of (Inl e, w') \<Rightarrow> (Inl e, w') | (Inr x, w') \<Rightarrow> f x w')"

definition catch :: "('h, 'a) op \<Rightarrow> (exn \<Rightarrow> ('h, 'a) op) \<Rightarrow> ('h, 'a) op" where
  "catch p h w = (case p w of (Inl e, w') \<Rightarrow> h e w' | (Inr x, w') \<Rightarrow> (Inr x, w'))"

text \<open>\<open>except Exception\<close>; the model's own \<open>Diverged\<close> is not an exception of the program.\<close>

definition except_any :: "('h, 'a) op \<Rightarrow> (exn \<Rightarrow> ('h, 'a) op) \<Rightarrow> ('h, 'a) op" where
  "except_any p h = catch p (\<lambda>e. if e = Diverged then throw Diverged else h e)"

definition peek :: "('h world \<Rightarrow> 'a) \<Rightarrow> ('h, 'a) op" where
  "peek f w = (Inr (f w), w)"

definition modify :: "('h world \<Rightarrow> 'h world) \<Rightarrow> ('h, unit) op" where
  "modify f w = (Inr (), f w)"

text \<open>An operation on the agent's files, and the same reporting its result.\<close>

definition on_disk :: "(disk \<Rightarrow> disk) \<Rightarrow> ('h, unit) op" where
  "on_disk f = modify (\<lambda>w. w\<lparr>store := f (store w)\<rparr>)"

definition with_disk :: "(disk \<Rightarrow> 'a result \<times> disk) \<Rightarrow> ('h, 'a) op" where
  "with_disk f w = (case f (store w) of (r, d) \<Rightarrow> (r, w\<lparr>store := d\<rparr>))"

fun each :: "('a \<Rightarrow> ('h, unit) op) \<Rightarrow> 'a list \<Rightarrow> ('h, unit) op" where
  "each f [] = ret ()"
| "each f (x # xs) = bnd (f x) (\<lambda>_. each f xs)"

text \<open>A loop with an accumulator.\<close>

fun iter :: "('a \<Rightarrow> 's \<Rightarrow> ('h, 's) op) \<Rightarrow> 'a list \<Rightarrow> 's \<Rightarrow> ('h, 's) op" where
  "iter f [] s = ret s"
| "iter f (x # xs) s = bnd (f x s) (iter f xs)"

section \<open>Primitive effects\<close>

definition now_s :: "'h machine \<Rightarrow> ('h, rat) op" where
  "now_s m = peek (\<lambda>w. m_clock m (host w))"

definition read_text :: "'h machine \<Rightarrow> string \<Rightarrow> ('h, string option) op" where
  "read_text m path = peek (\<lambda>w. m_file m path (host w))"

text \<open>\<open>asyncio.sleep\<close>\<close>

definition pause :: "'h machine \<Rightarrow> rat \<Rightarrow> ('h, unit) op" where
  "pause m d = modify (\<lambda>w. w\<lparr>host := m_pause m d (host w), trace := trace w @ [Slept d]\<rparr>)"

text \<open>\<open>agent.send_cs_event\<close>; delivery is best-effort and never fails the sender.\<close>

definition send_event :: "string \<Rightarrow> (string \<times> pyval) list \<Rightarrow> ('h, unit) op" where
  "send_event kind payload = modify (\<lambda>w. w\<lparr>trace := trace w @ [Sent kind payload]\<rparr>)"

definition spawn_detached :: "string list \<Rightarrow> ('h, unit) op" where
  "spawn_detached argv = modify (\<lambda>w. w\<lparr>trace := trace w @ [Detached argv]\<rparr>)"

definition run_command :: "'h machine \<Rightarrow> string list \<Rightarrow> int \<Rightarrow> ('h, outcome) op" where
  "run_command m argv secs w =
     (case m_exec m argv secs (host w) of
        (r, h) \<Rightarrow> (Inr r, w\<lparr>host := h, trace := trace w @ [Cmd argv r]\<rparr>))"

definition change_file :: "'h machine \<Rightarrow> file_change \<Rightarrow> ('h, bool) op" where
  "change_file m c w =
     (case m_write m c (host w) of
        (ok, h) \<Rightarrow> (Inr ok, w\<lparr>host := h, trace := trace w @ [Changed c]\<rparr>))"

definition has_program :: "'h machine \<Rightarrow> string \<Rightarrow> ('h, bool) op" where
  "has_program m name = peek (\<lambda>w. m_which m name (host w))"

definition list_dir :: "'h machine \<Rightarrow> string \<Rightarrow> ('h, string list) op" where
  "list_dir m path = peek (\<lambda>w. m_list m path (host w))"

definition link_target :: "'h machine \<Rightarrow> string \<Rightarrow> ('h, string option) op" where
  "link_target m path = peek (\<lambda>w. m_link m path (host w))"

definition path_exists :: "'h machine \<Rightarrow> string \<Rightarrow> ('h, bool) op" where
  "path_exists m path = peek (\<lambda>w. m_file m path (host w) \<noteq> None \<or> m_dir m path (host w))"

text \<open>\<open>pve_cmds._run\<close>: exit code, output, error text.\<close>

type_synonym proc = "int \<times> string \<times> string"

definition run_text :: "string list \<Rightarrow> string" where
  "run_text argv = join_sep '' '' argv"

definition sh :: "'h machine \<Rightarrow> string list \<Rightarrow> int \<Rightarrow> bool \<Rightarrow> ('h, proc) op" where
  "sh m argv secs check =
     bnd (run_command m argv secs) (\<lambda>r. case r of
        NoProgram \<Rightarrow> throw OSError
      | TimedOut \<Rightarrow> throw (PveError (''timeout ('' @ str_int secs @ ''s): '' @ run_text argv))
      | Exited rc out err \<Rightarrow>
          if check \<and> rc \<noteq> 0
          then throw (PveError (if strip err \<noteq> [] then strip err
                                else run_text argv @ '' exited '' @ str_int rc))
          else ret (rc, out, err))"

text \<open>The default timeout of \<open>_run\<close>.\<close>

definition FAST_CMD_TIMEOUT :: int where "FAST_CMD_TIMEOUT = 60"

section \<open>Laws of composition\<close>

lemma op_simps [simp]:
  "ret x w = (Inr x, w)" "throw e w = (Inl e, w)" "lift r w = (r, w)" "peek f w = (Inr (f w), w)"
  "modify g w = (Inr (), g w)"
  by (simp_all add: ret_def throw_def lift_def peek_def modify_def)

lemma bnd_simps [simp]:
  "bnd (ret x) f = f x" "bnd (throw e) f = throw e" "bnd (lift (Inl e)) f = throw e"
  "bnd (lift (Inr x)) f = f x"
  by (simp_all add: fun_eq_iff bnd_def)

lemma catch_simps [simp]: "catch (ret x) h = ret x" "catch (throw e) h = h e"
  by (simp_all add: fun_eq_iff catch_def)

lemma bnd_Inr: "p w = (Inr x, w') \<Longrightarrow> bnd p f w = f x w'"
  by (simp add: bnd_def)

lemma bnd_Inl: "p w = (Inl e, w') \<Longrightarrow> bnd p f w = (Inl e, w')"
  by (simp add: bnd_def)

text \<open>The result of a sequence, and the world in which its last part ran.\<close>

lemma bnd_InrD:
  assumes "bnd p f w = (Inr y, w')"
  obtains x w1 where "p w = (Inr x, w1)" "f x w1 = (Inr y, w')"
  using assms by (auto simp: bnd_def split: prod.splits sum.splits)

section \<open>What an operation does to the outside\<close>

text \<open>
  \<open>yields p Q\<close>: running \<open>p\<close> only appends to the trace, and its result and the events it
  appended satisfy \<open>Q\<close>. \<open>emits P p\<close>: every event \<open>p\<close> appends satisfies \<open>P\<close>.
\<close>

definition yields :: "('h, 'a) op \<Rightarrow> ('a result \<Rightarrow> event list \<Rightarrow> bool) \<Rightarrow> bool" where
  "yields p Q \<longleftrightarrow> (\<forall>w. \<exists>es. trace (snd (p w)) = trace w @ es \<and> Q (fst (p w)) es)"

definition emits :: "(event \<Rightarrow> bool) \<Rightarrow> ('h, 'a) op \<Rightarrow> bool" where
  "emits P p \<longleftrightarrow> yields p (\<lambda>r es. list_all P es)"

lemma yieldsI: "(\<And>w. \<exists>es. trace (snd (p w)) = trace w @ es \<and> Q (fst (p w)) es) \<Longrightarrow> yields p Q"
  by (simp add: yields_def)

lemma yieldsE:
  assumes "yields p Q"
  obtains es where "trace (snd (p w)) = trace w @ es" "Q (fst (p w)) es"
  using assms by (auto simp: yields_def)

lemma yields_mono: "yields p Q \<Longrightarrow> (\<And>r es. Q r es \<Longrightarrow> R r es) \<Longrightarrow> yields p R"
  unfolding yields_def by meson

lemma yields_ret: "Q (Inr x) [] \<Longrightarrow> yields (ret x) Q"
  by (simp add: yields_def)

lemma yields_throw: "Q (Inl e) [] \<Longrightarrow> yields (throw e) Q"
  by (simp add: yields_def)

lemma yields_Pair: "Q r [] \<Longrightarrow> yields (Pair r) Q"
  by (simp add: yields_def)

lemma yields_lift: "Q r [] \<Longrightarrow> yields (lift r) Q"
  by (simp add: yields_def)

lemma yields_bnd:
  assumes "yields p QA" and "\<And>x. yields (f x) (QB x)"
    and "\<And>e es. QA (Inl e) es \<Longrightarrow> Q (Inl e) es"
    and "\<And>x es r fs. QA (Inr x) es \<Longrightarrow> QB x r fs \<Longrightarrow> Q r (es @ fs)"
  shows "yields (bnd p f) Q"
proof (rule yieldsI)
  fix w
  obtain es where es: "trace (snd (p w)) = trace w @ es" "QA (fst (p w)) es"
    using assms(1) by (rule yieldsE)
  show "\<exists>es. trace (snd (bnd p f w)) = trace w @ es \<and> Q (fst (bnd p f w)) es"
  proof (cases "p w")
    case (Pair r w')
    show ?thesis
    proof (cases r)
      case (Inl e)
      with Pair es assms(3) show ?thesis by (simp add: bnd_def)
    next
      case (Inr x)
      obtain fs where "trace (snd (f x w')) = trace w' @ fs" "QB x (fst (f x w')) fs"
        using assms(2) by (rule yieldsE)
      with Pair Inr es assms(4) show ?thesis by (auto simp: bnd_def)
    qed
  qed
qed

lemma yields_catch:
  assumes "yields p QA" and "\<And>e. yields (h e) (QB e)"
    and "\<And>x es. QA (Inr x) es \<Longrightarrow> Q (Inr x) es"
    and "\<And>e es r fs. QA (Inl e) es \<Longrightarrow> QB e r fs \<Longrightarrow> Q r (es @ fs)"
  shows "yields (catch p h) Q"
proof (rule yieldsI)
  fix w
  obtain es where es: "trace (snd (p w)) = trace w @ es" "QA (fst (p w)) es"
    using assms(1) by (rule yieldsE)
  show "\<exists>es. trace (snd (catch p h w)) = trace w @ es \<and> Q (fst (catch p h w)) es"
  proof (cases "p w")
    case (Pair r w')
    show ?thesis
    proof (cases r)
      case (Inr e)
      with Pair es assms(3) show ?thesis by (simp add: catch_def)
    next
      case (Inl e)
      obtain fs where "trace (snd (h e w')) = trace w' @ fs" "QB e (fst (h e w')) fs"
        using assms(2) by (rule yieldsE)
      with Pair Inl es assms(4) show ?thesis by (auto simp: catch_def)
    qed
  qed
qed

lemma emitsD:
  assumes "emits P p" "p w = (r, w')"
  obtains es where "trace w' = trace w @ es" "list_all P es"
  using assms by (auto simp: emits_def elim!: yieldsE [where w = w])

lemma yields_emits:
  assumes "yields p Q" "emits P p"
  shows "yields p (\<lambda>r es. Q r es \<and> list_all P es)"
proof (rule yieldsI)
  fix w
  obtain es where "trace (snd (p w)) = trace w @ es" "Q (fst (p w)) es" using assms(1) by (rule yieldsE)
  moreover obtain fs where "trace (snd (p w)) = trace w @ fs" "list_all P fs"
    using assms(2) unfolding emits_def by (rule yieldsE)
  ultimately show "\<exists>es. trace (snd (p w)) = trace w @ es \<and> Q (fst (p w)) es \<and> list_all P es" by auto
qed

lemma emits_mono: "emits P p \<Longrightarrow> (\<And>e. P e \<Longrightarrow> R e) \<Longrightarrow> emits R p"
  unfolding emits_def by (erule yields_mono) (auto simp: list_all_iff)

lemma emits_pure [emits_intro]:
  "emits P (ret x)" "emits P (throw e)" "emits P (lift r)" "emits P (peek f)"
  "emits P (Pair r)"
  by (simp_all add: emits_def yields_def)

lemma emits_modify: "(\<And>w. trace (f w) = trace w) \<Longrightarrow> emits P (modify f)"
  by (simp add: emits_def yields_def)

lemma emits_bnd [emits_intro]:
  "emits P p \<Longrightarrow> (\<And>x. emits P (f x)) \<Longrightarrow> emits P (bnd p f)"
  unfolding emits_def by (rule yields_bnd [where QA = "\<lambda>r. list_all P" and QB = "\<lambda>x r. list_all P"]) auto

lemma emits_catch [emits_intro]:
  "emits P p \<Longrightarrow> (\<And>e. emits P (h e)) \<Longrightarrow> emits P (catch p h)"
  unfolding emits_def by (rule yields_catch [where QA = "\<lambda>r. list_all P" and QB = "\<lambda>x r. list_all P"]) auto

lemma emits_except [emits_intro]:
  "emits P p \<Longrightarrow> (\<And>e. emits P (h e)) \<Longrightarrow> emits P (except_any p h)"
  unfolding except_any_def by (intro emits_catch) (simp_all add: emits_pure)

lemma emits_if [emits_intro]:
  "(b \<Longrightarrow> emits P p) \<Longrightarrow> (\<not> b \<Longrightarrow> emits P q) \<Longrightarrow> emits P (if b then p else q)"
  by simp

lemma emits_prod [emits_intro]: "(\<And>a b. emits P (f a b)) \<Longrightarrow> emits P (case_prod f x)"
  by (cases x) simp

lemma emits_let [emits_intro]: "(\<And>x. emits P (f x)) \<Longrightarrow> emits P (Let x f)"
  by simp

lemma emits_option [emits_intro]:
  "emits P p \<Longrightarrow> (\<And>x. emits P (f x)) \<Longrightarrow> emits P (case_option p f x)"
  by (cases x) simp_all

lemma emits_list [emits_intro]:
  "emits P p \<Longrightarrow> (\<And>x ys. emits P (f x ys)) \<Longrightarrow> emits P (case_list p f xs)"
  by (cases xs) simp_all

lemma emits_on_disk [emits_intro]: "emits P (on_disk f)"
  by (simp add: on_disk_def emits_modify)

lemma emits_with_disk [emits_intro]: "emits P (with_disk f)"
  by (simp add: emits_def yields_def with_disk_def split: prod.splits)

lemma emits_reads [emits_intro]: "emits P (now_s m)" "emits P (read_text m p)"
  "emits P (has_program m q)" "emits P (list_dir m p)" "emits P (path_exists m p)" "emits P (link_target m p)"
  by (simp_all add: now_s_def read_text_def has_program_def list_dir_def path_exists_def link_target_def emits_pure)

lemma emits_change [emits_intro]: "P (Changed c) \<Longrightarrow> emits P (change_file m c)"
  by (simp add: emits_def yields_def change_file_def split: prod.splits)

lemma emits_pause [emits_intro]: "P (Slept d) \<Longrightarrow> emits P (pause m d)"
  by (simp add: emits_def yields_def pause_def)

lemma emits_send [emits_intro]: "P (Sent k x) \<Longrightarrow> emits P (send_event k x)"
  by (simp add: emits_def yields_def send_event_def)

lemma emits_detached [emits_intro]: "P (Detached a) \<Longrightarrow> emits P (spawn_detached a)"
  by (simp add: emits_def yields_def spawn_detached_def)

lemma emits_run_command: "(\<And>r. P (Cmd a r)) \<Longrightarrow> emits P (run_command m a t)"
  by (simp add: emits_def yields_def run_command_def split: prod.splits)

lemma emits_sh [emits_intro]: "(\<And>r. P (Cmd a r)) \<Longrightarrow> emits P (sh m a t c)"
  unfolding sh_def by (intro emits_intro emits_run_command) (auto split: outcome.splits intro!: emits_intro)

lemma emits_each [emits_intro]:
  "(\<And>x. x \<in> set xs \<Longrightarrow> emits P (f x)) \<Longrightarrow> emits P (each f xs)"
  by (induction xs) (auto intro!: emits_intro)

lemma emits_iter [emits_intro]:
  "(\<And>x s. x \<in> set xs \<Longrightarrow> emits P (f x s)) \<Longrightarrow> emits P (iter f xs s)"
  by (induction xs arbitrary: s) (auto intro!: emits_intro)

text \<open>A command's outcome and its event agree.\<close>

lemma yields_sh:
  "yields (sh m a t c) (\<lambda>r es. \<exists>x. es = [Cmd a x] \<and>
     (case r of Inr (rc, out, err) \<Rightarrow> x = Exited rc out err \<and> (c \<longrightarrow> rc = 0) | Inl e \<Rightarrow> True))"
  unfolding sh_def
  by (rule yields_bnd [where QA = "\<lambda>r es. \<exists>x. r = Inr x \<and> es = [Cmd a x]"
        and QB = "\<lambda>x r es. es = [] \<and> (case r of Inr (rc, out, err) \<Rightarrow> x = Exited rc out err \<and> (c \<longrightarrow> rc = 0) | Inl e \<Rightarrow> True)"])
     (auto simp: yields_def run_command_def split: outcome.splits prod.splits)

text \<open>Rules for sequences where only the last part matters.\<close>

abbreviation appends :: "('h, 'a) op \<Rightarrow> bool" where
  "appends p \<equiv> emits (\<lambda>_. True) p"

lemma appends_if_emits: "emits P p \<Longrightarrow> appends p"
  by (rule emits_mono) auto

lemma yields_then:
  assumes "appends p" "\<And>x. yields (f x) Q" "\<And>e es. Q (Inl e) es" "\<And>r es fs. Q r fs \<Longrightarrow> Q r (es @ fs)"
  shows "yields (bnd p f) Q"
  by (rule yields_bnd [where QA = "\<lambda>r. list_all (\<lambda>_. True)" and QB = "\<lambda>x. Q"])
     (use assms in \<open>auto simp: emits_def\<close>)

lemma yields_test:
  assumes "yields p (\<lambda>r es. r = Inr b \<longrightarrow> T es)" "\<And>es. T es \<Longrightarrow> Q (Inr a) es" "yields q Q"
    "\<And>e es. Q (Inl e) es" "\<And>r es fs. Q r fs \<Longrightarrow> Q r (es @ fs)"
  shows "yields (bnd p (\<lambda>x. if x = b then ret a else q)) Q"
  by (rule yields_bnd [where QA = "\<lambda>r es. r = Inr b \<longrightarrow> T es"
        and QB = "\<lambda>x r fs. if x = b then r = Inr a \<and> fs = [] else Q r fs"])
     (use assms in \<open>auto intro: yields_ret split: if_splits\<close>)

section \<open>Termination\<close>

named_theorems ends_intro "operations that never run out of polling iterations"

definition ends :: "('h, 'a) op \<Rightarrow> bool" where
  "ends p \<longleftrightarrow> (\<forall>w. fst (p w) \<noteq> Inl Diverged)"

lemma ends_pure [ends_intro]:
  "ends (ret x)" "ends (Pair (Inr x))" "ends (peek f)" "ends (modify g)"
  "e \<noteq> Diverged \<Longrightarrow> ends (throw e)" "r \<noteq> Inl Diverged \<Longrightarrow> ends (lift r)"
  by (simp_all add: ends_def)

lemma ends_bnd [ends_intro]: "ends p \<Longrightarrow> (\<And>x. ends (f x)) \<Longrightarrow> ends (bnd p f)"
  by (auto simp: ends_def bnd_def split: prod.splits sum.splits) (metis fst_conv)

lemma ends_catch [ends_intro]:
  "(\<And>e. e \<noteq> Diverged \<Longrightarrow> ends (h e)) \<Longrightarrow> ends p \<Longrightarrow> ends (catch p h)"
  by (auto simp: ends_def catch_def split: prod.splits sum.splits) (metis fst_conv)

lemma ends_except [ends_intro]:
  "ends p \<Longrightarrow> (\<And>e. ends (h e)) \<Longrightarrow> ends (except_any p h)"
  unfolding except_any_def by (intro ends_intro) auto

lemma ends_cases [ends_intro]:
  "(b \<Longrightarrow> ends p) \<Longrightarrow> (\<not> b \<Longrightarrow> ends q) \<Longrightarrow> ends (if b then p else q)"
  "(\<And>a b. ends (f2 a b)) \<Longrightarrow> ends (case_prod f2 x)"
  "(\<And>x. ends (f1 x)) \<Longrightarrow> ends (Let y f1)"
  "ends p \<Longrightarrow> (\<And>x. ends (f1 x)) \<Longrightarrow> ends (case_option p f1 o1)"
  "ends p \<Longrightarrow> (\<And>x ys. ends (f3 x ys)) \<Longrightarrow> ends (case_list p f3 l)"
  by (auto split: prod.splits option.splits list.splits)

lemma ends_prims [ends_intro]:
  "ends (now_s m)" "ends (read_text m p)" "ends (pause m d)" "ends (send_event k x)"
  "ends (spawn_detached a)" "ends (on_disk f)" "ends (run_command m a t)"
  "ends (has_program m p)" "ends (list_dir m p)" "ends (path_exists m p)" "ends (change_file m c)" "ends (link_target m p)"
  by (auto simp: ends_def now_s_def read_text_def pause_def send_event_def spawn_detached_def
      on_disk_def run_command_def has_program_def list_dir_def path_exists_def change_file_def link_target_def
      split: prod.splits)

lemma ends_sh [ends_intro]: "ends (sh m a t c)"
  unfolding sh_def by (intro ends_intro) (auto split: outcome.splits intro!: ends_intro)

lemma ends_each [ends_intro]: "(\<And>x. x \<in> set xs \<Longrightarrow> ends (f x)) \<Longrightarrow> ends (each f xs)"
  by (induction xs) (auto intro!: ends_intro)

lemma ends_iter [ends_intro]: "(\<And>x s. x \<in> set xs \<Longrightarrow> ends (f x s)) \<Longrightarrow> ends (iter f xs s)"
  by (induction xs arbitrary: s) (auto intro!: ends_intro)

section \<open>Clocks\<close>

text \<open>
  The clock runs forward: commands take time, a pause takes at least as long as asked. What
  the polling loops rely on to end.
\<close>

definition clock_ok :: "'h machine \<Rightarrow> bool" where
  "clock_ok m \<longleftrightarrow> (\<forall>a t h. m_clock m h \<le> m_clock m (snd (m_exec m a t h)))
     \<and> (\<forall>c h. m_clock m h \<le> m_clock m (snd (m_write m c h)))
     \<and> (\<forall>d h. 0 \<le> d \<longrightarrow> m_clock m h + d \<le> m_clock m (m_pause m d h))"

lemma clock_exec: "clock_ok m \<Longrightarrow> m_exec m a t h = (r, h') \<Longrightarrow> m_clock m h \<le> m_clock m h'"
  unfolding clock_ok_def by (metis snd_conv)

lemma clock_pause: "clock_ok m \<Longrightarrow> 0 \<le> d \<Longrightarrow> m_clock m h + d \<le> m_clock m (m_pause m d h)"
  by (simp add: clock_ok_def)

text \<open>Operations during which the clock does not run backwards.\<close>

definition advances :: "'h machine \<Rightarrow> ('h, 'a) op \<Rightarrow> bool" where
  "advances m p \<longleftrightarrow> (\<forall>w. m_clock m (host w) \<le> m_clock m (host (snd (p w))))"

lemma advances_bnd: "advances m p \<Longrightarrow> (\<And>x. advances m (f x)) \<Longrightarrow> advances m (bnd p f)"
  by (auto simp: advances_def bnd_def split: prod.splits sum.splits)
     (metis order_trans snd_conv)+

lemma advances_pure: "advances m (ret x)" "advances m (throw e)" "advances m (Pair r)"
  by (simp_all add: advances_def)

lemma advances_sh: "clock_ok m \<Longrightarrow> advances m (sh m a t c)"
  unfolding sh_def
  by (intro advances_bnd)
     (auto simp: advances_def run_command_def clock_ok_def split: prod.splits outcome.splits,
      metis snd_conv)

section \<open>Parts of the world an operation leaves alone\<close>

named_theorems keeps_intro "parts of the world that an operation leaves alone"

definition keeps :: "('h world \<Rightarrow> 'b) \<Rightarrow> ('h, 'a) op \<Rightarrow> bool" where
  "keeps f p \<longleftrightarrow> (\<forall>w. f (snd (p w)) = f w)"

lemma keepsD: "keeps f p \<Longrightarrow> p w = (r, w') \<Longrightarrow> f w' = f w"
  unfolding keeps_def by (metis snd_conv)

lemma keeps_pure [keeps_intro]:
  "keeps f (ret x)" "keeps f (throw e)" "keeps f (lift r)" "keeps f (peek g)" "keeps f (Pair r)"
  by (simp_all add: keeps_def)

lemma keeps_bnd [keeps_intro]: "keeps f p \<Longrightarrow> (\<And>x. keeps f (q x)) \<Longrightarrow> keeps f (bnd p q)"
  by (auto simp: keeps_def bnd_def split: prod.splits sum.splits) (metis snd_conv)+

lemma keeps_catch [keeps_intro]: "keeps f p \<Longrightarrow> (\<And>e. keeps f (h e)) \<Longrightarrow> keeps f (catch p h)"
  by (auto simp: keeps_def catch_def split: prod.splits sum.splits) (metis snd_conv)+

lemma keeps_except [keeps_intro]: "keeps f p \<Longrightarrow> (\<And>e. keeps f (h e)) \<Longrightarrow> keeps f (except_any p h)"
  unfolding except_any_def by (intro keeps_intro) (simp_all add: keeps_intro)

lemma keeps_cases [keeps_intro]:
  "(b \<Longrightarrow> keeps f p) \<Longrightarrow> (\<not> b \<Longrightarrow> keeps f q) \<Longrightarrow> keeps f (if b then p else q)"
  "(\<And>a b. keeps f (f2 a b)) \<Longrightarrow> keeps f (case_prod f2 x)"
  "(\<And>x. keeps f (f1 x)) \<Longrightarrow> keeps f (Let y f1)"
  "keeps f p \<Longrightarrow> (\<And>x. keeps f (f1 x)) \<Longrightarrow> keeps f (case_option p f1 o1)"
  "keeps f p \<Longrightarrow> (\<And>x ys. keeps f (f3 x ys)) \<Longrightarrow> keeps f (case_list p f3 l)"
  by (auto split: prod.splits option.splits list.splits)

lemma keeps_modify: "(\<And>w. f (g w) = f w) \<Longrightarrow> keeps f (modify g)"
  by (simp add: keeps_def)

lemma keeps_reads [keeps_intro]: "keeps f (now_s m)" "keeps f (read_text m p)"
  "keeps f (has_program m q)" "keeps f (list_dir m p)" "keeps f (path_exists m p)" "keeps f (link_target m p)"
  by (simp_all add: keeps_def now_s_def read_text_def has_program_def list_dir_def path_exists_def link_target_def)

lemma keeps_run:
  "(\<And>w h t. f (w\<lparr>host := h, trace := t\<rparr>) = f w) \<Longrightarrow> keeps f (sh m a s c)"
  "(\<And>w h t. f (w\<lparr>host := h, trace := t\<rparr>) = f w) \<Longrightarrow> keeps f (pause m d)"
  "(\<And>w h t. f (w\<lparr>host := h, trace := t\<rparr>) = f w) \<Longrightarrow> keeps f (change_file m k)"
proof -
  assume f: "\<And>w h t. f (w\<lparr>host := h, trace := t\<rparr>) = f w"
  have "keeps f (run_command m a s)"
    by (simp add: keeps_def run_command_def f split: prod.splits)
  then show "keeps f (sh m a s c)"
    unfolding sh_def by (intro keeps_intro) (auto split: outcome.splits intro!: keeps_intro)
  show "keeps f (pause m d)" by (simp add: keeps_def pause_def f)
  show "keeps f (change_file m k)" by (simp add: keeps_def change_file_def f split: prod.splits)
qed

lemma keeps_send: "(\<And>w t. f (w\<lparr>trace := t\<rparr>) = f w) \<Longrightarrow> keeps f (send_event k x)"
  by (simp add: keeps_def send_event_def)

lemma keeps_iter [keeps_intro]: "(\<And>x s. x \<in> set xs \<Longrightarrow> keeps f (g x s)) \<Longrightarrow> keeps f (iter g xs s)"
  by (induction xs arbitrary: s) (auto intro!: keeps_intro)

text \<open>
  A loop over the entries of a dictionary whose steps each settle their own key of a view:
  what the view holds of every key afterwards.
\<close>

lemma iter_each_key:
  assumes "iter step xs s w = (Inr r, w')" "distinct (map fst xs)"
    and "\<And>k e. (k, e) \<in> set xs \<Longrightarrow> view w k = Some e"
    and "\<And>k e s w r w1. (k, e) \<in> set xs \<Longrightarrow> view w k = Some e \<Longrightarrow> step (k, e) s w = (Inr r, w1)
          \<Longrightarrow> \<exists>out \<in> outs k e. view w1 = (view w)(k := out)"
  shows "(\<forall>(k, e) \<in> set xs. view w' k \<in> outs k e) \<and> (\<forall>k. k \<notin> fst ` set xs \<longrightarrow> view w' k = view w k)"
  using assms
proof (induction xs arbitrary: s w)
  case (Cons p xs)
  obtain k e where p: "p = (k, e)" by force
  from Cons.prems(1) obtain s1 w1 where step: "step (k, e) s w = (Inr s1, w1)" and rest: "iter step xs s1 w1 = (Inr r, w')"
    by (auto simp: p elim: bnd_InrD)
  have "(k, e) \<in> set (p # xs)" by (simp add: p)
  then obtain out where out: "out \<in> outs k e" "view w1 = (view w)(k := out)"
    using Cons.prems(4) [OF _ Cons.prems(3) step] by blast
  have fresh: "k \<notin> fst ` set xs" using Cons.prems(2) by (simp add: p)
  have "(\<forall>(k, e) \<in> set xs. view w' k \<in> outs k e) \<and> (\<forall>k. k \<notin> fst ` set xs \<longrightarrow> view w' k = view w1 k)"
  proof (rule Cons.IH [OF rest])
    show "distinct (map fst xs)" using Cons.prems(2) by simp
    show "view w1 j = Some d" if "(j, d) \<in> set xs" for j d
      using that fresh Cons.prems(3) [of j d] out(2) by force
  qed (use Cons.prems(4) in auto)
  with out fresh show ?case by (auto simp: p)
qed simp

lemma keeps_each [keeps_intro]: "(\<And>x. x \<in> set xs \<Longrightarrow> keeps f (g x)) \<Longrightarrow> keeps f (each g xs)"
  by (induction xs) (auto intro!: keeps_intro)

text \<open>The same from one world on: for what an operation does that depends on the state it finds.\<close>

definition emits_at :: "(event \<Rightarrow> bool) \<Rightarrow> ('h, 'a) op \<Rightarrow> 'h world \<Rightarrow> bool" where
  "emits_at P p w \<longleftrightarrow> (\<exists>es. trace (snd (p w)) = trace w @ es \<and> list_all P es)"

lemma emits_at: "emits P p \<Longrightarrow> emits_at P p w"
  unfolding emits_at_def emits_def yields_def by blast

lemma emits_at_bnd:
  assumes "emits_at P p w" "\<And>x w'. p w = (Inr x, w') \<Longrightarrow> emits_at P (f x) w'"
  shows "emits_at P (bnd p f) w"
  using assms by (fastforce simp: emits_at_def bnd_def split: prod.splits sum.splits)

text \<open>An operation that emits allowed events only and leaves the view \<open>g\<close> as it was.\<close>

lemma emits_at_step:
  assumes "emits P p" "keeps g p" "\<And>x w'. g w' = g w \<Longrightarrow> emits_at P (f x) w'"
  shows "emits_at P (bnd p f) w"
  using emits_at [OF assms(1)] assms(3) keepsD [OF assms(2)] by (blast intro: emits_at_bnd)

lemma emits_at_pure: "emits_at P (ret x) w" "emits_at P (throw e) w"
  by (simp_all add: emits_at_def)

lemma emits_at_if:
  "(b \<Longrightarrow> emits_at P p w) \<Longrightarrow> (\<not> b \<Longrightarrow> emits_at P q w) \<Longrightarrow> emits_at P (if b then p else q) w"
  by simp

lemma emits_at_except:
  assumes "emits_at P p w" "\<And>e. emits P (h e)"
  shows "emits_at P (except_any p h) w"
proof (cases "p w")
  case (Pair r w1)
  then obtain es where es: "trace w1 = trace w @ es" "list_all P es" using assms(1) by (auto simp: emits_at_def)
  show ?thesis
  proof (cases r)
    case (Inl e)
    have "emits_at P (if e = Diverged then throw Diverged else h e) w1"
      by (intro emits_at_if emits_at_pure emits_at assms(2))
    then show ?thesis using es Pair Inl unfolding emits_at_def except_any_def catch_def by fastforce
  next
    case (Inr x)
    then show ?thesis using es Pair by (simp add: emits_at_def except_any_def catch_def)
  qed
qed

lemma emits_at_peek: "emits_at P (f (h w)) w \<Longrightarrow> emits_at P (bnd (peek h) f) w"
  by (simp add: bnd_def emits_at_def)

lemma keeps_disk [keeps_intro]:
  "keeps trace (on_disk g)" "keeps deleting (on_disk g)" "keeps recloning (on_disk g)" "keeps host (on_disk g)"
  "keeps prov_items (on_disk g)"
  by (simp_all add: keeps_def on_disk_def)

lemma keeps_store [keeps_intro]:
  "keeps store (sh m a s c)" "keeps store (pause m d)" "keeps store (send_event k x)"
  "keeps deleting (sh m a s c)" "keeps deleting (pause m d)" "keeps deleting (send_event k x)"
  "keeps recloning (sh m a s c)" "keeps recloning (pause m d)" "keeps recloning (send_event k x)"
  "keeps prov_items (sh m a s c)" "keeps prov_items (pause m d)" "keeps prov_items (send_event k x)"
  "keeps store (change_file m ch)" "keeps deleting (change_file m ch)"
  "keeps recloning (change_file m ch)" "keeps prov_items (change_file m ch)"
  by (rule keeps_run keeps_send, simp)+

section \<open>What an operation does to the files\<close>

text \<open>
  \<open>meets d p Q\<close>: run with the files in state \<open>d\<close>, the result of \<open>p\<close> and the files it leaves
  satisfy \<open>Q\<close>.
\<close>

definition meets :: "disk \<Rightarrow> ('h, 'a) op \<Rightarrow> ('a result \<Rightarrow> disk \<Rightarrow> bool) \<Rightarrow> bool" where
  "meets d p Q \<longleftrightarrow> (\<forall>w. store w = d \<longrightarrow> Q (fst (p w)) (store (snd (p w))))"

lemma meetsD: "meets (store w) p Q \<Longrightarrow> p w = (r, w') \<Longrightarrow> Q r (store w')"
  by (auto simp: meets_def)

lemma meets_pure:
  "Q (Inr x) d \<Longrightarrow> meets d (ret x) Q" "Q (Inl e) d \<Longrightarrow> meets d (throw e) Q"
  "Q r d \<Longrightarrow> meets d (Pair r) Q"
  by (simp_all add: meets_def)

lemma meets_mono: "meets d p Q \<Longrightarrow> (\<And>r d'. Q r d' \<Longrightarrow> R r d') \<Longrightarrow> meets d p R"
  by (auto simp: meets_def)

lemma meets_then:
  fixes p :: "('h, 'a) op"
  assumes "keeps store p" "\<And>x. meets d (f x) Q" "\<And>e. Q (Inl e) d"
  shows "meets d (bnd p f) Q"
  unfolding meets_def
proof (intro allI impI)
  fix w :: "'h world" assume w: "store w = d"
  obtain r w1 where p: "p w = (r, w1)" by (cases "p w")
  have "store w1 = d" using keepsD [OF assms(1) p] w by simp
  with p assms(2,3) show "Q (fst (bnd p f w)) (store (snd (bnd p f w)))"
    by (cases r) (simp_all add: bnd_def meets_def)
qed

lemma meets_peek: "meets d (f (g d)) Q \<Longrightarrow> meets d (bnd (peek (\<lambda>w. g (store w))) f) Q"
  by (simp add: meets_def bnd_def)

lemma meets_bnd:
  fixes p :: "('h, 'a) op"
  assumes "meets d p R" "\<And>e d'. R (Inl e) d' \<Longrightarrow> Q (Inl e) d'" "\<And>x d'. R (Inr x) d' \<Longrightarrow> meets d' (f x) Q"
  shows "meets d (bnd p f) Q"
  unfolding meets_def
proof (intro allI impI)
  fix w :: "'h world" assume w: "store w = d"
  obtain r w1 where p: "p w = (r, w1)" by (cases "p w")
  have R: "R r (store w1)" using assms(1) w p by (auto simp: meets_def)
  show "Q (fst (bnd p f w)) (store (snd (bnd p f w)))"
  proof (cases r)
    case (Inl e)
    with p R assms(2) show ?thesis by (simp add: bnd_def)
  next
    case (Inr x)
    with p R assms(3) show ?thesis by (simp add: bnd_def meets_def)
  qed
qed

lemma meets_on_disk: "Q (Inr ()) (g d) \<Longrightarrow> meets d (on_disk g) Q"
  by (simp add: meets_def on_disk_def)

lemma meets_keeps: "keeps store p \<Longrightarrow> (\<And>r. Q r d) \<Longrightarrow> meets d p Q"
  by (auto simp: meets_def keeps_def)

section \<open>Operations that always return\<close>

named_theorems returns_intro "operations that never raise"

definition returns :: "('h, 'a) op \<Rightarrow> bool" where
  "returns p \<longleftrightarrow> (\<forall>w. \<exists>x. fst (p w) = Inr x)"

lemma returns_pure [returns_intro]:
  "returns (ret x)" "returns (peek f)" "returns (modify g)" "returns (Pair (Inr x))"
  "returns (now_s m)" "returns (read_text m path)" "returns (pause m d)" "returns (send_event k y)"
  "returns (spawn_detached a)" "returns (on_disk h)"
  "returns (has_program m p)" "returns (list_dir m p)" "returns (path_exists m p)" "returns (change_file m c)"
  "returns (link_target m p)"
  by (auto simp: returns_def now_s_def read_text_def pause_def send_event_def spawn_detached_def on_disk_def
      has_program_def list_dir_def path_exists_def change_file_def link_target_def split: prod.splits)

lemma returns_bnd [returns_intro]: "returns p \<Longrightarrow> (\<And>x. returns (f x)) \<Longrightarrow> returns (bnd p f)"
  by (auto simp: returns_def bnd_def split: prod.splits sum.splits) (metis fst_conv Inl_not_Inr)

lemma returns_except [returns_intro]:
  "ends p \<Longrightarrow> (\<And>e. returns (h e)) \<Longrightarrow> returns (except_any p h)"
  by (auto simp: returns_def ends_def except_any_def catch_def split: prod.splits sum.splits) (metis fst_conv)

lemma returns_cases [returns_intro]:
  "(b \<Longrightarrow> returns p) \<Longrightarrow> (\<not> b \<Longrightarrow> returns q) \<Longrightarrow> returns (if b then p else q)"
  "(\<And>a b. returns (f2 a b)) \<Longrightarrow> returns (case_prod f2 x)"
  "(\<And>x. returns (f1 x)) \<Longrightarrow> returns (Let y f1)"
  "returns p \<Longrightarrow> (\<And>x. returns (f1 x)) \<Longrightarrow> returns (case_option p f1 o1)"
  by (auto split: prod.splits option.splits)

lemma returns_each [returns_intro]: "(\<And>x. x \<in> set xs \<Longrightarrow> returns (g x)) \<Longrightarrow> returns (each g xs)"
  by (induction xs) (auto intro!: returns_intro)

lemma returns_iter [returns_intro]: "(\<And>x s. x \<in> set xs \<Longrightarrow> returns (g x s)) \<Longrightarrow> returns (iter g xs s)"
  by (induction xs arbitrary: s) (auto intro!: returns_intro)

lemma returns_ends: "returns p \<Longrightarrow> ends p"
  unfolding returns_def ends_def by (metis Inl_not_Inr)

lemma returnsD: "returns p \<Longrightarrow> \<exists>x w'. p w = (Inr x, w')"
  unfolding returns_def by (metis prod.collapse)

end
