(* ===== verification/Pve.thy ===== *)
theory Pve
  imports Host "HOL-Library.Multiset" "HOL-Library.Char_ord" "HOL-Library.List_Lexorder"
begin

text \<open>
  \<open>agent/src/pve_cmds.py\<close>: the wrappers around \<open>qm\<close>, \<open>pct\<close> and \<open>pvesh\<close>: status probes,
  the guarded single-VM commands and their batches, the unguarded actions of the Hypervisors
  view, VMID allocation and listing, the polling loops and the two destroy ladders.
\<close>

section \<open>Guests\<close>

datatype guest = Qemu | Lxc

fun tool :: "guest \<Rightarrow> string" where
  "tool Qemu = ''qm''"
| "tool Lxc = ''pct''"

fun kind_name :: "guest \<Rightarrow> string" where
  "kind_name Qemu = ''qemu''"
| "kind_name Lxc = ''lxc''"

definition detect_guest_type :: "'h machine \<Rightarrow> int \<Rightarrow> ('h, guest) op" where
  "detect_guest_type m vid =
     bnd (sh m [''pct'', ''status'', str_int vid] 10 False) (\<lambda>(rc, out, err).
     ret (if rc = 0 then Lxc else Qemu))"

text \<open>The optional \<open>kind\<close> argument that skips the probe when it names a type.\<close>

definition guest_kind :: "'h machine \<Rightarrow> string option \<Rightarrow> int \<Rightarrow> ('h, guest) op" where
  "guest_kind m kind vid =
     (let k = lower (case kind of None \<Rightarrow> [] | Some s \<Rightarrow> s)
      in if k = ''qemu'' then ret Qemu else if k = ''lxc'' then ret Lxc else detect_guest_type m vid)"

record vm_state =
  vs_kind :: guest
  vs_running :: bool
  vs_raw :: string

definition vm_status :: "'h machine \<Rightarrow> int \<Rightarrow> ('h, vm_state) op" where
  "vm_status m vid =
     bnd (detect_guest_type m vid) (\<lambda>kind.
     bnd (sh m [tool kind, ''status'', str_int vid] 15 False) (\<lambda>(rc, out, err).
     let text = strip out
     in ret \<lparr>vs_kind = kind, vs_running = has_infix ''running'' text, vs_raw = text\<rparr>))"

text \<open>The first \<open>template:\<close> line of a configuration decides.\<close>

fun template_flag :: "string list \<Rightarrow> bool" where
  "template_flag [] = False"
| "template_flag (line # ls) =
     (let s = lower (strip line)
      in if has_prefix ''template:'' s then strip (drop 9 s) \<in> {''1'', ''true'', ''yes''}
         else template_flag ls)"

definition is_template :: "'h machine \<Rightarrow> int \<Rightarrow> string option \<Rightarrow> ('h, bool) op" where
  "is_template m vid kind =
     bnd (guest_kind m kind vid) (\<lambda>k.
     bnd (sh m [tool k, ''config'', str_int vid] 15 False) (\<lambda>(rc, out, err).
     ret (if rc \<noteq> 0 then False else template_flag (splitlines out))))"

section \<open>Guarded single-VM commands\<close>

definition start_vm ::
    "'h machine \<Rightarrow> string option \<Rightarrow> pyval \<Rightarrow> int set \<Rightarrow> ('h, int \<times> guest) op" where
  "start_vm m kind vmid prot =
     bnd (lift (assert_sim_vm vmid prot SIM_VMIN)) (\<lambda>vid.
     bnd (guest_kind m kind vid) (\<lambda>k.
     bnd (sh m [tool k, ''start'', str_int vid] FAST_CMD_TIMEOUT True) (\<lambda>_.
     ret (vid, k))))"

definition stop_vm ::
    "'h machine \<Rightarrow> string option \<Rightarrow> pyval \<Rightarrow> int set \<Rightarrow> ('h, int \<times> guest) op" where
  "stop_vm m kind vmid prot =
     bnd (lift (assert_sim_vm vmid prot SIM_VMIN)) (\<lambda>vid.
     bnd (guest_kind m kind vid) (\<lambda>k.
     bnd (sh m [tool k, ''stop'', str_int vid] FAST_CMD_TIMEOUT True) (\<lambda>_.
     ret (vid, k))))"

definition reboot_vm :: "'h machine \<Rightarrow> pyval \<Rightarrow> int set \<Rightarrow> ('h, int \<times> guest) op" where
  "reboot_vm m vmid prot =
     bnd (lift (assert_sim_vm vmid prot SIM_VMIN)) (\<lambda>vid.
     bnd (detect_guest_type m vid) (\<lambda>k.
     bnd (sh m [tool k, ''reboot'', str_int vid] FAST_CMD_TIMEOUT True) (\<lambda>_.
     ret (vid, k))))"

text \<open>\<open>name or f"auto-{time.strftime(...)}"\<close>\<close>

definition snapshot_label :: "'h machine \<Rightarrow> string option \<Rightarrow> ('h, string) op" where
  "snapshot_label m name =
     (if str_set name then ret (the name) else peek (\<lambda>w. ''auto-'' @ m_stamp m (host w)))"

definition snapshot_vm ::
    "'h machine \<Rightarrow> string option \<Rightarrow> string option \<Rightarrow> pyval \<Rightarrow> int set \<Rightarrow> ('h, int \<times> string \<times> guest) op" where
  "snapshot_vm m name kind vmid prot =
     bnd (lift (assert_sim_vm vmid prot SIM_VMIN)) (\<lambda>vid.
     bnd (guest_kind m kind vid) (\<lambda>k.
     bnd (snapshot_label m name) (\<lambda>snap.
     bnd (sh m [tool k, ''snapshot'', str_int vid, snap, ''--description'', ''client-sim''] FAST_CMD_TIMEOUT True) (\<lambda>_.
     ret (vid, snap, k)))))"

text \<open>\<open>protected or set()\<close> of the commands of the long operations.\<close>

abbreviation prot_or_none :: "int set option \<Rightarrow> int set" where
  "prot_or_none p \<equiv> (case p of None \<Rightarrow> {} | Some s \<Rightarrow> s)"

definition qm_start :: "'h machine \<Rightarrow> pyval \<Rightarrow> int set option \<Rightarrow> ('h, unit) op" where
  "qm_start m vmid prot =
     bnd (lift (assert_sim_vm vmid (prot_or_none prot) SIM_VMIN)) (\<lambda>vid.
     bnd (sh m [''qm'', ''start'', str_int vid] 60 True) (\<lambda>_. ret ()))"

definition pct_start :: "'h machine \<Rightarrow> pyval \<Rightarrow> int set option \<Rightarrow> ('h, unit) op" where
  "pct_start m vmid prot =
     bnd (lift (assert_sim_vm vmid (prot_or_none prot) SIM_VMIN)) (\<lambda>vid.
     bnd (sh m [''pct'', ''start'', str_int vid] 60 True) (\<lambda>_. ret ()))"

definition qm_set :: "'h machine \<Rightarrow> string list \<Rightarrow> pyval \<Rightarrow> int set option \<Rightarrow> ('h, unit) op" where
  "qm_set m args vmid prot =
     bnd (lift (assert_sim_vm vmid (prot_or_none prot) SIM_VMIN)) (\<lambda>vid.
     bnd (sh m ([''qm'', ''set'', str_int vid] @ args) 30 False) (\<lambda>_. ret ()))"

definition pct_set :: "'h machine \<Rightarrow> string list \<Rightarrow> pyval \<Rightarrow> int set option \<Rightarrow> ('h, unit) op" where
  "pct_set m args vmid prot =
     bnd (lift (assert_sim_vm vmid (prot_or_none prot) SIM_VMIN)) (\<lambda>vid.
     bnd (sh m ([''pct'', ''set'', str_int vid] @ args) 30 False) (\<lambda>_. ret ()))"

definition qm_template :: "'h machine \<Rightarrow> pyval \<Rightarrow> int set option \<Rightarrow> ('h, unit) op" where
  "qm_template m vmid prot =
     bnd (lift (assert_sim_vm vmid (prot_or_none prot) SIM_VMIN)) (\<lambda>vid.
     bnd (sh m [''qm'', ''template'', str_int vid] 120 True) (\<lambda>_. ret ()))"

definition qm_guest_exec ::
    "'h machine \<Rightarrow> string list \<Rightarrow> pyval \<Rightarrow> int set option \<Rightarrow> ('h, bool) op" where
  "qm_guest_exec m cmd vmid prot =
     bnd (lift (assert_sim_vm vmid (prot_or_none prot) SIM_VMIN)) (\<lambda>vid.
     bnd (sh m ([''qm'', ''guest'', ''exec'', str_int vid] @ cmd) 30 False) (\<lambda>(rc, out, err).
     ret (rc = 0)))"

definition qm_agent_ping :: "'h machine \<Rightarrow> int \<Rightarrow> pyval \<Rightarrow> int set option \<Rightarrow> ('h, bool) op" where
  "qm_agent_ping m secs vmid prot =
     bnd (lift (assert_sim_vm vmid (prot_or_none prot) SIM_VMIN)) (\<lambda>vid.
     bnd (sh m [''qm'', ''agent'', str_int vid, ''ping''] secs False) (\<lambda>(rc, out, err).
     ret (rc = 0)))"

text \<open>The clone source is unguarded (it lies below the floor); the target is guarded.\<close>

definition qm_clone ::
    "'h machine \<Rightarrow> int \<Rightarrow> string \<Rightarrow> string option \<Rightarrow> int \<Rightarrow> pyval \<Rightarrow> int set option \<Rightarrow> ('h, unit) op" where
  "qm_clone m template name pool secs vmid prot =
     bnd (lift (assert_sim_vm vmid (prot_or_none prot) SIM_VMIN)) (\<lambda>vid.
     bnd (sh m ([''qm'', ''clone'', str_int template, str_int vid, ''--name'', name]
                @ (if str_set pool then [''--pool'', the pool] else [])) secs True) (\<lambda>_. ret ()))"

definition pct_clone ::
    "'h machine \<Rightarrow> int \<Rightarrow> string \<Rightarrow> int \<Rightarrow> pyval \<Rightarrow> int set option \<Rightarrow> ('h, unit) op" where
  "pct_clone m source hostname secs vmid prot =
     bnd (lift (assert_sim_vm vmid (prot_or_none prot) SIM_VMIN)) (\<lambda>vid.
     bnd (sh m [''pct'', ''clone'', str_int source, str_int vid, ''--hostname'', hostname] secs True) (\<lambda>_. ret ()))"

section \<open>Polling\<close>

text \<open>
  \<open>while time.time() < deadline: if probe: return True; sleep(step)\<close>. The count bounds the
  iterations; \<open>polls\<close> gives one more than fit before the deadline when every pause takes
  its time.
\<close>

fun poll ::
    "'h machine \<Rightarrow> ('h, bool) op \<Rightarrow> rat \<Rightarrow> rat \<Rightarrow> nat \<Rightarrow> ('h, bool) op" where
  "poll m probe step deadline 0 = throw Diverged"
| "poll m probe step deadline (Suc n) =
     bnd (now_s m) (\<lambda>t.
     if t < deadline then
       bnd probe (\<lambda>hit.
       if hit then ret True
       else bnd (pause m step) (\<lambda>_. poll m probe step deadline n))
     else ret False)"

definition polls :: "rat \<Rightarrow> rat \<Rightarrow> nat" where
  "polls secs step = nat \<lceil>secs / step\<rceil> + 1"

definition poll_until :: "'h machine \<Rightarrow> ('h, bool) op \<Rightarrow> rat \<Rightarrow> rat \<Rightarrow> ('h, bool) op" where
  "poll_until m probe step secs =
     bnd (now_s m) (\<lambda>t. poll m probe step (t + secs) (polls secs step))"

definition stopped_probe :: "'h machine \<Rightarrow> int \<Rightarrow> guest \<Rightarrow> ('h, bool) op" where
  "stopped_probe m vid kind =
     bnd (sh m [tool kind, ''status'', str_int vid] 15 False) (\<lambda>(rc, out, err).
     ret (rc = 0 \<and> \<not> has_infix ''running'' (lower out)))"

definition wait_stopped :: "'h machine \<Rightarrow> int \<Rightarrow> guest \<Rightarrow> int \<Rightarrow> ('h, bool) op" where
  "wait_stopped m vid kind secs = poll_until m (stopped_probe m vid kind) 2 (of_int secs)"

definition guest_exists :: "'h machine \<Rightarrow> int \<Rightarrow> guest \<Rightarrow> ('h, bool) op" where
  "guest_exists m vid kind =
     bnd (sh m [tool kind, ''config'', str_int vid] 15 False) (\<lambda>(rc, out, err). ret (rc = 0))"

definition gone_probe :: "'h machine \<Rightarrow> int \<Rightarrow> guest \<Rightarrow> ('h, bool) op" where
  "gone_probe m vid kind =
     bnd (sh m [tool kind, ''config'', str_int vid] 15 False) (\<lambda>(rc, out, err). ret (rc \<noteq> 0))"

definition wait_guest_gone :: "'h machine \<Rightarrow> int \<Rightarrow> guest \<Rightarrow> int \<Rightarrow> ('h, bool) op" where
  "wait_guest_gone m vid kind secs = poll_until m (gone_probe m vid kind) 5 (of_int secs)"

section \<open>Stopping and destroying\<close>

fun first_pid_file :: "'h machine \<Rightarrow> string list \<Rightarrow> ('h, int option) op" where
  "first_pid_file m [] = ret None"
| "first_pid_file m (p # ps) =
     bnd (read_text m p) (\<lambda>text.
     case text of
       None \<Rightarrow> first_pid_file m ps
     | Some s \<Rightarrow> (case parse_int (strip s) of
                   None \<Rightarrow> first_pid_file m ps
                 | Some pid \<Rightarrow> if 0 < pid then ret (Some pid) else first_pid_file m ps))"

fun first_pgrep :: "'h machine \<Rightarrow> string list \<Rightarrow> ('h, int option) op" where
  "first_pgrep m [] = ret None"
| "first_pgrep m (pat # pats) =
     bnd (sh m [''pgrep'', ''-f'', pat] 10 False) (\<lambda>(rc, out, err).
     case filter is_digits (split_ws out) of
       [] \<Rightarrow> first_pgrep m pats
     | line # _ \<Rightarrow> lift (case parse_int line of None \<Rightarrow> Inl ValueError | Some i \<Rightarrow> Inr (Some i)))"

definition qemu_pid :: "'h machine \<Rightarrow> int \<Rightarrow> ('h, int option) op" where
  "qemu_pid m vid =
     (let v = str_int vid in
      bnd (first_pid_file m [''/run/qemu-server/'' @ v @ ''.pid'', ''/var/run/qemu-server/'' @ v @ ''.pid'']) (\<lambda>r.
      case r of
        Some pid \<Rightarrow> ret (Some pid)
      | None \<Rightarrow> first_pgrep m [''[[:space:]]'' @ v @ ''[[:space:]]'', ''qemu.*'' @ v]))"

definition unit_name :: "int \<Rightarrow> string" where
  "unit_name vid = ''qemu-server@'' @ str_int vid @ ''.service''"

definition kill_unit :: "'h machine \<Rightarrow> int \<Rightarrow> ('h, proc) op" where
  "kill_unit m vid =
     sh m [''systemctl'', ''kill'', ''--signal=SIGKILL'', unit_name vid] 10 False"

text \<open>\<open>if pid:\<close> treats process id 0 like none.\<close>

definition pid_set :: "int option \<Rightarrow> bool" where
  "pid_set p = (case p of None \<Rightarrow> False | Some i \<Rightarrow> i \<noteq> 0)"

definition stop_flag :: "'h machine \<Rightarrow> int \<Rightarrow> string list \<Rightarrow> ('h, unit) op" where
  "stop_flag m vid flag =
     bnd (sh m ([''qm'', ''stop'', str_int vid, ''--skiplock''] @ flag) 30 False) (\<lambda>_. ret ())"

definition qm_stop_force :: "'h machine \<Rightarrow> pyval \<Rightarrow> int set option \<Rightarrow> ('h, unit) op" where
  "qm_stop_force m vmid prot =
     bnd (lift (assert_sim_vm vmid (prot_or_none prot) SIM_VMIN)) (\<lambda>vid.
     bnd (each (stop_flag m vid) [[''--timeout'', ''5''], [''--forceStop'', ''1''], [''--timeout'', ''1'']]) (\<lambda>_.
     bnd (wait_stopped m vid Qemu 15) (\<lambda>stopped.
     bnd (if stopped then ret ()
          else bnd (qemu_pid m vid) (\<lambda>pid.
               bnd (if pid_set pid then sh m [''kill'', ''-9'', str_int (the pid)] 5 False
                    else kill_unit m vid) (\<lambda>_.
               pause m 3))) (\<lambda>_.
     bnd (wait_stopped m vid Qemu 20) (\<lambda>_. ret ())))))"

definition destroy_argv :: "int \<Rightarrow> string list" where
  "destroy_argv vid = [''qm'', ''destroy'', str_int vid, ''--skiplock'', ''--purge'', ''--destroy-unreferenced-disks'']"

text \<open>The second attempt of \<open>qm_destroy\<close>, after the emergency kill.\<close>

definition qm_destroy_retry :: "'h machine \<Rightarrow> int \<Rightarrow> int \<Rightarrow> string \<Rightarrow> ('h, bool \<times> string) op" where
  "qm_destroy_retry m vid secs reason =
     bnd (qemu_pid m vid) (\<lambda>pid.
     bnd (if pid_set pid then bnd (sh m [''kill'', ''-9'', str_int (the pid)] 5 False) (\<lambda>_. ret ()) else ret ()) (\<lambda>_.
     bnd (kill_unit m vid) (\<lambda>_.
     bnd (pause m 5) (\<lambda>_.
     bnd (sh m (destroy_argv vid) secs False) (\<lambda>(rc, out, err).
     let reason' = (if strip err \<noteq> [] then strip err else reason)
     in bnd (if rc = 0 then wait_guest_gone m vid Qemu 360 else ret False) (\<lambda>gone.
        if gone then ret (True, [])
        else bnd (guest_exists m vid Qemu) (\<lambda>ex.
             if \<not> ex then ret (True, [])
             else ret (False, if reason' \<noteq> [] then reason'
                              else ''`qm destroy` exited '' @ str_int rc @ ''; VM '' @ str_int vid
                                   @ '' config still present''))))))))"

definition qm_destroy ::
    "'h machine \<Rightarrow> int \<Rightarrow> pyval \<Rightarrow> int set option \<Rightarrow> ('h, bool \<times> string) op" where
  "qm_destroy m secs vmid prot =
     bnd (lift (assert_sim_vm vmid (prot_or_none prot) SIM_VMIN)) (\<lambda>vid.
     bnd (sh m (destroy_argv vid) secs False) (\<lambda>(rc, out, err).
     let reason = strip err
     in if rc = 0 then
          bnd (wait_guest_gone m vid Qemu 360) (\<lambda>gone.
          if gone then ret (True, []) else qm_destroy_retry m vid secs reason)
        else
          bnd (guest_exists m vid Qemu) (\<lambda>ex.
          if \<not> ex then ret (True, []) else qm_destroy_retry m vid secs reason)))"

fun pct_stop_flags :: "'h machine \<Rightarrow> int \<Rightarrow> string list list \<Rightarrow> ('h, unit) op" where
  "pct_stop_flags m vid [] = ret ()"
| "pct_stop_flags m vid (flag # flags) =
     bnd (sh m ([''pct'', ''stop'', str_int vid] @ flag) 120 False) (\<lambda>_.
     bnd (wait_stopped m vid Lxc 10) (\<lambda>stopped.
     if stopped then ret () else pct_stop_flags m vid flags))"

definition pct_stop :: "'h machine \<Rightarrow> pyval \<Rightarrow> int set option \<Rightarrow> ('h, unit) op" where
  "pct_stop m vmid prot =
     bnd (lift (assert_sim_vm vmid (prot_or_none prot) SIM_VMIN)) (\<lambda>vid.
     pct_stop_flags m vid [[''--force''], [''--skiplock''], []])"

fun pct_destroy_flags ::
    "'h machine \<Rightarrow> int \<Rightarrow> int \<Rightarrow> string \<Rightarrow> string list list \<Rightarrow> ('h, bool \<times> string) op" where
  "pct_destroy_flags m vid secs reason [] =
     ret (False, if reason \<noteq> [] then reason else ''pct destroy failed (all variants)'')"
| "pct_destroy_flags m vid secs reason (flag # flags) =
     bnd (sh m ([''pct'', ''destroy'', str_int vid] @ flag) secs False) (\<lambda>(rc, out, err).
     if rc = 0 then
       bnd (wait_guest_gone m vid Lxc 360) (\<lambda>gone.
       if gone then ret (True, [])
       else ret (False, ''`pct destroy` returned 0 but CT '' @ str_int vid @ '' config still present after 360s''))
     else
       (let reason' = (if strip err \<noteq> [] then strip err else reason)
        in bnd (guest_exists m vid Lxc) (\<lambda>ex.
           if \<not> ex then ret (True, []) else pct_destroy_flags m vid secs reason' flags)))"

definition pct_destroy ::
    "'h machine \<Rightarrow> int \<Rightarrow> pyval \<Rightarrow> int set option \<Rightarrow> ('h, bool \<times> string) op" where
  "pct_destroy m secs vmid prot =
     bnd (lift (assert_sim_vm vmid (prot_or_none prot) SIM_VMIN)) (\<lambda>vid.
     pct_destroy_flags m vid secs [] [[''--skiplock'', ''--purge'', ''--force''], [''--purge'', ''--force''],
       [''--skiplock'', ''--purge''], [''--skiplock''], []])"

section \<open>Listings\<close>

text \<open>The VMIDs in the rows after the header of \<open>qm list\<close> and \<open>pct list\<close>.\<close>

definition row_vmid :: "string \<Rightarrow> int list" where
  "row_vmid line =
     (case split_ws line of
        [] \<Rightarrow> []
      | f # _ \<Rightarrow> if is_digits f then (case parse_int f of None \<Rightarrow> [] | Some i \<Rightarrow> [i]) else [])"

definition listed_vmids :: "string \<Rightarrow> int list" where
  "listed_vmids out = concat (map row_vmid (drop 1 (splitlines out)))"

definition list_qemu_vmids :: "'h machine \<Rightarrow> ('h, int list) op" where
  "list_qemu_vmids m =
     bnd (sh m [''qm'', ''list''] 20 False) (\<lambda>(rc, out, err).
     ret (if rc \<noteq> 0 then [] else listed_vmids out))"

definition list_all_vmids :: "'h machine \<Rightarrow> ('h, int list) op" where
  "list_all_vmids m =
     bnd (list_qemu_vmids m) (\<lambda>ids.
     bnd (sh m [''pct'', ''list''] 20 False) (\<lambda>(rc, out, err).
     ret (ids @ (if rc = 0 then listed_vmids out else []))))"

text \<open>\<open>qm list\<close> again with the names, read off the fixed-width columns.\<close>

definition row_vm :: "string \<Rightarrow> (int \<times> string) list" where
  "row_vm line =
     (if length line < 10 then []
      else let v = strip (take 10 line)
           in if \<not> is_digits v then []
              else (case parse_int v of
                      None \<Rightarrow> []
                    | Some i \<Rightarrow> [(i, strip (if 30 \<le> length line then drop 10 (take 30 line) else drop 10 line))]))"

definition list_qemu_vms :: "'h machine \<Rightarrow> ('h, (int \<times> string) list) op" where
  "list_qemu_vms m =
     bnd (sh m [''qm'', ''list''] 20 False) (\<lambda>(rc, out, err).
     ret (if rc \<noteq> 0 then [] else concat (map row_vm (drop 1 (splitlines out)))))"

fun kv_lines :: "string list \<Rightarrow> (string, string) dict \<Rightarrow> (string, string) dict" where
  "kv_lines [] kv = kv"
| "kv_lines (line # ls) kv =
     (if CHR '':'' \<notin> set line then kv_lines ls kv
      else (case partition_on (CHR '':'') line of (k, v) \<Rightarrow> kv_lines ls (dset (strip k) (strip v) kv)))"

definition parse_kv :: "string \<Rightarrow> (string, string) dict" where
  "parse_kv text = kv_lines (splitlines text) []"

definition guest_config :: "'h machine \<Rightarrow> guest \<Rightarrow> int \<Rightarrow> ('h, (string, string) dict) op" where
  "guest_config m k vid =
     bnd (sh m [tool k, ''config'', str_int vid] 20 False) (\<lambda>(rc, out, err).
     ret (if rc \<noteq> 0 then [] else parse_kv out))"

definition qm_config :: "'h machine \<Rightarrow> int \<Rightarrow> ('h, (string, string) dict) op" where
  "qm_config m vid = guest_config m Qemu vid"

definition pct_config :: "'h machine \<Rightarrow> int \<Rightarrow> ('h, (string, string) dict) op" where
  "pct_config m vid = guest_config m Lxc vid"

section \<open>Batches\<close>

datatype batch_action = StartVms | StopVms | SnapshotVms

fun batch_one :: "'h machine \<Rightarrow> batch_action \<Rightarrow> int \<Rightarrow> int set \<Rightarrow> ('h, unit) op" where
  "batch_one m StartVms vid prot = bnd (start_vm m (Some ''qemu'') (PInt vid) prot) (\<lambda>_. ret ())"
| "batch_one m StopVms vid prot = bnd (stop_vm m (Some ''qemu'') (PInt vid) prot) (\<lambda>_. ret ())"
| "batch_one m SnapshotVms vid prot =
     bnd (snapshot_vm m None (Some ''qemu'') (PInt vid) prot) (\<lambda>_. ret ())"

text \<open>
  One task: a failure of the command or a refusal of the guard is logged; another exception
  leaves the batch (\<open>gather\<close> re-raises it).
\<close>

definition batch_task ::
    "'h machine \<Rightarrow> batch_action \<Rightarrow> int set \<Rightarrow> int \<Rightarrow> int list \<Rightarrow> ('h, int list) op" where
  "batch_task m action prot vid finished =
     catch (bnd (batch_one m action vid prot) (\<lambda>_. ret (finished @ [vid])))
       (\<lambda>e. case e of PveError msg \<Rightarrow> ret finished | GuardError r \<Rightarrow> ret finished | _ \<Rightarrow> throw e)"

text \<open>
  The targets run concurrently, four at a time, each with a single command; \<open>order\<close> gives the
  order in which their commands run, any permutation of the targets. The result is the sorted
  list of VMs done and the list of VMs skipped.
\<close>

definition vm_batch ::
    "'h machine \<Rightarrow> batch_action \<Rightarrow> (int list \<Rightarrow> int list) \<Rightarrow> int set \<Rightarrow> ('h, int list \<times> int list) op" where
  "vm_batch m action order prot =
     bnd (list_qemu_vmids m) (\<lambda>vids.
     let targets = filter (\<lambda>v. is_sim_vm (PInt v) prot SIM_VMIN) vids;
         skipped = filter (\<lambda>v. \<not> is_sim_vm (PInt v) prot SIM_VMIN) vids
     in bnd (iter (batch_task m action prot) (order targets) []) (\<lambda>finished.
        ret (sort finished, skipped)))"

section \<open>Unguarded actions\<close>

text \<open>The options of a backup, after the string conversions of the source.\<close>

record backup_opts =
  bo_storage :: pyval
  bo_mode :: pyval
  bo_keep :: pyval

definition keep_count :: "pyval \<Rightarrow> int" where
  "keep_count v = (case py_int (if truthy v then v else PInt 0) of Inr i \<Rightarrow> i | Inl e \<Rightarrow> 0)"

definition backup_mode :: "pyval \<Rightarrow> string" where
  "backup_mode v =
     (let mode = lower (py_str (if truthy v then v else PStr ''snapshot''))
      in if mode \<in> {''snapshot'', ''suspend'', ''stop''} then mode else ''snapshot'')"

definition backup_argv :: "int \<Rightarrow> string \<Rightarrow> string \<Rightarrow> int \<Rightarrow> string list" where
  "backup_argv vid storage mode keep =
     [''vzdump'', str_int vid, ''--mode'', mode, ''--storage'', storage, ''--compress'', ''zstd'']
     @ (if 0 < keep then [''--prune-backups'', ''keep-last='' @ str_int keep] else [])"

definition backup_vm :: "'h machine \<Rightarrow> int \<Rightarrow> backup_opts \<Rightarrow> ('h, unit) op" where
  "backup_vm m vid opts =
     (let storage = strip (py_str (or_empty (bo_storage opts))) in
      if storage = [] then throw (PveError ''backup: no storage configured'')
      else bnd (sh m [''pvesm'', ''status'', ''--storage'', storage] 15 False) (\<lambda>(rc, out, err).
           if rc \<noteq> 0 \<or> \<not> has_infix storage out then throw (PveError ''backup: storage not found on this host'')
           else spawn_detached (backup_argv vid storage (backup_mode (bo_mode opts)) (keep_count (bo_keep opts)))))"

text \<open>\<open>vm_action_any\<close>; the result is the VMID, the action reported, and the guest type.\<close>

definition vm_action_any ::
    "'h machine \<Rightarrow> int \<Rightarrow> string \<Rightarrow> string option \<Rightarrow> string option \<Rightarrow> backup_opts
     \<Rightarrow> ('h, int \<times> string \<times> guest) op" where
  "vm_action_any m vid action kind snapshot_name opts =
     bnd (guest_kind m kind vid) (\<lambda>k.
     let act = lower action; v = str_int vid in
     if act = ''start'' then
       bnd (sh m [tool k, ''start'', v] FAST_CMD_TIMEOUT True) (\<lambda>_. ret (vid, act, k))
     else if act = ''stop'' then
       bnd (sh m [tool k, ''stop'', v] FAST_CMD_TIMEOUT True) (\<lambda>_. ret (vid, act, k))
     else if act \<in> {''reboot'', ''restart''} then
       bnd (sh m [tool k, (if k = Qemu then ''reset'' else ''reboot''), v] FAST_CMD_TIMEOUT True) (\<lambda>_.
       ret (vid, ''reboot'', k))
     else if act = ''snapshot'' then
       bnd (snapshot_label m snapshot_name) (\<lambda>snap.
       bnd (sh m [tool k, ''snapshot'', v, snap, ''--description'', ''lm-hub''] FAST_CMD_TIMEOUT True) (\<lambda>_.
       ret (vid, ''snapshot'', k)))
     else if act = ''backup'' then bnd (backup_vm m vid opts) (\<lambda>_. ret (vid, ''backup'', k))
     else if act \<in> {''destroy'', ''delete''} then
       bnd (sh m [tool k, ''stop'', v] FAST_CMD_TIMEOUT False) (\<lambda>_.
       bnd (sh m [tool k, ''destroy'', v, ''--purge''] FAST_CMD_TIMEOUT True) (\<lambda>_.
       ret (vid, ''destroy'', k)))
     else throw (PveError (''unknown vm action: '' @ action)))"

definition clone_vm_any ::
    "'h machine \<Rightarrow> int \<Rightarrow> int \<Rightarrow> string \<Rightarrow> guest \<Rightarrow> bool \<Rightarrow> string option \<Rightarrow> int \<Rightarrow> ('h, unit) op" where
  "clone_vm_any m tvid nvid name kind full pool secs =
     (let pool_args = (if str_set pool then [''--pool'', the pool] else []) in
      if kind = Lxc then
        bnd (sh m ([''pct'', ''clone'', str_int tvid, str_int nvid, ''--hostname'', name] @ pool_args) secs True)
          (\<lambda>_. ret ())
      else
        bnd (sh m ([''qm'', ''clone'', str_int tvid, str_int nvid, ''--name'', name]
                   @ (if full then [''--full''] else []) @ pool_args) secs True)
          (\<lambda>_. ret ()))"

section \<open>Tags\<close>

definition set_tags_any :: "'h machine \<Rightarrow> int \<Rightarrow> guest \<Rightarrow> string list \<Rightarrow> ('h, unit) op" where
  "set_tags_any m vid kind tags =
     bnd (sh m [tool kind, ''set'', str_int vid, ''--tags'',
               join_sep '';'' (filter (\<lambda>t. t \<noteq> []) (map strip tags))] 30 True) (\<lambda>_. ret ())"

text \<open>A guest of \<open>/cluster/resources\<close>, reduced to the keys the two sweeps read.\<close>

record resource =
  rs_vmid :: int
  rs_kind :: guest
  rs_tags :: string

definition split_tags :: "string \<Rightarrow> string list" where
  "split_tags s = filter (\<lambda>t. strip t \<noteq> []) (split_on (CHR '';'') s)"

definition swap_tag :: "string \<Rightarrow> string \<Rightarrow> string list \<Rightarrow> string list" where
  "swap_tag old_tag new_tag tags =
     (let ts = filter (\<lambda>t. t \<noteq> old_tag) tags
      in if new_tag \<in> set ts then ts else ts @ [new_tag])"

text \<open>
  The sweep of \<open>retag_tenant\<close> over the parsed rows: the guests re-tagged with their new tags,
  and the errors.
\<close>

definition retag_one ::
    "'h machine \<Rightarrow> string \<Rightarrow> string \<Rightarrow> resource \<Rightarrow> (int \<times> string list) list \<times> (int \<times> exn) list
     \<Rightarrow> ('h, (int \<times> string list) list \<times> (int \<times> exn) list) op" where
  "retag_one m old_tag new_tag r acc =
     (case acc of (changed, errors) \<Rightarrow>
      let tags = split_tags (rs_tags r) in
      if old_tag \<notin> set tags then ret acc
      else let new_tags = swap_tag old_tag new_tag tags in
        catch (bnd (set_tags_any m (rs_vmid r) (rs_kind r) new_tags) (\<lambda>_.
               ret (changed @ [(rs_vmid r, new_tags)], errors)))
          (\<lambda>e. ret (changed, errors @ [(rs_vmid r, e)])))"

definition retag_rows ::
    "'h machine \<Rightarrow> string \<Rightarrow> string \<Rightarrow> resource list
     \<Rightarrow> ('h, (int \<times> string list) list \<times> (int \<times> exn) list) op" where
  "retag_rows m old_tag new_tag rows =
     (let o_tag = strip old_tag; n_tag = strip new_tag in
      if o_tag = [] \<or> n_tag = [] \<or> o_tag = n_tag then ret ([], [])
      else iter (retag_one m o_tag n_tag) rows ([], []))"

text \<open>The tag list \<open>apply_sim_tags\<close> wants for a guest: its other tags, then the sorted sim tags.\<close>

definition is_sim_tag :: "string \<Rightarrow> bool" where
  "is_sim_tag t = has_prefix ''sim-'' (lower t)"

definition sim_tags_for :: "string \<Rightarrow> string list \<Rightarrow> string list" where
  "sim_tags_for tags desired =
     filter (\<lambda>t. \<not> is_sim_tag t) (filter (\<lambda>t. t \<noteq> []) (map strip (split_on (CHR '';'') tags)))
     @ sort (remdups (filter is_sim_tag (filter (\<lambda>t. t \<noteq> []) (map strip desired))))"

definition sim_tags_settled :: "string \<Rightarrow> string list \<Rightarrow> bool" where
  "sim_tags_settled tags desired \<longleftrightarrow>
     sort (filter (\<lambda>t. t \<noteq> []) (map strip (split_on (CHR '';'') tags))) = sort (sim_tags_for tags desired)"

definition row_of :: "resource list \<Rightarrow> int \<Rightarrow> resource option" where
  "row_of rows vid = (case filter (\<lambda>r. rs_vmid r = vid) rows of [] \<Rightarrow> None | r # rs \<Rightarrow> Some (last (r # rs)))"

definition apply_sim_one ::
    "'h machine \<Rightarrow> resource list \<Rightarrow> int \<times> string list \<Rightarrow> (int \<times> string list) list \<times> (int \<times> exn) list
     \<Rightarrow> ('h, (int \<times> string list) list \<times> (int \<times> exn) list) op" where
  "apply_sim_one m rows e acc =
     (case e of (vid, desired) \<Rightarrow> case acc of (updated, errors) \<Rightarrow>
      case row_of rows vid of
        None \<Rightarrow> ret acc
      | Some r \<Rightarrow>
          if sim_tags_settled (rs_tags r) desired then ret acc
          else let new_tags = sim_tags_for (rs_tags r) desired in
            catch (bnd (set_tags_any m vid (rs_kind r) new_tags) (\<lambda>_. ret (updated @ [(vid, new_tags)], errors)))
              (\<lambda>x. ret (updated, errors @ [(vid, x)])))"

definition apply_sim_rows ::
    "'h machine \<Rightarrow> (int, string list) dict \<Rightarrow> resource list
     \<Rightarrow> ('h, (int \<times> string list) list \<times> (int \<times> exn) list) op" where
  "apply_sim_rows m tag_map rows = iter (apply_sim_one m rows) tag_map ([], [])"

section \<open>VMID allocation\<close>

text \<open>
  \<open>next_free_vmid\<close>: the reply of \<open>pvesh get /cluster/nextid\<close> after JSON decoding (\<open>decode\<close>),
  else one more than the largest VMID in the two listings, else 100.
\<close>

definition nextid_reply :: "pyval option \<Rightarrow> int option" where
  "nextid_reply data =
     (case data of
        None \<Rightarrow> None
      | Some v \<Rightarrow>
          (let v1 = (case v of PDict d \<Rightarrow> (case dget d ''data'' of None \<Rightarrow> v | Some x \<Rightarrow> x) | _ \<Rightarrow> v);
               v2 = (case v1 of
                       PStr s \<Rightarrow> PStr (rev (dropWhile (\<lambda>c. c = CHR ''\"'')
                                   (rev (dropWhile (\<lambda>c. c = CHR ''\"'') (strip s)))))
                     | _ \<Rightarrow> v1)
           in case py_int v2 of Inr i \<Rightarrow> Some i | Inl e \<Rightarrow> None))"

definition listed_by :: "'h machine \<Rightarrow> string \<Rightarrow> int list \<Rightarrow> ('h, int list) op" where
  "listed_by m bin used =
     bnd (sh m [bin, ''list''] 20 False) (\<lambda>(rc, out, err).
     ret (if rc \<noteq> 0 then used else used @ listed_vmids out))"

definition next_free_vmid :: "'h machine \<Rightarrow> (string \<Rightarrow> pyval option) \<Rightarrow> ('h, int) op" where
  "next_free_vmid m decode =
     bnd (sh m [''pvesh'', ''get'', ''/cluster/nextid''] 15 False) (\<lambda>(rc, out, err).
     case (if rc = 0 then nextid_reply (decode out) else None) of
       Some i \<Rightarrow> ret i
     | None \<Rightarrow> bnd (iter (listed_by m) [''qm'', ''pct''] []) (\<lambda>used.
               ret (if used \<noteq> [] then Max (set used) + 1 else 100)))"

section \<open>Which VM a command touches\<close>

text \<open>
  Every command the agent issues about one VM names it: \<open>qm\<close> and \<open>pct\<close> as their third word
  (\<open>qm guest exec\<close> as its fourth), \<open>systemctl\<close> in the unit. The process lookups and the kill
  of the process found are the emergency path of the destroy ladder.
\<close>

definition about :: "int \<Rightarrow> string list \<Rightarrow> bool" where
  "about vid a \<longleftrightarrow>
     (3 \<le> length a \<and> (a ! 0 = ''qm'' \<or> a ! 0 = ''pct'') \<and> a ! 2 = str_int vid)
     \<or> (4 \<le> length a \<and> take 3 a = [''qm'', ''guest'', ''exec''] \<and> a ! 3 = str_int vid)
     \<or> a = [''systemctl'', ''kill'', ''--signal=SIGKILL'', unit_name vid]
     \<or> take 2 a = [''pgrep'', ''-f''] \<or> take 2 a = [''kill'', ''-9'']"

definition touches :: "int \<Rightarrow> event \<Rightarrow> bool" where
  "touches vid e = (case e of Cmd a r \<Rightarrow> about vid a | Detached a \<Rightarrow> about vid a | _ \<Rightarrow> True)"

definition on_sim_vm :: "int set \<Rightarrow> event \<Rightarrow> bool" where
  "on_sim_vm prot e \<longleftrightarrow> (\<exists>vid. 90000 \<le> vid \<and> vid \<notin> prot \<and> touches vid e)"

lemma touches_simps [simp]:
  "touches vid (Slept d)" "touches vid (Sent k x)" "touches vid (Cmd a r) = about vid a"
  by (simp_all add: touches_def)

lemma about_tool [simp]: "about vid (tool k # verb # str_int vid # rest)"
  by (cases k) (simp_all add: about_def)

lemma about_words [simp]:
  "about vid (''qm'' # verb # str_int vid # rest)" "about vid (''pct'' # verb # str_int vid # rest)"
  "about vid (''qm'' # ''guest'' # ''exec'' # str_int vid # rest)"
  "about vid (''pgrep'' # ''-f'' # rest)" "about vid (''kill'' # ''-9'' # rest)"
  "about vid [''systemctl'', ''kill'', ''--signal=SIGKILL'', unit_name vid]"
  by (simp_all add: about_def)

lemma emits_guest_kind [emits_intro]:
  "emits (touches vid) (detect_guest_type m vid)" "emits (touches vid) (guest_kind m k vid)"
  by (auto simp: detect_guest_type_def guest_kind_def Let_def intro!: emits_intro)

lemma emits_probes [emits_intro]:
  "emits (touches vid) (vm_status m vid)" "emits (touches vid) (is_template m vid k)"
  "emits (touches vid) (stopped_probe m vid g)" "emits (touches vid) (gone_probe m vid g)"
  "emits (touches vid) (guest_exists m vid g)" "emits (touches vid) (guest_config m g vid)"
  "emits (touches vid) (kill_unit m vid)" "emits (touches vid) (snapshot_label m name)"
  by (auto simp: vm_status_def is_template_def stopped_probe_def gone_probe_def guest_exists_def
      guest_config_def kill_unit_def snapshot_label_def intro!: emits_intro)

lemma emits_poll:
  "emits P probe \<Longrightarrow> (\<And>d. P (Slept d)) \<Longrightarrow> emits P (poll m probe step deadline n)"
  by (induction n) (auto intro!: emits_intro)

lemma emits_waits [emits_intro]:
  "emits (touches vid) (wait_stopped m vid k t)" "emits (touches vid) (wait_guest_gone m vid k t)"
  by (auto simp: wait_stopped_def wait_guest_gone_def poll_until_def intro!: emits_intro emits_poll)

lemma emits_first_pid_file [emits_intro]: "emits P (first_pid_file m ps)"
  by (induction ps) (auto intro!: emits_intro)

lemma emits_first_pgrep [emits_intro]: "emits (touches vid) (first_pgrep m ps)"
  by (induction ps) (auto intro!: emits_intro)

lemma emits_qemu_pid [emits_intro]: "emits (touches vid) (qemu_pid m vid)"
  by (auto simp: qemu_pid_def Let_def intro!: emits_intro)

lemma emits_stop_flag [emits_intro]: "emits (touches vid) (stop_flag m vid f)"
  by (auto simp: stop_flag_def intro!: emits_intro)

lemma emits_destroy_retry [emits_intro]: "emits (touches vid) (qm_destroy_retry m vid t reason)"
  by (auto simp: qm_destroy_retry_def destroy_argv_def intro!: emits_intro)

lemma emits_pct_ladders [emits_intro]:
  "emits (touches vid) (pct_stop_flags m vid fs)"
  "emits (touches vid) (pct_destroy_flags m vid t reason gs)"
  by (induction fs, auto intro!: emits_intro) (induction gs arbitrary: reason, auto intro!: emits_intro)

section \<open>The contract of a guarded command\<close>

locale guarded_op =
  fixes cmd :: "pyval \<Rightarrow> int set \<Rightarrow> ('h, 'a) op"
  assumes refuses: "assert_sim_vm v prot SIM_VMIN = Inl e \<Longrightarrow> cmd v prot w = (Inl e, w)"
    and confined: "assert_sim_vm v prot SIM_VMIN = Inr vid \<Longrightarrow> emits (touches vid) (cmd v prot)"
begin

lemma refused:
  assumes "\<not> is_sim_vm v prot SIM_VMIN"
  shows "\<exists>r. assert_sim_vm v prot SIM_VMIN = Inl (GuardError r) \<and> cmd v prot w = (Inl (GuardError r), w)"
proof -
  obtain e where e: "assert_sim_vm v prot SIM_VMIN = Inl e"
    using assms by (cases "assert_sim_vm v prot SIM_VMIN") (auto simp: is_sim_vm_def)
  then show ?thesis using assert_sim_vm_Inl [OF e] refuses [OF e] by auto
qed

lemma sim_only: "emits (on_sim_vm prot) (cmd v prot)"
proof (cases "assert_sim_vm v prot SIM_VMIN")
  case (Inl e)
  from refuses [OF this] show ?thesis by (simp add: emits_def yields_def)
next
  case (Inr vid)
  then have "90000 \<le> vid" "vid \<notin> prot" by (simp_all add: assert_sim_vm_Inr SIM_VMIN_def)
  then show ?thesis
    by (intro emits_mono [OF confined [OF Inr]]) (auto simp: on_sim_vm_def)
qed

lemma touches_only:
  assumes "cmd v prot w = (r, w')"
  obtains es where "trace w' = trace w @ es" "list_all (on_sim_vm prot) es"
  using emitsD [OF sim_only assms] .

end

interpretation g_start: guarded_op "start_vm m k" for m :: "'h machine" and k
  by unfold_locales (auto simp: start_vm_def intro!: emits_intro)

interpretation g_stop: guarded_op "stop_vm m k" for m :: "'h machine" and k
  by unfold_locales (auto simp: stop_vm_def intro!: emits_intro)

interpretation g_reboot: guarded_op "reboot_vm m" for m :: "'h machine"
  by unfold_locales (auto simp: reboot_vm_def intro!: emits_intro)

interpretation g_snapshot: guarded_op "snapshot_vm m n k" for m :: "'h machine" and n k
  by unfold_locales (auto simp: snapshot_vm_def intro!: emits_intro)

interpretation g_qm_start: guarded_op "\<lambda>v p. qm_start m v (Some p)" for m :: "'h machine"
  by unfold_locales (auto simp: qm_start_def intro!: emits_intro)

interpretation g_pct_start: guarded_op "\<lambda>v p. pct_start m v (Some p)" for m :: "'h machine"
  by unfold_locales (auto simp: pct_start_def intro!: emits_intro)

interpretation g_qm_set: guarded_op "\<lambda>v p. qm_set m args v (Some p)" for m :: "'h machine" and args
  by unfold_locales (auto simp: qm_set_def intro!: emits_intro)

interpretation g_pct_set: guarded_op "\<lambda>v p. pct_set m args v (Some p)" for m :: "'h machine" and args
  by unfold_locales (auto simp: pct_set_def intro!: emits_intro)

interpretation g_qm_template: guarded_op "\<lambda>v p. qm_template m v (Some p)" for m :: "'h machine"
  by unfold_locales (auto simp: qm_template_def intro!: emits_intro)

interpretation g_guest_exec: guarded_op "\<lambda>v p. qm_guest_exec m args v (Some p)" for m :: "'h machine" and args
  by unfold_locales (auto simp: qm_guest_exec_def intro!: emits_intro)

interpretation g_ping: guarded_op "\<lambda>v p. qm_agent_ping m t v (Some p)" for m :: "'h machine" and t
  by unfold_locales (auto simp: qm_agent_ping_def intro!: emits_intro)

interpretation g_stop_force: guarded_op "\<lambda>v p. qm_stop_force m v (Some p)" for m :: "'h machine"
  by unfold_locales (auto simp: qm_stop_force_def intro!: emits_intro)

interpretation g_qm_destroy: guarded_op "\<lambda>v p. qm_destroy m t v (Some p)" for m :: "'h machine" and t
  by unfold_locales (auto simp: qm_destroy_def destroy_argv_def intro!: emits_intro)

interpretation g_pct_stop: guarded_op "\<lambda>v p. pct_stop m v (Some p)" for m :: "'h machine"
  by unfold_locales (auto simp: pct_stop_def intro!: emits_intro)

interpretation g_pct_destroy: guarded_op "\<lambda>v p. pct_destroy m t v (Some p)" for m :: "'h machine" and t
  by unfold_locales (auto simp: pct_destroy_def intro!: emits_intro)

section \<open>Verdicts of the destroy ladders\<close>

text \<open>The events end with a configuration probe that answered as said.\<close>

definition probed :: "int \<Rightarrow> guest \<Rightarrow> bool \<Rightarrow> event list \<Rightarrow> bool" where
  "probed vid k absent es \<longleftrightarrow> (\<exists>pre rc out err.
     es = pre @ [Cmd [tool k, ''config'', str_int vid] (Exited rc out err)] \<and> (absent \<longleftrightarrow> rc \<noteq> 0))"

lemma probed_append [simp, intro]: "probed vid k g fs \<Longrightarrow> probed vid k g (es @ fs)"
  unfolding probed_def by (metis append.assoc)

lemma appends_cmds [simp, intro]:
  "appends (sh m a t c)" "appends (wait_guest_gone m vid k t)" "appends (wait_stopped m vid k t)"
  "appends (qemu_pid m vid)" "appends (kill_unit m vid)" "appends (guest_exists m vid k)"
  by (rule appends_if_emits [OF emits_waits(2)] appends_if_emits [OF emits_waits(1)]
      appends_if_emits [OF emits_qemu_pid] appends_if_emits [OF emits_probes(7)]
      appends_if_emits [OF emits_probes(5)] emits_sh, simp?)+

lemma yields_probe_rc:
  assumes "\<And>rc. b rc \<longleftrightarrow> (g \<longleftrightarrow> rc \<noteq> 0)"
  shows "yields (bnd (sh m [tool k, ''config'', str_int vid] t False) (\<lambda>(rc, out, err). ret (b rc)))
     (\<lambda>r es. r = Inr True \<longrightarrow> probed vid k g es)"
  by (rule yields_bnd [OF yields_sh, where QB = "\<lambda>x r es. es = [] \<and> r = Inr (b (fst x))"])
     (auto simp: probed_def assms yields_def)

lemma yields_guest_exists:
  "yields (guest_exists m vid k) (\<lambda>r es. (r = Inr False \<longrightarrow> probed vid k True es) \<and> (r = Inr True \<longrightarrow> probed vid k False es))"
  unfolding guest_exists_def
  by (rule yields_bnd [OF yields_sh, where QB = "\<lambda>x r es. es = [] \<and> r = Inr (fst x = 0)"])
     (auto simp: probed_def yields_def)

lemma yields_poll:
  assumes "yields probe (\<lambda>r es. r = Inr True \<longrightarrow> T es)" "\<And>es fs. T fs \<Longrightarrow> T (es @ fs)"
  shows "yields (poll m probe step deadline n) (\<lambda>r es. r = Inr True \<longrightarrow> T es)"
proof (induction n)
  case 0
  then show ?case by (simp add: yields_def)
next
  case (Suc n)
  have p: "appends (pause m step)" by (intro emits_intro) simp
  have again: "yields (bnd (pause m step) (\<lambda>_. poll m probe step deadline n)) (\<lambda>r es. r = Inr True \<longrightarrow> T es)"
    by (rule yields_then [OF p Suc]) (auto simp: assms(2))
  have one: "yields (bnd probe (\<lambda>x. if x = True then ret True else bnd (pause m step) (\<lambda>_. poll m probe step deadline n)))
      (\<lambda>r es. r = Inr True \<longrightarrow> T es)"
    by (rule yields_test [OF assms(1) _ again]) (auto simp: assms(2))
  show ?case
    unfolding poll.simps
    by (rule yields_then [OF emits_reads(1)])
       (use one in \<open>auto simp: assms(2) intro: yields_ret\<close>)
qed

lemma yields_wait_gone: "yields (wait_guest_gone m vid k t) (\<lambda>r es. r = Inr True \<longrightarrow> probed vid k True es)"
  unfolding wait_guest_gone_def poll_until_def gone_probe_def
  by (rule yields_then [OF emits_reads(1) yields_poll [OF yields_probe_rc]]) auto

text \<open>What a ladder's answer \<open>(ok, reason)\<close> says about its last look at the guest.\<close>

definition verdict :: "int \<Rightarrow> guest \<Rightarrow> (bool \<times> string) result \<Rightarrow> event list \<Rightarrow> bool" where
  "verdict vid k r es \<longleftrightarrow>
     (case r of Inl e \<Rightarrow> True
      | Inr (ok, reason) \<Rightarrow> (ok \<longrightarrow> probed vid k True es)
          \<and> (\<not> ok \<longrightarrow> reason \<noteq> [] \<and> (k = Qemu \<longrightarrow> probed vid k False es)))"

lemma verdict_simps [simp]:
  "verdict vid k (Inl e) es" "verdict vid k r fs \<Longrightarrow> verdict vid k r (es @ fs)"
  "verdict vid k (Inr (True, reason)) es \<longleftrightarrow> probed vid k True es"
  "verdict vid k (Inr (False, reason)) es \<longleftrightarrow> reason \<noteq> [] \<and> (k = Qemu \<longrightarrow> probed vid k False es)"
  by (auto simp: verdict_def split: sum.splits prod.splits bool.splits)

lemma yields_exists_or:
  assumes "yields q (verdict vid k)"
  shows "yields (bnd (guest_exists m vid k) (\<lambda>ex. if \<not> ex then ret (True, []) else q)) (verdict vid k)"
proof -
  have "yields (bnd (guest_exists m vid k) (\<lambda>ex. if ex = False then ret (True, []) else q)) (verdict vid k)"
    by (rule yields_test [where T = "probed vid k True", OF yields_mono [OF yields_guest_exists] _ assms]) auto
  then show ?thesis by simp
qed

lemma yields_gone_or:
  assumes "yields p (\<lambda>r es. r = Inr True \<longrightarrow> probed vid k True es)" "yields q (verdict vid k)"
  shows "yields (bnd p (\<lambda>x. if x then ret (True, []) else q)) (verdict vid k)"
proof -
  have "yields (bnd p (\<lambda>x. if x = True then ret (True, []) else q)) (verdict vid k)"
    by (rule yields_test [where T = "probed vid k True", OF assms(1) _ assms(2)]) auto
  then show ?thesis by simp
qed

lemma yields_last_look:
  assumes "msg \<noteq> []"
  shows "yields (bnd (guest_exists m vid k) (\<lambda>ex. if \<not> ex then ret (True, []) else ret (False, msg))) (verdict vid k)"
  by (rule yields_bnd [OF yields_guest_exists, where QB = "\<lambda>ex r es. es = [] \<and> r = Inr (\<not> ex, if ex then msg else [])"])
     (auto simp: yields_def assms split: if_splits)

lemma appends_pure [simp, intro]: "appends (ret x)" "appends (pause m d)"
  by (rule emits_pure) (rule emits_pause, simp)

lemma yields_destroy_retry: "yields (qm_destroy_retry m vid t reason) (verdict vid Qemu)"
proof -
  have kill: "appends (if pid_set pid then bnd (sh m [''kill'', ''-9'', str_int (the pid)] 5 False) (\<lambda>_. ret ()) else ret ())" for pid
    by (auto intro!: emits_intro)
  have wait: "yields (if rc = 0 then wait_guest_gone m vid Qemu 360 else ret False)
      (\<lambda>r es. r = Inr True \<longrightarrow> probed vid Qemu True es)" for rc :: int
    using yields_wait_gone by (auto intro: yields_ret)
  show ?thesis
    unfolding qm_destroy_retry_def case_prod_beta Let_def
    by (rule yields_then appends_cmds appends_pure kill yields_gone_or wait yields_last_look
        | rule verdict_simps | simp)+
qed

lemma yields_pct_destroy_flags:
  "yields (pct_destroy_flags m vid t reason flags) (verdict vid Lxc)"
proof (induction flags arbitrary: reason)
  case Nil
  then show ?case by (auto intro!: yields_Pair)
next
  case (Cons f fs)
  have stuck: "yields (ret (False, c # msg)) (verdict vid Lxc)" for c msg by (auto intro: yields_ret)
  show ?case
    unfolding pct_destroy_flags.simps case_prod_beta Let_def
    by (rule yields_then [OF appends_cmds(1)])
       (use stuck Cons in \<open>auto intro!: yields_gone_or yields_wait_gone yields_exists_or\<close>)
qed

text \<open>
  C25: the destroy ladders do not guess. When \<open>qm_destroy\<close> or \<open>pct_destroy\<close> reports success,
  its last act was a configuration probe that failed, so the guest was seen gone after the
  destroy; when \<open>qm_destroy\<close> reports failure its last probe still found the guest; a reported
  failure always carries a reason.
\<close>

theorem destroy_verdicts:
  "(qm_destroy m secs (PInt vid) prot w = (Inr (ok, reason), w') \<longrightarrow>
      (\<exists>es. trace w' = trace w @ es \<and> probed vid Qemu ok es) \<and> (ok \<or> reason \<noteq> []))
   \<and> (pct_destroy m secs (PInt vid) prot w = (Inr (ok, reason), w') \<longrightarrow>
      (\<exists>es. trace w' = trace w @ es \<and> (ok \<longrightarrow> probed vid Lxc True es)) \<and> (ok \<or> reason \<noteq> []))"
proof -
  have guard: "yields (bnd (lift (assert_sim_vm (PInt vid) p SIM_VMIN)) f) (verdict vid k)"
    if "yields (f vid) (verdict vid k)" for k p and f :: "int \<Rightarrow> ('a, bool \<times> string) op"
    using that by (cases rule: guard_vmid_cases [of vid p]) (auto intro: yields_throw)
  have q: "yields (qm_destroy m secs (PInt vid) prot) (verdict vid Qemu)"
    unfolding qm_destroy_def case_prod_beta Let_def
    by (rule guard, rule yields_then [OF appends_cmds(1)])
       (auto intro!: yields_gone_or yields_wait_gone yields_exists_or yields_destroy_retry)
  have l: "yields (pct_destroy m secs (PInt vid) prot) (verdict vid Lxc)"
    unfolding pct_destroy_def by (rule guard, rule yields_pct_destroy_flags)
  show ?thesis
  proof (intro conjI impI)
    assume run: "qm_destroy m secs (PInt vid) prot w = (Inr (ok, reason), w')"
    obtain es where "trace w' = trace w @ es" "verdict vid Qemu (Inr (ok, reason)) es"
      using q by (rule yieldsE [where w = w]) (simp add: run)
    then show "\<exists>es. trace w' = trace w @ es \<and> probed vid Qemu ok es" "ok \<or> reason \<noteq> []"
      by (cases ok; auto)+
  next
    assume run: "pct_destroy m secs (PInt vid) prot w = (Inr (ok, reason), w')"
    obtain es where "trace w' = trace w @ es" "verdict vid Lxc (Inr (ok, reason)) es"
      using l by (rule yieldsE [where w = w]) (simp add: run)
    then show "\<exists>es. trace w' = trace w @ es \<and> (ok \<longrightarrow> probed vid Lxc True es)" "ok \<or> reason \<noteq> []"
      by (cases ok; auto)+
  qed
qed

section \<open>The polling loops end\<close>

lemma poll_ends:
  assumes "clock_ok m" "advances m probe" "ends probe" "0 < step"
  shows "deadline - m_clock m (host w) \<le> of_nat n * step
    \<Longrightarrow> fst (poll m probe step deadline (Suc n) w) \<noteq> Inl Diverged"
proof (induction n arbitrary: w)
  case 0
  then show ?case by (simp add: bnd_def now_s_def)
next
  case (Suc n)
  obtain r w1 where p: "probe w = (r, w1)" by (cases "probe w")
  have c1: "m_clock m (host w) \<le> m_clock m (host w1)" using assms(2) p by (auto simp: advances_def)
      (metis snd_conv)
  have r: "r \<noteq> Inl Diverged" using assms(3) p by (auto simp: ends_def) (metis fst_conv)
  let ?w2 = "snd (pause m step w1)"
  have "m_clock m (host w1) + step \<le> m_clock m (host ?w2)"
    using assms(1,4) by (simp add: pause_def clock_pause)
  then have "deadline - m_clock m (host ?w2) \<le> of_nat n * step"
    using Suc.prems c1 by (simp add: distrib_right)
  note IH = Suc.IH [OF this]
  show ?case
  proof (cases "m_clock m (host w) < deadline")
    case True
    show ?thesis
    proof (cases r)
      case (Inl e)
      with True r show ?thesis by (simp add: bnd_def now_s_def p)
    next
      case (Inr hit)
      have "poll m probe step deadline (Suc (Suc n)) w =
          (if hit then (Inr True, w1) else poll m probe step deadline (Suc n) ?w2)"
        using True Inr by (simp add: bnd_def now_s_def p pause_def)
      with IH show ?thesis by simp
    qed
  next
    case False
    then show ?thesis by (simp add: bnd_def now_s_def)
  qed
qed

lemma poll_timeout:
  "poll m probe step deadline n w = (Inr False, w') \<Longrightarrow> deadline \<le> m_clock m (host w')"
proof (induction n arbitrary: w)
  case (Suc n)
  show ?case
  proof (cases "m_clock m (host w) < deadline")
    case True
    with Suc show ?thesis
      by (auto simp: bnd_def now_s_def pause_def split: prod.splits sum.splits if_splits)
  next
    case False
    with Suc.prems show ?thesis by (simp add: bnd_def now_s_def)
  qed
qed simp

lemma poll_until_timeout:
  "poll_until m probe step secs w = (Inr False, w') \<Longrightarrow> m_clock m (host w) + secs \<le> m_clock m (host w')"
  by (auto simp: poll_until_def bnd_def now_s_def dest: poll_timeout)

lemma polls_enough: "0 < step \<Longrightarrow> secs \<le> of_nat (nat \<lceil>secs / step\<rceil>) * step"
  by (metis le_of_int_ceiling mult.commute of_nat_ceiling pos_divide_le_eq)

lemma poll_until_ends:
  assumes "clock_ok m" "advances m probe" "ends probe" "0 < step"
  shows "ends (poll_until m probe step secs)"
  unfolding ends_def
proof
  fix w
  show "fst (poll_until m probe step secs w) \<noteq> Inl Diverged"
    using poll_ends [OF assms, of "m_clock m (host w) + secs" w "nat \<lceil>secs / step\<rceil>"]
      polls_enough [OF assms(4), of secs]
    by (simp add: poll_until_def polls_def bnd_def now_s_def)
qed

lemma waits_end:
  assumes "clock_ok m"
  shows "ends (wait_stopped m vid k t)" "ends (wait_guest_gone m vid k t)"
proof -
  have a: "advances m (bnd (sh m x s False) (\<lambda>(rc, out, err). ret (b rc out)))" for x s and b :: "int \<Rightarrow> string \<Rightarrow> bool"
    by (rule advances_bnd [OF advances_sh [OF assms]]) (auto intro: advances_pure)
  have b: "advances m (stopped_probe m vid k)" "advances m (gone_probe m vid k)"
    using a [where b = "\<lambda>rc out. rc = 0 \<and> \<not> has_infix ''running'' (lower out)"] a [where b = "\<lambda>rc out. rc \<noteq> 0"]
    by (simp_all add: stopped_probe_def gone_probe_def)
  have e: "ends (stopped_probe m vid k)" "ends (gone_probe m vid k)"
    by (auto simp: stopped_probe_def gone_probe_def intro!: ends_intro)
  show "ends (wait_stopped m vid k t)" "ends (wait_guest_gone m vid k t)"
    unfolding wait_stopped_def wait_guest_gone_def
    by (rule poll_until_ends [OF assms]; use b e in simp)+
qed

lemma ends_ops [ends_intro]:
  "ends (guest_exists m vid k)" "ends (kill_unit m vid)" "ends (stop_flag m vid f)"
  "ends (detect_guest_type m vid)" "ends (guest_kind m kd vid)" "ends (vm_status m vid)"
  "ends (is_template m vid kd)" "ends (snapshot_label m nm)" "ends (guest_config m k vid)"
  by (auto simp: guest_exists_def kill_unit_def stop_flag_def detect_guest_type_def guest_kind_def
      vm_status_def is_template_def snapshot_label_def guest_config_def Let_def intro!: ends_intro)

lemma ends_pid_files [ends_intro]: "ends (first_pid_file m ps)"
  by (induction ps) (auto split: option.splits intro!: ends_intro)

lemma ends_pgrep [ends_intro]: "ends (first_pgrep m ps)"
  by (induction ps) (auto split: option.splits list.splits intro!: ends_intro)

lemma ends_qemu_pid [ends_intro]: "ends (qemu_pid m vid)"
  by (auto simp: qemu_pid_def Let_def intro!: ends_intro split: option.splits)

lemma ends_guard [ends_intro]: "ends (lift (assert_sim_vm v p s))"
  by (auto simp: ends_def dest: assert_sim_vm_Inl)

lemma ends_pct_flags:
  assumes "clock_ok m"
  shows "ends (pct_stop_flags m vid fs)" "ends (pct_destroy_flags m vid t reason gs)"
  by (induction fs, auto intro!: ends_intro waits_end [OF assms])
     (induction gs arbitrary: reason, auto intro!: ends_intro waits_end [OF assms])

lemma ladders_end:
  assumes "clock_ok m"
  shows "ends (qm_stop_force m v p)" "ends (qm_destroy m t v p)" "ends (pct_stop m v p)"
    "ends (pct_destroy m t v p)"
  unfolding qm_stop_force_def qm_destroy_def qm_destroy_retry_def pct_stop_def pct_destroy_def
  by (auto simp: Let_def intro!: ends_intro waits_end [OF assms] ends_pct_flags [OF assms])

text \<open>
  C26: a guest that refuses to stop or to disappear cannot hang the agent. As long as the clock
  runs forward, none of the waits and ladders uses up its polling iterations, so each one
  returns a result or a command error; and a wait reports a timeout only after the full
  window has passed.
\<close>

theorem ladders_terminate:
  assumes "clock_ok m"
  shows "fst (qm_stop_force m v p w) \<noteq> Inl Diverged \<and> fst (qm_destroy m t v p w) \<noteq> Inl Diverged
    \<and> fst (pct_stop m v p w) \<noteq> Inl Diverged \<and> fst (pct_destroy m t v p w) \<noteq> Inl Diverged
    \<and> fst (wait_stopped m vid k secs w) \<noteq> Inl Diverged
    \<and> fst (wait_guest_gone m vid k secs w) \<noteq> Inl Diverged
    \<and> (wait_guest_gone m vid k secs w = (Inr False, w') \<longrightarrow>
         m_clock m (host w) + of_int secs \<le> m_clock m (host w'))"
  using ladders_end [OF assms] waits_end [OF assms] poll_until_timeout
  by (auto simp: ends_def wait_guest_gone_def)

text \<open>A host for the witnesses: commands fail instantly, time passes only in pauses.\<close>

definition still_host :: "rat machine" where
  "still_host = \<lparr>m_exec = (\<lambda>a t h. (Exited 1 [] [], h)), m_clock = (\<lambda>h. h), m_pause = (\<lambda>d h. h + d),
     m_file = (\<lambda>p h. None), m_dir = (\<lambda>p h. False),
     m_list = (\<lambda>p h. []), m_link = (\<lambda>p h. None), m_which = (\<lambda>p h. True), m_write = (\<lambda>c h. (True, h)), m_stamp = (\<lambda>h. ''202601010000''), m_names = [], m_node = ''pve''\<rparr>"

definition fresh_world :: "'h \<Rightarrow> 'h world" where
  "fresh_world h = \<lparr>host = h, store = empty_disk, trace = [], deleting = [], recloning = [],
     prov_running = False, prov_items = [], cpu_hist = [], mem_hist = [], sampling_started = 0,
     cache_loaded = False, cache_saved = 0, lspci_cache = [], pci_hold = [], verified_pools = [],
     tracker_of = no_batch, pass_state = new_usb_state, ledger_of = empty_ledger,
     brain_of = \<lparr>br_reason = [], br_seen = 0, br_auto = False, br_paused = False, br_halt = None,
       br_started = 0, br_total = 0, br_done = 0, br_failed = 0, br_cancelled = 0, br_health = 0, br_names = 0\<rparr>\<rparr>"

lemma still_host_clock: "clock_ok still_host"
  by (simp add: clock_ok_def still_host_def)

lemma sh_still_host:
  "sh still_host a t False w = (Inr (1, [], []), w\<lparr>trace := trace w @ [Cmd a (Exited 1 [] [])]\<rparr>)"
  by (simp add: sh_def run_command_def bnd_def still_host_def)

theorem ladders_terminate_witness:
  "fst (qm_stop_force still_host (PInt 90001) None (fresh_world 0)) \<noteq> Inl Diverged"
  using ladders_terminate [OF still_host_clock, of "PInt 90001" None "fresh_world 0" 300 1 Qemu 15] by blast

theorem destroy_verdicts_witness:
  "case qm_destroy still_host 300 (PInt 90001) None (fresh_world 0) of
      (Inr (ok, reason), w') \<Rightarrow> (\<exists>es. trace w' = es \<and> probed 90001 Qemu ok es) \<and> (ok \<or> reason \<noteq> [])
    | _ \<Rightarrow> True"
proof -
  obtain r w' where run: "qm_destroy still_host 300 (PInt 90001) None (fresh_world 0) = (r, w')" by force
  show ?thesis
  proof (cases r)
    case (Inr x)
    obtain ok reason where x: "x = (ok, reason)" by force
    have "trace (fresh_world (0 :: rat)) = []" by (simp add: fresh_world_def)
    with destroy_verdicts [of still_host 300 90001 None "fresh_world 0" ok reason w'] run Inr x
    show ?thesis by simp
  qed (simp add: run)
qed

section \<open>Guarded commands\<close>

text \<open>
  Outside the simulation range nothing happens. If the guard refuses the VMID, every
  guarded command raises the guard's refusal and leaves the world exactly as it was: no
  command is run, no file written, no event sent.
\<close>

theorem guarded_commands_refuse:
  assumes "\<not> is_sim_vm v prot SIM_VMIN"
  shows "\<exists>r. start_vm m kd v prot w = (Inl (GuardError r), w) \<and> stop_vm m kd v prot w = (Inl (GuardError r), w)
    \<and> reboot_vm m v prot w = (Inl (GuardError r), w) \<and> snapshot_vm m nm kd v prot w = (Inl (GuardError r), w)
    \<and> qm_start m v (Some prot) w = (Inl (GuardError r), w) \<and> pct_start m v (Some prot) w = (Inl (GuardError r), w)
    \<and> qm_set m args v (Some prot) w = (Inl (GuardError r), w) \<and> pct_set m args v (Some prot) w = (Inl (GuardError r), w)
    \<and> qm_template m v (Some prot) w = (Inl (GuardError r), w)
    \<and> qm_guest_exec m args v (Some prot) w = (Inl (GuardError r), w)
    \<and> qm_agent_ping m secs v (Some prot) w = (Inl (GuardError r), w)
    \<and> qm_stop_force m v (Some prot) w = (Inl (GuardError r), w) \<and> pct_stop m v (Some prot) w = (Inl (GuardError r), w)
    \<and> qm_destroy m secs v (Some prot) w = (Inl (GuardError r), w)
    \<and> pct_destroy m secs v (Some prot) w = (Inl (GuardError r), w)"
proof -
  obtain r where r: "assert_sim_vm v prot SIM_VMIN = Inl (GuardError r)"
    using g_start.refused [OF assms] by blast
  show ?thesis
    using g_start.refuses [OF r] g_stop.refuses [OF r] g_reboot.refuses [OF r] g_snapshot.refuses [OF r]
      g_qm_start.refuses [OF r] g_pct_start.refuses [OF r] g_qm_set.refuses [OF r] g_pct_set.refuses [OF r]
      g_qm_template.refuses [OF r] g_guest_exec.refuses [OF r] g_ping.refuses [OF r]
      g_stop_force.refuses [OF r] g_pct_stop.refuses [OF r] g_qm_destroy.refuses [OF r]
      g_pct_destroy.refuses [OF r]
    by (intro exI [of _ r] conjI)
qed

theorem guarded_commands_refuse_witness:
  "\<exists>r. qm_destroy still_host 300 (PInt 1001) (Some {1001}) (fresh_world 0) = (Inl (GuardError r), fresh_world 0)"
proof -
  have "\<not> is_sim_vm (PInt 1001) {1001} SIM_VMIN" by (simp add: is_sim_vm_iff)
  from guarded_commands_refuse [OF this] show ?thesis by blast
qed

text \<open>
  Inside the range a guarded command confines itself to its VM. Every \<open>qm\<close>, \<open>pct\<close> and
  \<open>systemctl\<close> command it runs, on every branch of its ladder and however it ends, names one
  VM that is at least 90000 and not protected.
\<close>

theorem guarded_commands_confined:
  "emits (on_sim_vm prot) (start_vm m kd v prot) \<and> emits (on_sim_vm prot) (stop_vm m kd v prot)
   \<and> emits (on_sim_vm prot) (reboot_vm m v prot) \<and> emits (on_sim_vm prot) (snapshot_vm m nm kd v prot)
   \<and> emits (on_sim_vm prot) (qm_start m v (Some prot)) \<and> emits (on_sim_vm prot) (pct_start m v (Some prot))
   \<and> emits (on_sim_vm prot) (qm_set m args v (Some prot)) \<and> emits (on_sim_vm prot) (pct_set m args v (Some prot))
   \<and> emits (on_sim_vm prot) (qm_template m v (Some prot))
   \<and> emits (on_sim_vm prot) (qm_guest_exec m args v (Some prot))
   \<and> emits (on_sim_vm prot) (qm_stop_force m v (Some prot)) \<and> emits (on_sim_vm prot) (pct_stop m v (Some prot))
   \<and> emits (on_sim_vm prot) (qm_destroy m secs v (Some prot))
   \<and> emits (on_sim_vm prot) (pct_destroy m secs v (Some prot))"
  by (intro conjI g_start.sim_only g_stop.sim_only g_reboot.sim_only g_snapshot.sim_only
      g_qm_start.sim_only g_pct_start.sim_only g_qm_set.sim_only g_pct_set.sim_only
      g_qm_template.sim_only g_guest_exec.sim_only g_stop_force.sim_only g_pct_stop.sim_only
      g_qm_destroy.sim_only g_pct_destroy.sim_only)

section \<open>Batches\<close>

lemma batch_one_sim_only: "emits (on_sim_vm prot) (batch_one m a vid prot)"
  by (cases a) (auto intro!: emits_intro g_start.sim_only g_stop.sim_only g_snapshot.sim_only)

lemma batch_task_sim_only: "emits (on_sim_vm prot) (batch_task m a prot vid fin)"
  unfolding batch_task_def
  by (intro emits_intro batch_one_sim_only) (auto split: exn.splits intro!: emits_intro)

lemma batch_iter:
  assumes "iter (batch_task m a prot) xs fin w = (Inr fin', w')"
  shows "\<exists>ys. fin' = fin @ ys \<and> subseq ys xs"
  using assms
proof (induction xs arbitrary: fin w)
  case (Cons x xs)
  then obtain mid w1 where one: "batch_task m a prot x fin w = (Inr mid, w1)"
    and rest: "iter (batch_task m a prot) xs mid w1 = (Inr fin', w')"
    by (auto simp: bnd_def split: prod.splits sum.splits)
  have mid: "mid = fin @ [x] \<or> mid = fin"
    using one by (auto simp: batch_task_def catch_def bnd_def split: prod.splits sum.splits exn.splits)
  from Cons.IH [OF rest] obtain ys where "fin' = mid @ ys" "subseq ys xs" by blast
  with mid show ?case by (metis append.assoc append_Cons append_Nil subseq_Cons' subseq_Cons2)
qed simp

text \<open>
  A batch acts on simulation VMs only. In whatever order the tasks run, the result
  partitions the host's VMs honestly: the skipped ones are exactly the listed VMs outside the
  range or protected, the VMs reported done are listed simulation VMs, sorted, and no command
  but the listing itself ever names another VM.
\<close>

theorem vm_batch_sim_only:
  assumes "\<And>xs. mset (order xs) = mset xs" and "list_qemu_vmids m w = (Inr vids, w1)"
    and "vm_batch m action order prot w = (Inr (finished, skipped), w')"
  shows "skipped = filter (\<lambda>v. v < 90000 \<or> v \<in> prot) vids
    \<and> sorted finished \<and> set finished \<subseteq> {v \<in> set vids. 90000 \<le> v \<and> v \<notin> prot}
    \<and> (\<exists>es. trace w' = trace w1 @ es \<and> list_all (on_sim_vm prot) es)"
proof -
  have sim: "is_sim_vm (PInt v) prot SIM_VMIN \<longleftrightarrow> 90000 \<le> v \<and> v \<notin> prot" for v
    by (auto simp: is_sim_vm_iff SIM_VMIN_def)
  let ?ts = "filter (\<lambda>v. is_sim_vm (PInt v) prot SIM_VMIN) vids"
  obtain fin w2 where it: "iter (batch_task m action prot) (order ?ts) [] w1 = (Inr fin, w2)"
    and fs: "finished = sort fin" "skipped = filter (\<lambda>v. \<not> is_sim_vm (PInt v) prot SIM_VMIN) vids" "w' = w2"
    using assms(2,3) by (auto simp: vm_batch_def bnd_def Let_def split: prod.splits sum.splits)
  have "set fin \<subseteq> set (order ?ts)" using batch_iter [OF it] by (auto dest: list_emb_set)
  also have "set (order ?ts) = set ?ts" using assms(1) [of ?ts] by (rule mset_eq_setD)
  finally have "set finished \<subseteq> {v \<in> set vids. 90000 \<le> v \<and> v \<notin> prot}" by (auto simp: fs sim)
  moreover have "skipped = filter (\<lambda>v. v < 90000 \<or> v \<in> prot) vids"
    by (auto simp: fs sim not_le intro: filter_cong)
  moreover have "\<exists>es. trace w' = trace w1 @ es \<and> list_all (on_sim_vm prot) es"
    using emitsD [OF emits_iter [OF batch_task_sim_only] it] fs(3) by metis
  ultimately show ?thesis by (simp add: fs(1))
qed

text \<open>A host whose \<open>qm list\<close> shows two guests; every command succeeds.\<close>

definition two_guests :: "rat machine" where
  "two_guests = still_host\<lparr>m_exec := (\<lambda>a t h. (Exited 0 (''VMID'' @ [char_of (10::nat)] @ str_int 100
     @ [char_of (10::nat)] @ str_int 90001) [], h))\<rparr>"

theorem vm_batch_sim_only_witness:
  "\<exists>vids fin skip w'. vm_batch two_guests StopVms rev {} (fresh_world 0) = (Inr (fin, skip), w')
     \<and> skip = filter (\<lambda>v. v < 90000 \<or> v \<in> {}) vids"
proof -
  obtain vids w1 where l: "list_qemu_vmids two_guests (fresh_world 0) = (Inr vids, w1)"
    by (simp add: list_qemu_vmids_def sh_def run_command_def bnd_def two_guests_def still_host_def)
  have sh: "sh two_guests a t c w = (Inr (0, ''VMID'' @ [char_of (10::nat)] @ str_int 100
     @ [char_of (10::nat)] @ str_int 90001, []), w\<lparr>trace := trace w @ [Cmd a (Exited 0 (''VMID''
     @ [char_of (10::nat)] @ str_int 100 @ [char_of (10::nat)] @ str_int 90001) [])]\<rparr>)" for a t c w
    by (simp add: sh_def run_command_def bnd_def two_guests_def still_host_def)
  have one: "\<exists>f' w'. batch_task two_guests StopVms {} v f w = (Inr f', w')" for v f w
    by (cases rule: guard_vmid_cases [of v "{}"])
       (auto simp: batch_task_def catch_def bnd_def stop_vm_def guest_kind_def sh Let_def lower_def lower_char_def)
  have all: "\<exists>f' w'. iter (batch_task two_guests StopVms {}) xs f w = (Inr f', w')" for xs f w
  proof (induction xs arbitrary: f w)
    case (Cons x xs)
    obtain f1 w2 where "batch_task two_guests StopVms {} x f w = (Inr f1, w2)" using one by blast
    with Cons show ?case by (simp add: bnd_def)
  qed simp
  obtain fin skip w' where b: "vm_batch two_guests StopVms rev {} (fresh_world 0) = (Inr (fin, skip), w')"
  proof -
    let ?ts = "rev (filter (\<lambda>v. is_sim_vm (PInt v) {} SIM_VMIN) vids)"
    obtain f' w2 where "iter (batch_task two_guests StopVms {}) ?ts [] w1 = (Inr f', w2)" using all by blast
    with l that show ?thesis by (simp add: vm_batch_def bnd_def Let_def)
  qed
  from vm_batch_sim_only [OF _ l b] b show ?thesis by (metis mset_rev)
qed

section \<open>Tags\<close>

lemma rstrip_id: "s = [] \<or> \<not> is_space (last s) \<Longrightarrow> rstrip s = s"
  by (cases s rule: rev_cases) (auto simp: rstrip_def)

lemma lstrip_id: "s = [] \<or> \<not> is_space (hd s) \<Longrightarrow> lstrip s = s"
  by (cases s) (auto simp: lstrip_def)

lemma strip_ends:
  assumes "strip s \<noteq> []"
  shows "\<not> is_space (hd (strip s))" "\<not> is_space (last (strip s))"
proof -
  let ?l = "dropWhile is_space s"
  obtain k where k: "rev ?l = takeWhile is_space (rev ?l) @ rev (strip s)"
    by (simp add: strip_def lstrip_def rstrip_def)
  have l: "?l = strip s @ rev (takeWhile is_space (rev ?l))"
    using arg_cong [OF k, of rev] by simp
  have "?l \<noteq> []" using l assms by force
  then have "\<not> is_space (hd ?l)" by (metis hd_dropWhile)
  then show "\<not> is_space (hd (strip s))" using l assms by (metis hd_append2)
  have ne: "dropWhile is_space (rev ?l) \<noteq> []"
    using assms by (simp add: strip_def lstrip_def rstrip_def)
  from hd_dropWhile [OF this] show "\<not> is_space (last (strip s))"
    using ne by (simp add: strip_def lstrip_def rstrip_def last_rev)
qed

lemma strip_Nil [simp]: "strip [] = []"
  by (simp add: strip_def lstrip_def rstrip_def)

lemma strip_strip [simp]: "strip (strip s) = strip s"
proof (cases "strip s = []")
  case False
  then have "lstrip (strip s) = strip s" "rstrip (strip s) = strip s"
    using strip_ends by (simp_all add: lstrip_id rstrip_id)
  then show ?thesis unfolding strip_def [of "strip s"] by simp
qed simp

lemma set_strip: "set (strip s) \<subseteq> set s"
  by (auto simp: strip_def lstrip_def rstrip_def dest!: set_dropWhileD)

definition clean_tag :: "string \<Rightarrow> bool" where
  "clean_tag t \<longleftrightarrow> t \<noteq> [] \<and> strip t = t \<and> CHR '';'' \<notin> set t"

lemma join_ne: "fs \<noteq> [] \<Longrightarrow> \<forall>f\<in>set fs. f \<noteq> [] \<Longrightarrow> join_sep sep fs \<noteq> []"
  by (induction sep fs rule: join_sep.induct) auto

lemma clean_tags_round:
  assumes "\<forall>t\<in>set ts. clean_tag t"
  shows "filter (\<lambda>t. t \<noteq> []) (map strip (split_on (CHR '';'') (join_sep '';'' ts))) = ts"
proof (cases "ts = []")
  case True
  then show ?thesis by (simp add: split_on_def strip_def lstrip_def rstrip_def)
next
  case False
  then have "split_on (CHR '';'') (join_sep '';'' ts) = ts"
    using assms by (intro split_on_of_join) (auto simp: clean_tag_def)
  moreover have "map strip ts = ts" using assms by (intro map_idI) (auto simp: clean_tag_def)
  ultimately show ?thesis using assms by (auto simp: clean_tag_def intro: filter_True)
qed

lemma split_fields_clean:
  "t \<in> set (filter (\<lambda>t. t \<noteq> []) (map strip (split_on (CHR '';'') s))) \<Longrightarrow> clean_tag t"
  using fields_from_no_sep [of "CHR '';''" "[]" _ s] set_strip
  by (fastforce simp: clean_tag_def split_on_def)

lemma sim_tags_clean:
  assumes "\<forall>t\<in>set desired. CHR '';'' \<notin> set t"
  shows "\<forall>t\<in>set (sim_tags_for tags desired). clean_tag t"
proof
  fix t assume t: "t \<in> set (sim_tags_for tags desired)"
  then consider "t \<in> set (filter (\<lambda>t. t \<noteq> []) (map strip (split_on (CHR '';'') tags)))"
    | d where "d \<in> set desired" "t = strip d" "t \<noteq> []"
    by (auto simp: sim_tags_for_def)
  then show "clean_tag t"
  proof cases
    case 2
    with assms set_strip [of d] show ?thesis by (auto simp: clean_tag_def)
  qed (rule split_fields_clean)
qed

text \<open>
  Tagging converges. The tag list written for a guest keeps its other tags in order and
  replaces its sim tags by the desired ones; once it is written, the next sweep finds the
  guest settled and writes nothing, as long as no desired tag contains the separator.
\<close>

theorem sim_tags_idempotent:
  assumes "\<forall>t\<in>set desired. CHR '';'' \<notin> set t"
  shows "let written = join_sep '';'' (sim_tags_for tags desired) in
      sim_tags_for written desired = sim_tags_for tags desired \<and> sim_tags_settled written desired
    \<and> filter (\<lambda>t. \<not> is_sim_tag t) (sim_tags_for tags desired)
        = filter (\<lambda>t. \<not> is_sim_tag t) (filter (\<lambda>t. t \<noteq> []) (map strip (split_on (CHR '';'') tags)))
    \<and> {t \<in> set (sim_tags_for tags desired). is_sim_tag t} = {t \<in> strip ` set desired. is_sim_tag t}"
proof -
  note round = clean_tags_round [OF sim_tags_clean [OF assms, of tags]]
  let ?new = "sim_tags_for tags desired"
  have sims: "filter (\<lambda>t. \<not> is_sim_tag t) (sort (remdups (filter is_sim_tag ts))) = []" for ts
    by (auto simp: filter_empty_conv)
  have other: "filter (\<lambda>t. \<not> is_sim_tag t) ?new
      = filter (\<lambda>t. \<not> is_sim_tag t) (filter (\<lambda>t. t \<noteq> []) (map strip (split_on (CHR '';'') tags)))"
    unfolding sim_tags_for_def filter_append sims by simp
  have same: "sim_tags_for (join_sep '';'' ?new) desired = ?new"
    unfolding sim_tags_for_def [of "join_sep '';'' ?new"] round other
    by (simp add: sim_tags_for_def)
  have pre: "is_sim_tag t \<Longrightarrow> t \<noteq> []" for t by (auto simp: is_sim_tag_def lower_def)
  have "{t \<in> set ?new. is_sim_tag t} = {t \<in> strip ` set desired. is_sim_tag t}"
    using pre by (auto simp: sim_tags_for_def)
  with other same show ?thesis by (simp add: sim_tags_settled_def round Let_def)
qed

theorem sim_tags_idempotent_witness:
  "sim_tags_settled (join_sep '';'' (sim_tags_for ''web;sim-old'' [''sim-a''])) [''sim-a'']"
  using sim_tags_idempotent [of "[''sim-a'']" "''web;sim-old''"] by (simp add: Let_def)

text \<open>
  Re-tagging exchanges one tag. After \<open>retag_tenant\<close> wrote a guest's new tags, the old tag
  is gone, the new tag is there, and the other tags are the ones it had, in their order; a
  guest without the old tag is not touched at all.
\<close>

theorem retag_exchanges:
  assumes "old_tag \<noteq> new_tag" and "clean_tag new_tag"
  shows "old_tag \<notin> set (swap_tag old_tag new_tag (split_tags tags))
    \<and> new_tag \<in> set (swap_tag old_tag new_tag (split_tags tags))
    \<and> filter (\<lambda>t. t \<noteq> new_tag) (swap_tag old_tag new_tag (split_tags tags))
        = filter (\<lambda>t. t \<noteq> new_tag \<and> t \<noteq> old_tag) (split_tags tags)
    \<and> filter (\<lambda>t. t \<noteq> []) (map strip (split_on (CHR '';'') (join_sep '';''
          (filter (\<lambda>t. t \<noteq> []) (map strip (swap_tag old_tag new_tag (split_tags tags)))))))
        = map strip (swap_tag old_tag new_tag (split_tags tags))
    \<and> (old_tag \<notin> set (split_tags (rs_tags r)) \<longrightarrow> retag_one m old_tag new_tag r acc w = (Inr acc, w))"
proof -
  let ?sw = "swap_tag old_tag new_tag (split_tags tags)"
  have fields: "strip t \<noteq> [] \<and> CHR '';'' \<notin> set t" if "t \<in> set (split_tags tags)" for t
    using that fields_from_no_sep [of "CHR '';''" "[]" t tags] by (auto simp: split_tags_def split_on_def)
  have sw: "t \<in> set ?sw \<Longrightarrow> t = new_tag \<or> t \<in> set (split_tags tags)" for t
    by (auto simp: swap_tag_def Let_def split: if_splits)
  have strip_clean: "clean_tag (strip t)" if "strip t \<noteq> []" "CHR '';'' \<notin> set t" for t
    using that set_strip [of t] by (auto simp: clean_tag_def)
  have clean_one: "clean_tag (strip t)" if "t \<in> set ?sw" for t
    using sw [OF that]
  proof
    assume "t = new_tag"
    then show ?thesis using assms(2) by (simp add: clean_tag_def)
  next
    assume "t \<in> set (split_tags tags)"
    from fields [OF this] strip_clean show ?thesis by blast
  qed
  have clean: "clean_tag t" if "t \<in> set (map strip ?sw)" for t
    using that clean_one by auto
  have keep: "filter (\<lambda>t. t \<noteq> []) (map strip ?sw) = map strip ?sw"
  proof (rule filter_True, rule ballI)
    fix t assume "t \<in> set (map strip ?sw)"
    from clean [OF this] show "t \<noteq> []" by (simp only: clean_tag_def simp_thms)
  qed
  have swap: "old_tag \<notin> set ?sw" "new_tag \<in> set ?sw"
    using assms(1) by (auto simp: swap_tag_def Let_def)
  have rest: "filter (\<lambda>t. t \<noteq> new_tag) ?sw = filter (\<lambda>t. t \<noteq> new_tag \<and> t \<noteq> old_tag) (split_tags tags)"
    by (simp add: swap_tag_def Let_def conj_commute)
  have idle: "old_tag \<notin> set (split_tags (rs_tags r)) \<longrightarrow> retag_one m old_tag new_tag r acc w = (Inr acc, w)"
    by (simp add: retag_one_def Let_def split: prod.splits)
  have round: "filter (\<lambda>t. t \<noteq> []) (map strip (split_on (CHR '';'') (join_sep '';'' (map strip ?sw)))) = map strip ?sw"
    by (rule clean_tags_round) (use clean in blast)
  show ?thesis
    unfolding keep by (intro conjI swap rest round idle)
qed

theorem retag_exchanges_witness:
  "''acme'' \<in> set (swap_tag ''old'' ''acme'' (split_tags ''web;old''))"
proof -
  have "clean_tag ''acme''" by (simp add: clean_tag_def strip_def lstrip_def rstrip_def is_space_def)
  from retag_exchanges [OF _ this, of "''old''" "''web;old''", THEN conjunct2, THEN conjunct1]
  show ?thesis by simp
qed

section \<open>Free VMIDs\<close>

text \<open>The VMIDs that the listings among some events showed.\<close>

fun listed_in :: "event list \<Rightarrow> int set" where
  "listed_in [] = {}"
| "listed_in (e # es) =
     (case e of Cmd a (Exited rc out err) \<Rightarrow>
        if length a = 2 \<and> a ! 1 = ''list'' \<and> rc = 0 then set (listed_vmids out) else {}
      | _ \<Rightarrow> {}) \<union> listed_in es"

lemma listed_in_append [simp]: "listed_in (es @ fs) = listed_in es \<union> listed_in fs"
  by (induction es) auto

lemma yields_listed_by:
  "yields (listed_by m bin used) (\<lambda>r es. case r of Inl e \<Rightarrow> True | Inr u \<Rightarrow> set u = set used \<union> listed_in es)"
  unfolding listed_by_def
  by (rule yields_bnd [OF yields_sh, where QB = "\<lambda>x r es. es = [] \<and> r = Inr (if fst x \<noteq> 0 then used else used @ listed_vmids (fst (snd x)))"])
     (auto simp: yields_def)

lemma yields_listings:
  "yields (iter (listed_by m) bins used) (\<lambda>r es. case r of Inl e \<Rightarrow> True | Inr u \<Rightarrow> set u = set used \<union> listed_in es)"
proof (induction bins arbitrary: used)
  case Nil
  then show ?case by (auto intro: yields_Pair)
next
  case (Cons b bins)
  show ?case
    unfolding iter.simps
    by (rule yields_bnd [OF yields_listed_by Cons]) (auto split: sum.splits)
qed

text \<open>
  When the cluster does not answer with an id, the VMID chosen is above every VMID the
  local listings show, and 100 when they show none: it never collides with a listed guest.
\<close>

theorem next_free_vmid_fresh:
  assumes "next_free_vmid m decode w = (Inr vid, w')"
  shows "\<exists>x es. trace w' = trace w @ Cmd [''pvesh'', ''get'', ''/cluster/nextid''] x # es
    \<and> (es = [] \<or> (if listed_in es = {} then vid = 100 else vid = Max (listed_in es) + 1)
         \<and> (\<forall>v\<in>listed_in es. v < vid))"
proof -
  define Q where "Q r es \<longleftrightarrow> (case r of Inl e \<Rightarrow> True | Inr vid \<Rightarrow>
      (if listed_in es = {} then vid = 100 else vid = Max (listed_in es) + 1) \<and> (\<forall>v\<in>listed_in es. v < vid))"
    for r :: "int result" and es
  let ?fb = "bnd (iter (listed_by m) [''qm'', ''pct''] []) (\<lambda>used. ret (if used \<noteq> [] then Max (set used) + 1 else 100))"
  have fin: "finite (listed_in es)" for es by (induction es) (auto split: event.splits outcome.splits)
  have above: "v < Max (listed_in es) + 1" if "v \<in> listed_in es" for v es
    using Max_ge [OF fin that] by simp
  have fb: "yields ?fb Q"
    by (rule yields_bnd [OF yields_listings, where QB = "\<lambda>used r es. es = [] \<and> r = Inr (if used \<noteq> [] then Max (set used) + 1 else 100)"])
       (use above in \<open>auto simp: yields_def Q_def less_imp_le split: sum.splits dest: Max_ge [OF fin]\<close>)
  have fb2: "yields ?fb (\<lambda>r fs. fs = [] \<or> Q r fs)"
    by (rule yields_mono [OF fb]) simp
  have body: "yields (case d of Some i \<Rightarrow> ret i | None \<Rightarrow> ?fb) (\<lambda>r fs. fs = [] \<or> Q r fs)" for d
    using fb2 by (cases d) (simp_all del: iter.simps add: yields_ret)
  have "yields (next_free_vmid m decode) (\<lambda>r es. \<exists>x fs. es = Cmd [''pvesh'', ''get'', ''/cluster/nextid''] x # fs \<and> (fs = [] \<or> Q r fs))"
    unfolding next_free_vmid_def case_prod_beta
    by (rule yields_bnd [OF yields_sh body]) auto
  then obtain es where "trace w' = trace w @ es" "\<exists>x fs. es = Cmd [''pvesh'', ''get'', ''/cluster/nextid''] x # fs \<and> (fs = [] \<or> Q (Inr vid) fs)"
    by (rule yieldsE [where w = w]) (simp add: assms)
  then show ?thesis by (auto simp: Q_def)
qed

theorem next_free_vmid_fresh_witness:
  "\<exists>w'. next_free_vmid still_host (\<lambda>_. None) (fresh_world 0) = (Inr 100, w')
     \<and> (\<exists>x es. trace w' = [] @ Cmd [''pvesh'', ''get'', ''/cluster/nextid''] x # es)"
proof -
  obtain w' where w': "next_free_vmid still_host (\<lambda>_. None) (fresh_world 0) = (Inr 100, w')"
    by (simp add: next_free_vmid_def listed_by_def sh_def run_command_def bnd_def still_host_def)
  have "trace (fresh_world (0 :: rat)) = []" by (simp add: fresh_world_def)
  with next_free_vmid_fresh [OF w'] w' show ?thesis by auto
qed

section \<open>What commands leave alone\<close>

text \<open>
  A part of the world that depends neither on the host nor on the trace: no command changes
  it. The files, the marks and the provisioning run are such parts.
\<close>

locale inside_view =
  fixes f :: "'h world \<Rightarrow> 'b"
  assumes f_inside: "f (w\<lparr>host := h, trace := t\<rparr>) = f w"
    and f_trace: "f (w\<lparr>trace := t\<rparr>) = f w"
begin

lemma keeps_sh [keeps_intro]: "keeps f (sh m a s c)" "keeps f (pause m d)"
  by (rule keeps_run, rule f_inside)+

lemma keeps_event [keeps_intro]: "keeps f (send_event k x)" "keeps f (spawn_detached a)"
  by (simp_all add: keeps_def send_event_def spawn_detached_def f_trace)

lemma keeps_poll: "keeps f probe \<Longrightarrow> keeps f (poll m probe step d n)"
  by (induction n) (auto intro!: keeps_intro)

lemma keeps_probes [keeps_intro]:
  "keeps f (detect_guest_type m vid)" "keeps f (guest_kind m kd vid)" "keeps f (vm_status m vid)"
  "keeps f (is_template m vid kd)" "keeps f (stopped_probe m vid k)" "keeps f (gone_probe m vid k)"
  "keeps f (guest_exists m vid k)" "keeps f (guest_config m k vid)" "keeps f (kill_unit m vid)"
  "keeps f (stop_flag m vid fl)" "keeps f (list_qemu_vmids m)" "keeps f (snapshot_label m nm)"
  by (auto simp: detect_guest_type_def guest_kind_def vm_status_def is_template_def stopped_probe_def
      gone_probe_def guest_exists_def guest_config_def kill_unit_def stop_flag_def list_qemu_vmids_def
      snapshot_label_def Let_def intro!: keeps_intro)

lemma keeps_waits [keeps_intro]:
  "keeps f (wait_stopped m vid k s)" "keeps f (wait_guest_gone m vid k s)" "keeps f (list_all_vmids m)"
  by (auto simp: wait_stopped_def wait_guest_gone_def poll_until_def list_all_vmids_def
      intro!: keeps_intro keeps_poll)

lemma keeps_pids [keeps_intro]: "keeps f (first_pid_file m ps)" "keeps f (first_pgrep m qs)"
  by (induction ps, auto split: option.splits intro!: keeps_intro)
     (induction qs, auto split: option.splits list.splits intro!: keeps_intro)

lemma keeps_ladders [keeps_intro]:
  "keeps f (pct_stop_flags m vid fs)" "keeps f (pct_destroy_flags m vid t reason gs)"
  by (induction fs, auto intro!: keeps_intro)
     (induction gs arbitrary: reason, auto intro!: keeps_intro)

lemma keeps_pve [keeps_intro]:
  "keeps f (qm_stop_force m v p)" "keeps f (qm_destroy m s v p)" "keeps f (pct_stop m v p)"
  "keeps f (pct_destroy m s v p)" "keeps f (start_vm m kd v q)" "keeps f (stop_vm m kd v q)"
  "keeps f (qm_agent_ping m s v p)"
  by (auto simp: qm_stop_force_def qm_destroy_def qm_destroy_retry_def qemu_pid_def pct_stop_def
      pct_destroy_def start_vm_def stop_vm_def qm_agent_ping_def Let_def intro!: keeps_intro)

end

interpretation store_view: inside_view store by unfold_locales simp_all
interpretation deleting_view: inside_view deleting by unfold_locales simp_all
interpretation recloning_view: inside_view recloning by unfold_locales simp_all
interpretation prov_view: inside_view prov_items by unfold_locales simp_all

lemmas store_keeps = store_view.keeps_sh store_view.keeps_event store_view.keeps_probes
  store_view.keeps_waits store_view.keeps_pve

end
