(* ===== verification/Marks.thy ===== *)
theory Marks
  imports Pve
begin

text \<open>
  The in-memory marks of \<open>agent/src/usb_provision.py\<close> that other tasks read: the VMs being
  deleted and recloned, which expire by themselves, and the items of the current provisioning
  run. The two expiring registers share one contract, the locale \<open>ttl_register\<close>.
\<close>

definition DELETING_TTL_S :: rat where "DELETING_TTL_S = 30"
definition RECLONING_TTL_S :: rat where "RECLONING_TTL_S = 180"

definition expire :: "rat \<Rightarrow> rat \<Rightarrow> (int, rat) dict \<Rightarrow> (int, rat) dict" where
  "expire ttl now d = filter (\<lambda>(v, ts). \<not> ttl < now - ts) d"

definition mark_deleting :: "'h machine \<Rightarrow> int \<Rightarrow> ('h, unit) op" where
  "mark_deleting m vid =
     bnd (now_s m) (\<lambda>t. modify (\<lambda>w. w\<lparr>deleting := dset vid t (deleting w)\<rparr>))"

definition current_deleting_vmids :: "'h machine \<Rightarrow> ('h, int list) op" where
  "current_deleting_vmids m =
     bnd (now_s m) (\<lambda>t.
     bnd (modify (\<lambda>w. w\<lparr>deleting := expire DELETING_TTL_S t (deleting w)\<rparr>)) (\<lambda>_.
     peek (\<lambda>w. sort (dkeys (deleting w)))))"

definition mark_recloning :: "'h machine \<Rightarrow> int \<Rightarrow> ('h, unit) op" where
  "mark_recloning m vid =
     bnd (now_s m) (\<lambda>t. modify (\<lambda>w. w\<lparr>recloning := dset vid t (recloning w)\<rparr>))"

definition clear_recloning :: "int \<Rightarrow> ('h, unit) op" where
  "clear_recloning vid = modify (\<lambda>w. w\<lparr>recloning := dpop vid (recloning w)\<rparr>)"

definition current_reclone_vmids :: "'h machine \<Rightarrow> ('h, int list) op" where
  "current_reclone_vmids m =
     bnd (now_s m) (\<lambda>t.
     bnd (modify (\<lambda>w. w\<lparr>recloning := expire RECLONING_TTL_S t (recloning w)\<rparr>)) (\<lambda>_.
     peek (\<lambda>w. sort (dkeys (recloning w)))))"

text \<open>The VMIDs of the items still being provisioned.\<close>

definition provisioning_vmids :: "('h, int set) op" where
  "provisioning_vmids =
     peek (\<lambda>w. pi_vmid ` set (filter (\<lambda>it. pi_status it = ''provisioning'') (prov_items w)))"

section \<open>The contract of an expiring register\<close>

locale ttl_register =
  fixes m :: "'h machine"
    and reg :: "'h world \<Rightarrow> (int, rat) dict"
    and mark :: "int \<Rightarrow> ('h, unit) op"
    and current :: "('h, int list) op"
    and ttl :: rat
  assumes mark_law: "\<exists>w'. mark v w = (Inr (), w') \<and> host w' = host w
      \<and> reg w' = dset v (m_clock m (host w)) (reg w)"
    and current_law: "\<exists>w'. current w = (Inr (sort (dkeys (expire ttl (m_clock m (host w)) (reg w)))), w')
      \<and> host w' = host w \<and> reg w' = expire ttl (m_clock m (host w)) (reg w)"
    and ttl_pos: "0 < ttl"
begin

lemma current_iff:
  assumes "wfd (reg w)" "current w = (r, w')"
  shows "\<exists>vs. r = Inr vs \<and> (\<forall>v. v \<in> set vs \<longleftrightarrow> (\<exists>t. dget (reg w) v = Some t \<and> m_clock m (host w) - t \<le> ttl))"
proof -
  let ?d = "expire ttl (m_clock m (host w)) (reg w)"
  have "v \<in> set (sort (dkeys ?d)) \<longleftrightarrow> (\<exists>t. dget (reg w) v = Some t \<and> m_clock m (host w) - t \<le> ttl)" for v
    using assms(1) by (force simp: expire_def dget_in_set [symmetric] image_iff not_less)
  moreover from current_law [of w] assms(2) have "r = Inr (sort (dkeys ?d))" by auto
  ultimately show ?thesis by blast
qed

lemma wfd_mark: "wfd (reg w) \<Longrightarrow> mark v w = (r, w') \<Longrightarrow> wfd (reg w')"
  using mark_law [of v w] by auto

text \<open>A mark shows for exactly \<open>ttl\<close> seconds unless it is refreshed.\<close>

lemma marked_until:
  assumes "wfd (reg w)" "mark v w = (r, w1)" "reg w2 = reg w1" "current w2 = (Inr vs, w3)"
  shows "v \<in> set vs \<longleftrightarrow> m_clock m (host w2) - m_clock m (host w) \<le> ttl"
proof -
  have "reg w2 = dset v (m_clock m (host w)) (reg w)" using mark_law [of v w] assms(2,3) by auto
  then show ?thesis using current_iff [of w2, OF _ assms(4)] assms(1) by simp
qed

end

interpretation deleting_marks:
  ttl_register m deleting "mark_deleting m" "current_deleting_vmids m" DELETING_TTL_S for m :: "'h machine"
  by unfold_locales
     (simp_all add: mark_deleting_def current_deleting_vmids_def bnd_def now_s_def DELETING_TTL_S_def)

interpretation recloning_marks:
  ttl_register m recloning "mark_recloning m" "current_reclone_vmids m" RECLONING_TTL_S for m :: "'h machine"
  by unfold_locales
     (simp_all add: mark_recloning_def current_reclone_vmids_def bnd_def now_s_def RECLONING_TTL_S_def)

end
