(* ===== verification/Destroy.thy ===== *)
theory Destroy
  imports Marks
begin

text \<open>
  \<open>agent/src/cs_sim.py\<close>: the teardown of a simulation VM that every path goes through
  (\<open>destroy_vm\<close>), the operator's delete with its progress and terminal events, the batch
  delete and the quarantine shed. Per-VM locks are not modelled: one task runs at a time.
\<close>

section \<open>Events\<close>

text \<open>
  Progress and terminal frames. Human-readable error texts inside them are abbreviated. The
  terminal frame is also recorded in the ledger of long operations.
\<close>

fun pct_value :: "int option \<Rightarrow> (string \<times> pyval) list" where
  "pct_value None = []"
| "pct_value (Some p) = [(''pct'', PInt (max 0 (min 100 p)))]"

definition progress ::
    "'h machine \<Rightarrow> string \<Rightarrow> string \<Rightarrow> string \<Rightarrow> string \<Rightarrow> int option \<Rightarrow> int option \<Rightarrow> (string \<times> pyval) list
     \<Rightarrow> ('h, unit) op" where
  "progress m cmd_id action status step pct vmid extra =
     bnd (case vmid of
            Some v \<Rightarrow> if action = ''reclone_vm'' then mark_recloning m v else ret ()
          | None \<Rightarrow> ret ()) (\<lambda>_.
     send_event ''CS_PROGRESS''
       ([(''cs_cmd_id'', PStr cmd_id), (''action'', PStr action), (''status'', PStr status), (''step'', PStr step)]
        @ pct_value pct @ (case vmid of None \<Rightarrow> [] | Some v \<Rightarrow> [(''vmid'', PInt v)]) @ extra))"

definition record_terminal :: "string \<Rightarrow> string \<Rightarrow> string \<Rightarrow> string \<Rightarrow> ('h, unit) op" where
  "record_terminal cmd_id action status msg =
     modify (\<lambda>w. w\<lparr>ledger_of := note_terminal cmd_id (result_reply cmd_id action status msg) (ledger_of w)\<rparr>)"

definition terminal ::
    "string \<Rightarrow> string \<Rightarrow> string \<Rightarrow> string \<Rightarrow> int option \<Rightarrow> (string \<times> pyval) list \<Rightarrow> ('h, unit) op" where
  "terminal cmd_id action status msg vmid extra =
     bnd (case vmid of
            Some v \<Rightarrow> if action = ''reclone_vm'' then clear_recloning v else ret ()
          | None \<Rightarrow> ret ()) (\<lambda>_.
     bnd (record_terminal cmd_id action status msg) (\<lambda>_.
     send_event ''CS_COMMAND_RESULT''
       ([(''cs_cmd_id'', PStr cmd_id), (''action'', PStr action), (''status'', PStr status), (''message'', PStr msg)]
        @ (case vmid of None \<Rightarrow> [] | Some v \<Rightarrow> [(''vmid'', PInt v)]) @ extra)))"

text \<open>A terminal frame that names no VM: an entry of the ledger and an event.\<close>

lemma terminal_quiet:
  "terminal c a st msg None x w =
     (Inr (), w\<lparr>ledger_of := note_terminal c (result_reply c a st msg) (ledger_of w),
        trace := trace w @ [Sent ''CS_COMMAND_RESULT'' ([(''cs_cmd_id'', PStr c), (''action'', PStr a),
          (''status'', PStr st), (''message'', PStr msg)] @ x)]\<rparr>)"
  by (simp add: terminal_def record_terminal_def bnd_def send_event_def)

section \<open>Tearing one VM down\<close>

definition vm_name :: "'h machine \<Rightarrow> int \<Rightarrow> string option" where
  "vm_name m vid = dget (m_names m) (str_int vid)"

definition expire_pending_commands :: "'h machine \<Rightarrow> int \<Rightarrow> guest \<Rightarrow> ('h, unit) op" where
  "expire_pending_commands m vid kind =
     except_any
       (bnd (if kind = Lxc then pct_config m vid else qm_config m vid) (\<lambda>cfg.
        let hostname = dget cfg (if kind = Lxc then ''hostname'' else ''name'')
        in if str_set hostname
           then send_event ''CS_EXPIRE_PENDING_COMMANDS'' [(''target'', PStr (the hostname))]
           else ret ()))
       (\<lambda>e. ret ())"

definition notify_torn_down :: "'h machine \<Rightarrow> int \<Rightarrow> ('h, unit) op" where
  "notify_torn_down m vid =
     (if str_set (vm_name m vid)
      then send_event ''CS_TEARDOWN_CLIENT'' [(''hostname'', PStr (the (vm_name m vid)))]
      else ret ())"

record destroyed =
  ds_ok :: bool
  ds_orphaned :: bool
  ds_bus :: "string option"
  ds_kind :: guest
  ds_already_gone :: bool
  ds_fails :: "int option"
  ds_reason :: string

text \<open>The bookkeeping when the VM is gone, and when it could not be destroyed.\<close>

definition exclude_if :: "'h machine \<Rightarrow> bool \<Rightarrow> string option \<Rightarrow> ('h, unit) op" where
  "exclude_if m exclude bus =
     (if exclude \<and> str_set bus then bnd (now_s m) (\<lambda>t. on_disk (exclude_bus (the bus) t)) else ret ())"

definition settle_gone :: "'h machine \<Rightarrow> int \<Rightarrow> string option \<Rightarrow> bool \<Rightarrow> ('h, unit) op" where
  "settle_gone m vid bus exclude =
     bnd (on_disk (clear_assignment vid bus)) (\<lambda>_.
     bnd (on_disk (clear_destroy_fails vid)) (\<lambda>_.
     bnd (on_disk (remove_orphan_vm vid)) (\<lambda>_.
     bnd (exclude_if m exclude bus) (\<lambda>_.
     notify_torn_down m vid))))"

definition settle_failed :: "'h machine \<Rightarrow> int \<Rightarrow> string option \<Rightarrow> bool \<Rightarrow> ('h, int \<times> bool) op" where
  "settle_failed m vid bus exclude =
     bnd (now_s m) (\<lambda>t.
     bnd (with_disk (\<lambda>d. case record_destroy_fail vid (case bus of None \<Rightarrow> [] | Some b \<Rightarrow> b) t d of
                         (r, d') \<Rightarrow> (Inr r, d'))) (\<lambda>(count, orphaned).
     bnd (if orphaned then
            bnd (on_disk (clear_assignment vid bus)) (\<lambda>_. exclude_if m exclude bus)
          else ret ()) (\<lambda>_.
     ret (count, orphaned))))"

text \<open>Stopping and destroying with the tool of the guest type.\<close>

definition tear_down :: "'h machine \<Rightarrow> int \<Rightarrow> guest \<Rightarrow> int set \<Rightarrow> ('h, bool \<times> string) op" where
  "tear_down m vid kind prot =
     (if kind = Lxc then
        bnd (pct_stop m (PInt vid) (Some prot)) (\<lambda>_. pct_destroy m 300 (PInt vid) (Some prot))
      else
        bnd (qm_stop_force m (PInt vid) (Some prot)) (\<lambda>_. qm_destroy m 300 (PInt vid) (Some prot)))"

definition destroyed_ok :: "string option \<Rightarrow> guest \<Rightarrow> bool \<Rightarrow> destroyed" where
  "destroyed_ok bus kind already =
     \<lparr>ds_ok = True, ds_orphaned = False, ds_bus = bus, ds_kind = kind, ds_already_gone = already,
      ds_fails = None, ds_reason = []\<rparr>"

text \<open>The part of \<open>destroy_vm\<close> for a guest that still exists.\<close>

definition destroy_present ::
    "'h machine \<Rightarrow> int \<Rightarrow> guest \<Rightarrow> string option \<Rightarrow> int set \<Rightarrow> bool \<Rightarrow> ('h, destroyed) op" where
  "destroy_present m vid kind bus prot exclude =
     bnd (expire_pending_commands m vid kind) (\<lambda>_.
     bnd (mark_deleting m vid) (\<lambda>_.
     bnd (tear_down m vid kind prot) (\<lambda>(ok, reason).
     if ok then
       bnd (settle_gone m vid bus exclude) (\<lambda>_. ret (destroyed_ok bus kind False))
     else
       bnd (settle_failed m vid bus exclude) (\<lambda>(count, orphaned).
       ret \<lparr>ds_ok = False, ds_orphaned = orphaned, ds_bus = bus, ds_kind = kind, ds_already_gone = False,
            ds_fails = Some count, ds_reason = reason\<rparr>))))"

definition destroy_vm ::
    "'h machine \<Rightarrow> (string, pyval) dict option \<Rightarrow> string option \<Rightarrow> int set option \<Rightarrow> bool \<Rightarrow> pyval
     \<Rightarrow> ('h, destroyed) op" where
  "destroy_vm m cfg bus_arg protected exclude vmid =
     (let prot = (case protected of Some p \<Rightarrow> p | None \<Rightarrow> resolve_protected_vmids cfg) in
      bnd (lift (assert_sim_vm vmid prot SIM_VMIN)) (\<lambda>vid.
      bnd (detect_guest_type m vid) (\<lambda>kind.
      bnd (is_template m vid (Some (kind_name kind))) (\<lambda>template.
      if template then throw (GuardError (TemplateVmid vid))
      else
        bnd (peek (\<lambda>w. or_str bus_arg (bus_for_vmid vid (store w)))) (\<lambda>bus.
        bnd (guest_exists m vid kind) (\<lambda>ex.
        if \<not> ex then bnd (settle_gone m vid bus exclude) (\<lambda>_. ret (destroyed_ok bus kind True))
        else destroy_present m vid kind bus prot exclude))))))"

section \<open>Operator deletes\<close>

definition destroy_sim_vm ::
    "'h machine \<Rightarrow> (string, pyval) dict option \<Rightarrow> int \<Rightarrow> int set \<Rightarrow> ('h, destroyed) op" where
  "destroy_sim_vm m cfg vid prot =
     bnd (destroy_vm m cfg None (Some prot) True (PInt vid)) (\<lambda>r.
     bnd (on_disk (clear_recovery_state (ds_bus r))) (\<lambda>_.
     ret r))"

text \<open>\<open>data.get("vmid") or data.get("vm_id")\<close>\<close>

definition first_set :: "(string, pyval) dict \<Rightarrow> string \<Rightarrow> string \<Rightarrow> pyval" where
  "first_set data k1 k2 =
     (let v = (case dget data k1 of None \<Rightarrow> PNone | Some x \<Rightarrow> x)
      in if truthy v then v else (case dget data k2 of None \<Rightarrow> PNone | Some x \<Rightarrow> x))"

definition attempt_text :: "int option \<Rightarrow> string" where
  "attempt_text f = (case f of None \<Rightarrow> ''None'' | Some n \<Rightarrow> str_int n)"

definition delete_vm ::
    "'h machine \<Rightarrow> (string, pyval) dict option \<Rightarrow> (string, pyval) dict \<Rightarrow> string \<Rightarrow> ('h, unit) op" where
  "delete_vm m cfg data cmd_id =
     (let prot = resolve_protected_vmids cfg in
      bnd (lift (assert_sim_vm (first_set data ''vmid'' ''vm_id'') prot SIM_VMIN)) (\<lambda>vid.
      bnd (progress m cmd_id ''delete_vm'' ''running'' ''stopping'' (Some 10) (Some vid) []) (\<lambda>_.
      bnd (destroy_sim_vm m cfg vid prot) (\<lambda>r.
      if ds_ok r then
        terminal cmd_id ''delete_vm'' ''completed'' (''VM '' @ str_int vid @ '' destroyed'') (Some vid)
          [(''kind'', PStr (kind_name (ds_kind r)))]
      else
        terminal cmd_id ''delete_vm'' ''failed''
          (if ds_orphaned r then ''VM '' @ str_int vid @ '' destroy failed - declared orphan (bus released)''
           else ''VM '' @ str_int vid @ '' destroy failed (attempt '' @ attempt_text (ds_fails r) @ ''/3)'')
          (Some vid) [(''orphaned'', PBool (ds_orphaned r))]))))"

text \<open>
  The batch: VMIDs that the guard refuses are failures, a VMID listed twice is taken once.
\<close>

fun split_targets ::
    "int set \<Rightarrow> pyval list \<Rightarrow> int list \<times> pyval list \<Rightarrow> int list \<times> pyval list" where
  "split_targets prot [] acc = acc"
| "split_targets prot (x # xs) (targets, invalid) =
     (case assert_sim_vm x prot SIM_VMIN of
        Inl e \<Rightarrow> split_targets prot xs (targets, invalid @ [x])
      | Inr vid \<Rightarrow>
          if vid \<in> set targets then split_targets prot xs (targets, invalid)
          else split_targets prot xs (targets @ [vid], invalid))"

definition batch_status :: "int list \<Rightarrow> nat \<Rightarrow> string" where
  "batch_status ok_ids fail_ct = (if ok_ids = [] \<and> fail_ct \<noteq> 0 then ''failed'' else ''completed'')"

text \<open>The counts and lists of the terminal frame.\<close>

definition batch_report :: "int list \<Rightarrow> int list \<Rightarrow> pyval list \<Rightarrow> nat \<Rightarrow> (string \<times> pyval) list" where
  "batch_report ok fail invalid n_all =
     [(''deleted'', PInt (int (length ok))), (''failed'', PInt (int (length fail + length invalid))),
      (''total'', PInt (int n_all)), (''deleted_vmids'', PList (map PInt ok)),
      (''failed_vmids'', PList (map PInt fail @ invalid))]"

record batch_acc =
  ba_done :: nat
  ba_ok :: "int list"
  ba_fail :: "int list"

definition delete_one ::
    "'h machine \<Rightarrow> (string, pyval) dict option \<Rightarrow> int set \<Rightarrow> string \<Rightarrow> nat \<Rightarrow> int \<Rightarrow> batch_acc \<Rightarrow> ('h, batch_acc) op" where
  "delete_one m cfg prot cmd_id n_all vid acc =
     bnd (except_any (bnd (destroy_sim_vm m cfg vid prot) (\<lambda>r. ret (ds_ok r))) (\<lambda>e. ret False)) (\<lambda>ok.
     let acc' = acc\<lparr>ba_done := ba_done acc + 1,
                    ba_ok := (if ok then ba_ok acc @ [vid] else ba_ok acc),
                    ba_fail := (if ok then ba_fail acc else ba_fail acc @ [vid])\<rparr>
     in bnd (progress m cmd_id ''delete_vms'' ''running'' (if ok then ''deleted'' else ''failed'')
               (Some (int (100 * ba_done acc' div n_all))) (Some vid)
               [(''result'', PStr (if ok then ''completed'' else ''failed''))]) (\<lambda>_.
        ret acc'))"

definition delete_vms ::
    "'h machine \<Rightarrow> (string, pyval) dict option \<Rightarrow> (int list \<Rightarrow> int list) \<Rightarrow> pyval list \<Rightarrow> string \<Rightarrow> ('h, unit) op" where
  "delete_vms m cfg order raw cmd_id =
     (let prot = resolve_protected_vmids cfg in
      case split_targets prot raw ([], []) of (targets, invalid) \<Rightarrow>
      let total = length targets + length invalid in
      if total = 0 then
        terminal cmd_id ''delete_vms'' ''completed'' ''no VMs specified'' None
          [(''deleted'', PInt 0), (''failed'', PInt 0), (''total'', PInt 0)]
      else
        bnd (progress m cmd_id ''delete_vms'' ''running'' ''starting'' (Some 0) None
               [(''total'', PInt (int total))]) (\<lambda>_.
        bnd (each (\<lambda>x. progress m cmd_id ''delete_vms'' ''running'' ''failed'' None None
               [(''vmid'', x), (''result'', PStr ''failed'')]) invalid) (\<lambda>_.
        bnd (iter (delete_one m cfg prot cmd_id total) (order targets)
               \<lparr>ba_done = length invalid, ba_ok = [], ba_fail = []\<rparr>) (\<lambda>acc.
        let fail_ct = length (ba_fail acc) + length invalid in
        terminal cmd_id ''delete_vms'' (batch_status (ba_ok acc) fail_ct)
          (''deleted '' @ str_int (int (length (ba_ok acc))) @ ''/'' @ str_int (int total) @ '' VM(s)''
           @ (if fail_ct \<noteq> 0 then '', '' @ str_int (int fail_ct) @ '' failed'' else []))
          None (batch_report (ba_ok acc) (ba_fail acc) invalid total)))))"

text \<open>\<open>_quarantine_dongle_and_destroy\<close>\<close>

definition quarantine_dongle_and_destroy ::
    "'h machine \<Rightarrow> (string, pyval) dict option \<Rightarrow> (string, pyval) dict \<Rightarrow> string \<Rightarrow> ('h, unit) op" where
  "quarantine_dongle_and_destroy m cfg data cmd_id =
     (let prot = resolve_protected_vmids cfg;
          act = ''quarantine_dongle_and_destroy'' in
      bnd (lift (assert_sim_vm (first_set data ''vmid'' ''vm_id'') prot SIM_VMIN)) (\<lambda>vid.
      let reason = (case dget data ''reason'' of
                      Some (PStr s) \<Rightarrow> if s \<noteq> [] then s else ''client never connected (no IP / no SSID)''
                    | _ \<Rightarrow> ''client never connected (no IP / no SSID)'')
      in bnd (peek (\<lambda>w. case dget data ''bus_path'' of
                          Some (PStr s) \<Rightarrow> if s \<noteq> [] then Some s else bus_for_vmid vid (store w)
                        | _ \<Rightarrow> bus_for_vmid vid (store w))) (\<lambda>bus.
         bnd (if str_set bus then bnd (now_s m) (\<lambda>t. on_disk (quarantine_bus (the bus) reason t)) else ret ()) (\<lambda>_.
         bnd (progress m cmd_id act ''running'' ''destroying'' (Some 20) (Some vid) []) (\<lambda>_.
         bnd (destroy_vm m cfg bus (Some prot) False (PInt vid)) (\<lambda>r.
         terminal cmd_id act (if ds_ok r then ''completed'' else ''failed'')
           (''VM '' @ str_int vid @ (if ds_ok r then '' shed'' else if ds_orphaned r
              then '' shed failed - declared orphan (bus released)''
              else '' shed failed (attempt '' @ attempt_text (ds_fails r) @ ''/3)''))
           (Some vid) [(''bus'', case bus of None \<Rightarrow> PNone | Some b \<Rightarrow> PStr b)]))))))"

section \<open>Bookkeeping\<close>

lemma keeps_store_destroy_parts [keeps_intro]:
  "keeps store (expire_pending_commands m vid k)" "keeps store (mark_deleting m vid)"
  "keeps store (tear_down m vid k prot)" "keeps store (notify_torn_down m vid)"
  by (auto simp: expire_pending_commands_def pct_config_def qm_config_def mark_deleting_def tear_down_def
      notify_torn_down_def Let_def intro!: keeps_intro store_keeps keeps_modify)

lemma exclude_bus_keeps [simp]:
  assumes "faults d = []"
  shows "faults (exclude_bus b t d) = []" "bus_for_vmid v (exclude_bus b t d) = bus_for_vmid v d"
    "read_destroy_fails (exclude_bus b t d) = read_destroy_fails d" "read_orphans (exclude_bus b t d) = read_orphans d"
    "bus_to_vmid (load_usb_state (exclude_bus b t d)) = bus_to_vmid (load_usb_state d)"
  using assms by (simp_all add: exclude_bus_def bus_for_vmid_def disk_simps Let_def)

lemma clear_assignment_keeps [simp]:
  assumes "faults d = []"
  shows "faults (clear_assignment v b d) = []" "bus_for_vmid v (clear_assignment v b d) = None"
    "read_destroy_fails (clear_assignment v b d) = read_destroy_fails d"
    "read_orphans (clear_assignment v b d) = read_orphans d"
  using assms by (simp_all add: clear_assignment_def bus_for_vmid_def disk_simps forward_entry_in_clear)

lemma clear_fails_keeps [simp]:
  assumes "faults d = []"
  shows "faults (clear_destroy_fails v d) = []" "load_usb_state (clear_destroy_fails v d) = load_usb_state d"
    "read_destroy_fails (clear_destroy_fails v d) = dpop (str_int v) (read_destroy_fails d)"
    "read_orphans (clear_destroy_fails v d) = read_orphans d"
  using assms by (simp_all add: clear_destroy_fails_def disk_simps)

lemma remove_orphan_keeps [simp]:
  assumes "faults d = []"
  shows "faults (remove_orphan_vm v d) = []" "load_usb_state (remove_orphan_vm v d) = load_usb_state d"
    "read_destroy_fails (remove_orphan_vm v d) = read_destroy_fails d"
    "read_orphans (remove_orphan_vm v d) = filter (\<lambda>e. or_vmid e \<noteq> v) (read_orphans d)"
  using assms by (simp_all add: remove_orphan_vm_def disk_simps)

lemma bus_for_vmid_cong: "load_usb_state d = load_usb_state d' \<Longrightarrow> bus_for_vmid v d = bus_for_vmid v d'"
  by (simp add: bus_for_vmid_def)

text \<open>Nothing the agent keeps about a VM is left.\<close>

definition forgotten :: "int \<Rightarrow> disk \<Rightarrow> bool" where
  "forgotten vid d \<longleftrightarrow> bus_for_vmid vid d = None \<and> dget (read_destroy_fails d) (str_int vid) = None
     \<and> (\<forall>e\<in>set (read_orphans d). or_vmid e \<noteq> vid)"

lemma meets_exclude:
  assumes "faults d = []"
    and "\<And>d'. faults d' = [] \<Longrightarrow> (\<forall>v. bus_for_vmid v d' = bus_for_vmid v d) \<Longrightarrow>
      read_destroy_fails d' = read_destroy_fails d \<Longrightarrow> read_orphans d' = read_orphans d \<Longrightarrow> Q (Inr ()) d'"
  shows "meets d (exclude_if m x b) Q"
  using assms by (auto simp: meets_def exclude_if_def bnd_def now_s_def on_disk_def)

lemma meets_settle_gone:
  assumes "faults d = []"
  shows "meets d (settle_gone m vid bus x) (\<lambda>r d'. r = Inr () \<and> forgotten vid d' \<and> faults d' = [])"
proof -
  let ?P = "\<lambda>r d'. r = Inr () \<and> forgotten vid d' \<and> faults d' = []"
  let ?d1 = "clear_assignment vid bus d"
  let ?d3 = "remove_orphan_vm vid (clear_destroy_fails vid ?d1)"
  have forg: "forgotten vid ?d3"
    using assms by (auto simp: forgotten_def bus_for_vmid_cong [of ?d3 ?d1])
  have say: "meets d' (notify_torn_down m vid) ?P" if "forgotten vid d'" "faults d' = []" for d'
    using that by (simp add: meets_def notify_torn_down_def send_event_def)
  have rest: "meets ?d3 (bnd (exclude_if m x bus) (\<lambda>_. notify_torn_down m vid)) ?P"
    by (rule meets_bnd [where R = ?P], rule meets_exclude)
       (use assms forg say in \<open>auto simp: forgotten_def\<close>)
  show ?thesis
    unfolding settle_gone_def
    by (rule meets_bnd [OF meets_on_disk, where R = "\<lambda>r d'. r = Inr () \<and> d' = ?d1"], simp, simp,
        rule meets_bnd [OF meets_on_disk, where R = "\<lambda>r d'. r = Inr () \<and> d' = clear_destroy_fails vid ?d1"], simp, simp,
        rule meets_bnd [OF meets_on_disk, where R = "\<lambda>r d'. r = Inr () \<and> d' = ?d3"])
       (use rest in auto)
qed

definition fail_count :: "int \<Rightarrow> disk \<Rightarrow> int" where
  "fail_count vid d = (case dget (read_destroy_fails d) (str_int vid) of None \<Rightarrow> 0 | Some k \<Rightarrow> k)"

text \<open>What a failed teardown leaves: the files before, the count, the files after.\<close>

definition failed_books :: "int \<Rightarrow> disk \<Rightarrow> int \<Rightarrow> bool \<Rightarrow> disk \<Rightarrow> bool" where
  "failed_books vid d n orph d' \<longleftrightarrow> n = fail_count vid d + 1 \<and> (orph \<longleftrightarrow> 3 \<le> n) \<and> faults d' = []
     \<and> (if orph then bus_for_vmid vid d' = None \<and> (\<exists>e\<in>set (read_orphans d'). or_vmid e = vid)
        else load_usb_state d' = load_usb_state d \<and> read_orphans d' = read_orphans d \<and> fail_count vid d' = n)"

lemma record_destroy_fail_run:
  assumes "faults d = []" "record_destroy_fail vid b t d = ((n, orph), d')"
  shows "faults d' = [] \<and> load_usb_state d' = load_usb_state d
    \<and> n = fail_count vid d + 1 \<and> (orph \<longleftrightarrow> 3 \<le> n)
    \<and> (if orph then \<exists>e\<in>set (read_orphans d'). or_vmid e = vid
       else read_orphans d' = read_orphans d \<and> fail_count vid d' = n)"
  using assms
  by (auto simp: record_destroy_fail_def DESTROY_MAX_FAILS_def add_orphan_vm_def fail_count_def disk_simps Let_def
      split: if_splits)

lemma meets_settle_failed:
  fixes m :: "'h machine"
  assumes "faults d = []"
  shows "meets d (settle_failed m vid bus x) (\<lambda>r d'. \<exists>n orph. r = Inr (n, orph) \<and> failed_books vid d n orph d')"
  unfolding meets_def
proof (intro allI impI)
  fix w :: "'h world" assume w: "store w = d"
  obtain n orph d1 where r: "record_destroy_fail vid (case bus of None \<Rightarrow> [] | Some b \<Rightarrow> b) (m_clock m (host w)) d = ((n, orph), d1)"
    by (metis prod.exhaust)
  note R = record_destroy_fail_run [OF assms(1) r]
  let ?w1 = "w\<lparr>store := d1\<rparr>"
  have run: "settle_failed m vid bus x w = bnd (if orph then bnd (on_disk (clear_assignment vid bus)) (\<lambda>_. exclude_if m x bus)
      else ret ()) (\<lambda>_. ret (n, orph)) ?w1"
    by (simp add: settle_failed_def bnd_def now_s_def with_disk_def w r)
  have "meets d1 (bnd (if orph then bnd (on_disk (clear_assignment vid bus)) (\<lambda>_. exclude_if m x bus) else ret ()) (\<lambda>_. ret (n, orph)))
      (\<lambda>r d'. \<exists>n orph. r = Inr (n, orph) \<and> failed_books vid d n orph d')"
  proof (cases orph)
    case True
    have "meets (clear_assignment vid bus d1) (exclude_if m x bus)
        (\<lambda>r d'. r = Inr () \<and> bus_for_vmid vid d' = None \<and> (\<exists>e\<in>set (read_orphans d'). or_vmid e = vid) \<and> faults d' = [])"
      by (rule meets_exclude) (use R True in auto)
    then have "meets d1 (bnd (on_disk (clear_assignment vid bus)) (\<lambda>_. exclude_if m x bus))
        (\<lambda>r d'. r = Inr () \<and> bus_for_vmid vid d' = None \<and> (\<exists>e\<in>set (read_orphans d'). or_vmid e = vid) \<and> faults d' = [])"
      by (intro meets_bnd [OF meets_on_disk, where R = "\<lambda>r d'. d' = clear_assignment vid bus d1 \<and> r = Inr ()"]) auto
    then show ?thesis
      unfolding if_P [OF True]
      by (rule meets_bnd) (use R True in \<open>auto simp: failed_books_def intro!: meets_pure\<close>)
  next
    case False
    with R show ?thesis by (auto simp: failed_books_def intro!: meets_pure)
  qed
  then show "\<exists>n orph. fst (settle_failed m vid bus x w) = Inr (n, orph)
      \<and> failed_books vid d n orph (store (snd (settle_failed m vid bus x w)))"
    unfolding run meets_def by simp
qed

text \<open>The books after a teardown that returned \<open>r\<close>, from the files before to the files after.\<close>

definition books :: "int \<Rightarrow> disk \<Rightarrow> destroyed result \<Rightarrow> disk \<Rightarrow> bool" where
  "books vid d r d' \<longleftrightarrow> (case r of
      Inl e \<Rightarrow> d' = d
    | Inr s \<Rightarrow> if ds_ok s then forgotten vid d' \<and> faults d' = []
              else \<exists>n. ds_fails s = Some n \<and> failed_books vid d n (ds_orphaned s) d')"

lemma destroy_vm_books:
  assumes "faults d = []"
  shows "meets d (destroy_vm m cfg bus_arg p exclude (PInt vid)) (books vid d)"
proof -
  have err: "books vid d (Inl e) d" for e by (simp add: books_def)
  have gone: "meets d (bnd (settle_gone m vid bus exclude) (\<lambda>_. ret (destroyed_ok bus k b))) (books vid d)" for bus k b
    by (rule meets_bnd [OF meets_settle_gone [OF assms]]) (auto simp: destroyed_ok_def books_def intro!: meets_pure)
  have failed: "meets d (bnd (settle_failed m vid bus exclude) (\<lambda>(count, orphaned).
       ret \<lparr>ds_ok = False, ds_orphaned = orphaned, ds_bus = bus, ds_kind = k, ds_already_gone = False,
            ds_fails = Some count, ds_reason = reason\<rparr>)) (books vid d)" for bus k reason
    by (rule meets_bnd [OF meets_settle_failed [OF assms]]) (auto simp: books_def intro!: meets_pure)
  have present: "meets d (destroy_present m vid k bus prot exclude) (books vid d)" for k bus prot
    unfolding destroy_present_def
    by (rule meets_then keeps_store_destroy_parts)+ (auto split: prod.splits intro: gone failed err)
  have known: "meets d (bnd (guest_exists m vid k) (\<lambda>ex.
        if \<not> ex then bnd (settle_gone m vid bus exclude) (\<lambda>_. ret (destroyed_ok bus k True))
        else destroy_present m vid k bus prot exclude)) (books vid d)" for k bus prot
    by (rule meets_then store_keeps)+ (auto intro: gone present err)
  show ?thesis
  proof -
    let ?prot = "case p of Some s \<Rightarrow> s | None \<Rightarrow> resolve_protected_vmids cfg"
    show ?thesis
    proof (cases rule: guard_vmid_cases [of vid ?prot])
      case ok
      show ?thesis
        unfolding destroy_vm_def Let_def ok bnd_simps
        by (rule meets_then store_keeps)+
           (auto intro!: meets_pure meets_peek known err)
    next
      case (refused r)
      then show ?thesis by (simp add: destroy_vm_def Let_def meets_def err)
    qed
  qed
qed



section \<open>Templates\<close>

text \<open>Reading a guest's status or configuration, waiting, and telling the hub harm no guest.\<close>

definition harmless :: "event \<Rightarrow> bool" where
  "harmless e = (case e of
      Cmd a r \<Rightarrow> 2 \<le> length a \<and> (a ! 1 = ''status'' \<or> a ! 1 = ''config'')
    | Detached a \<Rightarrow> False | _ \<Rightarrow> True)"

text \<open>
  The events change a guest only after its configuration was read, as the second command, and
  did not show the template flag.
\<close>

definition template_checked :: "int \<Rightarrow> event list \<Rightarrow> bool" where
  "template_checked vid es \<longleftrightarrow> list_all harmless es
     \<or> (\<exists>x k rc out err rest. es = Cmd [''pct'', ''status'', str_int vid] x
          # Cmd [tool k, ''config'', str_int vid] (Exited rc out err) # rest
          \<and> \<not> (rc = 0 \<and> template_flag (splitlines out)))"

lemma guest_kind_named [simp]: "guest_kind m (Some (kind_name k)) vid = ret k"
  by (cases k) (simp_all add: guest_kind_def lower_def lower_char_def)

lemma yields_is_template:
  "yields (is_template m vid (Some (kind_name k))) (\<lambda>r es. \<exists>x. es = [Cmd [tool k, ''config'', str_int vid] x]
     \<and> (case r of Inr b \<Rightarrow> (\<exists>rc out err. x = Exited rc out err \<and> (b \<longleftrightarrow> rc = 0 \<and> template_flag (splitlines out))) | Inl e \<Rightarrow> True))"
  unfolding is_template_def guest_kind_named bnd_simps
  by (rule yields_bnd [OF yields_sh, where QB = "\<lambda>x r es. es = [] \<and> r = Inr (if fst x \<noteq> 0 then False else template_flag (splitlines (fst (snd x))))"])
     (auto simp: yields_def split: sum.splits)

lemma emits_destroy_parts [emits_intro]:
  "emits (touches vid) (expire_pending_commands m vid k)" "emits (touches vid) (notify_torn_down m vid)"
  "emits (touches vid) (exclude_if m x b)" "emits (touches vid) (settle_gone m vid bus x)"
  "emits (touches vid) (settle_failed m vid bus x)" "emits (touches vid) (mark_deleting m v)"
  by (auto simp: expire_pending_commands_def pct_config_def qm_config_def notify_torn_down_def exclude_if_def
      settle_gone_def settle_failed_def mark_deleting_def Let_def intro!: emits_intro emits_modify)

lemma emits_tear_down:
  assumes "assert_sim_vm (PInt vid) prot SIM_VMIN = Inr vid"
  shows "emits (touches vid) (tear_down m vid k prot)"
  unfolding tear_down_def
  by (auto intro!: emits_intro g_pct_stop.confined g_pct_destroy.confined g_stop_force.confined
      g_qm_destroy.confined assms)

lemma emits_destroy_present:
  assumes "assert_sim_vm (PInt vid) prot SIM_VMIN = Inr vid"
  shows "emits (touches vid) (destroy_present m vid k bus prot x)"
  unfolding destroy_present_def by (auto intro!: emits_intro emits_tear_down [OF assms])

interpretation g_destroy_vm: guarded_op "\<lambda>v p. destroy_vm m cfg bus (Some p) x v" for m :: "'h machine" and cfg bus x
proof
  fix v :: pyval and prot :: "int set" and e :: exn and w :: "'h world"
  assume "assert_sim_vm v prot SIM_VMIN = Inl e"
  then show "destroy_vm m cfg bus (Some prot) x v w = (Inl e, w)" by (simp add: destroy_vm_def Let_def)
next
  fix v :: pyval and prot :: "int set" and vid :: int
  assume "assert_sim_vm v prot SIM_VMIN = Inr vid"
  moreover from this have "assert_sim_vm (PInt vid) prot SIM_VMIN = Inr vid" by (simp add: assert_sim_vm_Inr)
  ultimately show "emits (touches vid) (destroy_vm m cfg bus (Some prot) x v)"
    by (auto simp: destroy_vm_def Let_def intro!: emits_intro emits_destroy_present)
qed


section \<open>The batch\<close>

lemma returns_marks [returns_intro]:
  "returns (mark_deleting m v)" "returns (mark_recloning m v)" "returns (clear_recloning v)"
  by (auto simp: mark_deleting_def mark_recloning_def clear_recloning_def intro!: returns_intro)

lemma returns_frames [returns_intro]:
  "returns (progress m c a s st p v x)" "returns (terminal c a s ms v x)"
  by (auto simp: progress_def terminal_def record_terminal_def intro!: returns_intro split: option.splits)

lemma returns_settle [returns_intro]:
  "returns (notify_torn_down m vid)" "returns (exclude_if m x b)" "returns (settle_gone m vid b x)"
  by (auto simp: notify_torn_down_def exclude_if_def settle_gone_def intro!: returns_intro)

lemma ends_settle_failed [ends_intro]: "ends (settle_failed m vid b x)"
proof -
  have "ends (with_disk (\<lambda>d. case record_destroy_fail vid y t d of (r, d') \<Rightarrow> (Inr r, d')))" for y t
    by (simp add: ends_def with_disk_def split: prod.splits)
  then show ?thesis
    unfolding settle_failed_def by (auto intro!: ends_intro returns_ends [OF returns_settle(2)])
qed

lemma ends_destroy:
  assumes "clock_ok m"
  shows "ends (destroy_vm m cfg b p x v)" "ends (destroy_sim_vm m cfg vid prot)"
proof -
  have e: "ends (expire_pending_commands m vid k)" for vid k
    by (auto simp: expire_pending_commands_def qm_config_def pct_config_def Let_def intro!: ends_intro)
  have t: "ends (tear_down m vid k pr)" for vid k pr
    by (auto simp: tear_down_def intro!: ends_intro ladders_end [OF assms])
  have d: "ends (destroy_present m vid k b pr x)" for vid k b pr x
    by (auto simp: destroy_present_def intro!: ends_intro e t returns_ends [OF returns_settle(3)]
        returns_ends [OF returns_marks(1)])
  show v: "ends (destroy_vm m cfg b p x v)" for cfg b p x v
    by (auto simp: destroy_vm_def Let_def intro!: ends_intro d returns_ends [OF returns_settle(3)])
  show "ends (destroy_sim_vm m cfg vid prot)"
    by (auto simp: destroy_sim_vm_def intro!: ends_intro v)
qed

lemma split_targets_spec:
  "distinct t0 \<Longrightarrow> split_targets prot xs (t0, i0) = (t, i) \<Longrightarrow>
   distinct t \<and> set t = set t0 \<union> {vid. \<exists>x\<in>set xs. assert_sim_vm x prot SIM_VMIN = Inr vid}
   \<and> i = i0 @ filter (\<lambda>x. \<not> is_sim_vm x prot SIM_VMIN) xs"
proof (induction xs arbitrary: t0 i0)
  case (Cons x xs)
  show ?case
  proof (cases "assert_sim_vm x prot SIM_VMIN")
    case (Inl e)
    then have "\<not> is_sim_vm x prot SIM_VMIN" by (simp add: is_sim_vm_def)
    with Inl Cons.IH [OF Cons.prems(1), of "i0 @ [x]"] Cons.prems(2) show ?thesis by simp
  next
    case (Inr v)
    then have s: "is_sim_vm x prot SIM_VMIN" by (simp add: is_sim_vm_def)
    show ?thesis
    proof (cases "v \<in> set t0")
      case True
      with Cons.IH [OF Cons.prems(1)] Cons.prems(2) Inr s show ?thesis by auto
    next
      case False
      with Cons.prems(1) have "distinct (t0 @ [v])" by simp
      with Cons.IH [OF this] Cons.prems(2) Inr s False show ?thesis by auto
    qed
  qed
qed simp

lemma delete_iter_accounts:
  assumes "iter (delete_one m cfg prot c n) xs acc w = (Inr acc', w')"
  shows "mset (ba_ok acc' @ ba_fail acc') = mset (ba_ok acc @ ba_fail acc) + mset xs"
  using assms
proof (induction xs arbitrary: acc w)
  case (Cons x xs)
  obtain mid w1 where one: "delete_one m cfg prot c n x acc w = (Inr mid, w1)"
    and rest: "iter (delete_one m cfg prot c n) xs mid w1 = (Inr acc', w')"
    using Cons.prems by (auto elim: bnd_InrD)
  have "mset (ba_ok mid @ ba_fail mid) = mset (ba_ok acc @ ba_fail acc) + {#x#}"
    using one by (auto simp: delete_one_def Let_def elim!: bnd_InrD)
  with Cons.IH [OF rest] show ?case by simp
qed simp

text \<open>
  A batch delete sinks with none of its VMs and loses track of none. On a host whose clock
  runs, whatever the single teardowns do, the batch returns; its last event is the terminal
  result, in which every simulation VM asked for, once however often it was listed, is either
  deleted or failed, and every refused entry is failed.
\<close>

theorem delete_vms_accounts:
  assumes "clock_ok m" and "\<And>xs. mset (order xs) = mset xs" and "raw \<noteq> []"
  shows "\<exists>w' es ok fail status msg. delete_vms m cfg order raw c w = (Inr (), w')
    \<and> (let prot = resolve_protected_vmids cfg; refused = filter (\<lambda>x. \<not> is_sim_vm x prot SIM_VMIN) raw in
        trace w' = trace w @ es @ [Sent ''CS_COMMAND_RESULT''
          ([(''cs_cmd_id'', PStr c), (''action'', PStr ''delete_vms''), (''status'', PStr status), (''message'', PStr msg)]
           @ batch_report ok fail refused (length ok + length fail + length refused))]
      \<and> distinct (ok @ fail) \<and> set (ok @ fail) = {vid. \<exists>x\<in>set raw. assert_sim_vm x prot SIM_VMIN = Inr vid}
      \<and> (status = ''failed'' \<longleftrightarrow> ok = []))"
proof -
  let ?prot = "resolve_protected_vmids cfg"
  let ?bad = "filter (\<lambda>x. \<not> is_sim_vm x ?prot SIM_VMIN) raw"
  obtain ts where sp: "split_targets ?prot raw ([], []) = (ts, ?bad)" and ts: "distinct ts"
      "set ts = {vid. \<exists>x\<in>set raw. assert_sim_vm x ?prot SIM_VMIN = Inr vid}"
    using split_targets_spec [of "[]" ?prot raw "[]"] by (cases "split_targets ?prot raw ([], [])") auto
  define N where "N = length ts + length ?bad"
  note nN = N_def [symmetric]
  have n: "N \<noteq> 0"
  proof
    assume "N = 0"
    then have "ts = []" "?bad = []" by (auto simp: N_def)
    with ts(2) assms(3) show False
      by (cases raw) (auto simp: is_sim_vm_def split: sum.splits if_splits)
  qed
  have one: "returns (delete_one m cfg ?prot c N x a)" for x a
    unfolding delete_one_def Let_def
    by (intro returns_intro) (auto intro!: ends_intro ends_destroy(2) [OF assms(1)])
  obtain w1 where p1: "progress m c ''delete_vms'' ''running'' ''starting'' (Some 0) None [(''total'', PInt (int N))] w = (Inr (), w1)"
    using returnsD [OF returns_frames(1)] by fastforce
  obtain w2 where p2: "each (\<lambda>x. progress m c ''delete_vms'' ''running'' ''failed'' None None
               [(''vmid'', x), (''result'', PStr ''failed'')]) ?bad w1 = (Inr (), w2)"
    using returnsD [OF returns_each [OF returns_frames(1)]] by fastforce
  have all: "returns (iter (delete_one m cfg ?prot c N) xs a)" for xs a
    by (rule returns_iter) (rule one)
  obtain acc w3 where p3: "iter (delete_one m cfg ?prot c N) (order ts) \<lparr>ba_done = length ?bad, ba_ok = [], ba_fail = []\<rparr> w2 = (Inr acc, w3)"
    using returnsD [OF all] by blast
  have ms: "mset (ba_ok acc @ ba_fail acc) = mset ts"
    using delete_iter_accounts [OF p3] assms(2) by simp
  then have dist: "distinct (ba_ok acc @ ba_fail acc)" and st: "set (ba_ok acc @ ba_fail acc) = set ts"
    using ts(1) by (metis mset_eq_imp_distinct_iff, metis mset_eq_setD)
  have len: "length ts = length (ba_ok acc) + length (ba_fail acc)"
    using arg_cong [OF ms, of size] by simp
  have grow: "\<exists>es. trace w3 = trace w @ es"
  proof -
    have "emits (\<lambda>_. True) (destroy_sim_vm m cfg x ?prot)" for x
      unfolding destroy_sim_vm_def by (intro emits_intro appends_if_emits [OF g_destroy_vm.sim_only])
    then have it: "appends (iter (delete_one m cfg ?prot c N) (order ts) a)" for a
      unfolding delete_one_def Let_def progress_def
      by (auto intro!: emits_intro emits_modify)
    have pr: "appends (progress m c a s st p v x)" for a s st p v x
      by (auto simp: progress_def mark_recloning_def intro!: emits_intro emits_modify split: option.splits)
    from emitsD [OF pr p1] emitsD [OF emits_each [OF pr] p2] emitsD [OF it p3] show ?thesis
      by (metis append.assoc)
  qed
  then obtain es where es: "trace w3 = trace w @ es" by blast
  let ?fc = "length (ba_fail acc) + length ?bad"
  let ?st = "batch_status (ba_ok acc) ?fc"
  obtain msg where last: "delete_vms m cfg order raw c w =
      terminal c ''delete_vms'' ?st msg None (batch_report (ba_ok acc) (ba_fail acc) ?bad N) w3"
    unfolding delete_vms_def Let_def sp prod.case nN if_not_P [OF n] by (simp add: bnd_def p1 p2 p3)
  obtain L where run: "delete_vms m cfg order raw c w = (Inr (), w3\<lparr>ledger_of := L, trace := trace w3 @ [Sent ''CS_COMMAND_RESULT''
          ([(''cs_cmd_id'', PStr c), (''action'', PStr ''delete_vms''), (''status'', PStr ?st), (''message'', PStr msg)]
           @ batch_report (ba_ok acc) (ba_fail acc) ?bad N)]\<rparr>)"
    unfolding last terminal_quiet by blast
  have status: "?st = ''failed'' \<longleftrightarrow> ba_ok acc = []"
    using n len by (auto simp: batch_status_def N_def)
  show ?thesis
    unfolding Let_def
    by (rule exI, rule exI [of _ es], rule exI [of _ "ba_ok acc"], rule exI [of _ "ba_fail acc"], rule exI [of _ ?st],
        rule exI [of _ msg], rule conjI [OF run])
       (use dist st ts(2) status in \<open>simp add: es len N_def\<close>)
qed

theorem delete_vms_accounts_witness:
  "\<exists>w'. delete_vms still_host None rev [PInt 90001, PInt 1001] ''c1'' (fresh_world 0) = (Inr (), w')"
  using delete_vms_accounts [OF still_host_clock, of rev "[PInt 90001, PInt 1001]" None "''c1''" "fresh_world 0"]
  by auto

end
