(* ===== verification/ProvConfig.thy ===== *)
theory ProvConfig
  imports Marks
begin

text \<open>
  The readers of the hub-delivered \<open>usb_config\<close> in \<open>agent/src/usb_provision.py\<close>: the lists of
  certified, ignored and protected devices, the toggles and thresholds, the per-host VMID
  block, the passthrough tier of a VM, and the classification of a guest-health probe. The
  JSON decoder of the standard library is the parameter \<open>loads\<close>.
\<close>

section \<open>Device lists\<close>

definition cfg_get :: "(string, pyval) dict \<Rightarrow> string \<Rightarrow> pyval" where
  "cfg_get cfg k = (case dget cfg k of None \<Rightarrow> PNone | Some v \<Rightarrow> v)"

definition parse_vidpid_items :: "(string \<Rightarrow> pyval option) \<Rightarrow> pyval \<Rightarrow> pyval list" where
  "parse_vidpid_items loads raw =
     (case raw of
        PNone \<Rightarrow> []
      | PList xs \<Rightarrow> xs
      | _ \<Rightarrow> let s = strip (py_str raw) in
            if s = [] then []
            else if hd s = CHR ''['' then (case loads s of Some (PList xs) \<Rightarrow> xs | _ \<Rightarrow> [])
            else map PStr (filter (\<lambda>p. p \<noteq> []) (map strip (split_on (CHR '','') s))))"

definition is_hex :: "char \<Rightarrow> bool" where
  "is_hex c \<longleftrightarrow> is_digit c \<or> (97 \<le> (of_char c :: nat) \<and> (of_char c :: nat) \<le> 102)"

text \<open>\<open>_VIDPID_RE\<close> on a stripped string\<close>

definition is_vidpid :: "string \<Rightarrow> bool" where
  "is_vidpid s \<longleftrightarrow> length s = 9 \<and> s ! 4 = CHR '':'' \<and> list_all is_hex (take 4 s) \<and> list_all is_hex (drop 5 s)"

definition item_vidpid :: "pyval \<Rightarrow> string" where
  "item_vidpid v = lower (strip (py_str (or_empty (case v of PDict d \<Rightarrow> cfg_get d ''vidpid'' | _ \<Rightarrow> v))))"

definition vidpid_set :: "pyval list \<Rightarrow> string set" where
  "vidpid_set items = set (filter is_vidpid (map item_vidpid items))"

definition first_nonempty :: "'a list \<Rightarrow> 'a list \<Rightarrow> 'a list" where
  "first_nonempty xs ys = (if xs \<noteq> [] then xs else ys)"

definition dongle_vidpids :: "(string \<Rightarrow> pyval option) \<Rightarrow> (string, pyval) dict \<Rightarrow> string set result" where
  "dongle_vidpids loads cfg =
     (let items = (\<lambda>k. parse_vidpid_items loads (cfg_get cfg k));
          own = first_nonempty (items ''vidpids'') (first_nonempty (items ''usb_vidpids'') (items ''dongle_vidpids''));
          legacy = cfg_get cfg ''certified_types''
      in if own \<noteq> [] then Inr (vidpid_set own)
         else map_sum id vidpid_set (if truthy legacy then py_iter legacy else Inr []))"

fun certified_into :: "pyval list \<Rightarrow> (string, string) dict \<Rightarrow> (string, string) dict" where
  "certified_into [] out = out"
| "certified_into (v # vs) out =
     (case v of
        PDict d \<Rightarrow>
          let vp = lower (strip (py_str (or_empty (cfg_get d ''vidpid'')))); ty = cfg_get d ''type'' in
          certified_into vs (if is_vidpid vp
            then dset vp (py_str (if truthy ty then ty else PStr ''wireless'')) out else out)
      | _ \<Rightarrow> certified_into vs out)"

definition certified_types :: "(string \<Rightarrow> pyval option) \<Rightarrow> (string, pyval) dict \<Rightarrow> (string, string) dict" where
  "certified_types loads cfg =
     certified_into (first_nonempty (parse_vidpid_items loads (cfg_get cfg ''vidpids''))
                       (parse_vidpid_items loads (cfg_get cfg ''usb_vidpids''))) []"

definition ignored_vidpids :: "(string \<Rightarrow> pyval option) \<Rightarrow> (string, pyval) dict \<Rightarrow> string set" where
  "ignored_vidpids loads cfg =
     vidpid_set (first_nonempty (parse_vidpid_items loads (cfg_get cfg ''ignored_vidpids''))
                   (parse_vidpid_items loads (cfg_get cfg ''usb_ignored_vidpids'')))"

definition pci_vidpid_set :: "(string \<Rightarrow> pyval option) \<Rightarrow> pyval \<Rightarrow> string set" where
  "pci_vidpid_set loads raw = vidpid_set (parse_vidpid_items loads raw)"

definition t1_pci_vidpids :: "(string \<Rightarrow> pyval option) \<Rightarrow> (string, pyval) dict \<Rightarrow> string set" where
  "t1_pci_vidpids loads cfg = pci_vidpid_set loads (cfg_get cfg ''t1_pci_vidpids'')"

definition t2_pci_vidpids :: "(string \<Rightarrow> pyval option) \<Rightarrow> (string, pyval) dict \<Rightarrow> string set" where
  "t2_pci_vidpids loads cfg = pci_vidpid_set loads (cfg_get cfg ''t2_pci_vidpids'')"

definition t3_pci_vidpids :: "(string \<Rightarrow> pyval option) \<Rightarrow> (string, pyval) dict \<Rightarrow> string set" where
  "t3_pci_vidpids loads cfg = pci_vidpid_set loads (cfg_get cfg ''t3_pci_vidpids'')"

definition sim_pool :: "(string, pyval) dict \<Rightarrow> string option" where
  "sim_pool cfg =
     (let v = strip (py_str (or_empty (cfg_get cfg ''sim_pool''))) in if v = [] then None else Some v)"

text \<open>A host in the exclusion list, by name or prefix; the list may be one string.\<close>

definition host_excluded :: "string \<Rightarrow> pyval \<Rightarrow> bool" where
  "host_excluded hostname raw =
     (let hn = lower (strip hostname);
          items = (case raw of
                     PList xs \<Rightarrow> xs
                   | _ \<Rightarrow> map PStr (split_ws (map (\<lambda>c. if c = CHR '','' then CHR '' '' else c) (py_str (or_empty raw)))))
      in hn \<noteq> [] \<and> list_ex (\<lambda>h. let entry = lower (strip (py_str (or_empty h)))
                               in entry \<noteq> [] \<and> (hn = entry \<or> has_prefix entry hn)) items)"

definition host_t1_excluded :: "string \<Rightarrow> (string, pyval) dict \<Rightarrow> bool" where
  "host_t1_excluded hostname cfg = host_excluded hostname (cfg_get cfg ''t1_exclude_hosts'')"

definition host_t3_excluded :: "string \<Rightarrow> (string, pyval) dict \<Rightarrow> bool" where
  "host_t3_excluded hostname cfg = host_excluded hostname (cfg_get cfg ''t3_exclude_hosts'')"

section \<open>Tiers\<close>

datatype tier = T1 | T2 | T3

text \<open>A VM as the telemetry lists it: its VMID and whether it is a template.\<close>

type_synonym vm_row = "int \<times> bool"

definition usb_vmids :: "usb_state \<Rightarrow> string list" where
  "usb_vmids st = filter looks_numeric (dvals (bus_to_vmid st))"

definition usb_tiers_only :: "disk \<Rightarrow> vm_row list \<Rightarrow> (string, tier) dict" where
  "usb_tiers_only d vms =
     fold (\<lambda>(vid, tpl) out. if \<not> tpl \<and> str_int vid \<in> set (usb_vmids (load_usb_state d))
                            then dset (str_int vid) T2 out else out) vms []"

text \<open>The local \<open>_classify\<close> of \<open>compute_vm_tiers\<close>; \<open>pci\<close> gives the devices passed to a VM.\<close>

definition classify_tier :: "string set \<Rightarrow> string set \<Rightarrow> string set \<Rightarrow> bool \<Rightarrow> bool \<Rightarrow> tier option" where
  "classify_tier t1_set t3_set pci is_tpl has_usb =
     (let look = (t1_set \<noteq> {} \<or> t3_set \<noteq> {}) \<and> \<not> is_tpl in
      if look \<and> pci \<inter> t3_set \<noteq> {} then Some T3
      else if look \<and> pci \<inter> t1_set \<noteq> {} then Some T1
      else if has_usb then Some T2 else None)"

section \<open>Toggles and thresholds\<close>

definition normalize_toggle :: "pyval \<Rightarrow> bool" where
  "normalize_toggle v \<longleftrightarrow>
     lower (strip (py_str (or_empty v))) \<in> {''on'', ''1'', ''true'', ''yes'', ''enabled''}"

definition toggle_on :: "(string, pyval) dict \<Rightarrow> bool" where
  "toggle_on cfg =
     (let given = (\<lambda>k. strip (py_str (or_empty (cfg_get cfg k))) \<noteq> []) in
      if given ''usb_auto_provision'' then normalize_toggle (cfg_get cfg ''usb_auto_provision'')
      else if given ''auto_provision'' then normalize_toggle (cfg_get cfg ''auto_provision'')
      else False)"

fun cfg_first :: "(string, pyval) dict \<Rightarrow> string list \<Rightarrow> pyval \<Rightarrow> pyval" where
  "cfg_first cfg [] d = d"
| "cfg_first cfg (k # ks) d =
     (let v = cfg_get cfg k in if v \<noteq> PNone \<and> strip (py_str v) \<noteq> [] then v else cfg_first cfg ks d)"

definition pct_setting :: "(string, pyval) dict \<Rightarrow> string \<Rightarrow> int \<Rightarrow> int" where
  "pct_setting cfg key d =
     (let v = cfg_get cfg key in
      if v = PNone \<or> strip (py_str v) = [] then d
      else (case parse_int (strip (py_str v)) of None \<Rightarrow> d | Some i \<Rightarrow> max 0 (min 100 i)))"

section \<open>The VMID block of a host\<close>

definition VMID_BLOCK_STRIDE :: int where "VMID_BLOCK_STRIDE = 24"
definition VMID_DEFAULT_START :: int where "VMID_DEFAULT_START = 90000"
definition VMID_DEFAULT_END :: int where "VMID_DEFAULT_END = 99999"

definition trailing_number :: "string \<Rightarrow> int" where
  "trailing_number s =
     (let ds = rev (takeWhile is_digit (rev s)) in
      if ds = [] then 1 else (case parse_int ds of None \<Rightarrow> 1 | Some n \<Rightarrow> n))"

definition host_suffix_id :: "string \<Rightarrow> pyval \<Rightarrow> int" where
  "host_suffix_id hostname override =
     (let derived = max 1 (trailing_number (strip hostname)) in
      if truthy override
      then (case py_int override of Inr i \<Rightarrow> if 1 \<le> i \<and> i \<le> 99 then i else derived | Inl e \<Rightarrow> derived)
      else derived)"

definition unset :: "pyval \<Rightarrow> bool" where
  "unset v \<longleftrightarrow> v = PNone \<or> v = PStr []"

definition is_default :: "pyval \<Rightarrow> int \<Rightarrow> bool result" where
  "is_default v d = (if unset v then Inr True else map_sum id (\<lambda>i. i = d) (py_int v))"

definition host_vmid_range ::
    "string \<Rightarrow> int \<Rightarrow> pyval \<Rightarrow> pyval \<Rightarrow> pyval \<Rightarrow> (int \<times> int \<times> int \<times> bool) result" where
  "host_vmid_range hostname max_slots cfg_start cfg_end override =
     rbind (is_default cfg_start VMID_DEFAULT_START) (\<lambda>ds.
     rbind (is_default cfg_end VMID_DEFAULT_END) (\<lambda>de.
     let bid = host_suffix_id hostname override in
     if \<not> (ds \<and> de) then
       rbind (if unset cfg_start then Inr VMID_DEFAULT_START else py_int cfg_start) (\<lambda>s.
       rbind (if unset cfg_end then Inr VMID_DEFAULT_END else py_int cfg_end) (\<lambda>e.
       Inr (s, e, bid, False)))
     else
       let s = VMID_DEFAULT_START + (bid - 1) * VMID_BLOCK_STRIDE + 1
       in Inr (s, s + max 1 max_slots - 1, bid, True)))"

section \<open>Guest health and recent actions\<close>

record probe =
  pr_netdev :: bool
  pr_associated :: bool
  pr_sees_aps :: "bool option"
  pr_radio_dead :: bool
  pr_gateway :: bool

datatype health = Unknown | NoDriver | RadioDead | NoScan | NoAssoc | NoGateway | Healthy

definition classify_guest_health :: "probe option \<Rightarrow> health" where
  "classify_guest_health p =
     (case p of
        None \<Rightarrow> Unknown
      | Some r \<Rightarrow>
          if \<not> pr_netdev r then NoDriver
          else if \<not> pr_associated r then
            (if pr_sees_aps r = Some False then (if pr_radio_dead r then RadioDead else NoScan) else NoAssoc)
          else if \<not> pr_gateway r then NoGateway
          else Healthy)"

definition HEALTH_ATTEMPT_COOLDOWN_S :: rat where "HEALTH_ATTEMPT_COOLDOWN_S = 180"

definition recently_actioned_vmids :: "rat \<Rightarrow> disk \<Rightarrow> int set" where
  "recently_actioned_vmids now d =
     (case dongle_health (load_usb_state d) of
        None \<Rightarrow> {}
      | Some h \<Rightarrow> set (List.map_filter (\<lambda>r. if 0 \<le> now - last_attempt r \<and> now - last_attempt r < HEALTH_ATTEMPT_COOLDOWN_S
                                         then dh_vmid r else None) (dvals h)))"

section \<open>The gap-audit stamp\<close>

text \<open>JSON that is not an object has no \<open>get\<close>, an exception the reader does not catch.\<close>

definition load_vmid_gap_last_run :: "disk \<Rightarrow> rat result" where
  "load_vmid_gap_last_run d =
     (case vmid_audit_file d of Stored t \<Rightarrow> Inr t | OtherShape b \<Rightarrow> Inl AttributeError | _ \<Rightarrow> Inr 0)"

definition save_vmid_gap_last_run :: "rat \<Rightarrow> disk \<Rightarrow> disk" where
  "save_vmid_gap_last_run ts d = write_plain put_audit ts d"

section \<open>Properties\<close>

lemma is_vidpid_vidpid_set: "v \<in> vidpid_set items \<Longrightarrow> is_vidpid v"
  by (auto simp: vidpid_set_def)

text \<open>
  The toggle of the hub decides. Whenever the authoritative key holds a non-blank value,
  auto-provisioning is on exactly if that value is a truth word, whatever a stale mirror key
  says; the mirror is read only if the authoritative key is blank or absent, and with neither
  it is off.
\<close>

theorem toggle_precedence:
  "(strip (py_str (or_empty (cfg_get cfg ''usb_auto_provision''))) \<noteq> [] \<longrightarrow>
      toggle_on cfg = normalize_toggle (cfg_get cfg ''usb_auto_provision'')
      \<and> (\<forall>v. toggle_on (dset ''auto_provision'' v cfg) = toggle_on cfg))
   \<and> (toggle_on cfg \<longrightarrow> normalize_toggle (cfg_get cfg ''usb_auto_provision'')
        \<or> strip (py_str (or_empty (cfg_get cfg ''usb_auto_provision''))) = []
          \<and> normalize_toggle (cfg_get cfg ''auto_provision''))"
  by (auto simp: toggle_on_def Let_def cfg_get_def)

theorem toggle_precedence_witness:
  "toggle_on [(''usb_auto_provision'', PStr ''off''), (''auto_provision'', PStr ''on'')] = False"
proof -
  let ?cfg = "[(''usb_auto_provision'', PStr ''off''), (''auto_provision'', PStr ''on'')]"
  have s: "strip ''off'' = ''off''"
    by (simp add: strip_def lstrip_def rstrip_def is_space_def)
  have "strip (py_str (or_empty (cfg_get ?cfg ''usb_auto_provision''))) \<noteq> []"
    by (simp add: cfg_get_def or_empty_def s)
  with toggle_precedence [of ?cfg] have "toggle_on ?cfg = normalize_toggle (cfg_get ?cfg ''usb_auto_provision'')" by blast
  then show ?thesis
    by (simp add: cfg_get_def normalize_toggle_def or_empty_def s lower_def lower_char_def)
qed

text \<open>
  Derived VMID blocks. A host without an explicit range gets a block of simulation VMIDs,
  all above the floor; the blocks of two hosts with different numbers are disjoint as long as
  a host has at most 24 slots, and with 25 the blocks of neighbouring hosts share a VMID.
\<close>

theorem vmid_blocks_disjoint:
  assumes "host_vmid_range h1 n1 PNone PNone PNone = Inr (s1, e1, b1, d1)"
    and "host_vmid_range h2 n2 PNone PNone PNone = Inr (s2, e2, b2, d2)"
  shows "90001 \<le> s1 \<and> s1 \<le> e1 \<and> d1 \<and> e1 - s1 + 1 = max 1 n1
    \<and> (b1 \<noteq> b2 \<longrightarrow> n1 \<le> 24 \<longrightarrow> n2 \<le> 24 \<longrightarrow> {s1..e1} \<inter> {s2..e2} = {})
    \<and> (b2 = b1 + 1 \<longrightarrow> n1 = 25 \<longrightarrow> {s1..e1} \<inter> {s2..e2} = {s2})"
proof -
  have b: "1 \<le> b1" "1 \<le> b2"
    using assms by (auto simp: host_vmid_range_def is_default_def unset_def host_suffix_id_def Let_def)
  have r: "s1 = 90000 + (b1 - 1) * 24 + 1" "e1 = s1 + max 1 n1 - 1" "d1"
    "s2 = 90000 + (b2 - 1) * 24 + 1" "e2 = s2 + max 1 n2 - 1"
    using assms by (auto simp: host_vmid_range_def is_default_def unset_def Let_def
        VMID_BLOCK_STRIDE_def VMID_DEFAULT_START_def)
  have "{s1..e1} \<inter> {s2..e2} = {}" if "b1 \<noteq> b2" "n1 \<le> 24" "n2 \<le> 24"
  proof -
    from that(1) have "b1 + 1 \<le> b2 \<or> b2 + 1 \<le> b1" by auto
    then show ?thesis using that(2,3) r by auto
  qed
  moreover have "{s1..e1} \<inter> {s2..e2} = {s2}" if "b2 = b1 + 1" "n1 = 25"
    using that r by auto
  ultimately show ?thesis using b r by auto
qed

text \<open>
  A VM with a protecting PCI device is never taken for a dongle VM: a T3 device makes it
  T3 and a T1 device at least T1, whatever dongles it holds; it counts as T2 exactly if it
  holds a dongle and no device of the two lists (a template is never looked at for PCI). Every
  entry of the lists is a well-formed id, however the configuration spelled it.
\<close>

theorem protecting_pci_wins:
  "(\<not> tpl \<and> pci \<inter> t3_pci_vidpids loads cfg \<noteq> {} \<longrightarrow>
      classify_tier (t1_pci_vidpids loads cfg) (t3_pci_vidpids loads cfg) pci tpl usb = Some T3)
   \<and> (\<not> tpl \<and> pci \<inter> t1_pci_vidpids loads cfg \<noteq> {} \<longrightarrow>
      classify_tier (t1_pci_vidpids loads cfg) (t3_pci_vidpids loads cfg) pci tpl usb \<in> {Some T1, Some T3})
   \<and> (classify_tier (t1_pci_vidpids loads cfg) (t3_pci_vidpids loads cfg) pci tpl usb = Some T2 \<longleftrightarrow>
        usb \<and> (tpl \<or> pci \<inter> (t1_pci_vidpids loads cfg \<union> t3_pci_vidpids loads cfg) = {}))
   \<and> (\<forall>v \<in> t1_pci_vidpids loads cfg \<union> t3_pci_vidpids loads cfg. is_vidpid v)"
  by (auto simp: classify_tier_def Let_def t1_pci_vidpids_def t3_pci_vidpids_def pci_vidpid_set_def
      dest: is_vidpid_vidpid_set)

theorem protecting_pci_wins_witness:
  "classify_tier (t1_pci_vidpids (\<lambda>_. None) [(''t1_pci_vidpids'', PList [PStr ''8086:2725''])])
     (t3_pci_vidpids (\<lambda>_. None) [(''t1_pci_vidpids'', PList [PStr ''8086:2725''])]) {''8086:2725''} False True \<noteq> Some T2"
proof -
  let ?cfg = "[(''t1_pci_vidpids'', PList [PStr ''8086:2725''])]"
  have "''8086:2725'' \<in> t1_pci_vidpids (\<lambda>_. None) ?cfg"
    by (simp add: t1_pci_vidpids_def pci_vidpid_set_def parse_vidpid_items_def cfg_get_def vidpid_set_def
        item_vidpid_def or_empty_def strip_def lstrip_def rstrip_def is_space_def lower_def lower_char_def
        is_vidpid_def is_hex_def is_digit_def)
  then show ?thesis
    using protecting_pci_wins [of False "{''8086:2725''}" "\<lambda>_. None" ?cfg True] by auto
qed

theorem vmid_blocks_disjoint_witness:
  "\<exists>s1 e1 b1 d1 s2 e2 b2 d2. host_vmid_range ''svr-1'' 24 PNone PNone PNone = Inr (s1, e1, b1, d1)
     \<and> host_vmid_range ''svr-2'' 24 PNone PNone PNone = Inr (s2, e2, b2, d2) \<and> s1 \<le> e1"
proof -
  obtain s1 e1 b1 d1 where a: "host_vmid_range ''svr-1'' 24 PNone PNone PNone = Inr (s1, e1, b1, d1)"
    by (simp add: host_vmid_range_def is_default_def unset_def Let_def)
  obtain s2 e2 b2 d2 where b: "host_vmid_range ''svr-2'' 24 PNone PNone PNone = Inr (s2, e2, b2, d2)"
    by (simp add: host_vmid_range_def is_default_def unset_def Let_def)
  from vmid_blocks_disjoint [OF a b] a b show ?thesis by blast
qed

end
