(* ===== verification/Pci.thy ===== *)
theory Pci
  imports ProvConfig
begin

text \<open>
  Which PCI devices a VM holds: the \<open>lspci\<close> scan with its process-lifetime cache and the
  \<open>hostpci\<close> lines of a VM's live configuration (\<open>agent/src/pve_cmds.py\<close>). This is what
  protects T1 and T3 VMs from the delete gate.
\<close>

section \<open>lspci\<close>

definition word_at :: "char \<Rightarrow> bool" where
  "word_at c \<longleftrightarrow> word_char c"

text \<open>The pattern \<open>\b([0-9a-f]{4}:[0-9a-f]{4})\b\<close>; \<open>prev\<close> tells whether a word character precedes.\<close>

fun find_vidpid :: "bool \<Rightarrow> string \<Rightarrow> string option" where
  "find_vidpid prev [] = None"
| "find_vidpid prev (c # cs) =
     (let s = c # cs; v = take 9 s in
      if \<not> prev \<and> is_vidpid v \<and> (drop 9 s = [] \<or> \<not> word_at (hd (drop 9 s))) then Some v
      else find_vidpid (word_at c) cs)"

text \<open>The address and the device id of a line of \<open>lspci -Dn\<close>, lowercased.\<close>

definition lspci_line :: "string \<Rightarrow> (string \<times> string) list" where
  "lspci_line line =
     (case split_ws line of
        [] \<Rightarrow> []
      | addr # _ \<Rightarrow>
          (case find_vidpid False (drop (length addr) line) of None \<Rightarrow> [] | Some v \<Rightarrow> [(addr, v)]))"

definition lspci_rows :: "string \<Rightarrow> (string \<times> string) list" where
  "lspci_rows out = concat (map lspci_line (splitlines (lower out)))"

definition list_host_pci_by_vidpid :: "'h machine \<Rightarrow> pyval list \<Rightarrow> ('h, (string, string) dict) op" where
  "list_host_pci_by_vidpid m vidpids =
     (let want = map (\<lambda>v. lower (strip (py_str v))) (filter truthy vidpids) in
      if want = [] then ret []
      else bnd (sh m [''lspci'', ''-Dn''] 15 False) (\<lambda>(rc, out, err).
           ret (if rc \<noteq> 0 then []
                else fold (\<lambda>(a, v) d. if v \<in> set want then dset a v d else d) (lspci_rows out) [])))"

definition addr_key :: "string \<Rightarrow> string" where
  "addr_key addr =
     (let a = lower (strip addr); parts = split_on (CHR '':'') a
      in if length parts = 3 then join_sep '':'' (tl parts) else a)"

definition build_lspci_map :: "'h machine \<Rightarrow> ('h, unit) op" where
  "build_lspci_map m =
     bnd (sh m [''lspci'', ''-Dn''] 15 False) (\<lambda>(rc, out, err).
     if rc \<noteq> 0 then ret ()
     else modify (\<lambda>w. w\<lparr>lspci_cache := fold (\<lambda>(a, v). dset (addr_key a) v) (lspci_rows out) (lspci_cache w)\<rparr>))"

definition lspci_vidpid :: "'h machine \<Rightarrow> string \<Rightarrow> ('h, string option) op" where
  "lspci_vidpid m addr =
     bnd (peek (\<lambda>w. dget (lspci_cache w) (addr_key addr))) (\<lambda>hit.
     case hit of
       Some v \<Rightarrow> ret (Some v)
     | None \<Rightarrow> bnd (build_lspci_map m) (\<lambda>_. peek (\<lambda>w. dget (lspci_cache w) (addr_key addr))))"

section \<open>The live configuration\<close>

text \<open>A line \<open>[name]\<close>, possibly followed by blanks, starts the snapshots.\<close>

definition header_line :: "string \<Rightarrow> bool" where
  "header_line s \<longleftrightarrow>
     (case s of
        [] \<Rightarrow> False
      | c # cs \<Rightarrow>
          (let name = takeWhile (\<lambda>x. x \<noteq> CHR '']'') cs; rest = dropWhile (\<lambda>x. x \<noteq> CHR '']'') cs
           in c = CHR ''['' \<and> name \<noteq> [] \<and> rest \<noteq> [] \<and> list_all is_space (tl rest)))"

definition newline :: string where "newline = [char_of (10::nat)]"

definition live_config_text :: "string \<Rightarrow> string" where
  "live_config_text text = join_sep newline (takeWhile (\<lambda>l. \<not> header_line l) (splitlines text))"

definition config_path :: "int \<Rightarrow> guest \<Rightarrow> string" where
  "config_path vid k =
     (case k of Lxc \<Rightarrow> ''/etc/pve/lxc/'' | Qemu \<Rightarrow> ''/etc/pve/qemu-server/'') @ str_int vid @ ''.conf''"

definition vm_config_text :: "'h machine \<Rightarrow> int \<Rightarrow> guest \<Rightarrow> ('h, string option) op" where
  "vm_config_text m vid k =
     bnd (read_text m (config_path vid k)) (\<lambda>f.
     case f of
       Some text \<Rightarrow> ret (Some (live_config_text text))
     | None \<Rightarrow> bnd (sh m [tool k, ''config'', str_int vid] 15 False) (\<lambda>(rc, out, err).
               ret (if rc = 0 then Some out else None)))"

text \<open>
  \<open>^hostpci\d+:\s*([^\s,]+)\<close> at the start of a line, in either case: the captured token and the
  text after it. The blanks after the colon may run over line ends.
\<close>

definition hostpci_at :: "string \<Rightarrow> (string \<times> string) option" where
  "hostpci_at s =
     (if lower (take 7 s) = ''hostpci'' then
        (let r = drop 7 s; r1 = dropWhile is_digit r;
             r2 = dropWhile is_space (tl r1);
             tok = takeWhile (\<lambda>c. \<not> is_space c \<and> c \<noteq> CHR '','') r2
         in if takeWhile is_digit r \<noteq> [] \<and> r1 \<noteq> [] \<and> hd r1 = CHR '':'' \<and> tok \<noteq> []
            then Some (tok, dropWhile (\<lambda>c. \<not> is_space c \<and> c \<noteq> CHR '','') r2) else None)
      else None)"

lemma hostpci_at_shorter: "hostpci_at s = Some (tok, rest) \<Longrightarrow> length rest < length s"
proof -
  assume h: "hostpci_at s = Some (tok, rest)"
  let ?r1 = "dropWhile is_digit (drop 7 s)" and ?r2 = "dropWhile is_space (tl (dropWhile is_digit (drop 7 s)))"
  from h have ne: "?r1 \<noteq> []" and rest: "rest = dropWhile (\<lambda>c. \<not> is_space c \<and> c \<noteq> CHR '','') ?r2"
    by (auto simp: hostpci_at_def Let_def split: if_splits)
  have "length rest \<le> length ?r2" unfolding rest by (rule length_dropWhile_le)
  also have "\<dots> \<le> length (tl ?r1)" by (rule length_dropWhile_le)
  also have "\<dots> < length ?r1" using ne by simp
  also have "\<dots> \<le> length (drop 7 s)" by (rule length_dropWhile_le)
  also have "\<dots> \<le> length s" by simp
  finally show ?thesis .
qed

function find_hostpci :: "bool \<Rightarrow> string \<Rightarrow> string list" where
  "find_hostpci bol [] = []"
| "find_hostpci bol (c # cs) =
     (case (if bol then hostpci_at (c # cs) else None) of
        Some (tok, rest) \<Rightarrow> tok # find_hostpci False rest
      | None \<Rightarrow> find_hostpci (of_char c = (10::nat)) cs)"
  by pat_completeness auto

termination
  by (relation "measure (\<lambda>(b, s). length s)") (auto dest: hostpci_at_shorter split: if_splits)

definition hostpci_addrs :: "string \<Rightarrow> string list" where
  "hostpci_addrs text = filter (\<lambda>t. t \<noteq> [] \<and> CHR ''='' \<notin> set t) (map strip (find_hostpci True text))"

text \<open>The addresses form a set in the source; here they are resolved in text order.\<close>

definition resolve_addr :: "'h machine \<Rightarrow> string \<Rightarrow> string list \<Rightarrow> ('h, string list) op" where
  "resolve_addr m addr acc =
     bnd (lspci_vidpid m addr) (\<lambda>v. ret (if str_set v then acc @ [the v] else acc))"

definition pci_passthrough_vidpids :: "'h machine \<Rightarrow> int \<Rightarrow> string option \<Rightarrow> ('h, string set) op" where
  "pci_passthrough_vidpids m vid kind =
     bnd (guest_kind m kind vid) (\<lambda>k.
     if k = Lxc then ret {}
     else bnd (vm_config_text m vid k) (\<lambda>text.
          if \<not> str_set text then ret {}
          else bnd (iter (resolve_addr m) (remdups (hostpci_addrs (the text))) []) (\<lambda>vs. ret (set vs))))"

end
