(* ===== verification/Gate.thy ===== *)
theory Gate
  imports Destroy Pci
begin

text \<open>
  \<open>agent/src/usb_resource_gate.py\<close>: the rolling one-hour samples of the host's CPU and memory
  load with their cache file, and the delete gate that sheds the newest dongle VM while the
  host is over its threshold.
\<close>

definition RESOURCE_SAMPLE_WINDOW :: rat where "RESOURCE_SAMPLE_WINDOW = 3600"
definition DELETE_GATE_COOLDOWN_S :: rat where "DELETE_GATE_COOLDOWN_S = 300"
definition RESOURCE_CACHE_SAVE_INTERVAL :: rat where "RESOURCE_CACHE_SAVE_INTERVAL = 60"

section \<open>Samples\<close>

definition in_window :: "rat \<Rightarrow> (rat \<times> rat) list \<Rightarrow> (rat \<times> rat) list" where
  "in_window now xs = filter (\<lambda>(ts, v). now - RESOURCE_SAMPLE_WINDOW \<le> ts) xs"

text \<open>
  Loading the cache. A document that is not an object has no \<open>get\<close>, an exception the loader
  does not catch; a missing or garbled file leaves the samples alone.
\<close>

definition load_resource_cache :: "'h machine \<Rightarrow> ('h, unit) op" where
  "load_resource_cache m =
     bnd (now_s m) (\<lambda>now.
     bnd (peek (\<lambda>w. resource_cache_file (store w))) (\<lambda>f.
     case f of
       Stored c \<Rightarrow> modify (\<lambda>w. w\<lparr>cpu_hist := in_window now (rc_cpu c), mem_hist := in_window now (rc_mem c),
                                 sampling_started := (if 0 < rc_started c then rc_started c else 0)\<rparr>)
     | OtherShape b \<Rightarrow> throw AttributeError
     | _ \<Rightarrow> ret ()))"

definition save_resource_cache :: "'h machine \<Rightarrow> bool \<Rightarrow> ('h, unit) op" where
  "save_resource_cache m force =
     bnd (now_s m) (\<lambda>now.
     bnd (peek cache_saved) (\<lambda>last.
     if \<not> force \<and> now - last < RESOURCE_CACHE_SAVE_INTERVAL then ret ()
     else modify (\<lambda>w. w\<lparr>cache_saved := now,
            store := write_atomic put_cache \<lparr>rc_cpu = cpu_hist w, rc_mem = mem_hist w,
                       rc_started = sampling_started w\<rparr> (store w)\<rparr>)))"

text \<open>\<open>stats\<close> asks the agent for the CPU and memory percentages of its nodes.\<close>

definition sample_resources :: "'h machine \<Rightarrow> ('h, (rat \<times> rat) list) op \<Rightarrow> ('h, unit) op" where
  "sample_resources m stats =
     bnd (peek cache_loaded) (\<lambda>loaded.
     bnd (if loaded then ret ()
          else bnd (modify (\<lambda>w. w\<lparr>cache_loaded := True\<rparr>)) (\<lambda>_. load_resource_cache m)) (\<lambda>_.
     except_any
       (bnd stats (\<lambda>nodes.
        case nodes of
          [] \<Rightarrow> ret ()
        | (cpu, mem) # _ \<Rightarrow>
            bnd (now_s m) (\<lambda>now.
            bnd (modify (\<lambda>w. w\<lparr>sampling_started := (if sampling_started w = 0 then now else sampling_started w),
                              cpu_hist := in_window now (cpu_hist w @ [(now, cpu)]),
                              mem_hist := in_window now (mem_hist w @ [(now, mem)])\<rparr>)) (\<lambda>_.
            save_resource_cache m False))))
       (\<lambda>e. ret ())))"

definition resource_1h_average :: "rat \<Rightarrow> (rat \<times> rat) list \<Rightarrow> rat option" where
  "resource_1h_average now samples =
     (let recent = map snd (in_window now samples)
      in if recent = [] then None else Some (sum_list recent / of_nat (length recent)))"

section \<open>The cooldown file\<close>

definition load_delete_gate_cooldown :: "disk \<Rightarrow> rat result" where
  "load_delete_gate_cooldown d =
     (case delete_gate_file d of Stored t \<Rightarrow> Inr t | OtherShape b \<Rightarrow> Inl AttributeError | _ \<Rightarrow> Inr 0)"

definition save_delete_gate_cooldown :: "rat \<Rightarrow> disk \<Rightarrow> disk" where
  "save_delete_gate_cooldown until d = write_plain put_gate until d"

section \<open>The delete gate\<close>

definition over_threshold :: "rat option \<Rightarrow> int \<Rightarrow> bool" where
  "over_threshold avg thr = (case avg of None \<Rightarrow> False | Some a \<Rightarrow> of_int thr \<le> a)"

text \<open>The numeric VMIDs of tracked VMs that are not being provisioned.\<close>

fun candidate_ids :: "int set \<Rightarrow> string list \<Rightarrow> int list result" where
  "candidate_ids busy [] = Inr []"
| "candidate_ids busy (v # vs) =
     (if looks_numeric v then
        (case parse_int v of
           None \<Rightarrow> Inl ValueError
         | Some i \<Rightarrow> rbind (candidate_ids busy vs) (\<lambda>is. Inr (if i \<in> busy then is else i # is)))
      else candidate_ids busy vs)"

text \<open>The newest candidate that is neither a template nor protected by a PCI device.\<close>

definition skip_candidate :: "'h machine \<Rightarrow> string set \<Rightarrow> int \<Rightarrow> ('h, bool) op" where
  "skip_candidate m protected_pci c =
     bnd (is_template m c None) (\<lambda>tpl.
     if tpl then ret True
     else if protected_pci = {} then ret False
     else bnd (pci_passthrough_vidpids m c None) (\<lambda>pci. ret (pci \<inter> protected_pci \<noteq> {})))"

fun pick_candidate :: "'h machine \<Rightarrow> string set \<Rightarrow> int list \<Rightarrow> ('h, int option) op" where
  "pick_candidate m protected_pci [] = ret None"
| "pick_candidate m protected_pci (c # cs) =
     bnd (skip_candidate m protected_pci c) (\<lambda>skip.
     if skip then pick_candidate m protected_pci cs else ret (Some c))"

text \<open>How the attempt on the chosen VM ended.\<close>

datatype shed = Shed | AlreadyGone | NotDestroyed string

definition unmark_deleting :: "int \<Rightarrow> ('h, unit) op" where
  "unmark_deleting vid = modify (\<lambda>w. w\<lparr>deleting := dpop vid (deleting w)\<rparr>)"

definition shed_vm ::
    "'h machine \<Rightarrow> (string, pyval) dict option \<Rightarrow> rat \<Rightarrow> int \<Rightarrow> string option \<Rightarrow> ('h, shed) op" where
  "shed_vm m cfg now vid bus =
     bnd (modify (\<lambda>w. w\<lparr>deleting := dset vid now (deleting w)\<rparr>)) (\<lambda>_.
     bnd (except_any (bnd (destroy_vm m cfg bus None False (PInt vid)) (\<lambda>s. ret (Some s))) (\<lambda>e. ret None)) (\<lambda>r.
     case r of
       None \<Rightarrow> bnd (unmark_deleting vid) (\<lambda>_. ret (NotDestroyed []))
     | Some s \<Rightarrow>
         if ds_ok s \<and> ds_already_gone s then bnd (unmark_deleting vid) (\<lambda>_. ret AlreadyGone)
         else if ds_ok s then
           bnd (on_disk (save_delete_gate_cooldown (now + DELETE_GATE_COOLDOWN_S))) (\<lambda>_. ret Shed)
         else bnd (unmark_deleting vid) (\<lambda>_. ret (NotDestroyed (ds_reason s)))))"

text \<open>
  The branch over threshold and out of cooldown: prune the ghosts, choose, shed. The result is
  the number of candidates and, if one was chosen, the VM and the outcome. The bus is looked up
  in the map from buses to VMs under the VM's number, as the source does.
\<close>

definition shed_newest ::
    "'h machine \<Rightarrow> (string, pyval) dict option \<Rightarrow> string set \<Rightarrow> rat \<Rightarrow> ('h, nat \<times> (int \<times> shed) option) op" where
  "shed_newest m cfg protected_pci now =
     bnd provisioning_vmids (\<lambda>busy.
     bnd (list_all_vmids m) (\<lambda>vids.
     bnd (with_disk (prune_ghost_vms (set vids))) (\<lambda>ghosts.
     bnd (peek (\<lambda>w. bus_to_vmid (load_usb_state (store w)))) (\<lambda>b2v.
     bnd (lift (candidate_ids busy (dvals b2v))) (\<lambda>ids.
     let candidates = sorted_list_of_set (set ids) in
     bnd (pick_candidate m protected_pci (rev candidates)) (\<lambda>choice.
     case choice of
       None \<Rightarrow> ret (length candidates, None)
     | Some vid \<Rightarrow>
         bnd (shed_vm m cfg now vid (dget b2v (str_int vid))) (\<lambda>out.
         ret (length candidates, Some (vid, out)))))))))"

datatype gate_reason =
    ShedVm int | ClearedStale int | DestroyFailed int string | Holding | Cooling rat
  | NoCandidates nat | AllProtected

record gate_trace =
  gt_exceeded :: bool
  gt_tracked :: nat
  gt_candidates :: "nat option"
  gt_reason :: gate_reason

text \<open>Either one-hour average is at or above its threshold (no samples never count).\<close>

definition gate_open :: "(string, pyval) dict \<Rightarrow> rat \<Rightarrow> 'h world \<Rightarrow> bool" where
  "gate_open usb_cfg now w =
     (over_threshold (resource_1h_average now (cpu_hist w)) (pct_setting usb_cfg ''cpu_delete_threshold'' 90)
      \<or> over_threshold (resource_1h_average now (mem_hist w)) (pct_setting usb_cfg ''mem_delete_threshold'' 90))"

type_synonym attempt = "(nat \<times> (int \<times> shed) option) option"

definition gate_attempt ::
    "'h machine \<Rightarrow> (string \<Rightarrow> pyval option) \<Rightarrow> (string, pyval) dict option \<Rightarrow> (string, pyval) dict
     \<Rightarrow> rat \<Rightarrow> bool \<Rightarrow> rat \<Rightarrow> ('h, attempt) op" where
  "gate_attempt m loads cfg usb_cfg now exceeded cooldown =
     (if exceeded \<and> cooldown \<le> now
      then bnd (shed_newest m cfg (t1_pci_vidpids loads usb_cfg \<union> t3_pci_vidpids loads usb_cfg) now)
             (\<lambda>r. ret (Some r))
      else ret None)"

definition gate_target :: "attempt \<Rightarrow> int option" where
  "gate_target attempt = (case attempt of Some (n, Some (vid, Shed)) \<Rightarrow> Some vid | _ \<Rightarrow> None)"

definition gate_report :: "bool \<Rightarrow> rat \<Rightarrow> rat \<Rightarrow> nat \<Rightarrow> attempt \<Rightarrow> gate_trace" where
  "gate_report exceeded cooldown now tracked attempt =
     \<lparr>gt_exceeded = exceeded, gt_tracked = tracked, gt_candidates = map_option fst attempt,
      gt_reason = (case attempt of
          Some (n, Some (vid, Shed)) \<Rightarrow> ShedVm vid
        | Some (n, Some (vid, AlreadyGone)) \<Rightarrow> ClearedStale vid
        | Some (n, Some (vid, NotDestroyed why)) \<Rightarrow> DestroyFailed vid why
        | Some (n, None) \<Rightarrow> if n = 0 then NoCandidates tracked else AllProtected
        | None \<Rightarrow> if \<not> exceeded then Holding else Cooling (cooldown - now))\<rparr>"

text \<open>
  \<open>_run_delete_gate\<close>: the VM shed, and the decision trace it publishes. \<open>cfg\<close> is the
  \<open>client_simulation\<close> section, \<open>usb_cfg\<close> its \<open>usb_config\<close>.
\<close>

definition run_delete_gate ::
    "'h machine \<Rightarrow> (string \<Rightarrow> pyval option) \<Rightarrow> (string, pyval) dict option \<Rightarrow> (string, pyval) dict
     \<Rightarrow> ('h, int option \<times> gate_trace) op" where
  "run_delete_gate m loads cfg usb_cfg =
     bnd (now_s m) (\<lambda>now.
     bnd (peek (gate_open usb_cfg now)) (\<lambda>exceeded.
     bnd (peek (\<lambda>w. load_delete_gate_cooldown (store w))) (\<lambda>c.
     bnd (lift c) (\<lambda>cooldown.
     bnd (gate_attempt m loads cfg usb_cfg now exceeded cooldown) (\<lambda>attempt.
     bnd (peek (\<lambda>w. length (bus_to_vmid (load_usb_state (store w))))) (\<lambda>tracked.
     ret (gate_target attempt, gate_report exceeded cooldown now tracked attempt)))))))"

section \<open>The gate holds\<close>

text \<open>
  The delete gate only acts when it must. While neither one-hour average is at its
  threshold, or the cooldown of the last shed runs, a pass runs no command, sends no event,
  writes no file and reports no VM.
\<close>

theorem gate_holds:
  assumes "load_delete_gate_cooldown (store w) = Inr until"
    and "\<not> gate_open usb_cfg (m_clock m (host w)) w \<or> m_clock m (host w) < until"
  shows "\<exists>tr. run_delete_gate m loads cfg usb_cfg w = (Inr (None, tr), w)
     \<and> gt_reason tr = (if gate_open usb_cfg (m_clock m (host w)) w
                      then Cooling (until - m_clock m (host w)) else Holding)"
  using assms
  by (auto simp: run_delete_gate_def bnd_def now_s_def gate_attempt_def gate_target_def gate_report_def not_le)

theorem gate_holds_witness:
  "\<exists>tr. run_delete_gate still_host (\<lambda>s. None) None [] (fresh_world 7) = (Inr (None, tr), fresh_world 7)"
proof -
  have a: "load_delete_gate_cooldown (store (fresh_world (7 :: rat))) = Inr 0"
    by (simp add: fresh_world_def empty_disk_def load_delete_gate_cooldown_def)
  have b: "\<not> gate_open [] (m_clock still_host (host (fresh_world 7))) (fresh_world 7)"
    by (simp add: gate_open_def fresh_world_def resource_1h_average_def in_window_def over_threshold_def)
  show ?thesis using gate_holds [OF a disjI1, OF b] by blast
qed

section \<open>The cooldown\<close>

abbreviation gate_file :: "'h world \<Rightarrow> rat stored" where
  "gate_file w \<equiv> delete_gate_file (store w)"

interpretation gate_view: inside_view gate_file by unfold_locales simp_all

lemma keeps_gate_disk [keeps_intro]:
  "(\<And>d. delete_gate_file (f d) = delete_gate_file d) \<Longrightarrow> keeps gate_file (on_disk f)"
  "(\<And>d. delete_gate_file (snd (g d)) = delete_gate_file d) \<Longrightarrow> keeps gate_file (with_disk g)"
  by (simp_all add: keeps_def on_disk_def with_disk_def split: prod.splits) (metis snd_conv)

lemma gate_frames [simp]:
  "delete_gate_file (clear_assignment v b d) = delete_gate_file d"
  "delete_gate_file (clear_destroy_fails v d) = delete_gate_file d"
  "delete_gate_file (remove_orphan_vm v d) = delete_gate_file d"
  "delete_gate_file (exclude_bus b' t d) = delete_gate_file d"
  "delete_gate_file (snd (record_destroy_fail v b' t d)) = delete_gate_file d"
  "delete_gate_file (save_usb_state st d) = delete_gate_file d"
  by (simp_all add: clear_assignment_def clear_destroy_fails_def remove_orphan_vm_def exclude_bus_def
      record_destroy_fail_def add_orphan_vm_def save_usb_state_def save_destroy_fails_def write_orphans_def Let_def)

lemma gate_frame_forget [simp]: "delete_gate_file (fold forget_vm_files vs d) = delete_gate_file d"
  by (induction vs arbitrary: d) (simp_all add: forget_vm_files_def)

lemma gate_frame_prune [simp]: "delete_gate_file (snd (prune_ghost_vms ex d)) = delete_gate_file d"
  by (simp add: prune_ghost_vms_def split: sum.splits prod.splits)

lemma keeps_gate_destroy: "keeps gate_file (destroy_vm m cfg b p x v)"
proof -
  have f: "keeps gate_file (with_disk (\<lambda>d. case record_destroy_fail vid y t d of (r, d') \<Rightarrow> (Inr r, d')))" for vid y t
    by (rule keeps_gate_disk) (metis (mono_tags, lifting) case_prod_beta gate_frames(5) snd_conv)
  have mk: "keeps gate_file (mark_deleting m vid)" for vid
    by (auto simp: mark_deleting_def intro!: keeps_intro keeps_modify)
  note ks = keeps_intro gate_view.keeps_sh gate_view.keeps_event gate_view.keeps_probes gate_view.keeps_pve
  have nt: "keeps gate_file (notify_torn_down m vid)" "keeps gate_file (exclude_if m x b)" for vid x b
    by (auto simp: notify_torn_down_def exclude_if_def intro!: ks)
  have sg: "keeps gate_file (settle_gone m vid b x)" "keeps gate_file (settle_failed m vid b x)" for vid b x
    by (auto simp: settle_gone_def settle_failed_def intro!: ks nt f)
  have td: "keeps gate_file (tear_down m vid k pr)" "keeps gate_file (expire_pending_commands m vid k)" for vid k pr
    by (auto simp: tear_down_def expire_pending_commands_def qm_config_def pct_config_def Let_def intro!: ks)
  show ?thesis
    by (auto simp: destroy_vm_def destroy_present_def Let_def intro!: ks sg td mk)
qed

lemma meets_keeping:
  assumes "meets d p Q" "keeps (\<lambda>w. g (store w)) p"
  shows "meets d p (\<lambda>r d'. Q r d' \<and> g d' = g d)"
  using assms by (auto simp: meets_def keeps_def)

lemma meets_except:
  fixes p :: "('h, 'a) op"
  assumes "meets d p R" "\<And>x d'. R (Inr x) d' \<Longrightarrow> Q (Inr x) d'" "\<And>e d'. R (Inl e) d' \<Longrightarrow> meets d' (h e) Q"
    "\<And>d'. R (Inl Diverged) d' \<Longrightarrow> Q (Inl Diverged) d'"
  shows "meets d (except_any p h) Q"
  unfolding meets_def
proof (intro allI impI)
  fix w :: "'h world" assume w: "store w = d"
  obtain r w1 where p: "p w = (r, w1)" by (cases "p w")
  have R: "R r (store w1)" using assms(1) w p by (auto simp: meets_def)
  show "Q (fst (except_any p h w)) (store (snd (except_any p h w)))"
    using R assms(2,3,4) by (cases r) (auto simp: except_any_def catch_def p meets_def)
qed

text \<open>What an attempt on one VM leaves in the files.\<close>

definition shed_books :: "int \<Rightarrow> rat \<Rightarrow> disk \<Rightarrow> shed result \<Rightarrow> disk \<Rightarrow> bool" where
  "shed_books vid now d r d' \<longleftrightarrow>
     (if r = Inr Shed then delete_gate_file d' = Stored (now + 300) \<and> forgotten vid d'
      else delete_gate_file d' = delete_gate_file d)"

lemma forgotten_gate [simp]: "forgotten vid (save_delete_gate_cooldown t d) = forgotten vid d"
proof -
  have l: "usb_file (save_delete_gate_cooldown t d) = usb_file d"
    "orphan_file (save_delete_gate_cooldown t d) = orphan_file d"
    "destroy_fails_file (save_delete_gate_cooldown t d) = destroy_fails_file d"
    by (simp_all add: save_delete_gate_cooldown_def)
  then show ?thesis
    by (simp add: forgotten_def bus_for_vmid_def load_usb_state_def read_destroy_fails_def read_orphans_def)
qed

lemma meets_shed:
  fixes m :: "'h machine"
  assumes "faults d = []"
  shows "meets d (shed_vm m cfg now vid bus) (shed_books vid now d)"
proof -
  let ?attempt = "except_any (bnd (destroy_vm m cfg bus None False (PInt vid)) (\<lambda>s. ret (Some s))) (\<lambda>e. ret None)"
  let ?R = "\<lambda>r d'. (case r of Inr (Some s) \<Rightarrow> books vid d (Inr s) d' | _ \<Rightarrow> True) \<and> delete_gate_file d' = delete_gate_file d"
  have "meets d (destroy_vm m cfg bus None False (PInt vid))
      (\<lambda>r d'. books vid d r d' \<and> delete_gate_file d' = delete_gate_file d)"
    by (rule meets_keeping [OF destroy_vm_books [OF assms] keeps_gate_destroy])
  then have "meets d (bnd (destroy_vm m cfg bus None False (PInt vid)) (\<lambda>s. ret (Some s))) ?R"
    by (rule meets_bnd) (auto intro!: meets_pure)
  then have attempt: "meets d ?attempt ?R"
    by (rule meets_except) (auto intro!: meets_pure)
  have unmark: "meets d' (bnd (unmark_deleting vid) (\<lambda>_. ret x)) (shed_books vid now d)"
    if "x \<noteq> Shed" "delete_gate_file d' = delete_gate_file d" for x d'
    using that by (simp add: meets_def bnd_def unmark_deleting_def shed_books_def)
  have arm: "meets d' (bnd (on_disk (save_delete_gate_cooldown (now + DELETE_GATE_COOLDOWN_S))) (\<lambda>_. ret Shed)) (shed_books vid now d)"
    if "forgotten vid d'" "faults d' = []" for d'
    using that by (simp add: meets_def bnd_def on_disk_def shed_books_def)
       (simp add: save_delete_gate_cooldown_def DELETE_GATE_COOLDOWN_S_def)
  show ?thesis
    unfolding shed_vm_def
    by (rule meets_then, simp add: keeps_def, rule meets_bnd [OF attempt])
       (auto simp: shed_books_def books_def split: option.splits intro!: unmark arm)
qed

lemma prune_faults [simp]: "faults d = [] \<Longrightarrow> faults (snd (prune_ghost_vms ex d)) = []"
  using fold_forget_vm_files by (simp add: prune_ghost_vms_def split: sum.splits prod.splits)

lemma keeps_pick: "keeps store (pick_candidate m pci cs)"
proof -
  have t: "keeps store (vm_config_text m v k)" "keeps store (lspci_vidpid m a)" for v k a
    by (auto simp: vm_config_text_def lspci_vidpid_def build_lspci_map_def Let_def
        intro!: keeps_intro store_keeps keeps_modify split: sum.splits)
  have r: "keeps store (resolve_addr m a x)" for a x
    by (auto simp: resolve_addr_def Let_def intro!: keeps_intro t)
  have p: "keeps store (pci_passthrough_vidpids m v k)" for v k
    by (auto simp: pci_passthrough_vidpids_def Let_def intro!: keeps_intro store_keeps t r)
  show ?thesis
    by (induction cs) (auto simp: skip_candidate_def intro!: keeps_intro store_keeps p)
qed

lemma meets_with_disk:
  "(\<And>r d'. f d = (r, d') \<Longrightarrow> Q r d') \<Longrightarrow> meets d (with_disk f) Q"
  by (auto simp: meets_def with_disk_def split: prod.splits)

text \<open>A pass that starts from files \<open>d\<close>: armed and forgotten if a VM was shed, untouched otherwise.\<close>

definition gate_books :: "rat \<Rightarrow> disk \<Rightarrow> int option result \<Rightarrow> disk \<Rightarrow> bool" where
  "gate_books now d r d' \<longleftrightarrow>
     (case r of Inr (Some vid) \<Rightarrow> delete_gate_file d' = Stored (now + 300) \<and> forgotten vid d'
      | _ \<Rightarrow> delete_gate_file d' = delete_gate_file d)"

abbreviation as_target :: "(nat \<times> (int \<times> shed) option) result \<Rightarrow> int option result" where
  "as_target r \<equiv> (case r of Inl e \<Rightarrow> Inl e | Inr x \<Rightarrow> Inr (gate_target (Some x)))"

lemma meets_shed_newest:
  fixes m :: "'h machine"
  assumes "faults d = []"
  shows "meets d (shed_newest m cfg pci now) (\<lambda>r. gate_books now d (as_target r))"
proof -
  let ?Q = "\<lambda>d r. gate_books now d (as_target r)"
  have err: "?Q d (Inl e) d" for e d by (simp add: gate_books_def)
  have shed: "meets d1 (bnd (shed_vm m cfg now vid bus) (\<lambda>out. ret (n, Some (vid, out)))) (?Q d1)"
    if "faults d1 = []" for d1 vid bus n
    by (rule meets_bnd [OF meets_shed [OF that]])
       (auto simp: shed_books_def gate_books_def gate_target_def split: shed.splits intro!: meets_pure)
  have none: "meets d1 (ret (n, None)) (?Q d1)" for d1 n
    by (simp add: meets_def gate_books_def gate_target_def)
  have ks: "keeps store (lift r :: ('h, int list) op)" for r by (simp add: keeps_intro)
  have pair: "ret x = Pair (Inr x)" for x :: 'b by (simp add: fun_eq_iff)
  have chosen: "meets d1 (bnd (peek (\<lambda>w. bus_to_vmid (load_usb_state (store w)))) (\<lambda>b2v.
     bnd (lift (candidate_ids busy (dvals b2v))) (\<lambda>ids.
     bnd (pick_candidate m pci (rev (sorted_list_of_set (set ids)))) (\<lambda>choice.
     case choice of
       None \<Rightarrow> ret (card (set ids), None)
     | Some vid \<Rightarrow>
         bnd (shed_vm m cfg now vid (dget b2v (str_int vid))) (\<lambda>out.
         ret (card (set ids), Some (vid, out))))))) (?Q d1)"
    if "faults d1 = []" for d1 busy
    by (rule meets_peek, rule meets_then [OF ks], rule meets_then [OF keeps_pick])
       (auto simp: gate_books_def [of _ _ "Inl _"] pair split: option.splits
          intro: none [unfolded pair] shed [OF that, unfolded pair])
  have pruned: "meets d (with_disk (prune_ghost_vms ex))
      (\<lambda>r d'. faults d' = [] \<and> delete_gate_file d' = delete_gate_file d)" for ex
    using prune_faults [OF assms, of ex] gate_frame_prune [of ex d] by (intro meets_with_disk) (auto simp del: prune_faults gate_frame_prune)
  have shift: "?Q d1 r d' \<Longrightarrow> delete_gate_file d1 = delete_gate_file d \<Longrightarrow> ?Q d r d'" for d1 r d'
    by (auto simp: gate_books_def split: sum.splits option.splits)
  have keeps_prov: "keeps store provisioning_vmids" by (simp add: provisioning_vmids_def keeps_intro)
  show ?thesis
    unfolding shed_newest_def Let_def
    by (rule meets_then [OF keeps_prov], rule meets_then [OF store_view.keeps_waits(3)], rule meets_bnd [OF pruned])
       (simp_all add: gate_books_def [of _ _ "Inl _"], rule meets_mono [OF chosen], auto intro: shift)
qed



section \<open>Whom the gate touches\<close>

text \<open>Listing guests, reading one, enumerating the PCI bus.\<close>

definition looks :: "event \<Rightarrow> bool" where
  "looks e \<longleftrightarrow> harmless e
     \<or> (case e of Cmd a r \<Rightarrow> a \<noteq> [] \<and> (a ! 0 = ''lspci'' \<or> 2 \<le> length a \<and> a ! 1 = ''list'') | _ \<Rightarrow> False)"

lemma looks_simps [simp]:
  "looks (Sent k x)" "looks (Slept d)" "looks (Cmd [tool g, ''status'', v] r)" "looks (Cmd [tool g, ''config'', v] r)"
  "looks (Cmd [''qm'', ''list''] r)" "looks (Cmd [''pct'', ''list''] r)" "looks (Cmd (''lspci'' # a) r)"
  "looks (Cmd [''pct'', ''status'', v] r)" "looks (Cmd [''pct'', ''config'', v] r)" "looks (Cmd [''qm'', ''config'', v] r)"
  by (simp_all add: looks_def harmless_def)

lemma looks_listing [emits_intro]: "emits looks (list_all_vmids m)" "emits looks (is_template m v k)"
  by (auto simp: list_all_vmids_def list_qemu_vmids_def is_template_def guest_kind_def detect_guest_type_def Let_def
      intro!: emits_intro)

lemma looks_pick: "emits looks (pick_candidate m pci cs)"
proof -
  have t: "emits looks (vm_config_text m v k)" "emits looks (lspci_vidpid m a)" for v k a
    by (auto simp: vm_config_text_def lspci_vidpid_def build_lspci_map_def Let_def
        intro!: emits_intro emits_modify split: sum.splits)
  have r: "emits looks (resolve_addr m a x)" for a x
    by (auto simp: resolve_addr_def Let_def intro!: emits_intro t)
  have p: "emits looks (pci_passthrough_vidpids m v k)" for v k
    by (auto simp: pci_passthrough_vidpids_def guest_kind_def detect_guest_type_def Let_def intro!: emits_intro t r)
  show ?thesis
    by (induction cs) (auto simp: skip_candidate_def intro!: emits_intro p)
qed

definition only_sheds :: "int set \<Rightarrow> int \<Rightarrow> event \<Rightarrow> bool" where
  "only_sheds prot vid e \<longleftrightarrow> looks e \<or> (90000 \<le> vid \<and> vid \<notin> prot \<and> touches vid e)"

lemma yields_shed:
  fixes m :: "'h machine"
  assumes prot_def: "prot = resolve_protected_vmids cfg"
  shows "yields (shed_vm m cfg now vid bus) (\<lambda>r es. list_all (only_sheds prot vid) es
     \<and> (if r = Inr Shed then 90000 \<le> vid \<and> vid \<notin> prot else True))"
proof -
  have same: "destroy_vm m cfg bus None False v = destroy_vm m cfg bus (Some prot) False v" for v
    by (simp add: destroy_vm_def prot_def)
  have d: "yields (destroy_vm m cfg bus None False (PInt vid)) (\<lambda>r es. list_all (only_sheds prot vid) es
      \<and> (case r of Inl e \<Rightarrow> True | Inr s \<Rightarrow> 90000 \<le> vid \<and> vid \<notin> prot))"
  proof (cases rule: guard_vmid_cases [of vid prot])
    case (refused r)
    then show ?thesis unfolding same by (simp add: yields_def destroy_vm_def Let_def)
  next
    case ok
    have "emits (touches vid) (destroy_vm m cfg bus (Some prot) False (PInt vid))"
      by (rule g_destroy_vm.confined [OF ok(1)])
    then show ?thesis
      unfolding same emits_def
      by (rule yields_mono) (use ok(2,3) in \<open>auto simp: only_sheds_def SIM_VMIN_def list_all_iff split: sum.splits\<close>)
  qed
  let ?Q = "\<lambda>r es. list_all (only_sheds prot vid) es \<and> (case r of Inr (Some s) \<Rightarrow> 90000 \<le> vid \<and> vid \<notin> prot | _ \<Rightarrow> True)"
  have b: "yields (bnd (destroy_vm m cfg bus None False (PInt vid)) (\<lambda>s. ret (Some s))) ?Q"
    by (rule yields_bnd [OF d, where QB = "\<lambda>s r es. es = [] \<and> r = Inr (Some s)"])
       (auto simp: yields_def)
  have a: "yields (except_any (bnd (destroy_vm m cfg bus None False (PInt vid)) (\<lambda>s. ret (Some s))) (\<lambda>e. ret None)) ?Q"
    unfolding except_any_def
    by (rule yields_catch [OF b, where QB = "\<lambda>e r es. es = [] \<and> (case r of Inr (Some s) \<Rightarrow> False | _ \<Rightarrow> True)"])
       (auto simp: yields_def split: option.splits sum.splits)
  have u: "yields (bnd (unmark_deleting vid) (\<lambda>_. ret x)) (\<lambda>r es. es = [] \<and> r = Inr x)" for x
    by (simp add: yields_def bnd_def unmark_deleting_def)
  have o: "yields (bnd (on_disk g) (\<lambda>_. ret x)) (\<lambda>r es. es = [] \<and> r = Inr x)" for g x
    by (simp add: yields_def bnd_def on_disk_def)
  have mk: "yields (modify (\<lambda>w. w\<lparr>deleting := dset vid now (deleting w)\<rparr>)) (\<lambda>r es. es = [])"
    by (simp add: yields_def)
  show ?thesis
    unfolding shed_vm_def
    apply (rule yields_bnd [OF mk, where QB = "\<lambda>u r es. list_all (only_sheds prot vid) es
     \<and> (if r = Inr Shed then 90000 \<le> vid \<and> vid \<notin> prot else True)"])
      apply (rule yields_bnd [OF a, where QB = "\<lambda>x r es. es = [] \<and> (r = Inr Shed \<longrightarrow> x \<noteq> None)"])
        apply (auto split: option.splits intro!: yields_mono [OF u] yields_mono [OF o])
    done
qed

text \<open>At most one victim: the VM \<open>g\<close> reads off the result, if it reads one.\<close>

definition one_victim :: "int set \<Rightarrow> ('a \<Rightarrow> int option) \<Rightarrow> 'a result \<Rightarrow> event list \<Rightarrow> bool" where
  "one_victim prot g r es \<longleftrightarrow> (\<exists>vid. list_all (only_sheds prot vid) es
     \<and> (case r of Inl e \<Rightarrow> True | Inr x \<Rightarrow>
          (case g x of None \<Rightarrow> True | Some v \<Rightarrow> v = vid \<and> 90000 \<le> vid \<and> vid \<notin> prot)))"

lemma one_victim_looks: "one_victim prot g r fs \<Longrightarrow> list_all looks es \<Longrightarrow> one_victim prot g r (es @ fs)"
  unfolding one_victim_def list_all_append
  by (erule exE, rule exI, erule conjE, intro conjI) (auto simp: list_all_iff only_sheds_def)

lemma one_victim_none:
  "one_victim prot g (Inl e) []" "g x = None \<Longrightarrow> one_victim prot g (Inr x) []"
  "list_all looks es \<Longrightarrow> one_victim prot g (Inl e) es"
  by (auto simp: one_victim_def list_all_iff only_sheds_def)

lemma victim_look:
  assumes "emits looks p" "\<And>x. yields (f x) (one_victim prot g)"
  shows "yields (bnd p f) (one_victim prot g)"
  by (rule yields_bnd [OF assms(1)[unfolded emits_def] assms(2)])
     (auto intro: one_victim_looks one_victim_none)

lemma victim_map:
  assumes "yields p (one_victim prot g)" "\<And>x. h (k x) = g x"
  shows "yields (bnd p (\<lambda>x. ret (k x))) (one_victim prot h)"
  by (rule yields_bnd [OF assms(1), where QB = "\<lambda>x r es. es = [] \<and> r = Inr (k x)"])
     (auto simp: yields_def one_victim_def assms(2))

lemma victim_shed:
  "yields (bnd (shed_vm m cfg now vid bus) (\<lambda>out. ret (n, Some (vid, out))))
     (one_victim (resolve_protected_vmids cfg) (\<lambda>x. gate_target (Some x)))"
  by (rule yields_bnd [OF yields_shed [OF refl], where QB = "\<lambda>out r es. es = [] \<and> r = Inr (n, Some (vid, out))"])
     (auto simp: yields_def one_victim_def gate_target_def split: shed.splits)

lemma victim_shed_newest:
  "yields (shed_newest m cfg pci now) (one_victim (resolve_protected_vmids cfg) (\<lambda>x. gate_target (Some x)))"
proof -
  let ?V = "one_victim (resolve_protected_vmids cfg) (\<lambda>x. gate_target (Some x))"
  have e: "emits looks provisioning_vmids" "emits looks (lift z)" "emits looks (peek y)" for z y
    by (simp_all add: provisioning_vmids_def emits_intro)
  have d: "emits looks (with_disk f)" for f
    by (simp add: emits_def yields_def with_disk_def split: prod.splits)
  have c: "yields (case choice of None \<Rightarrow> ret (n, None)
      | Some vid \<Rightarrow> bnd (shed_vm m cfg now vid (dget b2v (str_int vid))) (\<lambda>out. ret (n, Some (vid, out)))) ?V"
    for choice n b2v
    by (cases choice) (simp_all add: victim_shed del: op_simps, rule yields_ret, simp add: one_victim_none gate_target_def)
  show ?thesis
    unfolding shed_newest_def Let_def
    by (rule victim_look, rule e looks_listing d looks_pick)+ (rule c)
qed


section \<open>Which VM\<close>

text \<open>
  The newest goes first. When the checks on each candidate answer \<open>skip\<close> (a template, or
  a protected PCI device), the gate picks the candidate with the highest VMID that is not
  skipped, and none only if all are skipped.
\<close>

theorem gate_picks_newest:
  assumes "finite C" and "\<And>c w. c \<in> C \<Longrightarrow> \<exists>w'. skip_candidate m pci c w = (Inr (skip c), w')"
  shows "fst (pick_candidate m pci (rev (sorted_list_of_set C)) w) =
    Inr (if {c \<in> C. \<not> skip c} = {} then None else Some (Max {c \<in> C. \<not> skip c}))"
proof -
  have run: "fst (pick_candidate m pci cs w) = Inr (find (\<lambda>c. \<not> skip c) cs)" if "set cs \<subseteq> C" for cs w
    using that
  proof (induction cs arbitrary: w)
    case (Cons c cs)
    then obtain w' where "skip_candidate m pci c w = (Inr (skip c), w')" using assms(2) by fastforce
    with Cons show ?case by (simp add: bnd_def)
  qed simp
  have newest: "find P (rev xs) = (if {x \<in> set xs. P x} = {} then None else Some (Max {x \<in> set xs. P x}))"
    if "sorted xs" for P and xs :: "int list"
    using that
  proof (induction xs rule: rev_induct)
    case (snoc x xs)
    have "Max {y \<in> set (xs @ [x]). P y} = x" if "P x"
      using snoc.prems that by (intro Max_eqI) (auto simp: sorted_append)
    moreover have "{y \<in> set (xs @ [x]). P y} = {y \<in> set xs. P y}" if "\<not> P x" using that by auto
    ultimately show ?case using snoc by (auto simp: sorted_append)
  qed simp
  show ?thesis
    using newest [of "sorted_list_of_set C" "\<lambda>c. \<not> skip c"] assms(1) by (simp add: run)
qed

theorem gate_picks_newest_witness:
  "fst (pick_candidate still_host {} (rev (sorted_list_of_set {90003, 90001, 90007})) (fresh_world 0)) = Inr (Some 90007)"
proof -
  have s: "\<exists>w'. skip_candidate still_host {} c w = (Inr False, w')" for c w
    by (simp add: skip_candidate_def is_template_def guest_kind_def detect_guest_type_def sh_still_host bnd_def lower_def)
  let ?C = "{90003, 90001, 90007 :: int}"
  have f: "finite ?C" by simp
  have m: "{c \<in> ?C. \<not> False} = ?C" by auto
  have "Max ?C = 90007" by simp
  with gate_picks_newest [OF f, of still_host "{}" "\<lambda>c. False" "fresh_world 0", OF s] show ?thesis
    unfolding m by (simp del: pick_candidate.simps sorted_list_of_set_insert)
qed

section \<open>When the listing fails\<close>

lemma dpops_filter: "dpops ks d = filter (\<lambda>p. fst p \<notin> set ks) d"
  by (induction ks arbitrary: d) (auto simp: dpop_eq_filter conj_commute)

lemma dpops_all [simp]: "dpops (dkeys d) d = []"
  by (auto simp: dpops_filter filter_empty_conv)

lemma filter_result_all: "(\<And>x. x \<in> set xs \<Longrightarrow> f x = Inr True) \<Longrightarrow> filter_result f xs = Inr xs"
  by (induction xs) auto

lemma prune_everything:
  assumes "snd ` set (bus_to_vmid st) \<union> fst ` set (vmid_to_bus st) \<union> fst ` set (vmid_to_image st)
      \<union> fst ` set (post_prov_reboot st) \<subseteq> range str_int"
  shows "\<exists>st'. prune_ghosts_st {} st = Inr (key_int ` (snd ` set (bus_to_vmid st) \<union> fst ` set (vmid_to_bus st)
        \<union> fst ` set (vmid_to_image st) \<union> fst ` set (post_prov_reboot st)), st')
    \<and> bus_to_vmid st' = [] \<and> vmid_to_bus st' = [] \<and> vmid_to_image st' = [] \<and> post_prov_reboot st' = []"
proof -
  have g: "gone {} v = Inr True" if "v \<in> range str_int" for v using that by auto
  have "filter_result (\<lambda>p. gone {} (snd p)) (bus_to_vmid st) = Inr (bus_to_vmid st)"
    "filter_result (\<lambda>p. gone {} (fst p)) (vmid_to_bus st) = Inr (vmid_to_bus st)"
    "filter_result (gone {}) (dkeys (vmid_to_image st)) = Inr (dkeys (vmid_to_image st))"
    "filter_result (gone {}) (dkeys (post_prov_reboot st)) = Inr (dkeys (post_prov_reboot st))"
    using assms by (auto intro!: filter_result_all g)
  then show ?thesis by (simp add: prune_ghosts_st_def Let_def image_Un Un_assoc)
qed

text \<open>
  A failed listing is taken for an empty host. When \<open>qm list\<close> and \<open>pct list\<close> fail, the
  branch that sheds finds no candidate, and before that drops every assignment of every VM it
  tracked, although nothing says that those VMs are gone.
\<close>

theorem failed_listing_forgets_all:
  assumes "\<And>k t h. \<exists>rc out err h'. m_exec m [tool k, ''list''] t h = (Exited rc out err, h') \<and> rc \<noteq> 0"
    and "faults (store w) = []" and "st = load_usb_state (store w)"
    and "snd ` set (bus_to_vmid st) \<union> fst ` set (vmid_to_bus st) \<union> fst ` set (vmid_to_image st)
      \<union> fst ` set (post_prov_reboot st) \<subseteq> range str_int"
  shows "\<exists>w'. shed_newest m cfg pci now w = (Inr (0, None), w')
    \<and> bus_to_vmid (load_usb_state (store w')) = [] \<and> vmid_to_bus (load_usb_state (store w')) = []
    \<and> vmid_to_image (load_usb_state (store w')) = [] \<and> post_prov_reboot (load_usb_state (store w')) = []"
proof -
  obtain w1 where l: "list_all_vmids m w = (Inr [], w1)" "store w1 = store w"
  proof -
    obtain rc out err h where q: "m_exec m [''qm'', ''list''] 20 (host w) = (Exited rc out err, h)" "rc \<noteq> 0"
      using assms(1) [of Qemu] by fastforce
    obtain rc' out' err' h' where p: "m_exec m [''pct'', ''list''] 20 h = (Exited rc' out' err', h')" "rc' \<noteq> 0"
      using assms(1) [of Lxc] by fastforce
    show ?thesis
      using q p that by (simp add: list_all_vmids_def list_qemu_vmids_def sh_def run_command_def bnd_def)
  qed
  obtain ps st' where p: "prune_ghosts_st {} st = Inr (ps, st')"
    and none: "bus_to_vmid st' = []" "vmid_to_bus st' = []" "vmid_to_image st' = []" "post_prov_reboot st' = []"
    using prune_everything [OF assms(4)] by blast
  obtain gs d where g: "prune_ghost_vms {} (store w) = (Inr gs, d)" and d: "load_usb_state d = st'"
    using p prune_ghosts_st_none [of "{}" st st'] fold_forget_vm_files [of "save_usb_state st' (store w)"] assms(2,3)
    by (cases "ps = {}") (simp_all add: prune_ghost_vms_def)
  have "shed_newest m cfg pci now w = (Inr (0, None), w1\<lparr>store := d\<rparr>)"
    by (simp add: shed_newest_def provisioning_vmids_def bnd_def l with_disk_def g d none)
  with d none show ?thesis by simp
qed

theorem failed_listing_forgets_all_witness:
  "bus_to_vmid (load_usb_state (store (snd (shed_newest still_host None {} 0
     (fresh_world 0\<lparr>store := set_assignment 90001 ''1-4'' 1 0 empty_disk\<rparr>))))) = []"
proof -
  let ?d = "set_assignment 90001 ''1-4'' 1 0 empty_disk"
  let ?w = "fresh_world 0\<lparr>store := set_assignment 90001 ''1-4'' 1 0 empty_disk\<rparr>"
  have f: "faults (store ?w) = []" by (simp add: set_assignment_def)
  have e: "\<exists>rc out err h'. m_exec still_host [tool k, ''list''] t h = (Exited rc out err, h') \<and> rc \<noteq> 0" for k t h
    by (simp add: still_host_def)
  have l: "bus_to_vmid (load_usb_state ?d) = [(''1-4'', str_int 90001)]"
     "vmid_to_bus (load_usb_state ?d) = [(str_int 90001, ''1-4'')]"
     "vmid_to_image (load_usb_state ?d) = [(str_int 90001, 1)]"
     "dkeys (post_prov_reboot (load_usb_state ?d)) = [str_int 90001]"
    by (simp_all add: set_assignment_def set_assignment_st_def stamp_post_prov_reboot_def
        new_usb_state_def Let_def)
  have k: "fst ` set (post_prov_reboot (load_usb_state ?d)) = {str_int 90001}"
    unfolding set_map [symmetric] l by simp
  have "snd ` set (bus_to_vmid (load_usb_state ?d)) \<union> fst ` set (vmid_to_bus (load_usb_state ?d))
      \<union> fst ` set (vmid_to_image (load_usb_state ?d))
      \<union> fst ` set (post_prov_reboot (load_usb_state ?d)) \<subseteq> range str_int"
    by (simp only: l k) simp
  then have r: "load_usb_state ?d = load_usb_state (store ?w) \<Longrightarrow> ?thesis"
    using failed_listing_forgets_all [of still_host, OF e f, of "load_usb_state ?d" None "{}" 0] by auto
  show ?thesis by (rule r) simp
qed

end
