(* ===== verification/GuestWatchdog.thy ===== *)
theory GuestWatchdog
  imports Gate ProvConfig
begin

text \<open>
  \<open>agent/src/guest_watchdog.py\<close>: the sweep that restarts simulation VMs whose guest agent has
  gone silent, with its heartbeat file and the two sets of VMs it leaves alone. Thresholds
  have their default values.
\<close>

definition GUEST_GRACE_S :: rat where "GUEST_GRACE_S = 600"
definition GUEST_HARD_S :: rat where "GUEST_HARD_S = 1200"
definition STOP_WAIT_S :: nat where "STOP_WAIT_S = 30"
definition ACTION_COOLDOWN_S :: rat where "ACTION_COOLDOWN_S = 600"
definition POST_CLONE_GRACE_S :: rat where "POST_CLONE_GRACE_S = 1800"
definition VMID_FLOOR :: int where "VMID_FLOOR = 90000"
definition PING_TIMEOUT_S :: int where "PING_TIMEOUT_S = 5"

section \<open>State\<close>

type_synonym watch = "(string, watch_entry) dict"

definition load_watch :: "disk \<Rightarrow> watch" where
  "load_watch d = read_or [] (guest_watchdog_file d)"

definition save_watch :: "watch \<Rightarrow> disk \<Rightarrow> disk" where
  "save_watch s d = write_atomic put_watchdog s d"

definition no_entry :: watch_entry where
  "no_entry = \<lparr>last_ok = None, silent_since = None, ping_error_streak = None, last_ping_error = None,
     last_ping_error_ts = None, last_action = None, last_action_ts = None, wd_actions = None\<rparr>"

definition entry_of :: "watch \<Rightarrow> int \<Rightarrow> watch_entry" where
  "entry_of s vid = (case dget s (str_int vid) of None \<Rightarrow> no_entry | Some e \<Rightarrow> e)"

text \<open>What a pass reports; the error texts are abbreviated to the VM they are about.\<close>

record watch_result =
  wr_checked :: nat
  wr_responding :: nat
  wr_skipped :: nat
  wr_reset :: "int list"
  wr_power_cycled :: "int list"
  wr_started :: "int list"
  wr_waiting :: "int list"
  wr_errors :: "int option list"

definition no_result :: watch_result where
  "no_result = \<lparr>wr_checked = 0, wr_responding = 0, wr_skipped = 0, wr_reset = [], wr_power_cycled = [],
     wr_started = [], wr_waiting = [], wr_errors = []\<rparr>"

section \<open>Scope\<close>

text \<open>The VMs the provisioning loop is working on.\<close>

definition in_flight_vmids :: "'h machine \<Rightarrow> ('h, int set) op" where
  "in_flight_vmids m =
     bnd (current_deleting_vmids m) (\<lambda>ds.
     bnd (current_reclone_vmids m) (\<lambda>rs.
     bnd (peek (\<lambda>w. if prov_running w then map pi_vmid (prov_items w) else [])) (\<lambda>ps.
     ret (set (ds @ rs @ ps)))))"

text \<open>The VMs cloned less than half an hour ago.\<close>

definition recently_cloned :: "rat \<Rightarrow> (string, reboot_entry) dict \<Rightarrow> int list" where
  "recently_cloned now q =
     List.map_filter (\<lambda>(v, e). if now - cloned_at e < POST_CLONE_GRACE_S then parse_int v else None) q"

definition settling_vmids :: "rat \<Rightarrow> disk \<Rightarrow> int set" where
  "settling_vmids now d =
     set (recently_cloned now (post_prov_reboot (load_usb_state d)))
     \<union> recently_actioned_vmids now d"

section \<open>The ladder\<close>

datatype rung = Wait | Start | Reset | PowerCycle

text \<open>What is due for a silent guest with this record.\<close>

definition cooling :: "rat \<Rightarrow> watch_entry \<Rightarrow> bool" where
  "cooling now e = (case last_action_ts e of None \<Rightarrow> False | Some t \<Rightarrow> now - t < ACTION_COOLDOWN_S)"

definition rung_for :: "rat \<Rightarrow> watch_entry \<Rightarrow> rung" where
  "rung_for now e =
     (if cooling now e then Wait
      else (case last_ok e of
              None \<Rightarrow> Start
            | Some t \<Rightarrow> if GUEST_HARD_S < now - t then PowerCycle
                       else if GUEST_GRACE_S < now - t then Reset else Wait))"

fun rung_name :: "rung \<Rightarrow> string" where
  "rung_name Wait = []"
| "rung_name Start = ''start''"
| "rung_name Reset = ''reset''"
| "rung_name PowerCycle = ''power_cycle''"

definition acted :: "rung \<Rightarrow> rat \<Rightarrow> watch_entry \<Rightarrow> watch_entry" where
  "acted r now e = e\<lparr>last_action := Some (rung_name r), last_action_ts := Some now,
     wd_actions := Some ((case wd_actions e of None \<Rightarrow> 0 | Some n \<Rightarrow> n) + 1)\<rparr>"

text \<open>\<open>for _ in range(STOP_WAIT_S)\<close>: until the VM is down or its status cannot be read.\<close>

fun wait_down :: "'h machine \<Rightarrow> int \<Rightarrow> nat \<Rightarrow> ('h, unit) op" where
  "wait_down m vid 0 = ret ()"
| "wait_down m vid (Suc n) =
     bnd (pause m 1) (\<lambda>_.
     bnd (except_any (bnd (vm_status m vid) (\<lambda>st. ret (\<not> vs_running st))) (\<lambda>e. ret True)) (\<lambda>down.
     if down then ret () else wait_down m vid n))"

fun act :: "'h machine \<Rightarrow> int set \<Rightarrow> int \<Rightarrow> rung \<Rightarrow> ('h, unit) op" where
  "act m prot vid Wait = ret ()"
| "act m prot vid Start = bnd (start_vm m None (PInt vid) prot) (\<lambda>_. ret ())"
| "act m prot vid Reset = bnd (sh m [''qm'', ''reset'', str_int vid] 30 False) (\<lambda>_. ret ())"
| "act m prot vid PowerCycle =
     bnd (sh m [''qm'', ''unlock'', str_int vid] 30 False) (\<lambda>_.
     bnd (stop_vm m None (PInt vid) prot) (\<lambda>_.
     bnd (wait_down m vid STOP_WAIT_S) (\<lambda>_.
     bnd (start_vm m None (PInt vid) prot) (\<lambda>_. ret ()))))"

fun report :: "rung \<Rightarrow> int \<Rightarrow> watch_result \<Rightarrow> watch_result" where
  "report Wait vid r = r\<lparr>wr_waiting := wr_waiting r @ [vid]\<rparr>"
| "report Start vid r = r\<lparr>wr_started := wr_started r @ [vid]\<rparr>"
| "report Reset vid r = r\<lparr>wr_reset := wr_reset r @ [vid]\<rparr>"
| "report PowerCycle vid r = r\<lparr>wr_power_cycled := wr_power_cycled r @ [vid]\<rparr>"

section \<open>One VM\<close>

text \<open>The text of an exception kept in the record; only the first 300 characters are.\<close>

definition exn_text :: "exn \<Rightarrow> string" where
  "exn_text e = (case e of PveError s \<Rightarrow> s | GuardError r \<Rightarrow> ''guard'' | _ \<Rightarrow> ''error'')"

text \<open>The ping: whether the guest answered, and the exception if the command itself failed.\<close>

definition ping_guest :: "'h machine \<Rightarrow> int set \<Rightarrow> int \<Rightarrow> ('h, bool \<times> exn option) op" where
  "ping_guest m prot vid =
     except_any (bnd (qm_agent_ping m PING_TIMEOUT_S (PInt vid) (Some prot)) (\<lambda>alive. ret (alive, None)))
       (\<lambda>e. ret (False, Some e))"

definition ping_failed :: "exn \<Rightarrow> rat \<Rightarrow> watch_entry \<Rightarrow> watch_entry" where
  "ping_failed e now en = en\<lparr>last_ping_error := Some (take 300 (exn_text e)), last_ping_error_ts := Some now,
     ping_error_streak := Some ((case ping_error_streak en of None \<Rightarrow> 0 | Some n \<Rightarrow> n) + 1)\<rparr>"

definition answered :: "rat \<Rightarrow> watch_entry \<Rightarrow> watch_entry" where
  "answered now en = en\<lparr>last_ok := Some now, silent_since := None, ping_error_streak := None\<rparr>"

definition escalate_silent ::
    "'h machine \<Rightarrow> int set \<Rightarrow> rat \<Rightarrow> int \<Rightarrow> watch_entry \<Rightarrow> watch \<times> watch_result \<Rightarrow> ('h, watch \<times> watch_result) op" where
  "escalate_silent m prot now vid en acc =
     (case acc of (s, r) \<Rightarrow>
      let rung = rung_for now en in
      if rung = Wait then ret (dset (str_int vid) en s, report Wait vid r)
      else bnd (except_any (bnd (act m prot vid rung) (\<lambda>_. ret True)) (\<lambda>e. ret False)) (\<lambda>ok.
           ret (if ok then (dset (str_int vid) (acted rung now en) s, report rung vid r)
                else (dset (str_int vid) en s, r\<lparr>wr_errors := wr_errors r @ [Some vid]\<rparr>))))"

definition check_vm ::
    "'h machine \<Rightarrow> int set \<Rightarrow> rat \<Rightarrow> int \<Rightarrow> watch \<times> watch_result \<Rightarrow> ('h, watch \<times> watch_result) op" where
  "check_vm m prot now vid acc =
     bnd (except_any (is_template m vid None) (\<lambda>e. ret False)) (\<lambda>tpl.
     if tpl then ret acc
     else (case acc of (s, r) \<Rightarrow>
       let en = entry_of s vid; r1 = r\<lparr>wr_checked := wr_checked r + 1\<rparr> in
       bnd (ping_guest m prot vid) (\<lambda>(alive, err).
       let en1 = (case err of None \<Rightarrow> en | Some e \<Rightarrow> ping_failed e now en);
           r2 = (case err of None \<Rightarrow> r1 | Some e \<Rightarrow> r1\<lparr>wr_errors := wr_errors r1 @ [Some vid]\<rparr>)
       in if alive then ret (dset (str_int vid) (answered now en1) s, r2\<lparr>wr_responding := wr_responding r2 + 1\<rparr>)
          else escalate_silent m prot now vid en1 (s, r2))))"

definition watch_vm ::
    "'h machine \<Rightarrow> int set \<Rightarrow> int set \<Rightarrow> rat \<Rightarrow> int \<Rightarrow> watch \<times> watch_result \<Rightarrow> ('h, watch \<times> watch_result) op" where
  "watch_vm m prot skip now vid acc =
     (if vid \<le> VMID_FLOOR \<or> vid \<in> prot then ret acc
      else if vid \<in> skip then (case acc of (s, r) \<Rightarrow> ret (s, r\<lparr>wr_skipped := wr_skipped r + 1\<rparr>))
      else check_vm m prot now vid acc)"

section \<open>The pass\<close>

definition prune_watch :: "int list \<Rightarrow> watch \<Rightarrow> watch" where
  "prune_watch vmids s = filter (\<lambda>(k, e). k \<in> set (map str_int vmids)) s"

definition sweep :: "'h machine \<Rightarrow> int set \<Rightarrow> rat \<Rightarrow> int list \<Rightarrow> ('h, watch_result) op" where
  "sweep m prot now vmids =
     bnd (in_flight_vmids m) (\<lambda>busy.
     bnd (peek (\<lambda>w. settling_vmids now (store w))) (\<lambda>settling.
     bnd (peek (\<lambda>w. load_watch (store w))) (\<lambda>s.
     bnd (iter (watch_vm m prot (busy \<union> settling) now) (sort vmids) (s, no_result)) (\<lambda>(s', r).
     bnd (on_disk (save_watch (prune_watch vmids s'))) (\<lambda>_.
     ret r)))))"

text \<open>\<open>run_pass\<close>; \<open>None\<close> stands for the pass that could not list the VMs.\<close>

definition run_pass :: "'h machine \<Rightarrow> int set \<Rightarrow> ('h, watch_result) op" where
  "run_pass m prot =
     bnd (now_s m) (\<lambda>now.
     bnd (except_any (bnd (list_qemu_vmids m) (\<lambda>vs. ret (Some vs))) (\<lambda>e. ret None)) (\<lambda>vmids.
     case vmids of
       None \<Rightarrow> ret (no_result\<lparr>wr_errors := [None]\<rparr>)
     | Some vs \<Rightarrow> sweep m prot now vs))"

section \<open>No exception leaves a pass\<close>

lemma ends_wait_down [ends_intro]: "ends (wait_down m vid n)"
  by (induction n) (auto intro!: ends_intro simp: vm_status_def detect_guest_type_def Let_def)

lemma ends_act: "ends (act m prot vid rung)"
  by (cases rung) (auto simp: start_vm_def stop_vm_def guest_kind_def detect_guest_type_def lower_def intro!: ends_intro)

lemma ends_listing [ends_intro]: "ends (list_qemu_vmids m)" "ends (is_template m v k)" "ends (qm_agent_ping m s x p)"
  by (auto simp: list_qemu_vmids_def is_template_def guest_kind_def detect_guest_type_def qm_agent_ping_def Let_def
      intro!: ends_intro)

lemma returns_check: "returns (check_vm m prot now vid acc)"
  by (auto simp: check_vm_def escalate_silent_def ping_guest_def Let_def intro!: returns_intro ends_intro ends_act
      split: prod.splits)

lemma returns_watch: "returns (watch_vm m prot skip now vid acc)"
  by (auto simp: watch_vm_def intro!: returns_intro returns_check split: prod.splits)

lemma yields_returns:
  "returns p \<Longrightarrow> emits P p \<Longrightarrow> yields p (\<lambda>x es. (\<exists>b. x = Inr b) \<and> list_all P es)"
  unfolding returns_def emits_def yields_def by metis

section \<open>Whom a pass touches\<close>

definition spares :: "int set \<Rightarrow> int set \<Rightarrow> event \<Rightarrow> bool" where
  "spares among skip e \<longleftrightarrow> looks e \<or> (\<exists>vid\<in>among. 90000 < vid \<and> vid \<notin> skip \<and> touches vid e)"

lemma emits_wait_down [emits_intro]: "emits (touches vid) (wait_down m vid n)"
  by (induction n) (auto intro!: emits_intro)

lemma emits_act: "emits (touches vid) (act m prot vid rung)"
proof -
  have g: "emits (touches vid) (start_vm m None (PInt vid) prot)" "emits (touches vid) (stop_vm m None (PInt vid) prot)"
    by (auto simp: start_vm_def stop_vm_def assert_sim_vm_def intro!: emits_intro)
  show ?thesis by (cases rung) (auto intro!: emits_intro g)
qed

lemma emits_check: "emits (touches vid) (check_vm m prot now vid acc)"
proof -
  have p: "emits (touches vid) (ping_guest m prot vid)"
    by (auto simp: ping_guest_def qm_agent_ping_def assert_sim_vm_def intro!: emits_intro)
  have e: "emits (touches vid) (escalate_silent m prot now vid en x)" for en x
    by (auto simp: escalate_silent_def Let_def intro!: emits_intro emits_act split: prod.splits)
  show ?thesis
    by (auto simp: check_vm_def Let_def intro!: emits_intro p e split: prod.splits)
qed

lemma emits_watch:
  assumes "vid \<in> among"
  shows "emits (spares among (prot \<union> skip)) (watch_vm m prot skip now vid acc)"
proof (cases "vid \<le> VMID_FLOOR \<or> vid \<in> prot \<or> vid \<in> skip")
  case True
  then show ?thesis by (auto simp: watch_vm_def intro!: emits_intro split: prod.splits)
next
  case False
  then have "90000 < vid" "vid \<notin> prot \<union> skip" by (simp_all add: VMID_FLOOR_def not_le)
  with assms have "touches vid e \<Longrightarrow> spares among (prot \<union> skip) e" for e
    unfolding spares_def by blast
  then have "emits (spares among (prot \<union> skip)) (check_vm m prot now vid acc)"
    by (rule emits_mono [OF emits_check])
  then show ?thesis using False by (simp add: watch_vm_def)
qed

lemma in_flight_runs: "\<exists>busy w1. in_flight_vmids m w = (Inr busy, w1) \<and> trace w1 = trace w \<and> store w1 = store w"
  by (simp add: in_flight_vmids_def current_deleting_vmids_def current_reclone_vmids_def bnd_def now_s_def)

text \<open>
  The watchdog keeps out of the provisioning loop's way. A sweep always returns. Besides
  listing and reading, it only acts on listed VMs above the floor that are not protected, that
  the provisioning loop is not deleting, recloning or cloning when the sweep starts, that
  are not in their half hour after a clone and that the dongle ladder has not just acted on.
\<close>

theorem watchdog_spares_busy:
  assumes "in_flight_vmids m w = (Inr busy, w1)" and "sweep m prot now vmids w = (r, w')"
  shows "\<exists>x es. r = Inr x \<and> trace w' = trace w @ es
    \<and> list_all (spares (set vmids) (prot \<union> (busy \<union> settling_vmids now (store w)))) es"
proof -
  let ?skip = "busy \<union> settling_vmids now (store w)"
  have w1: "trace w1 = trace w" "store w1 = store w" using in_flight_runs [of m w] assms(1) by auto
  let ?it = "iter (watch_vm m prot ?skip now) (sort vmids) (load_watch (store w), no_result)"
  have "returns ?it" by (intro returns_intro returns_watch)
  then obtain s' x w2 where it: "?it w1 = (Inr (s', x), w2)"
    using returnsD [of ?it] by fastforce
  have "emits (spares (set vmids) (prot \<union> ?skip)) ?it"
    by (intro emits_iter emits_watch) simp
  then obtain es where es: "trace w2 = trace w1 @ es" "list_all (spares (set vmids) (prot \<union> ?skip)) es"
    using it by (rule emitsD)
  have "sweep m prot now vmids w = (Inr x, snd (on_disk (save_watch (prune_watch vmids s')) w2))"
    using it w1 by (simp add: sweep_def bnd_def assms(1) on_disk_def)
  with assms(2) es w1 show ?thesis by (auto simp: on_disk_def)
qed

theorem watchdog_spares_busy_witness:
  "\<exists>x es w'. sweep still_host {} 0 [90001, 90002] (fresh_world 0\<lparr>deleting := [(90001, 0)]\<rparr>) = (Inr x, w')
     \<and> trace w' = es \<and> list_all (spares {90001, 90002} {90001}) es"
proof -
  let ?w = "fresh_world (0 :: rat)\<lparr>deleting := [(90001, 0)]\<rparr>"
  obtain w1 where b: "in_flight_vmids still_host ?w = (Inr {90001}, w1)"
    by (simp add: in_flight_vmids_def current_deleting_vmids_def current_reclone_vmids_def bnd_def now_s_def
        expire_def fresh_world_def DELETING_TTL_S_def) (simp add: still_host_def)
  have s: "settling_vmids 0 (store ?w) = {}" "trace ?w = []"
    by (simp_all add: settling_vmids_def fresh_world_def recently_cloned_def recently_actioned_vmids_def
        new_usb_state_def List.map_filter_def)
  obtain r w' where run: "sweep still_host {} 0 [90001, 90002] ?w = (r, w')" by force
  from watchdog_spares_busy [OF b run] s show ?thesis
    by (auto simp: run)
qed

section \<open>The ladder of one VM\<close>

text \<open>The commands of each rung, besides reading the guest's status and pauses.\<close>

fun rung_commands :: "int \<Rightarrow> rung \<Rightarrow> string list set" where
  "rung_commands vid Wait = {}"
| "rung_commands vid Start = {[''qm'', ''start'', str_int vid], [''pct'', ''start'', str_int vid]}"
| "rung_commands vid Reset = {[''qm'', ''reset'', str_int vid]}"
| "rung_commands vid PowerCycle = {[''qm'', ''unlock'', str_int vid], [''qm'', ''stop'', str_int vid],
     [''pct'', ''stop'', str_int vid], [''qm'', ''start'', str_int vid], [''pct'', ''start'', str_int vid]}"

definition rung_event :: "int \<Rightarrow> rung \<Rightarrow> event \<Rightarrow> bool" where
  "rung_event vid rung e \<longleftrightarrow> looks e
     \<or> (case e of Cmd a x \<Rightarrow> a = [''qm'', ''agent'', str_int vid, ''ping''] \<or> a \<in> rung_commands vid rung | _ \<Rightarrow> False)"

lemma rung_event_looks [intro]: "looks e \<Longrightarrow> rung_event vid rung e"
  by (simp add: rung_event_def)

lemma emits_rung: "emits (rung_event vid rung) (act m prot vid rung)"
proof -
  have k: "emits (rung_event vid r) (guest_kind m None vid)" for r
    by (auto simp: guest_kind_def detect_guest_type_def lower_def intro!: emits_intro)
  have tl: "tool g \<noteq> ''pct'' \<Longrightarrow> tool g = ''qm''" for g by (cases g) simp_all
  have st: "emits (rung_event vid r) (vm_status m vid)" for r
    by (auto simp: vm_status_def detect_guest_type_def Let_def intro!: emits_intro)
  have wd: "emits (rung_event vid r) (wait_down m vid n)" for r n
    by (induction n) (auto intro!: emits_intro st)
  show ?thesis
    by (cases rung)
       (auto simp: start_vm_def stop_vm_def assert_sim_vm_def rung_event_def [of _ _ "Cmd (_ # _ # _ # []) _"]
          intro!: emits_intro k wd tl)
qed

text \<open>What a check leaves in the record of the VM.\<close>

definition record_after :: "rat \<Rightarrow> rung \<Rightarrow> watch_entry \<Rightarrow> watch_entry \<Rightarrow> bool" where
  "record_after now rung en en' \<longleftrightarrow>
     (last_ok en' = Some now \<and> last_action_ts en' = last_action_ts en)
     \<or> (last_ok en' = last_ok en \<and> (last_action_ts en' = last_action_ts en
          \<or> last_action_ts en' = Some now \<and> last_action en' = Some (rung_name rung)))
     \<or> en' = en"

lemma rung_for_ping [simp]: "rung_for now (ping_failed e t en) = rung_for now en"
  by (simp add: rung_for_def cooling_def ping_failed_def)

lemma yields_escalate:
  assumes "rung_for now en1 = rung_for now en" "last_ok en1 = last_ok en" "last_action_ts en1 = last_action_ts en"
  shows "yields (escalate_silent m prot now vid en1 (s, r)) (\<lambda>x es. \<exists>s' r'. x = Inr (s', r')
     \<and> list_all (rung_event vid (rung_for now en)) es \<and> record_after now (rung_for now en) en (entry_of s' vid))"
proof (cases "rung_for now en1 = Wait")
  case True
  then show ?thesis
    using assms by (simp add: escalate_silent_def Let_def yields_def record_after_def entry_of_def)
next
  case False
  let ?act = "except_any (bnd (act m prot vid (rung_for now en1)) (\<lambda>_. ret True)) (\<lambda>e. ret False)"
  have "returns ?act" by (intro returns_intro ends_intro ends_act)
  moreover have "emits (rung_event vid (rung_for now en1)) ?act" by (intro emits_intro emits_rung)
  ultimately have "yields ?act (\<lambda>x es. (\<exists>b. x = Inr b) \<and> list_all (rung_event vid (rung_for now en1)) es)"
    by (rule yields_returns)
  then show ?thesis
    unfolding escalate_silent_def Let_def case_prod_conv if_not_P [OF False]
    by (rule yields_bnd [where QB = "\<lambda>ok x es. es = [] \<and> x = Inr (if ok
         then (dset (str_int vid) (acted (rung_for now en1) now en1) s, report (rung_for now en1) vid r)
         else (dset (str_int vid) en1 s, r\<lparr>wr_errors := wr_errors r @ [Some vid]\<rparr>))"])
       (use assms in \<open>auto simp: yields_def record_after_def entry_of_def acted_def\<close>)
qed

lemma yields_if_then: "yields p Q \<Longrightarrow> yields q Q \<Longrightarrow> yields (if b then p else q) Q"
  by simp

lemma recorded_waits: "last_action_ts en = Some now \<Longrightarrow> later < now + 600 \<Longrightarrow> rung_for later en = Wait"
  by (simp add: rung_for_def cooling_def ACTION_COOLDOWN_S_def)

text \<open>
  C28: one rung at a time. A check of one VM always returns, and besides reading and pinging the
  guest it runs only the commands of the rung its record calls for: none while the guest was
  heard from in the last ten minutes or the last action is less than ten minutes old, a reset
  after ten minutes of silence, a power cycle after twenty, a start if the guest was never
  heard from. An action that went through is recorded with its time, an answer as a heartbeat;
  a recorded action keeps the VM untouched for the next ten minutes.
\<close>

theorem watchdog_ladder:
  "yields (check_vm m prot now vid (s, r)) (\<lambda>x es. \<exists>s' r'. x = Inr (s', r')
     \<and> list_all (rung_event vid (rung_for now (entry_of s vid))) es
     \<and> record_after now (rung_for now (entry_of s vid)) (entry_of s vid) (entry_of s' vid)
     \<and> (\<forall>later. last_action_ts (entry_of s' vid) = Some now \<and> later < now + 600
          \<longrightarrow> rung_for later (entry_of s' vid) = Wait))"
proof -
  let ?en = "entry_of s vid" and ?g = "rung_for now (entry_of s vid)"
  define Q where "Q x es \<longleftrightarrow> (\<exists>s' r'. x = Inr (s', r') \<and> list_all (rung_event vid ?g) es
     \<and> record_after now ?g ?en (entry_of s' vid))" for x :: "(watch \<times> watch_result) result" and es
  have app: "Q x (es @ fs)" if "list_all (rung_event vid ?g) es" "Q x fs" for x es fs
    using that by (auto simp: Q_def)
  have same: "Q (Inr (s, r)) []" by (auto simp: Q_def record_after_def)
  have read: "emits (rung_event vid ?g) (except_any (is_template m vid None) (\<lambda>e. ret False))"
    "returns (except_any (is_template m vid None) (\<lambda>e. ret False))"
    by (auto intro!: emits_intro returns_intro ends_intro emits_mono [OF looks_listing(2)])
  have ping: "emits (rung_event vid ?g) (ping_guest m prot vid)" "returns (ping_guest m prot vid)"
    by (auto simp: ping_guest_def qm_agent_ping_def assert_sim_vm_def rung_event_def intro!: emits_intro returns_intro ends_intro)
  have esc: "yields (escalate_silent m prot now vid en1 (s, r1)) Q"
    if "en1 = ?en \<or> (\<exists>e. en1 = ping_failed e now ?en)" for en1 r1
    unfolding Q_def by (rule yields_escalate) (use that in \<open>auto simp: ping_failed_def\<close>, simp add: rung_for_def cooling_def)
  have heard: "Q (Inr (dset (str_int vid) (answered now en1) s, r1)) []"
    if "en1 = ?en \<or> (\<exists>e. en1 = ping_failed e now ?en)" for en1 r1
    using that by (auto simp: Q_def record_after_def entry_of_def answered_def ping_failed_def)
  have tail: "yields (case ae of (alive, err) \<Rightarrow>
       if alive then ret (dset (str_int vid) (answered now (case err of None \<Rightarrow> ?en | Some e \<Rightarrow> ping_failed e now ?en)) s, g err)
       else escalate_silent m prot now vid (case err of None \<Rightarrow> ?en | Some e \<Rightarrow> ping_failed e now ?en) (s, h err)) Q" for ae g h
  proof (cases ae)
    case (Pair alive err)
    have "(case err of None \<Rightarrow> ?en | Some e \<Rightarrow> ping_failed e now ?en) = ?en
        \<or> (\<exists>e. (case err of None \<Rightarrow> ?en | Some e \<Rightarrow> ping_failed e now ?en) = ping_failed e now ?en)"
      by (cases err) auto
    with Pair heard esc show ?thesis by (cases alive) (simp_all add: yields_ret del: op_simps)
  qed
  have "yields (check_vm m prot now vid (s, r)) Q"
    unfolding check_vm_def Let_def case_prod_conv
    by (rule yields_bnd [OF yields_returns [OF read(2,1)], where QB = "\<lambda>_. Q"], rule yields_if_then, rule yields_ret, rule same,
        rule yields_bnd [OF yields_returns [OF ping(2,1)], where QB = "\<lambda>_. Q"], rule tail)
       (auto intro: app)
  then show ?thesis
    by (rule yields_mono) (use recorded_waits in \<open>auto simp: Q_def\<close>)
qed

theorem watchdog_ladder_witness:
  "\<exists>x w'. check_vm still_host {} 0 90001 ([], no_result) (fresh_world 0) = (Inr x, w')
     \<and> list_all (rung_event 90001 Start) (trace w')"
proof -
  have g: "rung_for 0 (entry_of [] 90001) = Start"
    by (simp add: entry_of_def no_entry_def rung_for_def cooling_def)
  have t: "trace (fresh_world (0 :: rat)) = []" by (simp add: fresh_world_def)
  obtain x w' where run: "check_vm still_host {} 0 90001 ([], no_result) (fresh_world 0) = (x, w')" by force
  from watchdog_ladder [of still_host "{}" 0 90001 "[]" no_result]
  obtain es where "trace w' = es" "\<exists>y. x = Inr y" "list_all (rung_event 90001 Start) es"
    unfolding g by (rule yieldsE [where w = "fresh_world 0"]) (auto simp: run t)
  with run show ?thesis by auto
qed

section \<open>When the listing fails\<close>

text \<open>
  A failed listing erases every heartbeat. \<open>list_qemu_vmids\<close> answers an empty list when
  \<open>qm list\<close> exits with an error, so the pass takes it for a host without VMs: it reports no
  error, and writes back an empty record. Whatever was known before, every VM then counts as
  never heard from, and the ladder of a hung VM starts over with a plain start.
\<close>

theorem watchdog_forgets_on_failed_listing:
  assumes "\<And>t h. \<exists>rc out err h'. m_exec m [''qm'', ''list''] t h = (Exited rc out err, h') \<and> rc \<noteq> 0"
    and "faults (store w) = []"
  shows "\<exists>w'. run_pass m prot w = (Inr no_result, w') \<and> load_watch (store w') = []
     \<and> (\<forall>later vid. rung_for later (entry_of (load_watch (store w')) vid) = Start)"
proof -
  obtain rc out err h where q: "m_exec m [''qm'', ''list''] 20 (host w) = (Exited rc out err, h)" "rc \<noteq> 0"
    using assms(1) by fastforce
  obtain w1 where l: "list_qemu_vmids m w = (Inr [], w1)" "store w1 = store w"
    using q by (simp add: list_qemu_vmids_def sh_def run_command_def bnd_def)
  obtain busy w2 where b: "in_flight_vmids m w1 = (Inr busy, w2)" "store w2 = store w"
    using in_flight_runs [of m w1] l(2) by auto
  have "run_pass m prot w = (Inr no_result, w2\<lparr>store := save_watch [] (store w)\<rparr>)"
    by (simp add: run_pass_def except_any_def catch_def bnd_def now_s_def l b sweep_def on_disk_def prune_watch_def)
  moreover have "load_watch (save_watch [] (store w)) = []"
    by (simp add: load_watch_def save_watch_def watchf.atomic_ok [OF assms(2)])
  ultimately show ?thesis
    by (simp add: entry_of_def no_entry_def rung_for_def cooling_def)
qed

theorem watchdog_forgets_on_failed_listing_witness:
  "load_watch (store (snd (run_pass still_host {}
     (fresh_world 0\<lparr>store := save_watch [(str_int 90001, no_entry\<lparr>last_ok := Some 0\<rparr>)] empty_disk\<rparr>)))) = []"
proof -
  have e: "\<exists>rc out err h'. m_exec still_host [''qm'', ''list''] t h = (Exited rc out err, h') \<and> rc \<noteq> 0" for t h
    by (simp add: still_host_def)
  let ?w = "fresh_world 0\<lparr>store := save_watch [(str_int 90001, no_entry\<lparr>last_ok := Some 0\<rparr>)] empty_disk\<rparr>"
  have f: "faults (store ?w) = []" by (simp add: save_watch_def watchf.atomic_faults)
  from watchdog_forgets_on_failed_listing [OF e f, of "{}"] show ?thesis by auto
qed

end
