(* ===== verification/Crontab.thy ===== *)
theory Crontab
  imports Host
begin

text \<open>
  \<open>agent/src/managed_crontab.py\<close>: the block of managed jobs inside root's crontab. The text
  functions are the whole module's; the \<open>crontab\<close> program is an argument (how it answers
  \<open>-l\<close>, \<open>-\<close> and \<open>-r\<close>). Text is UTF-8 bytes; the dash of the begin marker is three of them.
\<close>

definition BEGIN_MARKER :: string where
  "BEGIN_MARKER = ''# BEGIN LM-MANAGED (do not edit '' @ em_dash @ '' managed by Lab Manager)''"

definition END_MARKER :: string where
  "END_MARKER = ''# END LM-MANAGED''"

section \<open>The text\<close>

definition nl :: string where "nl = [char_of (10::nat)]"

text \<open>The lines after the end of the block; a block without an end runs to the end of the file.\<close>

fun after_block :: "string list \<Rightarrow> string list" where
  "after_block [] = []"
| "after_block (l # ls) = (if strip l = END_MARKER then ls else after_block ls)"

lemma after_block_shorter: "length (after_block ls) \<le> length ls"
  by (induction ls) auto

definition drop_blank_last :: "string list \<Rightarrow> string list" where
  "drop_blank_last out = (if out \<noteq> [] \<and> strip (last out) = [] then butlast out else out)"

function own_lines :: "string list \<Rightarrow> string list \<Rightarrow> string list" where
  "own_lines out [] = out"
| "own_lines out (l # ls) =
     (if strip l = BEGIN_MARKER then own_lines (drop_blank_last out) (after_block ls)
      else own_lines (out @ [l]) ls)"
  by pat_completeness auto

termination
  by (relation "measure (\<lambda>(out, ls). length ls)") (simp_all add: after_block_shorter le_imp_less_Suc)

definition strip_block :: "string \<Rightarrow> string" where
  "strip_block text = join_sep nl (own_lines [] (splitlines text))"

definition rstrip_nl :: "string \<Rightarrow> string" where
  "rstrip_nl s = rev (dropWhile (\<lambda>c. of_char c = (10::nat)) (rev s))"

definition lstrip_nl :: "string \<Rightarrow> string" where
  "lstrip_nl s = dropWhile (\<lambda>c. of_char c = (10::nat)) s"

definition job_lines :: "string \<Rightarrow> string list" where
  "job_lines desired = map rstrip (filter (\<lambda>l. strip l \<noteq> []) (splitlines desired))"

definition desired_body :: "string \<Rightarrow> string" where
  "desired_body desired = rstrip_nl (lstrip_nl (join_sep nl (job_lines desired)))"

definition managed_block :: "string \<Rightarrow> string" where
  "managed_block body = BEGIN_MARKER @ nl @ body @ nl @ END_MARKER"

definition reconcile_block :: "string \<Rightarrow> string \<Rightarrow> string" where
  "reconcile_block existing desired =
     (let base = rstrip_nl (strip_block existing); body = desired_body desired
      in if body = [] then (if base \<noteq> [] then base @ nl else [])
         else if base \<noteq> [] then base @ nl @ nl @ managed_block body @ nl
         else managed_block body @ nl)"

definition count_managed :: "string \<Rightarrow> nat" where
  "count_managed desired =
     length (filter (\<lambda>l. strip l \<noteq> [] \<and> \<not> has_prefix ''#'' (strip l)) (splitlines desired))"

section \<open>The program\<close>

text \<open>\<open>_read_crontab_sync\<close> on the answer of \<open>crontab -l\<close>; the error texts are abbreviated.\<close>

definition read_crontab :: "outcome \<Rightarrow> string result" where
  "read_crontab r =
     (case r of
        NoProgram \<Rightarrow> Inl (PveError ''crontab binary not found'')
      | TimedOut \<Rightarrow> Inl (PveError ''timeout'')
      | Exited rc out err \<Rightarrow>
          if rc \<noteq> 0 then (if has_infix ''no crontab'' (lower err) then Inr [] else Inl (PveError (strip err)))
          else Inr out)"

record 'h cron =
  cron_list :: "'h \<Rightarrow> outcome \<times> 'h"
  cron_install :: "string \<Rightarrow> 'h \<Rightarrow> outcome \<times> 'h"
  cron_remove :: "'h \<Rightarrow> outcome \<times> 'h"

text \<open>\<open>_write_crontab_sync\<close>: the exit code of a removal is not looked at.\<close>

definition write_crontab :: "'h cron \<Rightarrow> string \<Rightarrow> 'h \<Rightarrow> unit result \<times> 'h" where
  "write_crontab c text h =
     (if strip text = [] then
        (case cron_remove c h of (r, h') \<Rightarrow>
           ((case r of Exited rc out err \<Rightarrow> Inr () | TimedOut \<Rightarrow> Inl (PveError ''timeout'') | NoProgram \<Rightarrow> Inl OSError), h'))
      else
        (case cron_install c text h of (r, h') \<Rightarrow>
           ((case r of Exited rc out err \<Rightarrow> if rc \<noteq> 0 then Inl (PveError (strip err)) else Inr ()
             | TimedOut \<Rightarrow> Inl (PveError ''timeout'') | NoProgram \<Rightarrow> Inl OSError), h')))"

record cron_status =
  cs_ok :: bool
  cs_changed :: bool
  cs_lines :: nat

definition apply_managed_crontab :: "'h cron \<Rightarrow> string \<Rightarrow> 'h \<Rightarrow> cron_status \<times> 'h" where
  "apply_managed_crontab c desired h =
     (let n = count_managed desired; failed = \<lparr>cs_ok = False, cs_changed = False, cs_lines = n\<rparr> in
      case cron_list c h of (r, h1) \<Rightarrow>
      case read_crontab r of
        Inl e \<Rightarrow> (failed, h1)
      | Inr current \<Rightarrow>
          let target = reconcile_block current desired in
          if target = current \<or> strip target = [] \<and> strip current = []
          then (\<lparr>cs_ok = True, cs_changed = False, cs_lines = n\<rparr>, h1)
          else (case write_crontab c target h1 of
                  (Inl e, h2) \<Rightarrow> (failed, h2)
                | (Inr _, h2) \<Rightarrow> (\<lparr>cs_ok = True, cs_changed = True, cs_lines = n\<rparr>, h2)))"

text \<open>\<open>current_managed_crontab_status\<close>: \<open>None\<close> when the crontab cannot be read.\<close>

definition crontab_in_sync :: "outcome \<Rightarrow> string \<Rightarrow> bool option" where
  "crontab_in_sync r desired =
     (case read_crontab r of Inl e \<Rightarrow> None | Inr current \<Rightarrow> Some (reconcile_block current desired = current))"

section \<open>Lines\<close>

definition plain :: "string \<Rightarrow> bool" where
  "plain l \<longleftrightarrow> (\<forall>c\<in>set l. \<not> is_line_break c)"

lemma line_breaks:
  "is_line_break (char_of (10::nat))" "is_line_break c \<or> of_char c \<noteq> (10::nat) \<and> of_char c \<noteq> (13::nat)"
  by (auto simp: is_line_break_def Let_def)

lemma plain_simps [simp]: "plain []" "plain (c # s) \<longleftrightarrow> \<not> is_line_break c \<and> plain s" "plain (rev s) \<longleftrightarrow> plain s"
  "plain (s @ u) \<longleftrightarrow> plain s \<and> plain u"
  by (auto simp: plain_def)

lemma lines_from_plain: "plain acc \<Longrightarrow> list_all plain (lines_from acc s)"
proof (induction acc s rule: lines_from.induct)
  case (3 acc c d cs)
  show ?case
  proof (cases "of_char c = (13::nat) \<and> of_char d = (10::nat)")
    case True
    with 3 show ?thesis by simp
  next
    case False
    show ?thesis
      unfolding lines_from.simps if_not_P [OF False] using 3 False by (cases "is_line_break c") simp_all
  qed
qed simp_all

lemma splitlines_plain: "list_all plain (splitlines s)"
  by (simp add: splitlines_def lines_from_plain)

lemma lines_from_step: "\<not> is_line_break c \<Longrightarrow> lines_from acc (c # s) = lines_from (c # acc) s"
  using line_breaks(2) [of c] by (cases s) simp_all

lemma lines_from_text: "plain l \<Longrightarrow> lines_from acc (l @ s) = lines_from (rev l @ acc) s"
  by (induction l arbitrary: acc) (simp_all add: lines_from_step)

lemma lines_from_nl: "lines_from acc (nl @ s) = rev acc # splitlines s"
  using line_breaks(1) by (cases s) (simp_all add: nl_def splitlines_def)

lemma splitlines_line: "plain l \<Longrightarrow> splitlines (l @ nl @ s) = l # splitlines s"
  by (simp add: splitlines_def [of "l @ nl @ s"] lines_from_text lines_from_nl)

lemma splitlines_last: "plain l \<Longrightarrow> splitlines l = (if l = [] then [] else [l])"
  using lines_from_text [of l "[]" "[]"] by (simp add: splitlines_def)

lemma splitlines_join:
  "ls \<noteq> [] \<Longrightarrow> list_all plain ls \<Longrightarrow> splitlines (join_sep nl ls @ nl @ s) = ls @ splitlines s"
  by (induction nl ls rule: join_sep.induct) (simp_all add: splitlines_line)

text \<open>Text that \<open>rstrip("\\n")\<close> leaves alone, line by line.\<close>

lemma nl_length [simp]: "nl \<noteq> []" "last nl = char_of (10::nat)" "plain nl = False"
  using line_breaks(1) by (simp_all add: nl_def plain_def)

lemma plain_no_nl: "plain l \<Longrightarrow> c \<in> set l \<Longrightarrow> of_char c \<noteq> (10::nat)"
  using line_breaks(2) by (auto simp: plain_def)

lemma rstrip_nl_ends: "s = [] \<or> of_char (last s) \<noteq> (10::nat) \<Longrightarrow> rstrip_nl s = s"
  by (cases s rule: rev_cases) (simp_all add: rstrip_nl_def)

lemma rstrip_nl_nl [simp]: "rstrip_nl (s @ nl) = rstrip_nl s"
  by (simp add: rstrip_nl_def nl_def)

lemma rstrip_nl_Nil [simp]: "rstrip_nl [] = []"
  by (simp add: rstrip_nl_def)

lemma last_plain: "plain l \<Longrightarrow> l \<noteq> [] \<Longrightarrow> of_char (last l) \<noteq> (10::nat)"
  by (simp add: plain_no_nl)

definition trim_lines :: "string list \<Rightarrow> string list" where
  "trim_lines ls = rev (dropWhile (\<lambda>l. l = []) (rev ls))"

lemma join_snoc: "join_sep sep (ls @ [l]) = (if ls = [] then l else join_sep sep ls @ sep @ l)"
  by (induction sep ls rule: join_sep.induct) auto

lemma trim_snoc [simp]: "trim_lines (ls @ [l]) = (if l = [] then trim_lines ls else ls @ [l])" "trim_lines [] = []"
  by (simp_all add: trim_lines_def)

lemma rstrip_nl_join: "list_all plain ls \<Longrightarrow> rstrip_nl (join_sep nl ls) = join_sep nl (trim_lines ls)"
proof (induction ls rule: rev_induct)
  case (snoc l ls)
  then show ?case
    using last_plain [of l]
    by (cases "l = []") (auto simp: join_snoc rstrip_nl_ends)
qed simp

lemma trim_lines_sub: "list_all P ls \<Longrightarrow> list_all P (trim_lines ls)"
  by (induction ls rule: rev_induct) auto

lemma trim_lines_last: "trim_lines ls \<noteq> [] \<Longrightarrow> last (trim_lines ls) \<noteq> []"
  by (induction ls rule: rev_induct) auto

lemma trim_lines_id: "ls = [] \<or> last ls \<noteq> [] \<Longrightarrow> trim_lines ls = ls"
  by (cases ls rule: rev_cases) auto

lemma join_empty_trim: "join_sep nl (trim_lines ls) = [] \<longleftrightarrow> trim_lines ls = []"
  using trim_lines_last [of ls] by (cases "trim_lines ls" rule: rev_cases) (auto simp: join_snoc)

section \<open>The block in the crontab\<close>

definition operator_lines :: "string \<Rightarrow> string list" where
  "operator_lines text = trim_lines (own_lines [] (splitlines text))"

lemma own_lines_all: "list_all P out \<Longrightarrow> list_all P ls \<Longrightarrow> list_all P (own_lines out ls)"
proof (induction out ls rule: own_lines.induct)
  case (2 out l ls)
  have "list_all P (drop_blank_last out)"
    using 2(3) by (auto simp: drop_blank_last_def list_all_iff dest: in_set_butlastD)
  moreover have "list_all P (after_block ls)" using 2(4) by (induction ls) auto
  ultimately show ?case using 2 by simp
qed simp

lemma own_lines_no_begin:
  "\<forall>l\<in>set out. strip l \<noteq> BEGIN_MARKER \<Longrightarrow> l \<in> set (own_lines out ls) \<Longrightarrow> strip l \<noteq> BEGIN_MARKER"
  by (induction out ls rule: own_lines.induct) (auto simp: drop_blank_last_def split: if_splits dest: in_set_butlastD)

lemma own_lines_plain_text: "\<forall>l\<in>set ls. strip l \<noteq> BEGIN_MARKER \<Longrightarrow> own_lines out (ls @ rest) = own_lines (out @ ls) rest"
  by (induction ls arbitrary: out) auto

lemma operator_lines_base: "rstrip_nl (strip_block text) = join_sep nl (operator_lines text)"
  unfolding strip_block_def operator_lines_def
  by (rule rstrip_nl_join) (simp add: own_lines_all splitlines_plain)

lemma operator_lines_plain: "list_all plain (operator_lines text)"
  by (simp add: operator_lines_def trim_lines_sub own_lines_all splitlines_plain)

lemma operator_lines_no_begin: "l \<in> set (operator_lines text) \<Longrightarrow> strip l \<noteq> BEGIN_MARKER"
  using own_lines_no_begin [of "[]"] trim_lines_sub [of "\<lambda>l. strip l \<noteq> BEGIN_MARKER"]
  by (fastforce simp: operator_lines_def list_all_iff)

lemma job_lines_good: "l \<in> set (job_lines d) \<Longrightarrow> plain l \<and> l \<noteq> []"
proof -
  assume "l \<in> set (job_lines d)"
  then obtain l0 where l0: "l = rstrip l0" "strip l0 \<noteq> []" "l0 \<in> set (splitlines d)"
    by (auto simp: job_lines_def)
  have "set (rstrip l0) \<subseteq> set l0" using set_dropWhileD [of _ is_space "rev l0"] by (auto simp: rstrip_def)
  moreover have "plain l0" using splitlines_plain [of d] l0(3) by (simp add: list_all_iff)
  moreover have "rstrip l0 \<noteq> []"
  proof
    assume "rstrip l0 = []"
    then have "\<forall>c\<in>set l0. is_space c" by (simp add: rstrip_def)
    then have "lstrip l0 = []" by (simp add: lstrip_def)
    with l0(2) show False by (simp add: strip_def rstrip_def)
  qed
  ultimately show ?thesis using l0(1) by (auto simp: plain_def)
qed

lemma join_hd: "ls \<noteq> [] \<Longrightarrow> hd ls \<noteq> [] \<Longrightarrow> hd (join_sep sep ls) = hd (hd ls)"
  by (induction sep ls rule: join_sep.induct) auto

lemma desired_body_join: "desired_body d = join_sep nl (job_lines d)"
proof (cases "job_lines d = []")
  case False
  let ?j = "join_sep nl (job_lines d)"
  have hd: "plain (hd (job_lines d))" "hd (job_lines d) \<noteq> []"
    using False job_lines_good [of "hd (job_lines d)" d] by simp_all
  have lt: "last (job_lines d) \<noteq> []" using False job_lines_good [of "last (job_lines d)" d] by simp
  have j: "?j \<noteq> []" using False hd by (cases "job_lines d"; cases "tl (job_lines d)") auto
  have "of_char (hd ?j) \<noteq> (10::nat)"
    using join_hd [OF False hd(2)] hd plain_no_nl [of "hd (job_lines d)"] by simp
  then have "lstrip_nl ?j = ?j" using j by (cases ?j) (simp_all add: lstrip_nl_def)
  moreover have "rstrip_nl ?j = join_sep nl (trim_lines (job_lines d))"
    by (rule rstrip_nl_join) (simp add: list_all_iff job_lines_good)
  moreover have "trim_lines (job_lines d) = job_lines d" using lt by (simp add: trim_lines_id)
  ultimately show ?thesis by (simp add: desired_body_def)
qed (simp add: desired_body_def lstrip_nl_def)

lemma desired_body_empty: "desired_body d = [] \<longleftrightarrow> job_lines d = []"
proof (cases "job_lines d")
  case (Cons l ls)
  then have "l \<noteq> []" using job_lines_good [of l d] by simp
  with Cons show ?thesis by (cases ls) (simp_all add: desired_body_join)
qed (simp add: desired_body_join)

definition unlines :: "string list \<Rightarrow> string" where
  "unlines ls = concat (map (\<lambda>l. l @ nl) ls)"

lemma unlines_join: "ls \<noteq> [] \<Longrightarrow> unlines ls = join_sep nl ls @ nl"
  by (induction nl ls rule: join_sep.induct) (simp_all add: unlines_def)

lemma unlines_simps [simp]: "unlines [] = []" "unlines (l # ls) = l @ nl @ unlines ls" "unlines (xs @ ys) = unlines xs @ unlines ys"
  by (simp_all add: unlines_def)

lemma splitlines_unlines: "list_all plain ls \<Longrightarrow> splitlines (unlines ls) = ls"
  by (induction ls) (simp_all add: splitlines_line, simp add: splitlines_def)

lemma markers:
  "plain BEGIN_MARKER" "plain END_MARKER" "strip BEGIN_MARKER = BEGIN_MARKER" "strip END_MARKER = END_MARKER"
  "strip [] \<noteq> BEGIN_MARKER" "BEGIN_MARKER \<noteq> []" "END_MARKER \<noteq> []"
  by code_simp+

text \<open>The lines of the reconciled crontab: the operator's, a separator, the block.\<close>

definition block_lines :: "string list \<Rightarrow> string list \<Rightarrow> string list" where
  "block_lines ops jobs =
     ops @ (if jobs = [] then [] else (if ops = [] then [] else [[]]) @ BEGIN_MARKER # jobs @ [END_MARKER])"

lemma block_lines_plain: "list_all plain ops \<Longrightarrow> list_all plain jobs \<Longrightarrow> list_all plain (block_lines ops jobs)"
  by (simp add: block_lines_def markers)

lemma reconcile_unlines: "reconcile_block e d = unlines (block_lines (operator_lines e) (job_lines d))"
proof -
  have base: "rstrip_nl (strip_block e) = [] \<longleftrightarrow> operator_lines e = []"
    unfolding operator_lines_base by (simp add: operator_lines_def join_empty_trim)
  show ?thesis
    using base unlines_join [of "operator_lines e"] unlines_join [of "job_lines d"]
      desired_body_empty [of d, unfolded desired_body_join]
    by (auto simp: reconcile_block_def Let_def desired_body_empty operator_lines_base desired_body_join
        block_lines_def managed_block_def)
qed

lemma reconcile_plain: "list_all plain (block_lines (operator_lines e) (job_lines d))"
  by (rule block_lines_plain, rule operator_lines_plain) (simp add: list_all_iff job_lines_good)

lemma splitlines_reconcile: "splitlines (reconcile_block e d) = block_lines (operator_lines e) (job_lines d)"
  by (simp add: reconcile_unlines splitlines_unlines reconcile_plain)

text \<open>
  What a push makes of the crontab. The result is, line for line, the operator's own lines
  as they were (without blank lines at the end), then, if any job is left after blank lines are
  dropped, an empty separator line and the fenced block with the jobs in their order. It is
  empty or ends with exactly one newline.
\<close>

theorem reconcile_block_lines:
  "reconcile_block e d = unlines (block_lines (operator_lines e) (job_lines d))
   \<and> splitlines (reconcile_block e d) = block_lines (operator_lines e) (job_lines d)
   \<and> (reconcile_block e d = [] \<or> (\<exists>t. reconcile_block e d = t @ nl \<and> t \<noteq> [] \<and> of_char (last t) \<noteq> (10::nat)))"
proof (intro conjI)
  let ?ls = "block_lines (operator_lines e) (job_lines d)"
  show "reconcile_block e d = unlines ?ls" by (rule reconcile_unlines)
  note pl = reconcile_plain [of e d]
  show "splitlines (reconcile_block e d) = ?ls" by (rule splitlines_reconcile)
  show "reconcile_block e d = [] \<or> (\<exists>t. reconcile_block e d = t @ nl \<and> t \<noteq> [] \<and> of_char (last t) \<noteq> (10::nat))"
  proof (cases "?ls = []")
    case False
    have "last ?ls \<noteq> []"
      using False trim_lines_last by (auto simp: block_lines_def markers operator_lines_def)
    moreover have "join_sep nl ?ls = (if butlast ?ls = [] then [] else join_sep nl (butlast ?ls) @ nl) @ last ?ls"
      using False join_snoc [of nl "butlast ?ls" "last ?ls"] by auto
    moreover have "plain (last ?ls)" using pl False by (simp add: list_all_iff)
    ultimately show ?thesis
      using False last_plain [of "last ?ls"] by (simp add: reconcile_unlines unlines_join)
  qed (simp add: reconcile_unlines)
qed

lemma after_block_jobs: "\<forall>l\<in>set js. strip l \<noteq> END_MARKER \<Longrightarrow> after_block (js @ [END_MARKER]) = []"
  by (induction js) (simp_all add: markers)

lemma operator_lines_reconcile:
  assumes "\<forall>l\<in>set (job_lines d). strip l \<noteq> END_MARKER"
  shows "operator_lines (reconcile_block e d) = operator_lines e"
proof -
  let ?ops = "operator_lines e" and ?js = "job_lines d"
  have nb: "\<forall>l\<in>set ?ops. strip l \<noteq> BEGIN_MARKER" by (simp add: operator_lines_no_begin)
  have nb': "\<forall>l\<in>set (?ops @ [[]]). strip l \<noteq> BEGIN_MARKER" using nb markers(5) by simp
  have tr: "trim_lines ?ops = ?ops"
    using trim_lines_last by (auto simp: operator_lines_def intro: trim_lines_id)
  have "own_lines [] (block_lines ?ops ?js) = ?ops"
  proof (cases "?js = []")
    case True
    then show ?thesis using own_lines_plain_text [OF nb, of "[]" "[]"] by (simp add: block_lines_def)
  next
    case js: False
    note ab = after_block_jobs [OF assms]
    show ?thesis
    proof (cases "?ops = []")
      case True
      then show ?thesis using js ab by (simp add: block_lines_def markers drop_blank_last_def)
    next
      case False
      then show ?thesis
        using js ab own_lines_plain_text [OF nb', of "[]" "BEGIN_MARKER # ?js @ [END_MARKER]"]
        by (simp add: block_lines_def markers drop_blank_last_def) (simp add: strip_def rstrip_def lstrip_def)
    qed
  qed
  with tr show ?thesis
    by (simp add: operator_lines_def [of "reconcile_block e d"] splitlines_reconcile)
qed

text \<open>
  C19: the last push wins. Whatever was pushed before, a push leaves exactly what it would have
  left on the operator's own crontab; in particular pushing twice changes nothing, and no push
  touches an operator line. The hypothesis that no earlier job line is the end marker cannot be
  dropped.
\<close>

theorem reconcile_overwrites:
  assumes "\<forall>l\<in>set (job_lines d). strip l \<noteq> END_MARKER"
  shows "operator_lines (reconcile_block e d) = operator_lines e
    \<and> reconcile_block (reconcile_block e d) d' = reconcile_block e d'"
  by (simp add: reconcile_unlines [of "reconcile_block e d"] reconcile_unlines [of e d'] operator_lines_reconcile [OF assms])

theorem reconcile_overwrites_witness:
  "reconcile_block (reconcile_block ''MAILTO=root'' ''0 5 * * * backup'') [] = reconcile_block ''MAILTO=root'' []"
proof -
  have "\<forall>l\<in>set (job_lines ''0 5 * * * backup''). strip l \<noteq> END_MARKER" by code_simp
  from reconcile_overwrites [OF this, of "''MAILTO=root''" "[]"] show ?thesis by simp
qed

text \<open>
  An end marker among the jobs breaks the fence. The job after it is taken for an operator
  line from then on: pushing the same text again installs it a second time, and clearing the
  textarea leaves it behind.
\<close>

theorem end_marker_escapes:
  "let d = END_MARKER @ nl @ ''0 5 * * * backup''; once = reconcile_block [] d in
     reconcile_block once d \<noteq> once \<and> ''0 5 * * * backup'' \<in> set (operator_lines once)
     \<and> reconcile_block once [] \<noteq> []"
  by code_simp

section \<open>The program and the text\<close>

lemma strip_empty_iff: "strip s = [] \<longleftrightarrow> (\<forall>c\<in>set s. is_space c)"
proof
  assume "\<forall>c\<in>set s. is_space c"
  then have "lstrip s = []" by (simp add: lstrip_def)
  then show "strip s = []" by (simp add: strip_def rstrip_def)
next
  assume "strip s = []"
  then have all: "\<forall>c\<in>set (lstrip s). is_space c" by (simp add: strip_def rstrip_def)
  have "lstrip s = []"
  proof (rule ccontr)
    assume "lstrip s \<noteq> []"
    then have "\<not> is_space (hd (lstrip s))" unfolding lstrip_def by (rule hd_dropWhile)
    with all \<open>lstrip s \<noteq> []\<close> show False by simp
  qed
  then show "\<forall>c\<in>set s. is_space c" by (simp add: lstrip_def)
qed

lemma blank_target: "strip (reconcile_block e d) = [] \<Longrightarrow> job_lines d = []"
proof (rule ccontr)
  assume b: "strip (reconcile_block e d) = []" and j: "job_lines d \<noteq> []"
  have "CHR ''#'' \<in> set BEGIN_MARKER" by (simp add: BEGIN_MARKER_def)
  then have "CHR ''#'' \<in> set (reconcile_block e d)" using j by (simp add: reconcile_unlines block_lines_def)
  moreover have "\<not> is_space (CHR ''#'')" by code_simp
  ultimately show False using b by (auto simp: strip_empty_iff)
qed

lemma operator_lines_Nil: "operator_lines [] = []"
  by (simp add: operator_lines_def splitlines_def)

text \<open>
  One apply is enough. On a host whose \<open>crontab\<close> lists what was last installed, after an
  apply that reports success the crontab is in sync, and a second apply writes nothing.
\<close>

theorem apply_settles:
  assumes "\<And>h. cron_list c h = (case tab h of None \<Rightarrow> Exited 1 [] ''no crontab for root'' | Some s \<Rightarrow> Exited 0 s [], h)"
    and "\<And>s h. tab (snd (cron_install c s h)) = (case fst (cron_install c s h) of
        Exited rc out err \<Rightarrow> if rc = 0 then Some s else tab h | _ \<Rightarrow> tab h)"
    and "\<And>h. tab (snd (cron_remove c h)) = None"
    and "\<forall>l\<in>set (job_lines d). strip l \<noteq> END_MARKER"
    and "apply_managed_crontab c d h = (st, h')" "cs_ok st"
  shows "apply_managed_crontab c d h' = (st\<lparr>cs_changed := False\<rparr>, h')"
proof -
  define cur where "cur = (case tab h of None \<Rightarrow> [] | Some s \<Rightarrow> s)"
  let ?target = "reconcile_block cur d"
  have nc: "has_infix ''no crontab'' (lower ''no crontab for root'')" by code_simp
  have rd: "read_crontab (fst (cron_list c g)) = Inr (case tab g of None \<Rightarrow> [] | Some s \<Rightarrow> s)" for g
    using nc by (simp add: assms(1) read_crontab_def split: option.splits)
  have stay: "snd (cron_list c g) = g" for g by (simp add: assms(1))
  have idem: "reconcile_block ?target d = ?target"
    unfolding reconcile_unlines [of ?target d] operator_lines_reconcile [OF assms(4)]
    by (rule reconcile_unlines [symmetric])
  have run: "apply_managed_crontab c d g =
      (if reconcile_block x d = x \<or> strip (reconcile_block x d) = [] \<and> strip x = []
       then (\<lparr>cs_ok = True, cs_changed = False, cs_lines = count_managed d\<rparr>, g)
       else (case write_crontab c (reconcile_block x d) g of
               (Inl e, g2) \<Rightarrow> (\<lparr>cs_ok = False, cs_changed = False, cs_lines = count_managed d\<rparr>, g2)
             | (Inr _, g2) \<Rightarrow> (\<lparr>cs_ok = True, cs_changed = True, cs_lines = count_managed d\<rparr>, g2)))"
    if "x = (case tab g of None \<Rightarrow> [] | Some s \<Rightarrow> s)" for g x
    unfolding apply_managed_crontab_def Let_def that using rd [of g] stay [of g]
    by (cases "cron_list c g") (simp only: prod.case fst_conv snd_conv sum.case)
  show ?thesis
  proof (cases "?target = cur \<or> strip ?target = [] \<and> strip cur = []")
    case True
    with assms(5) run [OF cur_def] show ?thesis by auto
  next
    case False
    have w: "write_crontab c ?target h = (Inr (), h')" and st: "st = \<lparr>cs_ok = True, cs_changed = True, cs_lines = count_managed d\<rparr>"
      using assms(5,6) run [OF cur_def] False by (auto split: prod.splits sum.splits)
    have "reconcile_block y d = y" if y: "y = (case tab h' of None \<Rightarrow> [] | Some s \<Rightarrow> s)" for y
    proof (cases "strip ?target = []")
      case True
      then have "snd (cron_remove c h) = h'" using w by (auto simp: write_crontab_def split: prod.splits)
      then have "y = []" using assms(3) [of h] y by simp
      moreover have "job_lines d = []" using True by (rule blank_target)
      ultimately show ?thesis using reconcile_unlines [of "[]" d] by (simp add: block_lines_def operator_lines_Nil)
    next
      case nb: False
      then obtain out err where "cron_install c ?target h = (Exited 0 out err, h')"
        using w by (auto simp: write_crontab_def split: prod.splits outcome.splits if_splits)
      then have "tab h' = Some ?target" using assms(2) [of ?target h] by simp
      with y idem show ?thesis by simp
    qed
    from this [OF refl] run [OF refl, of h'] show ?thesis by (simp add: st)
  qed
qed

text \<open>A machine whose whole state is the installed table.\<close>

definition table_cron :: "string option cron" where
  "table_cron = \<lparr>cron_list = (\<lambda>h. (case h of None \<Rightarrow> Exited 1 [] ''no crontab for root'' | Some s \<Rightarrow> Exited 0 s [], h)),
     cron_install = (\<lambda>s h. (Exited 0 [] [], Some s)), cron_remove = (\<lambda>h. (Exited 0 [] [], None))\<rparr>"

theorem apply_settles_witness:
  "\<exists>st h. apply_managed_crontab table_cron ''0 5 * * * backup'' None = (st, h) \<and> cs_changed st
     \<and> apply_managed_crontab table_cron ''0 5 * * * backup'' h = (st\<lparr>cs_changed := False\<rparr>, h)"
proof -
  let ?d = "''0 5 * * * backup''"
  obtain st h where run: "apply_managed_crontab table_cron ?d None = (st, h)" by force
  have "cs_ok (fst (apply_managed_crontab table_cron ?d None)) \<and> cs_changed (fst (apply_managed_crontab table_cron ?d None))"
    by code_simp
  then have ok: "cs_ok st" "cs_changed st" by (simp_all add: run)
  have m: "\<forall>l\<in>set (job_lines ?d). strip l \<noteq> END_MARKER" by code_simp
  show ?thesis
    using apply_settles [of table_cron "\<lambda>h. h", OF _ _ _ m run ok(1)] run ok(2) by (auto simp: table_cron_def)
qed

end
