(* ===== verification/Frame.thy ===== *)
theory Frame
  imports Text "HOL-Library.Char_ord" "HOL-Library.List_Lexorder"
begin

text \<open>
  \<open>agent/src/security_utils.py\<close>: canonical form, signatures and the wire frame. HMAC-SHA256 is
  an argument \<open>mac\<close> from the secret and the bytes to the hex digest. Text is ASCII, so that
  encoding to bytes is the identity.
\<close>

section \<open>JSON text\<close>

text \<open>\<open>json.dumps(v, separators=(',', ':'))\<close> with the default escaping of non-printable characters.\<close>

definition json_char :: "char \<Rightarrow> string" where
  "json_char c =
     (let n = (of_char c :: nat); bs = char_of (92::nat) in
      if n = 34 \<or> n = 92 then [bs, c]
      else if n = 10 then [bs, CHR ''n''] else if n = 13 then [bs, CHR ''r'']
      else if n = 9 then [bs, CHR ''t''] else if n = 8 then [bs, CHR ''b'']
      else if n = 12 then [bs, CHR ''f'']
      else if n < 32 \<or> 126 < n then [bs, CHR ''u'', CHR ''0'', CHR ''0'', hex_digit (n div 16), hex_digit (n mod 16)]
      else [c])"

definition json_str :: "string \<Rightarrow> string" where
  "json_str s = [char_of (34::nat)] @ concat (map json_char s) @ [char_of (34::nat)]"

fun json_dumps :: "pyval \<Rightarrow> string" where
  "json_dumps PNone = ''null''"
| "json_dumps (PBool b) = (if b then ''true'' else ''false'')"
| "json_dumps (PInt i) = str_int i"
| "json_dumps (PStr s) = json_str s"
| "json_dumps (PList xs) = ''['' @ join_sep '','' (map json_dumps xs) @ '']''"
| "json_dumps (PDict d) = ''{'' @ join_sep '','' (map (\<lambda>(k, v). json_str k @ '':'' @ json_dumps v) d) @ ''}''"

section \<open>Signatures\<close>

text \<open>\<open>_canonicalize\<close>: keys sorted at every level.\<close>

fun canonicalize :: "pyval \<Rightarrow> pyval" where
  "canonicalize (PDict d) = PDict (sort_key fst (map (\<lambda>(k, v). (k, canonicalize v)) d))"
| "canonicalize (PList xs) = PList (map canonicalize xs)"
| "canonicalize v = v"

type_synonym mac = "string \<Rightarrow> string \<Rightarrow> string"

definition unsigned :: "(string, pyval) dict \<Rightarrow> (string, pyval) dict" where
  "unsigned msg = filter (\<lambda>p. fst p \<noteq> ''signature'') msg"

definition sign :: "mac \<Rightarrow> string \<Rightarrow> (string, pyval) dict \<Rightarrow> string" where
  "sign mac secret msg = mac secret (json_dumps (canonicalize (PDict (unsigned msg))))"

text \<open>A signature that is neither falsy nor a string makes the comparison raise.\<close>

definition verify :: "mac \<Rightarrow> string \<Rightarrow> (string, pyval) dict \<Rightarrow> bool result" where
  "verify mac secret msg =
     (case dget msg ''signature'' of
        None \<Rightarrow> Inr False
      | Some sig \<Rightarrow>
          if \<not> truthy sig then Inr False
          else (case sig of PStr s \<Rightarrow> Inr (sign mac secret msg = s) | _ \<Rightarrow> Inl TypeError))"

definition sign_bytes :: "mac \<Rightarrow> string \<Rightarrow> string \<Rightarrow> string" where
  "sign_bytes mac secret bytes = mac secret bytes"

definition verify_bytes :: "mac \<Rightarrow> string \<Rightarrow> string \<Rightarrow> string \<Rightarrow> bool" where
  "verify_bytes mac secret bytes sig = (sign_bytes mac secret bytes = sig)"

section \<open>Frames\<close>

text \<open>The signer is the secret, if one is configured.\<close>

definition encode_frame :: "mac \<Rightarrow> string option \<Rightarrow> (string, pyval) dict \<Rightarrow> string" where
  "encode_frame mac signer msg =
     (let body = json_dumps (PDict msg);
          sig = (case signer of None \<Rightarrow> [] | Some secret \<Rightarrow> sign_bytes mac secret body)
      in sig @ ''.'' @ body)"

definition split_frame :: "string \<Rightarrow> string \<times> string" where
  "split_frame wire = (if CHR ''.'' \<in> set wire then partition_on (CHR ''.'') wire else ([], wire))"

section \<open>Round trips\<close>

lemma partition_on_first: "x \<notin> set a \<Longrightarrow> partition_on x (a @ x # b) = (a, b)"
proof -
  assume "x \<notin> set a"
  then have "\<forall>c\<in>set a. c \<noteq> x" by metis
  then show ?thesis by (simp add: partition_on_def takeWhile_append dropWhile_append)
qed

text \<open>
  C30: frames arrive as they were sent. If the digest contains no dot (it is hexadecimal),
  splitting a frame gives back the signature and exactly the body that was signed, whatever
  dots the body contains, and the receiver's check of those bytes succeeds; an unsigned frame
  gives the empty signature.
\<close>

theorem frame_roundtrip:
  assumes "\<And>k b. CHR ''.'' \<notin> set (mac k b)"
  shows "split_frame (encode_frame mac signer msg) =
      ((case signer of None \<Rightarrow> [] | Some k \<Rightarrow> sign_bytes mac k (json_dumps (PDict msg))), json_dumps (PDict msg))
    \<and> (case signer of None \<Rightarrow> True | Some k \<Rightarrow>
         (case split_frame (encode_frame mac signer msg) of (sig, body) \<Rightarrow> verify_bytes mac k body sig))"
  using assms
  by (cases signer) (simp_all add: encode_frame_def split_frame_def partition_on_first Let_def verify_bytes_def sign_bytes_def
      partition_on_first [of _ "[]", simplified])

text \<open>A digest for the witnesses: the length of the bytes, in decimal.\<close>

definition length_mac :: mac where
  "length_mac k b = str_nat (length b)"

lemma length_mac_no_dot: "CHR ''.'' \<notin> set (length_mac k b)"
proof -
  have "\<not> is_digit (CHR ''.'')" by code_simp
  then show ?thesis using str_nat_digits [of "length b"] by (auto simp: length_mac_def is_digits_def list_all_iff)
qed

theorem frame_roundtrip_witness:
  "split_frame (encode_frame length_mac (Some ''k'') [(''v'', PStr ''1.2'')]) = (''11'', json_dumps (PDict [(''v'', PStr ''1.2'')]))"
proof -
  have "sign_bytes length_mac ''k'' (json_dumps (PDict [(''v'', PStr ''1.2'')])) = ''11''" by code_simp
  with frame_roundtrip [of length_mac "Some ''k''" "[(''v'', PStr ''1.2'')]", OF length_mac_no_dot]
  show ?thesis by simp
qed

text \<open>Two messages that differ only in the order of keys, at any depth.\<close>

inductive same_json :: "pyval \<Rightarrow> pyval \<Rightarrow> bool" where
  same: "same_json v v"
| items: "list_all2 same_json xs ys \<Longrightarrow> same_json (PList xs) (PList ys)"
| entries: "wfd d \<Longrightarrow> wfd e \<Longrightarrow> set (dkeys d) = set (dkeys e)
    \<Longrightarrow> (\<And>k x y. dget d k = Some x \<Longrightarrow> dget e k = Some y \<Longrightarrow> same_json x y) \<Longrightarrow> same_json (PDict d) (PDict e)"
monos list_all2_mono

lemma same_sorted:
  assumes "wfd d" "wfd e" "\<And>k. dget d k = dget e k"
  shows "sort_key fst d = sort_key fst (e :: ('k::linorder, 'v) dict)"
proof -
  have "p \<in> set d \<longleftrightarrow> p \<in> set e" for p
    using dget_in_set [OF assms(1)] dget_in_set [OF assms(2)] assms(3) by (cases p) simp
  then have s: "set d = set e" by blast
  have "inj_on fst (set d \<union> set e)"
    using assms(1) by (auto simp: s [symmetric] inj_on_def dest: eq_key_imp_eq_value)
  moreover have "distinct (map fst (sort_key fst d))" "distinct (map fst (sort_key fst e))"
    using assms(1,2) by (simp_all add: distinct_map)
  ultimately show ?thesis
    by (intro map_sorted_distinct_set_unique [of fst]) (simp_all add: s)
qed

lemma dget_mapped: "dget (map (\<lambda>(k, v). (k, f v)) d) k = map_option f (dget d k)"
  by (induction d) auto

lemma canonicalize_same: "same_json v w \<Longrightarrow> canonicalize v = canonicalize w"
proof (induction rule: same_json.induct)
  case (items xs ys)
  then show ?case by (simp add: list_all2_conv_all_nth list_eq_iff_nth_eq)
next
  case (entries d e)
  let ?m = "map (\<lambda>(k, v). (k, canonicalize v))"
  have "dget (?m d) k = dget (?m e) k" for k
  proof (cases "dget d k")
    case None
    then have "k \<notin> set (dkeys e)" using entries(3) by (simp add: map_of_eq_None_iff)
    then have "dget e k = None" by (simp add: map_of_eq_None_iff)
    with None show ?thesis by (simp add: dget_mapped)
  next
    case (Some x)
    then have "k \<in> set (dkeys e)" using entries(3) by (metis domI dom_map_of_conv_image_fst image_set)
    then obtain y where "dget e k = Some y" by (metis domD dom_map_of_conv_image_fst image_set)
    with Some entries(5) show ?thesis by (simp add: dget_mapped)
  qed
  moreover have "wfd (?m d)" "wfd (?m e)" using entries(1,2) by (simp_all add: case_prod_beta comp_def)
  ultimately have "sort_key fst (?m d) = sort_key fst (?m e)" by (intro same_sorted)
  then show ?case by simp
qed simp

inductive_cases same_str: "same_json (PStr s) w"

lemma same_dictE:
  assumes "same_json (PDict d) (PDict e)"
  obtains (same) "e = d"
  | (entries) "wfd d" "wfd e" "set (dkeys d) = set (dkeys e)"
      "\<And>k x y. dget d k = Some x \<Longrightarrow> dget e k = Some y \<Longrightarrow> same_json x y"
  using assms
proof (cases rule: same_json.cases)
  case same
  then show ?thesis using that(1) by simp
next
  case entries
  then show ?thesis using that(2) by blast
qed

lemma truthy_same: "same_json v w \<Longrightarrow> truthy v = truthy w"
proof (induction rule: same_json.induct)
  case (items xs ys)
  then show ?case by (cases xs; cases ys) auto
next
  case (entries d e)
  have "d = [] \<longleftrightarrow> e = []" using entries(3) by (metis list.map_disc_iff set_empty)
  then show ?case by simp
qed simp

lemma same_dget:
  assumes "same_json (PDict d) (PDict e)"
  shows "rel_option same_json (dget d k) (dget e k)"
  using assms
proof (cases rule: same_dictE)
  case same
  then show ?thesis by (cases "dget d k") (simp_all add: same_json.same)
next
  case entries
  show ?thesis
  proof (cases "dget d k")
    case None
    then have "dget e k = None" using entries(3) by (simp add: map_of_eq_None_iff)
    with None show ?thesis by simp
  next
    case (Some x)
    then have "k \<in> set (dkeys e)" using entries(3) by (metis domI dom_map_of_conv_image_fst image_set)
    then obtain y where "dget e k = Some y" by (metis domD dom_map_of_conv_image_fst image_set)
    with Some entries(4) show ?thesis by simp
  qed
qed

lemma same_unsigned:
  assumes "same_json (PDict d) (PDict e)"
  shows "same_json (PDict (unsigned d)) (PDict (unsigned e))"
  using assms
proof (cases rule: same_dictE)
  case same
  then show ?thesis by (simp add: same_json.same)
next
  case entries
  have f: "dget (unsigned x) k = (if k = ''signature'' then None else dget x k)" for x k
    using dget_filter_keys [of "\<lambda>k. k \<noteq> ''signature''" x k] by (simp add: unsigned_def case_prod_beta)
  show ?thesis
  proof (rule same_json.entries)
    show "wfd (unsigned d)" "wfd (unsigned e)" using entries(1,2) by (simp_all add: unsigned_def)
    have "set (dkeys (unsigned x)) = set (dkeys x) - {''signature''}" for x
      by (force simp: unsigned_def)
    then show "set (dkeys (unsigned d)) = set (dkeys (unsigned e))" using entries(3) by simp
    show "same_json x y" if "dget (unsigned d) k = Some x" "dget (unsigned e) k = Some y" for k x y
      using that entries(4) f by (auto split: if_splits)
  qed
qed

lemma same_sign: "same_json (PDict d) (PDict e) \<Longrightarrow> sign mac secret d = sign mac secret e"
  using canonicalize_same [OF same_unsigned] by (simp add: sign_def)

text \<open>
  The order of keys does not matter. Two messages whose objects have, at every depth, the
  same entries in whatever order carry the same signature, and the check of the attached
  signature has the same outcome on both.
\<close>

theorem signature_order_independent:
  assumes "same_json (PDict msg) (PDict msg')"
  shows "sign mac secret msg = sign mac secret msg' \<and> verify mac secret msg = verify mac secret msg'"
proof
  show s: "sign mac secret msg = sign mac secret msg'" by (rule same_sign [OF assms])
  from same_dget [OF assms, of "''signature''"] show "verify mac secret msg = verify mac secret msg'"
  proof (cases rule: option.rel_cases)
    case (Some x y)
    then show ?thesis
      using truthy_same [OF Some(3)] Some(3)
      by (cases x) (auto simp: verify_def s elim: same_json.cases elim!: same_str split: pyval.splits)
  qed (simp add: verify_def)
qed

text \<open>
  A signed message verifies. Attaching the signature of a message to it, whether or not it
  carried an older one, gives a message that verifies under the same secret.
\<close>

theorem signed_verifies:
  assumes "mac secret (json_dumps (canonicalize (PDict (unsigned msg)))) \<noteq> []"
  shows "verify mac secret (dset ''signature'' (PStr (sign mac secret msg)) msg) = Inr True"
proof -
  have "unsigned (dset ''signature'' v msg) = unsigned msg" for v
    by (induction msg) (auto simp: unsigned_def)
  with assms show ?thesis by (simp add: verify_def sign_def)
qed

theorem signed_verifies_witness:
  "verify length_mac ''k'' (dset ''signature'' (PStr (sign length_mac ''k'' [(''a'', PInt 1)])) [(''a'', PInt 1)]) = Inr True"
proof -
  have "length_mac ''k'' (json_dumps (canonicalize (PDict (unsigned [(''a'', PInt 1)])))) \<noteq> []" by code_simp
  then show ?thesis by (rule signed_verifies)
qed

theorem signature_order_independent_witness:
  "sign length_mac ''k'' [(''a'', PInt 1), (''b'', PNone)] = sign length_mac ''k'' [(''b'', PNone), (''a'', PInt 1)]"
proof -
  have "same_json (PDict [(''a'', PInt 1), (''b'', PNone)]) (PDict [(''b'', PNone), (''a'', PInt 1)])"
    by (rule same_json.entries) (auto simp: same_json.same split: if_splits)
  then show ?thesis using signature_order_independent by blast
qed

end
