(* ===== verification/Clone.thy ===== *)
theory Clone
  imports Destroy ProvConfig Pci
begin

text \<open>
  How a VM comes into being (\<open>agent/src/usb_provision.py\<close>): cloning with a USB dongle or a PCI
  controller, and the steps after the clone that all clone paths share. JSON decoding is the
  argument \<open>decode\<close> (\<open>None\<close> where \<open>json.loads\<close> raises).
\<close>

section \<open>Guest commands\<close>

text \<open>The guest script's verdict in the reply of \<open>qm guest exec\<close>; \<open>None\<close> is unknown.\<close>

definition guest_exit :: "pyval option \<Rightarrow> bool option" where
  "guest_exit reply =
     (case reply of
        Some (PDict d) \<Rightarrow>
          (case dget d ''exitcode'' of
             None \<Rightarrow> None
           | Some v \<Rightarrow> if v = PNone then None
                       else (case py_int v of Inl e \<Rightarrow> None | Inr i \<Rightarrow> Some (i = 0)))
      | _ \<Rightarrow> None)"

definition qm_guest_exec_shell ::
    "'h machine \<Rightarrow> (string \<Rightarrow> pyval option) \<Rightarrow> string \<Rightarrow> int \<Rightarrow> int \<Rightarrow> pyval \<Rightarrow> int set option
     \<Rightarrow> ('h, bool option) op" where
  "qm_guest_exec_shell m decode script exec_secs outer_secs vmid prot =
     bnd (lift (assert_sim_vm vmid (prot_or_none prot) SIM_VMIN)) (\<lambda>vid.
     bnd (sh m [''qm'', ''guest'', ''exec'', str_int vid, ''--timeout'', str_int exec_secs, ''--'',
                ''bash'', ''-c'', script] outer_secs False) (\<lambda>(rc, out, err).
     ret (if rc \<noteq> 0 \<or> out = [] then None else guest_exit (decode out))))"

definition quote :: string where "quote = [char_of (39::nat)]"
definition backslash :: string where "backslash = [char_of (92::nat)]"

definition hostname_stamp_script :: "string \<Rightarrow> string" where
  "hostname_stamp_script name =
     ''echo '' @ quote @ name @ quote @ '' > /etc/hostname; ''
     @ ''sed -i '' @ quote @ ''s/^127'' @ backslash @ ''.0'' @ backslash @ ''.1'' @ backslash @ ''.1.*/127.0.1.1''
     @ backslash @ ''t'' @ name @ ''/'' @ quote @ '' /etc/hosts 2>/dev/null || true; ''
     @ ''mkdir -p /etc/cloud/cloud.cfg.d; ''
     @ ''echo '' @ quote @ ''preserve_hostname: true'' @ quote @ '' > /etc/cloud/cloud.cfg.d/99_preserve_hostname.cfg; ''
     @ ''rm -f /var/lib/cloud/sem/config_set_hostname 2>/dev/null || true''"

definition update_script :: string where
  "update_script = ''bash /usr/local/scripts/update.sh''"

section \<open>After the clone\<close>

definition FIRST_REBOOT_SETTLE_S :: rat where "FIRST_REBOOT_SETTLE_S = 60"

text \<open>
  The caller's usb_state: the provisioning pass keeps one in memory and saves it at its end, a
  reclone goes through the file.
\<close>

definition on_usb_state :: "bool \<Rightarrow> (usb_state \<Rightarrow> usb_state) \<Rightarrow> ('h, unit) op" where
  "on_usb_state in_pass f =
     (if in_pass then modify (\<lambda>w. w\<lparr>pass_state := f (pass_state w)\<rparr>)
      else on_disk (\<lambda>d. save_usb_state (f (load_usb_state d)) d))"

definition keepalive :: "'h machine \<Rightarrow> bool \<Rightarrow> int \<Rightarrow> ('h, unit) op" where
  "keepalive m recloned vid = (if recloned then mark_recloning m vid else ret ())"

text \<open>Up to \<open>n\<close> pings; when the agent answered.\<close>

fun wait_agent :: "'h machine \<Rightarrow> int set \<Rightarrow> bool \<Rightarrow> int \<Rightarrow> nat \<Rightarrow> ('h, rat option) op" where
  "wait_agent m prot recloned vid 0 = ret None"
| "wait_agent m prot recloned vid (Suc n) =
     bnd (keepalive m recloned vid) (\<lambda>_.
     bnd (qm_agent_ping m 10 (PInt vid) (Some prot)) (\<lambda>up.
     if up then bnd (now_s m) (\<lambda>t. ret (Some t))
     else bnd (pause m 5) (\<lambda>_. wait_agent m prot recloned vid n)))"

fun stamp_hostname ::
    "'h machine \<Rightarrow> (string \<Rightarrow> pyval option) \<Rightarrow> int set \<Rightarrow> int \<Rightarrow> string \<Rightarrow> nat \<Rightarrow> ('h, unit) op" where
  "stamp_hostname m decode prot vid script 0 = ret ()"
| "stamp_hostname m decode prot vid script (Suc n) =
     bnd (qm_guest_exec_shell m decode script 60 90 (PInt vid) (Some prot)) (\<lambda>r.
     if r = Some True then ret ()
     else bnd (pause m 5) (\<lambda>_. stamp_hostname m decode prot vid script n))"

definition settle_first :: "'h machine \<Rightarrow> rat option \<Rightarrow> ('h, unit) op" where
  "settle_first m agent_up_at =
     (case agent_up_at of
        None \<Rightarrow> ret ()
      | Some up \<Rightarrow>
          bnd (now_s m) (\<lambda>t.
          let remaining = FIRST_REBOOT_SETTLE_S - (t - up) in
          if 0 < remaining then pause m remaining else ret ()))"

fun wait_back :: "'h machine \<Rightarrow> int set \<Rightarrow> bool \<Rightarrow> int \<Rightarrow> rat \<Rightarrow> nat \<Rightarrow> ('h, bool) op" where
  "wait_back m prot recloned vid deadline 0 = throw Diverged"
| "wait_back m prot recloned vid deadline (Suc n) =
     bnd (now_s m) (\<lambda>t.
     if t < deadline then
       bnd (pause m 5) (\<lambda>_.
       bnd (keepalive m recloned vid) (\<lambda>_.
       bnd (qm_agent_ping m 10 (PInt vid) (Some prot)) (\<lambda>up.
       if up then ret True else wait_back m prot recloned vid deadline n)))
     else ret False)"

definition new_retry :: "rat \<Rightarrow> string option \<Rightarrow> int \<Rightarrow> string \<Rightarrow> retry_entry" where
  "new_retry now bus img dtype =
     \<lparr>start_ts = now, last_ts = now, rt_bus = bus, rt_image = img, rt_type = dtype\<rparr>"

definition queue_retry :: "int \<Rightarrow> retry_entry \<Rightarrow> usb_state \<Rightarrow> usb_state" where
  "queue_retry vid e st = st\<lparr>post_prov_retry := dset (str_int vid) e (post_prov_retry st)\<rparr>"

definition run_update ::
    "'h machine \<Rightarrow> (string \<Rightarrow> pyval option) \<Rightarrow> int set \<Rightarrow> int \<Rightarrow> ('h, unit) op" where
  "run_update m decode prot vid =
     except_any (bnd (qm_guest_exec_shell m decode update_script 300 360 (PInt vid) (Some prot)) (\<lambda>_. ret ()))
       (\<lambda>e. ret ())"

text \<open>The steps up to the reboot, and the reboot with what follows it.\<close>

definition first_boot ::
    "'h machine \<Rightarrow> (string \<Rightarrow> pyval option) \<Rightarrow> int set \<Rightarrow> bool \<Rightarrow> int \<Rightarrow> string \<Rightarrow> string \<Rightarrow> ('h, unit) op" where
  "first_boot m decode prot recloned vid name dtype =
     bnd (wait_agent m prot recloned vid 40) (\<lambda>agent_up_at.
     bnd (stamp_hostname m decode prot vid (hostname_stamp_script name) 3) (\<lambda>_.
     bnd (if dtype = [] then ret ()
          else bnd (qm_guest_exec_shell m decode
                      (''echo '' @ quote @ ''sim_phy='' @ dtype @ quote @ '' > /usr/local/scripts/usb-phy-override.conf'')
                      60 90 (PInt vid) (Some prot)) (\<lambda>_. ret ())) (\<lambda>_.
     bnd (on_disk (remove_orphan_vm vid)) (\<lambda>_.
     bnd (settle_first m agent_up_at) (\<lambda>_.
     keepalive m recloned vid)))))"

definition reboot_and_wait ::
    "'h machine \<Rightarrow> int set \<Rightarrow> bool \<Rightarrow> int \<Rightarrow> ('h, bool) op" where
  "reboot_and_wait m prot recloned vid =
     bnd (except_any (bnd (qm_guest_exec m [''reboot''] (PInt vid) (Some prot)) (\<lambda>_. ret ())) (\<lambda>e. ret ())) (\<lambda>_.
     bnd (now_s m) (\<lambda>t. wait_back m prot recloned vid (t + 300) (polls 300 5)))"

definition finish_clone ::
    "'h machine \<Rightarrow> (string \<Rightarrow> pyval option) \<Rightarrow> int set \<Rightarrow> bool \<Rightarrow> int \<Rightarrow> string \<Rightarrow> string option \<Rightarrow> int
     \<Rightarrow> string \<Rightarrow> ('h, bool) op" where
  "finish_clone m decode prot in_pass vid name bus img dtype =
     bnd (now_s m) (\<lambda>t0.
     bnd (on_usb_state in_pass (stamp_post_prov_reboot vid bus img t0)) (\<lambda>_.
     bnd (peek (\<lambda>w. dhas (recloning w) vid)) (\<lambda>recloned.
     bnd (first_boot m decode prot recloned vid name dtype) (\<lambda>_.
     bnd (reboot_and_wait m prot recloned vid) (\<lambda>came_back.
     bnd (if came_back
          then bnd (run_update m decode prot vid) (\<lambda>_. keepalive m recloned vid)
          else bnd (now_s m) (\<lambda>t. on_usb_state in_pass (queue_retry vid (new_retry t bus img dtype)))) (\<lambda>_.
     ret came_back))))))"

section \<open>Cloning with a USB dongle\<close>

text \<open>The commands between clone and start: autostart, the device, the optional VLAN bridge.\<close>

definition configure_clone ::
    "'h machine \<Rightarrow> int set \<Rightarrow> (string, pyval) dict \<Rightarrow> int \<Rightarrow> string list \<Rightarrow> ('h, unit) op" where
  "configure_clone m prot usb_cfg vid device =
     bnd (qm_set m [''--onboot'', ''1'', ''--startup'', ''order=2,up=60''] (PInt vid) (Some prot)) (\<lambda>_.
     bnd (qm_set m device (PInt vid) (Some prot)) (\<lambda>_.
     let vlan = cfg_get usb_cfg ''vlan_nic'' in
     if truthy vlan
     then qm_set m [''-net0'', ''virtio,bridge='' @ py_str vlan] (PInt vid) (Some prot)
     else ret ()))"

text \<open>\<open>dtype\<close> is the dongle's type, if the scan found one.\<close>

definition clone_and_provision ::
    "'h machine \<Rightarrow> (string \<Rightarrow> pyval option) \<Rightarrow> int set \<Rightarrow> (string, pyval) dict \<Rightarrow> int \<Rightarrow> string
     \<Rightarrow> string option \<Rightarrow> int \<Rightarrow> int \<Rightarrow> ('h, unit) op" where
  "clone_and_provision m decode prot usb_cfg vid bus dtype template img =
     (let ty = (case dtype of None \<Rightarrow> ''wireless'' | Some s \<Rightarrow> s);
          name = (if str_set (vm_name m vid) then the (vm_name m vid) else ''sim-'' @ str_int vid @ ''-'' @ ty) in
      bnd (qm_clone m template name (sim_pool usb_cfg) 600 (PInt vid) (Some prot)) (\<lambda>_.
      bnd (configure_clone m prot usb_cfg vid [''-usb0'', ''host='' @ bus]) (\<lambda>_.
      bnd (qm_start m (PInt vid) (Some prot)) (\<lambda>_.
      bnd (now_s m) (\<lambda>t.
      bnd (on_disk (set_assignment vid bus img t)) (\<lambda>_.
      bnd (finish_clone m decode prot True vid name (Some bus) img ty) (\<lambda>_. ret ())))))))"

section \<open>Cloning with a PCI controller\<close>

definition pci_short :: "string \<Rightarrow> string" where
  "pci_short addr = (let a = lower (strip addr) in if has_prefix ''0000:'' a then drop 5 a else a)"

definition hold_pci_for_reclone :: "string \<Rightarrow> int \<Rightarrow> ('h, unit) op" where
  "hold_pci_for_reclone addr vid = modify (\<lambda>w. w\<lparr>pci_hold := dset (pci_short addr) vid (pci_hold w)\<rparr>)"

definition release_pci_hold :: "string \<Rightarrow> ('h, unit) op" where
  "release_pci_hold addr = modify (\<lambda>w. w\<lparr>pci_hold := dpop (pci_short addr) (pci_hold w)\<rparr>)"

text \<open>The short addresses in the \<open>hostpci\<close> entries of a configuration.\<close>

definition first_field :: "string \<Rightarrow> string" where
  "first_field v = strip (takeWhile (\<lambda>c. c \<noteq> CHR '','') v)"

definition config_pci :: "(string, string) dict \<Rightarrow> string list" where
  "config_pci cfg =
     map pci_short (filter (\<lambda>a. a \<noteq> []) (map (\<lambda>p. first_field (snd p)) (filter (\<lambda>p. has_prefix ''hostpci'' (fst p)) cfg)))"

definition add_pci_of :: "'h machine \<Rightarrow> int \<Rightarrow> string list \<Rightarrow> ('h, string list) op" where
  "add_pci_of m vid used =
     except_any (bnd (qm_config m vid) (\<lambda>cfg. ret (used @ config_pci cfg))) (\<lambda>e. ret used)"

definition pci_addrs_in_use :: "'h machine \<Rightarrow> ('h, string set) op" where
  "pci_addrs_in_use m =
     bnd (peek (\<lambda>w. dkeys (pci_hold w))) (\<lambda>held.
     bnd (except_any (bnd (list_all_vmids m) (\<lambda>vids. ret (Some vids))) (\<lambda>e. ret None)) (\<lambda>listing.
     case listing of
       None \<Rightarrow> ret (set held)
     | Some vids \<Rightarrow> bnd (iter (add_pci_of m) vids held) (\<lambda>used. ret (set used))))"

definition free_pci_controllers :: "'h machine \<Rightarrow> pyval list \<Rightarrow> ('h, (string \<times> string) list) op" where
  "free_pci_controllers m vidpids =
     bnd (list_host_pci_by_vidpid m vidpids) (\<lambda>present.
     if present = [] then ret []
     else bnd (pci_addrs_in_use m) (\<lambda>used.
          ret (filter (\<lambda>p. pci_short (fst p) \<notin> used) present)))"

definition clone_and_provision_pci ::
    "'h machine \<Rightarrow> (string \<Rightarrow> pyval option) \<Rightarrow> int set \<Rightarrow> (string, pyval) dict \<Rightarrow> bool \<Rightarrow> int \<Rightarrow> string
     \<Rightarrow> int \<Rightarrow> string \<Rightarrow> ('h, unit) op" where
  "clone_and_provision_pci m decode prot usb_cfg in_pass vid addr template tier =
     (let name = (if str_set (vm_name m vid) then the (vm_name m vid) else ''sim-'' @ str_int vid @ ''-'' @ tier) in
      bnd (qm_clone m template name (sim_pool usb_cfg) 600 (PInt vid) (Some prot)) (\<lambda>_.
      bnd (configure_clone m prot usb_cfg vid [''-hostpci0'', addr @ '',pcie=1'']) (\<lambda>_.
      bnd (qm_start m (PInt vid) (Some prot)) (\<lambda>_.
      bnd (finish_clone m decode prot in_pass vid name None 1 []) (\<lambda>_. ret ())))))"

text \<open>The lowest VMID of the block that may be used; the block is searched upwards.\<close>

function lowest_free :: "int set \<Rightarrow> int set \<Rightarrow> int \<Rightarrow> int \<Rightarrow> int option" where
  "lowest_free in_use prot cand end_vid =
     (if end_vid < cand then None
      else if cand < VMID_DEFAULT_START \<or> cand \<in> in_use \<or> cand \<in> prot
           then lowest_free in_use prot (cand + 1) end_vid
      else Some cand)"
  by pat_completeness auto

termination by (relation "measure (\<lambda>(u, p, cand, end_vid). nat (end_vid + 1 - cand))") auto

declare lowest_free.simps [simp del]

text \<open>One VM per free controller; a failed clone keeps its VMID out of this pass.\<close>

fun clone_controllers ::
    "(int \<Rightarrow> string \<Rightarrow> ('h, unit) op) \<Rightarrow> int set \<Rightarrow> int \<Rightarrow> int \<Rightarrow> int set \<Rightarrow> nat \<Rightarrow> (string \<times> string) list
     \<Rightarrow> ('h, nat) op" where
  "clone_controllers clone prot start_vid end_vid in_use n [] = ret n"
| "clone_controllers clone prot start_vid end_vid in_use n ((addr, vidpid) # free) =
     (case lowest_free in_use prot start_vid end_vid of
        None \<Rightarrow> ret n
      | Some vid \<Rightarrow>
          bnd (except_any (bnd (clone vid addr) (\<lambda>_. ret (Suc n))) (\<lambda>e. ret n)) (\<lambda>k.
          clone_controllers clone prot start_vid end_vid (insert vid in_use) k free))"

definition provision_pci_tier ::
    "'h machine \<Rightarrow> (string \<Rightarrow> pyval option) \<Rightarrow> int set \<Rightarrow> (string, pyval) dict \<Rightarrow> bool \<Rightarrow> string \<Rightarrow> pyval list
     \<Rightarrow> int option \<Rightarrow> int \<Rightarrow> int \<Rightarrow> ('h, nat) op" where
  "provision_pci_tier m decode prot usb_cfg in_pass tier vidpids template start_vid end_vid =
     (case template of
        None \<Rightarrow> ret 0
      | Some tpl \<Rightarrow>
          if vidpids = [] \<or> tpl = 0 then ret 0
          else bnd (free_pci_controllers m vidpids) (\<lambda>free.
               if free = [] then ret 0
               else bnd (except_any (list_all_vmids m) (\<lambda>e. ret [])) (\<lambda>listed.
                    bnd (peek (\<lambda>w. dvals (pci_hold w))) (\<lambda>held.
                    clone_controllers (\<lambda>vid addr. clone_and_provision_pci m decode prot usb_cfg in_pass vid addr tpl tier)
                      prot start_vid end_vid (set listed \<union> set held) 0 free))))"

section \<open>What the steps leave alone\<close>

context inside_view
begin

lemma keeps_guest_commands [keeps_intro]:
  "keeps f (qm_guest_exec_shell m decode script x y v p)" "keeps f (qm_guest_exec m cmd v p)"
  "keeps f (qm_set m args v p)" "keeps f (qm_start m v p)" "keeps f (qm_clone m tpl nm pool secs v p)"
  by (auto simp: qm_guest_exec_shell_def qm_guest_exec_def qm_set_def qm_start_def qm_clone_def intro!: keeps_intro)

lemma keeps_stamp_hostname [keeps_intro]: "keeps f (stamp_hostname m decode prot vid script n)"
  by (induction n) (auto intro!: keeps_intro)

lemma keeps_settle_first [keeps_intro]: "keeps f (settle_first m up)"
  by (auto simp: settle_first_def Let_def split: option.splits intro!: keeps_intro)

end

text \<open>A part of the world that the recloning marks do not change either.\<close>

locale badge_view = inside_view +
  assumes f_badge: "f (w\<lparr>recloning := b\<rparr>) = f w"
    and f_ledger: "f (w\<lparr>ledger_of := l\<rparr>) = f w"
begin

lemma keeps_keepalive [keeps_intro]: "keeps f (keepalive m r vid)"
  by (auto simp: keepalive_def mark_recloning_def f_badge intro!: keeps_intro keeps_modify)

lemma keeps_wait_agent [keeps_intro]: "keeps f (wait_agent m prot r vid n)"
  by (induction n) (auto intro!: keeps_intro)

lemma keeps_wait_back [keeps_intro]: "keeps f (wait_back m prot r vid d n)"
  by (induction n) (auto intro!: keeps_intro)

lemma keeps_reboot [keeps_intro]:
  "keeps f (reboot_and_wait m prot r vid)" "keeps f (run_update m decode prot vid)"
  by (auto simp: reboot_and_wait_def run_update_def intro!: keeps_intro)

lemma keeps_first_boot:
  "(\<And>w. f (w\<lparr>store := remove_orphan_vm vid (store w)\<rparr>) = f w)
    \<Longrightarrow> keeps f (first_boot m decode prot r vid nm ty)"
  by (auto simp: first_boot_def on_disk_def intro!: keeps_intro keeps_modify)

end

text \<open>The caller's usb_state, as \<open>on_usb_state\<close> writes it.\<close>

definition usb_of :: "bool \<Rightarrow> 'h world \<Rightarrow> usb_state" where
  "usb_of in_pass w = (if in_pass then pass_state w else load_usb_state (store w))"

interpretation disk_view: badge_view store
  by unfold_locales simp_all

interpretation hold_view: badge_view pci_hold
  by unfold_locales simp_all

interpretation mem_view: badge_view pass_state
  by unfold_locales simp_all

lemma on_usb_state_run:
  assumes "in_pass \<or> faults (store w) = []"
  obtains w' where "on_usb_state in_pass g w = (Inr (), w')" "usb_of in_pass w' = g (usb_of in_pass w)"
    "in_pass \<or> faults (store w') = []"
  using assms by (cases in_pass) (simp_all add: on_usb_state_def on_disk_def usb_of_def)

section \<open>The steps end\<close>

lemma bnd_now: "bnd (now_s m) f w = f (m_clock m (host w)) w"
  by (simp add: bnd_def now_s_def)

lemma bnd_assoc: "bnd (bnd p f) g = bnd p (\<lambda>x. bnd (f x) g)"
  by (auto simp: fun_eq_iff bnd_def split: prod.splits sum.splits)

lemma ends_guest_commands [ends_intro]:
  "ends (qm_guest_exec_shell m decode script x y v p)" "ends (qm_guest_exec m cmd v p)"
  "ends (qm_set m args v p)" "ends (qm_start m v p)" "ends (qm_clone m tpl nm pool secs v p)"
  "ends (qm_agent_ping m s v p)" "ends (keepalive m r vid)" "ends (settle_first m up)"
  "ends (on_usb_state b g)" "ends (run_update m decode prot vid)"
  by (auto simp: qm_guest_exec_shell_def qm_guest_exec_def qm_set_def qm_start_def qm_clone_def qm_agent_ping_def
      keepalive_def mark_recloning_def settle_first_def on_usb_state_def run_update_def Let_def
      intro!: ends_intro split: option.splits)

lemma ends_tries [ends_intro]:
  "ends (wait_agent m prot r vid n)" "ends (stamp_hostname m decode prot vid script n)"
  by (induction n) (auto intro!: ends_intro)

lemma advances_ping: "clock_ok m \<Longrightarrow> advances m (qm_agent_ping m s v p)"
  unfolding qm_agent_ping_def
  by (intro advances_bnd advances_sh) (auto simp: advances_def split: prod.splits)

lemma wait_back_ends:
  assumes "clock_ok m"
  shows "deadline - m_clock m (host w) \<le> of_nat n * 5
    \<Longrightarrow> fst (wait_back m prot r vid deadline (Suc n) w) \<noteq> Inl Diverged"
proof (induction n arbitrary: w)
  case 0
  then show ?case by (simp add: bnd_def now_s_def)
next
  case (Suc n)
  let ?w1 = "snd (pause m 5 w)"
  let ?p = "bnd (keepalive m r vid) (\<lambda>_. qm_agent_ping m 10 (PInt vid) (Some prot))"
  obtain x w2 where p: "?p ?w1 = (x, w2)" by (cases "?p ?w1")
  have "keeps host (keepalive m r vid)"
    unfolding keepalive_def mark_recloning_def by (intro keeps_intro keeps_modify) simp
  then have "advances m (keepalive m r vid)" by (simp add: advances_def keeps_def)
  then have "advances m ?p" by (rule advances_bnd) (rule advances_ping [OF assms])
  then have "m_clock m (host ?w1) \<le> m_clock m (host w2)" using p by (auto simp: advances_def) (metis snd_conv)
  moreover have "m_clock m (host w) + 5 \<le> m_clock m (host ?w1)"
    using clock_pause [OF assms, of 5 "host w"] by (simp add: pause_def)
  ultimately have "deadline - m_clock m (host w2) \<le> of_nat n * 5" using Suc.prems by (simp add: distrib_right)
  note IH = Suc.IH [OF this]
  have "ends ?p" by (auto intro!: ends_intro)
  then have x: "x \<noteq> Inl Diverged" using p by (auto simp: ends_def) (metis fst_conv)
  have step: "wait_back m prot r vid deadline (Suc (Suc n)) =
      bnd (now_s m) (\<lambda>t. if t < deadline then bnd (pause m 5) (\<lambda>_. bnd ?p (\<lambda>up.
        if up then ret True else wait_back m prot r vid deadline (Suc n))) else ret False)"
    by (subst wait_back.simps) (simp only: bnd_assoc)
  have "bnd (pause m 5) g w = g () ?w1" for g :: "unit \<Rightarrow> ('a, bool) op" by (simp add: bnd_def pause_def)
  then have run: "wait_back m prot r vid deadline (Suc (Suc n)) w =
      (if m_clock m (host w) < deadline
       then (case x of Inl e \<Rightarrow> (Inl e, w2)
             | Inr up \<Rightarrow> if up then (Inr True, w2) else wait_back m prot r vid deadline (Suc n) w2)
       else (Inr False, w))"
    unfolding step using p by (simp add: bnd_def now_s_def split: sum.split)
  show ?case unfolding run using IH x by (auto simp del: wait_back.simps split: sum.split)
qed

lemma ends_reboot: "clock_ok m \<Longrightarrow> ends (reboot_and_wait m prot r vid)"
proof -
  assume ok: "clock_ok m"
  have "ends (bnd (now_s m) (\<lambda>t. wait_back m prot r vid (t + 300) (polls 300 5)))"
    unfolding ends_def
  proof
    fix w :: "'a world"
    have "polls 300 5 = Suc 60" by (simp add: polls_def)
    then show "fst (bnd (now_s m) (\<lambda>t. wait_back m prot r vid (t + 300) (polls 300 5)) w) \<noteq> Inl Diverged"
      using wait_back_ends [OF ok, of "m_clock m (host w) + 300" w 60] by (simp add: bnd_def now_s_def)
  qed
  moreover have "ends (except_any (bnd (qm_guest_exec m [''reboot''] (PInt vid) (Some prot)) (\<lambda>_. ret ())) (\<lambda>e. ret ()))"
    by (intro ends_intro)
  ultimately show ?thesis unfolding reboot_and_wait_def by (rule ends_bnd [rotated])
qed

lemma ends_finish_clone:
  "clock_ok m \<Longrightarrow> ends (finish_clone m decode prot in_pass vid nm bus img ty)"
  unfolding finish_clone_def first_boot_def by (intro ends_intro ends_reboot)

section \<open>How a clone is finished\<close>

lemma meets_first_boot:
  "meets d (first_boot m decode prot r vid nm ty) (\<lambda>res d'. d' = d \<or> d' = remove_orphan_vm vid d)"
proof -
  let ?Q = "\<lambda>res d'. d' = d \<or> d' = remove_orphan_vm vid d"
  have after: "meets d (bnd (on_disk (remove_orphan_vm vid)) (\<lambda>_. bnd (settle_first m up) (\<lambda>_. keepalive m r vid))) ?Q" for up
    by (rule meets_bnd [where R = "\<lambda>res d'. d' = remove_orphan_vm vid d"])
       (auto intro!: meets_on_disk meets_keeps keeps_intro store_view.keeps_settle_first disk_view.keeps_keepalive)
  show ?thesis
    unfolding first_boot_def
    by (rule meets_then, rule disk_view.keeps_wait_agent, rule meets_then, rule store_view.keeps_stamp_hostname,
        rule meets_then)
       (auto intro!: after keeps_intro store_view.keeps_guest_commands)
qed

lemma first_boot_run:
  assumes "first_boot m decode prot r vid nm ty w = (x, w')"
  shows "usb_of in_pass w' = usb_of in_pass w" "faults (store w) = [] \<Longrightarrow> faults (store w') = []"
proof -
  have d: "store w' = store w \<or> store w' = remove_orphan_vm vid (store w)"
    using meetsD [OF meets_first_boot assms] .
  have "pass_state w' = pass_state w"
    by (rule keepsD [OF mem_view.keeps_first_boot assms]) simp
  with d show "usb_of in_pass w' = usb_of in_pass w" by (auto simp: usb_of_def remove_orphan_vm_def)
  from d show "faults (store w) = [] \<Longrightarrow> faults (store w') = []" by (auto simp: remove_orphan_vm_def)
qed

lemma same_usb: "keeps store p \<Longrightarrow> keeps pass_state p \<Longrightarrow> p w = (x, w')
    \<Longrightarrow> usb_of b w' = usb_of b w \<and> store w' = store w"
  by (auto simp: usb_of_def dest: keepsD)

text \<open>
  How a clone is finished. The steps after the clone end on every host whose clock runs.
  When they return, the usb_state they were given has exactly two possible changes: the settle
  reboot is queued for fifteen minutes after they began, and, if and only if the guest did not
  come back from its first reboot, the VM is queued for the post-provisioning retry with its
  bus, its image and the type of its dongle. No assignment changes.
\<close>

theorem finish_clone_outcome:
  assumes clock: "clock_ok m" and ok: "in_pass \<or> faults (store w) = []"
    and run: "finish_clone m decode prot in_pass vid nm bus img ty w = (r, w')"
  shows "r \<noteq> Inl Diverged \<and> (\<forall>b. r = Inr b \<longrightarrow> (\<exists>t. usb_of in_pass w' =
      (if b then (\<lambda>st. st) else queue_retry vid (new_retry t bus img ty))
        (stamp_post_prov_reboot vid bus img (m_clock m (host w)) (usb_of in_pass w))))"
proof (intro conjI allI impI)
  show "r \<noteq> Inl Diverged" using ends_finish_clone [OF clock] run unfolding ends_def by (metis fst_conv)
next
  fix b assume b: "r = Inr b"
  let ?st = "stamp_post_prov_reboot vid bus img (m_clock m (host w)) (usb_of in_pass w)"
  obtain w1 where s1: "on_usb_state in_pass (stamp_post_prov_reboot vid bus img (m_clock m (host w))) w = (Inr (), w1)"
    and u1: "usb_of in_pass w1 = ?st" and ok1: "in_pass \<or> faults (store w1) = []"
    by (rule on_usb_state_run [OF ok])
  let ?rec = "dhas (recloning w1) vid"
  obtain u w2 where s2: "first_boot m decode prot ?rec vid nm ty w1 = (Inr (u :: unit), w2)"
    using run b by (auto simp: finish_clone_def now_s_def s1 bnd_Inr elim!: bnd_InrD)
  have u2: "usb_of in_pass w2 = ?st" and ok2: "in_pass \<or> faults (store w2) = []"
    using first_boot_run [OF s2] u1 ok1 by auto
  obtain came w3 where s3: "reboot_and_wait m prot ?rec vid w2 = (Inr came, w3)"
    using run b by (auto simp: finish_clone_def now_s_def s1 s2 bnd_Inr elim!: bnd_InrD)
  have u3: "usb_of in_pass w3 = ?st" and ok3: "in_pass \<or> faults (store w3) = []"
    using same_usb [OF disk_view.keeps_reboot(1) mem_view.keeps_reboot(1) s3] u2 ok2 by auto
  show "\<exists>t. usb_of in_pass w' = (if b then (\<lambda>st. st) else queue_retry vid (new_retry t bus img ty)) ?st"
  proof (cases came)
    case True
    let ?p = "bnd (run_update m decode prot vid) (\<lambda>_. keepalive m ?rec vid)"
    have "bnd ?p (\<lambda>_. ret True) w3 = (Inr b, w')"
      using run b True by (simp add: finish_clone_def now_s_def s1 s2 s3 bnd_Inr)
    then obtain u w4 where "?p w3 = (Inr (u :: unit), w4)" "ret True w4 = (Inr b, w')" by (rule bnd_InrD)
    then have b: "b" and "?p w3 = (Inr u, w')" by simp_all
    moreover have "keeps store ?p" "keeps pass_state ?p"
      by (intro keeps_intro disk_view.keeps_reboot disk_view.keeps_keepalive,
          intro keeps_intro mem_view.keeps_reboot mem_view.keeps_keepalive)
    ultimately have "usb_of in_pass w' = usb_of in_pass w3" using same_usb by blast
    then show ?thesis using u3 b by simp
  next
    case False
    let ?q = "queue_retry vid (new_retry (m_clock m (host w3)) bus img ty)"
    obtain w4 where s4: "on_usb_state in_pass ?q w3 = (Inr (), w4)" and u4: "usb_of in_pass w4 = ?q (usb_of in_pass w3)"
      by (rule on_usb_state_run [OF ok3])
    have "(Inr False, w4) = (Inr b, w')"
      using run b False s4 by (simp add: finish_clone_def now_s_def s1 s2 s3 bnd_Inr)
    then show ?thesis using u3 u4 by auto
  qed
qed

text \<open>A host on which every command succeeds at once and prints \<open>ok\<close>.\<close>

definition ready_host :: "rat machine" where
  "ready_host = still_host\<lparr>m_exec := (\<lambda>a t h. (Exited 0 ''ok'' [], h))\<rparr>"

lemma ready_host_simps [simp]:
  "m_exec ready_host a t h = (Exited 0 ''ok'' [], h)" "m_clock ready_host h = h" "m_pause ready_host d h = h + d"
  "m_write ready_host c h = (True, h)"
  by (simp_all add: ready_host_def still_host_def)

lemma ready_host_clock: "clock_ok ready_host"
  by (simp add: clock_ok_def)

lemma guard_90001 [simp]: "assert_sim_vm (PInt 90001) {} SIM_VMIN = Inr 90001"
  by (simp add: assert_sim_vm_def SIM_VMIN_def)

text \<open>Operations that give the same result in every world.\<close>

definition gives :: "('h, 'a) op \<Rightarrow> 'a \<Rightarrow> bool" where
  "gives p x \<longleftrightarrow> (\<forall>w. \<exists>w'. p w = (Inr x, w'))"

lemma gives_ret: "gives (ret x) x" "gives (on_disk g) ()" "gives (pause m d) ()"
  by (simp_all add: gives_def on_disk_def pause_def)

lemma gives_bnd: "gives p x \<Longrightarrow> gives (f x) y \<Longrightarrow> gives (bnd p f) y"
  unfolding gives_def bnd_def by (metis (no_types, lifting) case_prod_conv sum.simps(6))

lemma gives_after: "returns p \<Longrightarrow> (\<And>x. gives (f x) y) \<Longrightarrow> gives (bnd p f) y"
  unfolding gives_def bnd_def by (metis (no_types, lifting) case_prod_conv returnsD sum.simps(6))

lemma gives_except: "gives p x \<Longrightarrow> gives (except_any p h) x"
  unfolding gives_def except_any_def catch_def by (metis (no_types, lifting) case_prod_conv sum.simps(6))

lemma gives_returns: "gives p x \<Longrightarrow> returns p"
  unfolding gives_def returns_def by (metis fst_conv)

abbreviation exit0 :: "string \<Rightarrow> pyval option" where
  "exit0 s \<equiv> Some (PDict [(''exitcode'', PInt 0)])"

lemma ready_ops:
  "gives (qm_agent_ping ready_host s (PInt 90001) (Some {})) True"
  "gives (qm_guest_exec_shell ready_host exit0 script x y (PInt 90001) (Some {})) (Some True)"
  "gives (qm_guest_exec ready_host cmd (PInt 90001) (Some {})) True"
  "gives (keepalive ready_host r v) ()"
proof -
  have s: "gives (sh ready_host a t c) (0, ''ok'', [])" for a t c
    by (simp add: gives_def sh_def run_command_def bnd_def)
  show "gives (qm_agent_ping ready_host s (PInt 90001) (Some {})) True"
    by (simp add: qm_agent_ping_def) (rule gives_bnd [OF s], simp add: gives_def)
  show "gives (qm_guest_exec_shell ready_host exit0 script x y (PInt 90001) (Some {})) (Some True)"
    by (simp add: qm_guest_exec_shell_def) (rule gives_bnd [OF s], simp add: gives_def guest_exit_def)
  show "gives (qm_guest_exec ready_host cmd (PInt 90001) (Some {})) True"
    by (simp add: qm_guest_exec_def) (rule gives_bnd [OF s], simp add: gives_def)
  show "gives (keepalive ready_host r v) ()"
    by (simp add: gives_def keepalive_def mark_recloning_def bnd_def now_s_def)
qed

lemma returns_given: "gives p x \<Longrightarrow> returns (f x) \<Longrightarrow> returns (bnd p f)"
  unfolding gives_def returns_def bnd_def by (metis (no_types, lifting) case_prod_conv sum.simps(6))

lemma ready_first_boot: "gives (first_boot ready_host exit0 {} r 90001 nm []) ()"
proof -
  have "returns (wait_agent ready_host {} r 90001 (Suc n))" for n
    unfolding wait_agent.simps
    by (rule returns_given [OF ready_ops(4)], rule returns_given [OF ready_ops(1)]) (auto intro!: returns_intro)
  from this [of 39] have w: "returns (wait_agent ready_host {} r 90001 40)" by (simp del: wait_agent.simps)
  have "gives (stamp_hostname ready_host exit0 {} 90001 sc (Suc n)) ()" for sc n
    unfolding stamp_hostname.simps by (rule gives_bnd [OF ready_ops(2)]) (simp only: if_True gives_ret refl)
  from this [of _ 2] have s: "gives (stamp_hostname ready_host exit0 {} 90001 sc 3) ()" for sc
    by (simp del: stamp_hostname.simps)
  have t: "returns (settle_first ready_host up)" for up
    by (auto simp: settle_first_def Let_def intro!: returns_intro split: option.splits)
  have i: "gives (if [] = [] then ret () else p) ()" for p :: "(rat, unit) op" by (simp add: gives_def)
  show ?thesis
    unfolding first_boot_def
    apply (rule gives_after [OF w])
    apply (rule gives_bnd [OF s])
    apply (rule gives_bnd [OF i])
    apply (rule gives_bnd [OF gives_ret(2)])
    apply (rule gives_after [OF t])
    apply (rule ready_ops(4))
    done
qed

lemma ready_reboot: "gives (reboot_and_wait ready_host {} r 90001) True"
proof -
  have n: "polls 300 5 = Suc 60" by (simp add: polls_def)
  have "gives (bnd (now_s ready_host) (\<lambda>t. wait_back ready_host {} r 90001 (t + 300) (Suc 60))) True"
    unfolding gives_def
  proof
    fix w :: "rat world"
    have "gives (bnd (pause ready_host 5) (\<lambda>_. bnd (keepalive ready_host r 90001) (\<lambda>_.
        bnd (qm_agent_ping ready_host 10 (PInt 90001) (Some {})) (\<lambda>up.
        if up then ret True else wait_back ready_host {} r 90001 d 60)))) True" for d
      by (rule gives_bnd [OF gives_ret(3)], rule gives_bnd [OF ready_ops(4)], rule gives_bnd [OF ready_ops(1)])
         (simp only: if_True gives_ret)
    then have "\<exists>w'. wait_back ready_host {} r 90001 (host w + 300) (Suc 60) w = (Inr True, w')"
      unfolding wait_back.simps by (simp add: bnd_now gives_def del: wait_back.simps)
    then show "\<exists>w'. bnd (now_s ready_host) (\<lambda>t. wait_back ready_host {} r 90001 (t + 300) (Suc 60)) w = (Inr True, w')"
      by (simp add: bnd_now del: wait_back.simps)
  qed
  then show ?thesis
    unfolding reboot_and_wait_def n
    by (intro gives_bnd [OF gives_except [OF gives_bnd [OF ready_ops(3) gives_ret(1)]]])
qed

lemma ready_finish_clone:
  "gives (finish_clone ready_host exit0 {} in_pass 90001 nm None 1 []) True"
proof -
  have "gives (run_update ready_host exit0 {} 90001) ()"
    unfolding run_update_def by (rule gives_except [OF gives_bnd [OF ready_ops(2) gives_ret(1)]])
  then have u: "gives (bnd (run_update ready_host exit0 {} 90001) (\<lambda>_. keepalive ready_host r 90001)) ()" for r
    by (rule gives_bnd) (rule ready_ops(4))
  have o: "gives (on_usb_state in_pass g) ()" for g :: "usb_state \<Rightarrow> usb_state"
    by (simp add: gives_def on_usb_state_def on_disk_def)
  show ?thesis
    unfolding finish_clone_def
    apply (rule gives_after [OF returns_pure(5)])
    apply (rule gives_bnd [OF o])
    apply (rule gives_after [OF returns_pure(2)])
    apply (rule gives_bnd [OF ready_first_boot])
    apply (rule gives_bnd [OF ready_reboot])
    apply (rule gives_bnd)
     apply (simp only: if_True)
     apply (rule u)
    apply (rule gives_ret)
    done
qed

theorem finish_clone_outcome_witness:
  "\<exists>w'. finish_clone ready_host exit0 {} False 90001 ''sim'' None 1 [] (fresh_world 0) = (Inr True, w')
    \<and> map_option reboot_at (dget (post_prov_reboot (load_usb_state (store w'))) (str_int 90001)) = Some 900"
proof -
  have f: "faults (store (fresh_world (0 :: rat))) = []" by (simp add: fresh_world_def empty_disk_def)
  obtain w' where run: "finish_clone ready_host exit0 {} False 90001 ''sim'' None 1 [] (fresh_world 0) = (Inr True, w')"
    using ready_finish_clone unfolding gives_def by blast
  have "host (fresh_world (0 :: rat)) = 0" by (simp add: fresh_world_def)
  with finish_clone_outcome [OF ready_host_clock disjI2 [OF f] run] run show ?thesis
    by (auto simp: usb_of_def stamp_post_prov_reboot_def POST_PROV_REBOOT_DELAY_S_def)
qed

section \<open>What the PCI tier hands out\<close>

text \<open>The target of a clone command and the value of a \<open>-hostpci0\<close> setting.\<close>

fun clone_target :: "event \<Rightarrow> string option" where
  "clone_target (Cmd (q # c # tpl # v # rest) r) = (if q = ''qm'' \<and> c = ''clone'' then Some v else None)"
| "clone_target e = None"

fun attach_value :: "event \<Rightarrow> string option" where
  "attach_value (Cmd [q, s, v, opt, x] r) = (if q = ''qm'' \<and> s = ''set'' \<and> opt = ''-hostpci0'' then Some x else None)"
| "attach_value e = None"

definition cloned :: "event list \<Rightarrow> string list" where
  "cloned es = List.map_filter clone_target es"

definition attached :: "event list \<Rightarrow> string list" where
  "attached es = List.map_filter attach_value es"

lemma cloned_simps [simp]:
  "cloned [] = []" "cloned (es @ fs) = cloned es @ cloned fs" "attached [] = []"
  "attached (es @ fs) = attached es @ attached fs"
  "cloned [e] = (case clone_target e of None \<Rightarrow> [] | Some v \<Rightarrow> [v])"
  "attached [e] = (case attach_value e of None \<Rightarrow> [] | Some v \<Rightarrow> [v])"
  by (simp_all add: cloned_def attached_def List.map_filter_def split: option.split)

definition quiet :: "event \<Rightarrow> bool" where
  "quiet e \<longleftrightarrow> clone_target e = None \<and> attach_value e = None"

lemma quiet_simps [simp]: "quiet (Slept d)" "quiet (Sent k x)" "quiet (Detached a)"
  by (simp_all add: quiet_def)

lemma quiet_cmd: "a = [] \<or> hd a \<noteq> ''qm'' \<or> take 2 a \<notin> {[''qm'', ''clone''], [''qm'', ''set'']} \<Longrightarrow> quiet (Cmd a r)"
  by (cases "(Cmd a r)" rule: clone_target.cases; cases "Cmd a r" rule: attach_value.cases) (auto simp: quiet_def)

lemma quiet_events: "list_all quiet es \<Longrightarrow> cloned es = [] \<and> attached es = []"
  by (induction es) (auto simp: cloned_def attached_def List.map_filter_def quiet_def)

lemma emits_quiet [emits_intro]:
  "emits quiet (qm_agent_ping m s v p)" "emits quiet (qm_guest_exec m c v p)"
  "emits quiet (qm_guest_exec_shell m decode sc x y v p)" "emits quiet (qm_start m v p)"
  "emits quiet (keepalive m r vid)" "emits quiet (settle_first m up)" "emits quiet (on_usb_state b g)"
  "emits quiet (list_all_vmids m)" "emits quiet (qm_config m vid)" "emits quiet (list_host_pci_by_vidpid m vps)"
  by (auto simp: qm_agent_ping_def qm_guest_exec_def qm_guest_exec_shell_def qm_start_def keepalive_def
      mark_recloning_def settle_first_def on_usb_state_def list_all_vmids_def list_qemu_vmids_def qm_config_def
      guest_config_def list_host_pci_by_vidpid_def Let_def
      intro!: emits_intro emits_modify quiet_cmd split: option.splits guest.splits)

lemma emits_quiet_loops [emits_intro]:
  "emits quiet (wait_agent m prot r vid n)" "emits quiet (stamp_hostname m decode prot vid sc n)"
  "emits quiet (wait_back m prot r vid d n)"
  by (induction n) (auto intro!: emits_intro)

lemma emits_quiet_finish [emits_intro]: "emits quiet (finish_clone m decode prot b vid nm bus img ty)"
  by (auto simp: finish_clone_def first_boot_def reboot_and_wait_def run_update_def intro!: emits_intro)

lemma emits_quiet_pci [emits_intro]: "emits quiet (free_pci_controllers m vps)"
  by (auto simp: free_pci_controllers_def pci_addrs_in_use_def add_pci_of_def intro!: emits_intro)

lemma yields_quiet: "emits quiet p \<Longrightarrow> yields p (\<lambda>r es. cloned es = [] \<and> attached es = [])"
  unfolding emits_def by (erule yields_mono) (simp add: quiet_events)

lemma yields_pci_clone:
  "yields (clone_and_provision_pci m decode prot cfg b vid addr tpl tier)
     (\<lambda>r es. (cloned es = [] \<or> cloned es = [str_int vid]) \<and> list_all (\<lambda>x. x = addr @ '',pcie=1'') (attached es))"
proof -
  define Q where "Q c es \<longleftrightarrow> (cloned es = [] \<or> c \<and> cloned es = [str_int vid]) \<and> list_all (\<lambda>x. x = addr @ '',pcie=1'') (attached es)"
    for c es
  have guard: "yields (bnd (lift (assert_sim_vm (PInt vid) (prot_or_none (Some prot)) SIM_VMIN)) f) (\<lambda>r. Q c)"
    if "yields (f vid) (\<lambda>r. Q c)" for f :: "int \<Rightarrow> ('a, unit) op" and c
  proof (cases "assert_sim_vm (PInt vid) (prot_or_none (Some prot)) SIM_VMIN")
    case (Inl e)
    then show ?thesis by (simp add: yields_throw Q_def)
  next
    case (Inr v)
    then have "v = vid" by (simp add: assert_sim_vm_Inr)
    with Inr that show ?thesis by simp
  qed
  have one: "yields (bnd (sh m a s k) (\<lambda>_. ret ())) (\<lambda>r. Q c)" if "\<And>x. Q c [Cmd a x]" for a s k c
    by (rule yields_bnd [OF yields_sh, where QB = "\<lambda>x r es. es = []"]) (use that in \<open>auto simp: yields_def\<close>)
  have q': "yields p (\<lambda>r. Q False)" if "emits quiet p" for p :: "('a, unit) op"
    by (rule yields_mono [OF yields_quiet [OF that]]) (simp add: Q_def)
  have seq: "yields (bnd p f) (\<lambda>r. Q c)" if "yields p (\<lambda>r. Q c)" "\<And>x. yields (f x) (\<lambda>r. Q False)"
    for p :: "('a, 'c) op" and f :: "'c \<Rightarrow> ('a, unit) op" and c
    by (rule yields_bnd [OF that]) (auto simp: Q_def)
  have set: "yields (qm_set m args (PInt vid) (Some prot)) (\<lambda>r. Q False)" if "\<And>x. Q False [Cmd ([''qm'', ''set'', str_int vid] @ args) x]" for args
    unfolding qm_set_def by (rule guard, rule one, rule that)
  have conf: "yields (configure_clone m prot cfg vid [''-hostpci0'', addr @ '',pcie=1'']) (\<lambda>r. Q False)"
    unfolding configure_clone_def Let_def
    by (intro seq set) (auto simp: Q_def intro!: set yields_ret)
  have clone: "yields (qm_clone m tpl nm pool 600 (PInt vid) (Some prot)) (\<lambda>r. Q True)" for nm pool
    unfolding qm_clone_def by (rule guard, rule one) (simp add: Q_def)
  have "yields (bnd (finish_clone m decode prot b vid nm None 1 []) (\<lambda>_. ret ())) (\<lambda>r. Q False)" for nm
    by (rule q') (intro emits_intro)
  then have "yields (clone_and_provision_pci m decode prot cfg b vid addr tpl tier) (\<lambda>r. Q True)"
    unfolding clone_and_provision_pci_def Let_def
    by (intro seq clone conf q' emits_intro)
  then show ?thesis by (rule yields_mono) (auto simp: Q_def)
qed

lemma lowest_free_fits:
  "lowest_free used prot cand hi = Some vid \<Longrightarrow>
     cand \<le> vid \<and> vid \<le> hi \<and> 90000 \<le> vid \<and> vid \<notin> used \<and> vid \<notin> prot"
proof (induction used prot cand hi rule: lowest_free.induct)
  case (1 used prot cand hi)
  from 1(2) have "(if hi < cand then None
      else if cand < VMID_DEFAULT_START \<or> cand \<in> used \<or> cand \<in> prot then lowest_free used prot (cand + 1) hi
      else Some cand) = Some vid"
    by (simp only: lowest_free.simps [of used prot cand hi])
  with 1(1) show ?case by (auto simp: VMID_DEFAULT_START_def split: if_splits)
qed

definition fits :: "int set \<Rightarrow> int \<Rightarrow> int \<Rightarrow> int set \<Rightarrow> string \<Rightarrow> bool" where
  "fits prot lo hi used v \<longleftrightarrow> (\<exists>vid. v = str_int vid \<and> lo \<le> vid \<and> vid \<le> hi \<and> 90000 \<le> vid \<and> vid \<notin> prot \<and> vid \<notin> used)"

definition at_one_of :: "(string \<times> string) list \<Rightarrow> string \<Rightarrow> bool" where
  "at_one_of free x \<longleftrightarrow> (\<exists>p\<in>set free. x = fst p @ '',pcie=1'')"

lemma clone_controllers_events:
  assumes clone: "\<And>vid addr. yields (clone vid addr) (\<lambda>r es. (cloned es = [] \<or> cloned es = [str_int vid])
      \<and> list_all (\<lambda>x. x = addr @ '',pcie=1'') (attached es))"
  shows "yields (clone_controllers clone prot lo hi used n free)
    (\<lambda>r es. distinct (cloned es) \<and> list_all (fits prot lo hi used) (cloned es) \<and> list_all (at_one_of free) (attached es))"
proof (induction free arbitrary: used n)
  case Nil
  then show ?case by (simp add: yields_Pair)
next
  case (Cons p free)
  obtain addr vp where p: "p = (addr, vp)" by force
  show ?case
  proof (cases "lowest_free used prot lo hi")
    case None
    then show ?thesis by (simp add: p yields_Pair)
  next
    case (Some vid)
    note fit = lowest_free_fits [OF Some]
    let ?Q = "\<lambda>r es. (cloned es = [] \<or> cloned es = [str_int vid]) \<and> list_all (\<lambda>x. x = addr @ '',pcie=1'') (attached es)"
    have "yields (bnd (clone vid addr) (\<lambda>_. ret (Suc n))) ?Q"
      by (rule yields_bnd [OF clone, where QB = "\<lambda>x r es. es = []"]) (auto simp: yields_def)
    then have one: "yields (except_any (bnd (clone vid addr) (\<lambda>_. ret (Suc n))) (\<lambda>e. ret n)) ?Q"
      unfolding except_any_def
      by (rule yields_catch [where QB = "\<lambda>e r es. es = []"]) (auto simp: yields_def)
    have "fits prot lo hi used v" if "fits prot lo hi (insert vid used) v" for v
      using that by (auto simp: fits_def)
    moreover have "v \<noteq> str_int vid" if "fits prot lo hi (insert vid used) v" for v
      using that by (auto simp: fits_def)
    moreover have "fits prot lo hi used (str_int vid)" using fit by (auto simp: fits_def)
    moreover have "at_one_of (p # free) x" if "at_one_of free x" for x using that by (auto simp: at_one_of_def)
    moreover have "at_one_of (p # free) (addr @ '',pcie=1'')" by (simp add: at_one_of_def p)
    ultimately show ?thesis
      unfolding p clone_controllers.simps Some option.case
      by (intro yields_bnd [OF one Cons.IH]) (auto simp: list_all_iff)
  qed
qed

text \<open>The two listings a choice of VMIDs rests on, and whether one of them did not answer.\<close>

definition is_listing :: "event \<Rightarrow> bool" where
  "is_listing e \<longleftrightarrow> (\<exists>t r. e = Cmd [t, ''list''] r)"

fun no_answer :: "event \<Rightarrow> bool" where
  "no_answer (Cmd a TimedOut) = True"
| "no_answer (Cmd a NoProgram) = True"
| "no_answer e = False"

lemma yields_sh_answer:
  "yields (sh m a t False) (\<lambda>r es. \<exists>x. es = [Cmd a x] \<and>
     (case r of Inr (rc, out, err) \<Rightarrow> x = Exited rc out err | Inl e \<Rightarrow> no_answer (Cmd a x)))"
  unfolding sh_def
  by (rule yields_bnd [where QA = "\<lambda>r es. \<exists>x. r = Inr x \<and> es = [Cmd a x]"
        and QB = "\<lambda>x r es. es = [] \<and> (case r of Inr (rc, out, err) \<Rightarrow> x = Exited rc out err | Inl e \<Rightarrow> no_answer (Cmd a x))"])
     (auto simp: yields_def run_command_def split: outcome.splits prod.splits)

lemma yields_listing:
  "yields (except_any (list_all_vmids m) (\<lambda>e. ret []))
     (\<lambda>r es. list_all is_listing es \<and> (case r of Inl e \<Rightarrow> e = Diverged | Inr vids \<Rightarrow> list_ex no_answer es \<or> set vids = listed_in es))"
proof -
  define Q where "Q r es \<longleftrightarrow> list_all is_listing es \<and>
    (case r of Inl e \<Rightarrow> list_ex no_answer es | Inr vids \<Rightarrow> set vids = listed_in es)" for r :: "int list result" and es
  have q: "yields (list_qemu_vmids m) Q"
    unfolding list_qemu_vmids_def
    by (rule yields_bnd [OF yields_sh_answer, where QB = "\<lambda>x r es. es = [] \<and> r = Inr (if fst x \<noteq> 0 then [] else listed_vmids (fst (snd x)))"])
       (auto simp: yields_def Q_def is_listing_def split: if_splits)
  have p: "yields (bnd (sh m [''pct'', ''list''] 20 False) (\<lambda>(rc, out, err).
      ret (ids @ (if rc = 0 then listed_vmids out else []))))
      (\<lambda>r es. list_all is_listing es \<and> (case r of Inl e \<Rightarrow> list_ex no_answer es | Inr vids \<Rightarrow> set vids = set ids \<union> listed_in es))" for ids
    by (rule yields_bnd [OF yields_sh_answer, where QB = "\<lambda>x r es. es = [] \<and> r = Inr (ids @ (if fst x = 0 then listed_vmids (fst (snd x)) else []))"])
       (auto simp: yields_def is_listing_def split: if_splits)
  have "yields (list_all_vmids m) Q"
    unfolding list_all_vmids_def
    by (rule yields_bnd [OF q p]) (auto simp: Q_def split: sum.splits)
  then show ?thesis
    unfolding except_any_def
    by (rule yields_catch [where QB = "\<lambda>e r es. es = [] \<and> (r = Inr [] \<or> r = Inl Diverged)"])
       (auto simp: Q_def yields_def)
qed

lemma add_pci_of_more: "iter (add_pci_of m) vids used w = (Inr used', w') \<Longrightarrow> set used \<subseteq> set used'"
proof (induction vids arbitrary: used w)
  case (Cons v vids)
  from Cons.prems obtain u w1 where u: "add_pci_of m v used w = (Inr u, w1)" and i: "iter (add_pci_of m) vids u w1 = (Inr used', w')"
    by (auto elim: bnd_InrD)
  have "set used \<subseteq> set u"
    using u by (auto simp: add_pci_of_def except_any_def catch_def bnd_def split: prod.splits sum.splits if_splits)
  with Cons.IH [OF i] show ?case by simp
qed simp

lemma free_pci_controllers_free:
  assumes "free_pci_controllers m vps w = (Inr free, w')"
  shows "list_all (\<lambda>p. pci_short (fst p) \<notin> set (dkeys (pci_hold w))) free"
proof -
  have k: "keeps pci_hold (list_host_pci_by_vidpid m vps)"
    by (auto simp: list_host_pci_by_vidpid_def Let_def intro!: keeps_intro hold_view.keeps_sh)
  from assms obtain present w1 where 1: "list_host_pci_by_vidpid m vps w = (Inr present, w1)"
    and 2: "(if present = [] then ret [] else bnd (pci_addrs_in_use m) (\<lambda>used.
          ret (filter (\<lambda>p. pci_short (fst p) \<notin> used) present))) w1 = (Inr free, w')"
    unfolding free_pci_controllers_def by (rule bnd_InrD)
  have h: "pci_hold w1 = pci_hold w" by (rule keepsD [OF k 1])
  show ?thesis
  proof (cases "present = []")
    case False
    with 2 obtain used w2 where u: "pci_addrs_in_use m w1 = (Inr used, w2)"
      and f: "free = filter (\<lambda>p. pci_short (fst p) \<notin> used) present"
      by (auto elim: bnd_InrD)
    have "set (dkeys (pci_hold w1)) \<subseteq> used"
      using u unfolding pci_addrs_in_use_def
      by (auto elim!: bnd_InrD dest!: add_pci_of_more split: option.splits) (force dest: subsetD)+
    then show ?thesis by (auto simp: f h list_all_iff)
  qed (use 2 in simp)
qed

lemma keeps_listing: "keeps pci_hold (except_any (list_all_vmids m) (\<lambda>e. ret []))"
  by (intro keeps_intro hold_view.keeps_waits)

lemma keeps_free_pci: "keeps pci_hold (free_pci_controllers m vps)"
  by (auto simp: free_pci_controllers_def pci_addrs_in_use_def add_pci_of_def list_host_pci_by_vidpid_def
      qm_config_def Let_def intro!: keeps_intro hold_view.keeps_sh hold_view.keeps_waits hold_view.keeps_probes)


end
