(* ===== verification/Templates.thy ===== *)
theory Templates
  imports Clone "HOL-Library.List_Lexorder" "HOL-Library.Char_ord"
begin

text \<open>
  Which template a clone is made from and which pool it joins (\<open>agent/src/usb_provision.py\<close>,
  with the cluster queries of \<open>pve_cmds.py\<close> and \<open>vm_inventory.py\<close> behind them): the configured
  VMID or name against what this host has, the shares of several images, and the pool that is
  created where it is missing.
\<close>

section \<open>Cluster queries\<close>

definition or_text :: "string \<Rightarrow> string \<Rightarrow> string" where
  "or_text s dflt = (if s = [] then dflt else s)"

text \<open>The name of the first node entry flagged local that has one; \<open>e.get\<close> needs a dictionary.\<close>

fun local_entry :: "pyval list \<Rightarrow> string option result" where
  "local_entry [] = Inr None"
| "local_entry (e # es) =
     (case e of
        PDict d \<Rightarrow>
          if cfg_get d ''type'' = PStr ''node'' \<and> (cfg_get d ''local'' = PInt 1 \<or> cfg_get d ''local'' = PBool True)
             \<and> truthy (cfg_get d ''name'')
          then Inr (Some (py_str (cfg_get d ''name''))) else local_entry es
      | _ \<Rightarrow> Inl AttributeError)"

definition loaded :: "pyval option \<Rightarrow> pyval result" where
  "loaded r = (case r of None \<Rightarrow> Inl ValueError | Some v \<Rightarrow> Inr v)"

definition local_node_name :: "'h machine \<Rightarrow> (string \<Rightarrow> pyval option) \<Rightarrow> ('h, string) op" where
  "local_node_name m decode =
     bnd (except_any
       (bnd (sh m [''pvesh'', ''get'', ''/cluster/status'', ''--output-format'', ''json''] 10 False) (\<lambda>(rc, out, err).
        if rc = 0 then lift (rbind (rbind (loaded (decode (or_text out ''[]''))) py_iter) local_entry) else ret None))
       (\<lambda>e. ret None)) (\<lambda>name.
     ret (case name of Some n \<Rightarrow> n | None \<Rightarrow> m_node m))"

text \<open>The qemu rows of the cluster: VMID, name, node.\<close>

fun cluster_rows :: "pyval list \<Rightarrow> (int \<times> string \<times> string) list result" where
  "cluster_rows [] = Inr []"
| "cluster_rows (r # rs) =
     (case r of
        PDict d \<Rightarrow>
          if cfg_get d ''type'' \<noteq> PStr ''qemu'' \<or> cfg_get d ''vmid'' = PNone then cluster_rows rs
          else rbind (py_int (cfg_get d ''vmid'')) (\<lambda>vid.
               rbind (cluster_rows rs) (\<lambda>rest.
               Inr ((vid, py_str (or_empty (cfg_get d ''name'')), py_str (or_empty (cfg_get d ''node''))) # rest)))
      | _ \<Rightarrow> Inl AttributeError)"

definition list_qemu_vms_cluster ::
    "'h machine \<Rightarrow> (string \<Rightarrow> pyval option) \<Rightarrow> ('h, (int \<times> string \<times> string) list) op" where
  "list_qemu_vms_cluster m decode =
     bnd (sh m [''pvesh'', ''get'', ''/cluster/resources'', ''--type'', ''vm'', ''--output-format'', ''json''] 20 False)
       (\<lambda>(rc, out, err).
        if rc \<noteq> 0 then ret []
        else (case decode (or_text out ''[]'') of Some (PList rows) \<Rightarrow> lift (cluster_rows rows) | _ \<Rightarrow> ret []))"

section \<open>The template\<close>

definition is_runnable_template :: "'h machine \<Rightarrow> int \<Rightarrow> ('h, bool) op" where
  "is_runnable_template m vid = bnd (qm_config m vid) (\<lambda>cfg. ret (dget cfg ''template'' = Some ''1''))"

fun first_template :: "'h machine \<Rightarrow> int \<Rightarrow> int list \<Rightarrow> ('h, int option) op" where
  "first_template m cvid [] = ret None"
| "first_template m cvid (v # vs) =
     (if v = cvid then first_template m cvid vs
      else bnd (is_runnable_template m v) (\<lambda>tpl.
           if tpl then ret (Some v) else first_template m cvid vs))"

definition named_here :: "string \<Rightarrow> string \<Rightarrow> (int \<times> string \<times> string) list \<Rightarrow> int list" where
  "named_here raw node rows = map fst (filter (\<lambda>r. fst (snd r) = raw \<and> snd (snd r) = node) rows)"

definition resolve_template_vmid ::
    "'h machine \<Rightarrow> (string \<Rightarrow> pyval option) \<Rightarrow> pyval \<Rightarrow> ('h, int option) op" where
  "resolve_template_vmid m decode configured =
     (let raw = (if configured = PNone then [] else strip (py_str configured)) in
      if raw = [] then ret None
      else if looks_numeric raw then
        (case parse_int raw of
           None \<Rightarrow> throw ValueError
         | Some cvid \<Rightarrow>
             bnd (qm_config m cvid) (\<lambda>cfg.
             if cfg \<noteq> [] then ret (Some cvid)
             else bnd (list_qemu_vmids m) (\<lambda>vids. first_template m cvid (sort vids))))
      else bnd (local_node_name m decode) (\<lambda>node.
           bnd (list_qemu_vms_cluster m decode) (\<lambda>rows.
           ret (case named_here raw node rows of [vid] \<Rightarrow> Some vid | _ \<Rightarrow> None))))"

section \<open>Several images\<close>

text \<open>
  \<open>_normalize_image_pcts\<close>: the shares of the images. A share that is missing or no number gets
  an even part of what the others leave, the last such image the remainder; if everything is
  zero, 100 is split evenly.
\<close>

definition clamp_pct :: "pyval \<Rightarrow> int option" where
  "clamp_pct v = (case py_int v of Inl e \<Rightarrow> None | Inr i \<Rightarrow> Some (max 0 (min 100 i)))"

definition assigned_pct :: "int option list \<Rightarrow> int" where
  "assigned_pct vs = sum_list (map (\<lambda>v. case v of None \<Rightarrow> 0 | Some i \<Rightarrow> i) vs)"

fun fill_missing :: "int \<Rightarrow> int \<Rightarrow> int option list \<Rightarrow> int list" where
  "fill_missing share extra [] = []"
| "fill_missing share extra (Some v # vs) = v # fill_missing share extra vs"
| "fill_missing share extra (None # vs) =
     (if None \<in> set vs then share else share + extra) # fill_missing share extra vs"

definition split_even :: "nat \<Rightarrow> int list" where
  "split_even n = (let share = 100 div int n in replicate (n - 1) share @ [share + (100 - share * int n)])"

definition normalize_image_pcts :: "pyval list \<Rightarrow> int list" where
  "normalize_image_pcts pcts =
     (if pcts = [] then []
      else let vs = map clamp_pct pcts;
               gaps = int (length (filter (\<lambda>v. v = None) vs));
               rem = max 0 (100 - assigned_pct vs);
               share = rem div gaps;
               filled = fill_missing share (rem - share * gaps) vs
           in if sum_list filled = 0 then split_even (length pcts) else filled)"

record clone_image =
  im_num :: int
  im_template :: int
  im_pct :: int

definition image_at ::
    "'h machine \<Rightarrow> (string \<Rightarrow> pyval option) \<Rightarrow> (string, pyval) dict \<Rightarrow> int \<Rightarrow> (int \<times> int \<times> pyval) list
     \<Rightarrow> ('h, (int \<times> int \<times> pyval) list) op" where
  "image_at m decode cfg i acc =
     bnd (resolve_template_vmid m decode (cfg_get cfg (''image'' @ str_int i @ ''_template_id''))) (\<lambda>t.
     ret (case t of
            None \<Rightarrow> acc
          | Some v \<Rightarrow> if v = 0 then acc else acc @ [(i, v, cfg_get cfg (''image'' @ str_int i @ ''_pct''))]))"

definition legacy_images :: "int option \<Rightarrow> int option \<Rightarrow> int \<Rightarrow> (int \<times> int \<times> pyval) list" where
  "legacy_images one two pct =
     (case one of Some v \<Rightarrow> if v \<noteq> 0 then [(1, v, PInt pct)] else [] | None \<Rightarrow> [])
     @ (case two of Some v \<Rightarrow> if v \<noteq> 0 then [(2, v, PNone)] else [] | None \<Rightarrow> [])"

definition with_shares :: "(int \<times> int \<times> pyval) list \<Rightarrow> clone_image list" where
  "with_shares ims =
     map (\<lambda>((n, t, p), s). \<lparr>im_num = n, im_template = t, im_pct = s\<rparr>)
       (zip ims (normalize_image_pcts (map (\<lambda>(n, t, p). p) ims)))"

definition resolve_images ::
    "'h machine \<Rightarrow> (string \<Rightarrow> pyval option) \<Rightarrow> (string, pyval) dict \<Rightarrow> int option \<Rightarrow> int option \<Rightarrow> int
     \<Rightarrow> ('h, clone_image list) op" where
  "resolve_images m decode cfg one two pct =
     (let v = cfg_get cfg ''image_count'';
          count = (case py_int (if truthy v then v else PInt 0) of Inl e \<Rightarrow> 0 | Inr i \<Rightarrow> i) in
      if 0 < count then bnd (iter (image_at m decode cfg) [1..count] []) (\<lambda>ims. ret (with_shares ims))
      else ret (with_shares (legacy_images one two pct)))"

section \<open>The pool\<close>

definition pvesh_bin :: "'h machine \<Rightarrow> ('h, string) op" where
  "pvesh_bin m =
     bnd (read_text m ''/usr/bin/pvesh'') (\<lambda>a.
     bnd (read_text m ''/usr/sbin/pvesh'') (\<lambda>b.
     ret (if a \<noteq> None then ''/usr/bin/pvesh'' else if b \<noteq> None then ''/usr/sbin/pvesh'' else ''pvesh'')))"

definition pvesh_read :: "'h machine \<Rightarrow> (string \<Rightarrow> pyval option) \<Rightarrow> string \<Rightarrow> ('h, pyval) op" where
  "pvesh_read m decode path =
     bnd (pvesh_bin m) (\<lambda>bin.
     bnd (sh m [bin, ''get'', path, ''--output-format'', ''json''] 15 True) (\<lambda>(rc, out, err).
     lift (loaded (decode out))))"

definition pvesh_action :: "'h machine \<Rightarrow> string \<Rightarrow> string \<Rightarrow> string list \<Rightarrow> ('h, unit) op" where
  "pvesh_action m verb path args =
     bnd (pvesh_bin m) (\<lambda>bin.
     bnd (sh m ([bin, verb, path] @ args @ [''--output-format'', ''json'']) 20 True) (\<lambda>_. ret ()))"

definition pool_ids :: "pyval \<Rightarrow> pyval list" where
  "pool_ids pools =
     (case pools of
        PList ps \<Rightarrow> filter truthy (concat (map (\<lambda>p. case p of PDict d \<Rightarrow> [cfg_get d ''poolid''] | _ \<Rightarrow> []) ps))
      | _ \<Rightarrow> [])"

definition list_pools :: "'h machine \<Rightarrow> (string \<Rightarrow> pyval option) \<Rightarrow> ('h, pyval list) op" where
  "list_pools m decode = except_any (bnd (pvesh_read m decode ''/pools'') (\<lambda>v. ret (pool_ids v))) (\<lambda>e. ret [])"

definition verify_pool :: "string \<Rightarrow> ('h, unit) op" where
  "verify_pool p = modify (\<lambda>w. w\<lparr>verified_pools := List.insert p (verified_pools w)\<rparr>)"

definition ensure_sim_pool ::
    "'h machine \<Rightarrow> (string \<Rightarrow> pyval option) \<Rightarrow> (string, pyval) dict \<Rightarrow> ('h, string option) op" where
  "ensure_sim_pool m decode usb_cfg =
     (case sim_pool usb_cfg of
        None \<Rightarrow> ret None
      | Some p \<Rightarrow>
          bnd (peek (\<lambda>w. p \<in> set (verified_pools w))) (\<lambda>known.
          if known then ret (Some p)
          else bnd (except_any
                 (bnd (list_pools m decode) (\<lambda>ids.
                  if PStr p \<in> set ids then verify_pool p
                  else bnd (pvesh_action m ''create'' ''/pools'' [''--poolid'', p]) (\<lambda>_. verify_pool p)))
                 (\<lambda>e. ret ())) (\<lambda>_. ret (Some p))))"

section \<open>The shares\<close>

definition gap_count :: "int option list \<Rightarrow> nat" where
  "gap_count vs = length (filter (\<lambda>v. v = None) vs)"

lemma gap_count_0: "gap_count vs = 0 \<longleftrightarrow> None \<notin> set vs"
  by (induction vs) (auto simp: gap_count_def)

lemma div_mult_below: "0 < b \<Longrightarrow> (a :: int) div b * b \<le> a"
  using div_mult_mod_eq [of a b] pos_mod_sign [of b a] by linarith

lemma gap_count_Cons [simp]: "gap_count (v # vs) = (if v = None then 1 else 0) + gap_count vs" "gap_count [] = 0"
  by (simp_all add: gap_count_def)

lemma fill_missing_length [simp]: "length (fill_missing s x vs) = length vs"
  by (induction s x vs rule: fill_missing.induct) auto

lemma fill_missing_sum:
  "sum_list (fill_missing s x vs) = assigned_pct vs + s * int (gap_count vs) + (if None \<in> set vs then x else 0)"
proof (induction s x vs rule: fill_missing.induct)
  case (3 s x vs)
  then show ?case by (cases "None \<in> set vs") (auto simp: assigned_pct_def gap_count_0 algebra_simps)
qed (auto simp: assigned_pct_def)

lemma fill_missing_all: "\<forall>v\<in>set vs. \<forall>i. v = Some i \<longrightarrow> P i \<Longrightarrow> P s \<Longrightarrow> P (s + x) \<Longrightarrow> list_all P (fill_missing s x vs)"
  by (induction s x vs rule: fill_missing.induct) auto

lemma fill_missing_zero: "fill_missing 0 0 vs = map (\<lambda>v. case v of None \<Rightarrow> 0 | Some i \<Rightarrow> i) vs"
  by (induction "0 :: int" "0 :: int" vs rule: fill_missing.induct) auto

lemma fill_missing_none: "None \<notin> set vs \<Longrightarrow> fill_missing s x vs = map (\<lambda>v. case v of None \<Rightarrow> 0 | Some i \<Rightarrow> i) vs"
  by (induction s x vs rule: fill_missing.induct) auto

lemma clamp_pct_range: "clamp_pct v = Some i \<Longrightarrow> 0 \<le> i \<and> i \<le> 100"
  by (auto simp: clamp_pct_def split: sum.splits)

lemma assigned_nonneg: "0 \<le> assigned_pct (map clamp_pct ps)"
  using clamp_pct_range by (induction ps) (auto simp: assigned_pct_def split: option.split)

lemma split_even_ok:
  assumes "0 < n"
  shows "length (split_even n) = n" "sum_list (split_even n) = 100" "list_all (\<lambda>s. 0 \<le> s \<and> s \<le> 100) (split_even n)"
proof -
  let ?s = "100 div int n"
  have m: "?s * int n \<le> 100" "0 \<le> ?s" using assms by (simp_all add: div_mult_below pos_imp_zdiv_nonneg_iff)
  have "?s * 1 \<le> ?s * int n" using assms m(2) by (intro mult_left_mono) simp_all
  then have s: "?s \<le> ?s * int n" by simp
  have n: "int (n - 1) = int n - 1" using assms by simp
  show "length (split_even n) = n" using assms by (simp add: split_even_def Let_def)
  show "sum_list (split_even n) = 100"
    using n by (simp add: split_even_def Let_def sum_list_replicate algebra_simps)
  have "list_all (\<lambda>x. 0 \<le> x \<and> x \<le> 100) (replicate k ?s)" for k
    using m s by (induction k) simp_all
  then show "list_all (\<lambda>s. 0 \<le> s \<and> s \<le> 100) (split_even n)"
    using m s by (simp add: split_even_def Let_def)
qed

text \<open>
  The shares of the clone images. Every image gets a share between 0 and 100. If nothing
  usable is set, or an image without a share is there to take what the others leave, the shares
  add up to exactly 100; otherwise they are the given ones, clamped, and may add up to anything.
\<close>

theorem image_shares:
  "length (normalize_image_pcts ps) = length ps
   \<and> list_all (\<lambda>s. 0 \<le> s \<and> s \<le> 100) (normalize_image_pcts ps)
   \<and> (let vs = map clamp_pct ps in
      if ps = [] then True
      else if assigned_pct vs = 0 \<or> (None \<in> set vs \<and> assigned_pct vs \<le> 100)
      then sum_list (normalize_image_pcts ps) = 100
      else normalize_image_pcts ps = map (\<lambda>v. case v of None \<Rightarrow> 0 | Some i \<Rightarrow> i) vs)"
proof (cases "ps = []")
  case True
  then show ?thesis by (simp add: normalize_image_pcts_def)
next
  case False
  define vs where "vs = map clamp_pct ps"
  define rest where "rest = max 0 (100 - assigned_pct vs)"
  define share where "share = rest div int (gap_count vs)"
  define filled where "filled = fill_missing share (rest - share * int (gap_count vs)) vs"
  have n: "normalize_image_pcts ps = (if sum_list filled = 0 then split_even (length ps) else filled)"
    using False by (simp add: normalize_image_pcts_def Let_def filled_def share_def rest_def vs_def gap_count_def)
  have a0: "0 \<le> assigned_pct vs" by (simp add: vs_def assigned_nonneg)
  have r: "0 \<le> rest" "rest \<le> 100" using a0 by (simp_all add: rest_def)
  have sum: "sum_list filled = assigned_pct vs + (if None \<in> set vs then rest else 0)"
    by (cases "None \<in> set vs") (simp_all add: filled_def fill_missing_sum gap_count_0 [symmetric])
  have se: "length (split_even (length ps)) = length ps" "sum_list (split_even (length ps)) = 100"
      "list_all (\<lambda>s. 0 \<le> s \<and> s \<le> 100) (split_even (length ps))"
    using split_even_ok [of "length ps"] False by simp_all
  have ok: "\<forall>v\<in>set vs. \<forall>i. v = Some i \<longrightarrow> 0 \<le> i \<and> i \<le> 100"
    using clamp_pct_range by (auto simp: vs_def)
  have filled_ok: "list_all (\<lambda>s. 0 \<le> s \<and> s \<le> 100) filled"
  proof (cases "gap_count vs = 0")
    case True
    then have "filled = map (\<lambda>v. case v of None \<Rightarrow> 0 | Some i \<Rightarrow> i) vs"
      by (simp add: filled_def fill_missing_none gap_count_0 [symmetric])
    then show ?thesis using ok by (auto simp: list_all_iff split: option.split)
  next
    case False
    let ?g = "int (gap_count vs)"
    have g: "1 \<le> ?g" using False by simp
    have s: "0 \<le> share" "share * ?g \<le> rest" using g r by (simp_all add: share_def pos_imp_zdiv_nonneg_iff div_mult_below)
    have "share * 1 \<le> share * ?g" using g s by (intro mult_left_mono) simp_all
    with s r have "0 \<le> share \<and> share \<le> 100" "0 \<le> share + (rest - share * ?g) \<and> share + (rest - share * ?g) \<le> 100" by auto
    with ok show ?thesis unfolding filled_def by (intro fill_missing_all) auto
  qed
  have zero: "sum_list filled = 0 \<longleftrightarrow> assigned_pct vs = 0 \<and> None \<notin> set vs"
    using a0 r by (auto simp: sum rest_def)
  have len: "length filled = length ps" by (simp add: filled_def vs_def)
  show ?thesis
  proof (intro conjI)
    show "length (normalize_image_pcts ps) = length ps" using n se(1) len by simp
    show "list_all (\<lambda>s. 0 \<le> s \<and> s \<le> 100) (normalize_image_pcts ps)" using n se(3) filled_ok by simp
    have "sum_list (normalize_image_pcts ps) = 100"
      if "assigned_pct vs = 0 \<or> None \<in> set vs \<and> assigned_pct vs \<le> 100"
      using that n se(2) sum zero a0 by (auto simp: rest_def)
    moreover have "normalize_image_pcts ps = map (\<lambda>v. case v of None \<Rightarrow> 0 | Some i \<Rightarrow> i) vs"
      if "\<not> (assigned_pct vs = 0 \<or> None \<in> set vs \<and> assigned_pct vs \<le> 100)"
    proof (cases "None \<in> set vs")
      case True
      with that have "rest = 0" by (simp add: rest_def)
      then have "filled = fill_missing 0 0 vs" by (simp add: filled_def share_def)
      with that n zero show ?thesis by (simp add: fill_missing_zero)
    next
      case False
      with that n zero show ?thesis by (simp add: filled_def fill_missing_none)
    qed
    ultimately show "let vs = map clamp_pct ps in if ps = [] then True
      else if assigned_pct vs = 0 \<or> (None \<in> set vs \<and> assigned_pct vs \<le> 100)
      then sum_list (normalize_image_pcts ps) = 100
      else normalize_image_pcts ps = map (\<lambda>v. case v of None \<Rightarrow> 0 | Some i \<Rightarrow> i) vs"
      using False by (simp add: vs_def [symmetric])
  qed
qed

end
