(* ===== verification/Reclone.thy ===== *)
theory Reclone
  imports Templates
begin

text \<open>
  Recloning (\<open>agent/src/cs_sim.py\<close>): one simulation VM destroyed and cloned again onto the
  device it had, and the fleet batch over all of them. The error texts of the results are kept
  as data and turned into text where they are sent. The per-VM lock has no content here, since
  one task runs at a time.
\<close>

section \<open>One VM\<close>

definition reclone_vm_name :: "'h machine \<Rightarrow> int \<Rightarrow> string \<Rightarrow> string" where
  "reclone_vm_name m vid existing =
     (if str_set (vm_name m vid) then the (vm_name m vid)
      else or_text existing (''sim-'' @ str_int vid))"

definition pci_passthrough_addr :: "(string, string) dict \<Rightarrow> string" where
  "pci_passthrough_addr cfg =
     (case filter (\<lambda>a. a \<noteq> []) (map (\<lambda>k. first_field (the (dget cfg k)))
             (sort (filter (\<lambda>k. has_prefix ''hostpci'' k) (dkeys cfg)))) of
        [] \<Rightarrow> [] | a # _ \<Rightarrow> a)"

text \<open>\<open>v.split("host=", 1)[1].split(",", 1)[0].strip()\<close> of the first such \<open>usb\<close> entry.\<close>

fun after_first :: "string \<Rightarrow> string \<Rightarrow> string option" where
  "after_first pat [] = (if pat = [] then Some [] else None)"
| "after_first pat (c # cs) =
     (if has_prefix pat (c # cs) then Some (drop (length pat) (c # cs)) else after_first pat cs)"

fun usb_host_of :: "(string, string) dict \<Rightarrow> string option" where
  "usb_host_of [] = None"
| "usb_host_of ((k, v) # cfg) =
     (case (if has_prefix ''usb'' k then after_first ''host='' v else None) of
        Some s \<Rightarrow> Some (first_field s)
      | None \<Rightarrow> usb_host_of cfg)"

datatype reclone_error =
    NoDevice
  | NoTemplate
  | SourceMissing pyval
  | NotRemoved "int option" string
  | PhaseFailed string int exn
  | CoreRaised exn

definition exn_message :: "exn \<Rightarrow> string" where
  "exn_message e = (case e of PveError s \<Rightarrow> s | GuardError r \<Rightarrow> ''refused'' | _ \<Rightarrow> ''error'')"

definition error_text :: "int \<Rightarrow> reclone_error \<Rightarrow> string" where
  "error_text vid e =
     (case e of
        NoDevice \<Rightarrow> ''no present USB bus or PCI passthrough for VM '' @ str_int vid
      | NoTemplate \<Rightarrow> ''no template id configured''
      | SourceMissing c \<Rightarrow> ''clone source '' @ py_repr c @ '' not found on this host and no fallback template - VM left untouched''
      | NotRemoved n reason \<Rightarrow> ''destroy before reclone failed (attempt '' @ attempt_text n @ ''/3): '' @ or_text reason ''unknown reason''
      | PhaseFailed phase tpl x \<Rightarrow> phase @ '' from template '' @ str_int tpl @ '' failed: '' @ exn_message x
      | CoreRaised x \<Rightarrow> exn_message x)"

record recloned =
  rr_error :: "reclone_error option"
  rr_bus :: "string option"
  rr_image :: int

definition failed_with :: "reclone_error \<Rightarrow> string option \<Rightarrow> recloned" where
  "failed_with e bus = \<lparr>rr_error = Some e, rr_bus = bus, rr_image = 0\<rparr>"

text \<open>Where progress of one VM goes, if anywhere.\<close>

definition vm_progress :: "'h machine \<Rightarrow> string option \<Rightarrow> int \<Rightarrow> string \<Rightarrow> int \<Rightarrow> ('h, unit) op" where
  "vm_progress m frame vid step pct =
     (case frame of
        None \<Rightarrow> ret ()
      | Some cmd_id \<Rightarrow> progress m cmd_id ''reclone_vm'' ''running'' step (Some pct) (Some vid) [])"

definition always_then :: "('h, 'a) op \<Rightarrow> ('h, unit) op \<Rightarrow> ('h, 'a) op" where
  "always_then p q w = (case p w of (r, w1) \<Rightarrow> (case q w1 of (Inl e, w2) \<Rightarrow> (Inl e, w2) | (Inr u, w2) \<Rightarrow> (r, w2)))"

text \<open>
  The device, the image and the clone source, all before anything is touched. The device is a
  USB bus, or a PCI controller if the address is not empty.
\<close>

record reclone_plan =
  rp_bus :: "string option"
  rp_pci :: string
  rp_image :: int
  rp_template :: int

definition find_device :: "'h machine \<Rightarrow> int \<Rightarrow> ('h, string option \<times> string) op" where
  "find_device m vid =
     bnd (peek (\<lambda>w. bus_for_vmid vid (store w))) (\<lambda>bus.
     if str_set bus then ret (bus, [])
     else bnd (qm_config m vid) (\<lambda>cfg.
          let pci = pci_passthrough_addr cfg in
          ret (if pci \<noteq> [] then bus else (case usb_host_of cfg of None \<Rightarrow> bus | Some b \<Rightarrow> Some b), pci)))"

definition py_or :: "pyval \<Rightarrow> pyval \<Rightarrow> pyval" where
  "py_or a b = (if truthy a then a else b)"

definition image_of :: "int \<Rightarrow> usb_state \<Rightarrow> int" where
  "image_of vid st = (case dget (vmid_to_image st) (str_int vid) of None \<Rightarrow> 1 | Some i \<Rightarrow> if i = 0 then 1 else i)"

definition clone_source :: "pyval \<Rightarrow> (string, pyval) dict \<Rightarrow> int \<Rightarrow> pyval" where
  "clone_source source usb_cfg img =
     py_or source (py_or (cfg_get usb_cfg (if img = 1 then ''image1_template_id'' else ''image2_template_id''))
                         (cfg_get usb_cfg ''image1_template_id''))"

definition bus_present :: "'h machine \<Rightarrow> string option \<Rightarrow> ('h, bool) op" where
  "bus_present m bus = peek (\<lambda>w. str_set bus \<and> m_dir m (''/sys/bus/usb/devices/'' @ the bus) (host w))"

definition or_pci :: "string option \<Rightarrow> string \<Rightarrow> string option" where
  "or_pci bus pci = (if str_set bus then bus else Some pci)"

definition plan_reclone ::
    "'h machine \<Rightarrow> (string \<Rightarrow> pyval option) \<Rightarrow> (string, pyval) dict \<Rightarrow> int \<Rightarrow> pyval
     \<Rightarrow> ('h, recloned + reclone_plan) op" where
  "plan_reclone m decode usb_cfg vid source =
     bnd (find_device m vid) (\<lambda>(bus, pci).
     bnd (bus_present m bus) (\<lambda>present.
     if pci = [] \<and> \<not> present then ret (Inl (failed_with NoDevice bus))
     else
       bnd (peek (\<lambda>w. image_of vid (load_usb_state (store w)))) (\<lambda>img.
       let configured = clone_source source usb_cfg img in
       if \<not> truthy configured then ret (Inl (failed_with NoTemplate (or_pci bus pci)))
       else bnd (resolve_template_vmid m decode configured) (\<lambda>t.
            ret (case t of
                   None \<Rightarrow> Inl (failed_with (SourceMissing configured) (or_pci bus pci))
                 | Some tpl \<Rightarrow>
                     if tpl = 0 then Inl (failed_with (SourceMissing configured) (or_pci bus pci))
                     else Inr \<lparr>rp_bus = bus, rp_pci = pci, rp_image = img, rp_template = tpl\<rparr>)))))"

definition read_sysfs :: "'h machine \<Rightarrow> string \<Rightarrow> ('h, string) op" where
  "read_sysfs m path = bnd (read_text m path) (\<lambda>f. ret (case f of None \<Rightarrow> [] | Some s \<Rightarrow> lower (strip s)))"

definition usb_device_type ::
    "'h machine \<Rightarrow> (string \<Rightarrow> pyval option) \<Rightarrow> (string, pyval) dict \<Rightarrow> string \<Rightarrow> ('h, string) op" where
  "usb_device_type m decode usb_cfg bus =
     (let base = ''/sys/bus/usb/devices/'' @ bus in
      bnd (read_sysfs m (base @ ''/idVendor'')) (\<lambda>v.
      bnd (read_sysfs m (base @ ''/idProduct'')) (\<lambda>p.
      ret (case dget (certified_types decode usb_cfg) (v @ '':'' @ p) of None \<Rightarrow> ''wireless'' | Some t \<Rightarrow> t))))"

text \<open>The phases under the \<open>except\<close>: the first that fails and its exception.\<close>

fun in_phases :: "(string \<times> ('h, unit) op) list \<Rightarrow> ('h, (string \<times> exn) option) op" where
  "in_phases [] = ret None"
| "in_phases ((phase, p) # ps) =
     bnd (except_any (bnd p (\<lambda>_. ret None)) (\<lambda>e. ret (Some e))) (\<lambda>x.
     case x of Some e \<Rightarrow> ret (Some (phase, e)) | None \<Rightarrow> in_phases ps)"

definition build_phases ::
    "'h machine \<Rightarrow> int set \<Rightarrow> (string, pyval) dict \<Rightarrow> string option \<Rightarrow> string option \<Rightarrow> int \<Rightarrow> string \<Rightarrow> reclone_plan
     \<Rightarrow> (string \<times> ('h, unit) op) list" where
  "build_phases m prot usb_cfg frame pool vid nm plan =
     [(''cloning'', bnd (vm_progress m frame vid ''cloning'' 40) (\<lambda>_.
        qm_clone m (rp_template plan) nm pool 600 (PInt vid) (Some prot))),
      (''configuring'', configure_clone m prot usb_cfg vid
        (if rp_pci plan \<noteq> [] then [''-hostpci0'', rp_pci plan @ '',pcie=1'']
         else [''-usb0'', ''host='' @ the (rp_bus plan)])),
      (''starting'', bnd (vm_progress m frame vid ''starting'' 60) (\<lambda>_. qm_start m (PInt vid) (Some prot)))]"

text \<open>From the new VM's start on; \<open>cfg\<close> is the \<open>client_simulation\<close> section.\<close>

definition finish_reclone ::
    "'h machine \<Rightarrow> (string \<Rightarrow> pyval option) \<Rightarrow> (string, pyval) dict option \<Rightarrow> (string, pyval) dict \<Rightarrow> string option
     \<Rightarrow> int \<Rightarrow> string \<Rightarrow> reclone_plan \<Rightarrow> ('h, recloned) op" where
  "finish_reclone m decode cfg usb_cfg frame vid nm plan =
     bnd (if rp_pci plan \<noteq> [] then ret []
          else bnd (now_s m) (\<lambda>t.
               bnd (on_disk (set_assignment vid (the (rp_bus plan)) (rp_image plan) t)) (\<lambda>_.
               usb_device_type m decode usb_cfg (the (rp_bus plan))))) (\<lambda>dtype.
     bnd (vm_progress m frame vid ''waiting_guest_agent'' 75) (\<lambda>_.
     bnd (mark_recloning m vid) (\<lambda>_.
     bnd (finish_clone m decode (resolve_protected_vmids cfg) False vid nm
            (if str_set (rp_bus plan) then rp_bus plan else None) (rp_image plan) dtype) (\<lambda>_.
     ret \<lparr>rr_error = None, rr_bus = or_pci (rp_bus plan) (rp_pci plan), rr_image = rp_image plan\<rparr>))))"

definition rebuild_vm ::
    "'h machine \<Rightarrow> (string \<Rightarrow> pyval option) \<Rightarrow> (string, pyval) dict option \<Rightarrow> (string, pyval) dict \<Rightarrow> int set
     \<Rightarrow> string option \<Rightarrow> int \<Rightarrow> string \<Rightarrow> reclone_plan \<Rightarrow> ('h, recloned) op" where
  "rebuild_vm m decode cfg usb_cfg prot frame vid nm plan =
     bnd (ensure_sim_pool m decode usb_cfg) (\<lambda>_.
     bnd (peek (\<lambda>w. case sim_pool usb_cfg of None \<Rightarrow> None
                    | Some p \<Rightarrow> if p \<in> set (verified_pools w) then Some p else None)) (\<lambda>pool.
     bnd (vm_progress m frame vid ''destroying'' 20) (\<lambda>_.
     bnd (destroy_vm m cfg (rp_bus plan) (Some prot) False (PInt vid)) (\<lambda>dr.
     if \<not> ds_ok dr \<and> \<not> ds_orphaned dr
     then ret (failed_with (NotRemoved (ds_fails dr) (ds_reason dr)) (or_pci (rp_bus plan) (rp_pci plan)))
     else
       (let vname = or_text nm (reclone_vm_name m vid []) in
        bnd (in_phases (build_phases m prot usb_cfg frame pool vid vname plan)) (\<lambda>failure.
        case failure of
          Some (phase, e) \<Rightarrow>
            ret (failed_with (PhaseFailed phase (rp_template plan) e) (or_pci (rp_bus plan) (rp_pci plan)))
        | None \<Rightarrow> finish_reclone m decode cfg usb_cfg frame vid vname plan))))))"

definition reclone_vm_core ::
    "'h machine \<Rightarrow> (string \<Rightarrow> pyval option) \<Rightarrow> (string, pyval) dict option \<Rightarrow> (string, pyval) dict \<Rightarrow> int set
     \<Rightarrow> string option \<Rightarrow> int \<Rightarrow> pyval \<Rightarrow> string \<Rightarrow> ('h, recloned) op" where
  "reclone_vm_core m decode cfg usb_cfg prot frame vid source nm =
     bnd (plan_reclone m decode usb_cfg vid source) (\<lambda>choice.
     case choice of
       Inl failure \<Rightarrow> ret failure
     | Inr plan \<Rightarrow>
         bnd (if rp_pci plan \<noteq> [] then hold_pci_for_reclone (rp_pci plan) vid else ret ()) (\<lambda>_.
         always_then (rebuild_vm m decode cfg usb_cfg prot frame vid nm plan)
           (if rp_pci plan \<noteq> [] then release_pci_hold (rp_pci plan) else ret ())))"

definition reclone_vm ::
    "'h machine \<Rightarrow> (string \<Rightarrow> pyval option) \<Rightarrow> (string, pyval) dict option \<Rightarrow> (string, pyval) dict
     \<Rightarrow> (string, pyval) dict \<Rightarrow> string \<Rightarrow> ('h, unit) op" where
  "reclone_vm m decode cfg usb_cfg data cmd_id =
     (let prot = resolve_protected_vmids cfg in
      bnd (lift (assert_sim_vm (first_set data ''vmid'' ''vm_id'') prot SIM_VMIN)) (\<lambda>vid.
      bnd (reclone_vm_core m decode cfg usb_cfg prot (if cmd_id = [] then None else Some cmd_id) vid
             (first_set data ''source_vmid'' ''template_id'') (py_str (or_empty (cfg_get data ''name'')))) (\<lambda>r.
      case rr_error r of
        Some e \<Rightarrow> terminal cmd_id ''reclone_vm'' ''failed'' (error_text vid e) (Some vid) []
      | None \<Rightarrow>
          terminal cmd_id ''reclone_vm'' ''completed''
            (''VM '' @ str_int vid @ '' recloned on '' @ the (rr_bus r)) (Some vid)
            [(''result'', PDict [(''bus'', PStr (the (rr_bus r))), (''image'', PInt (rr_image r))])])))"

section \<open>The fleet\<close>

text \<open>A row of the VM inventory, as far as it is looked at.\<close>

record vm_listing =
  vl_type :: string
  vl_template :: int
  vl_vmid :: pyval
  vl_name :: string

definition on_tracker :: "(tracker \<Rightarrow> tracker) \<Rightarrow> ('h, unit) op" where
  "on_tracker f = modify (\<lambda>w. w\<lparr>tracker_of := f (tracker_of w)\<rparr>)"

definition eligible :: "'h machine \<Rightarrow> int set \<Rightarrow> 'h world \<Rightarrow> vm_listing \<Rightarrow> (int \<times> string) list" where
  "eligible m prot w v =
     (if lower (vl_type v) \<noteq> ''qemu'' \<or> vl_template v \<noteq> 0 then []
      else case assert_sim_vm (vl_vmid v) prot SIM_VMIN of
             Inl e \<Rightarrow> []
           | Inr vid \<Rightarrow>
               let bus = bus_for_vmid vid (store w) in
               if \<not> str_set bus \<or> \<not> m_dir m (''/sys/bus/usb/devices/'' @ the bus) (host w) then []
               else [(vid, reclone_vm_name m vid (vl_name v))])"

definition tracked :: "'a \<Rightarrow> (batch \<Rightarrow> 'a) \<Rightarrow> ('h, 'a) op" where
  "tracked dflt f = peek (\<lambda>w. case tr_batch (tracker_of w) of None \<Rightarrow> dflt | Some b \<Rightarrow> f b)"

definition fleet_progress ::
    "'h machine \<Rightarrow> string \<Rightarrow> string \<Rightarrow> int option \<Rightarrow> int option \<Rightarrow> (string \<times> pyval) list \<Rightarrow> ('h, unit) op" where
  "fleet_progress m cmd_id step pct vid extra =
     progress m cmd_id ''proxmox_reclone_all'' ''running'' step pct vid extra"

text \<open>
  The turn of one VM. \<open>arrives\<close> tells before whose turn the operator's stop request comes in;
  the turns run one after the other, as with a concurrency of one.
\<close>

definition reclone_one ::
    "'h machine \<Rightarrow> (string \<Rightarrow> pyval option) \<Rightarrow> (string, pyval) dict option \<Rightarrow> (string, pyval) dict \<Rightarrow> int set
     \<Rightarrow> string \<Rightarrow> (int \<Rightarrow> bool) \<Rightarrow> int \<times> string \<Rightarrow> ('h, unit) op" where
  "reclone_one m decode cfg usb_cfg prot cmd_id arrives c =
     (case c of (vid, vname) \<Rightarrow>
      bnd (if arrives vid then on_tracker (\<lambda>t. snd (request_reclone_stop t)) else ret ()) (\<lambda>_.
      bnd (peek (\<lambda>w. reclone_stop_requested (tracker_of w))) (\<lambda>stop.
      if stop then ret ()
      else
        bnd (on_tracker (mark_reclone_progress vid ''destroying'' vname)) (\<lambda>_.
        bnd (fleet_progress m cmd_id ''recloning'' None (Some vid) [(''name'', PStr vname)]) (\<lambda>_.
        bnd (except_any (bnd (reclone_vm_core m decode cfg usb_cfg prot None vid PNone vname) (\<lambda>r. ret (rr_error r)))
               (\<lambda>e. ret (Some (CoreRaised e)))) (\<lambda>failure.
        bnd (now_s m) (\<lambda>t.
        bnd (on_tracker (mark_reclone_vm_done vid (failure = None) vname t)) (\<lambda>_.
        bnd (tracked 0 (\<lambda>b. b_completed b + b_failed b)) (\<lambda>n.
        bnd (tracked 1 (\<lambda>b. if b_total b = 0 then 1 else b_total b)) (\<lambda>total.
        fleet_progress m cmd_id ''recloning'' (Some (100 * n div total)) (Some vid)
          [(''name'', PStr vname), (''result'', PStr (if failure = None then ''completed'' else ''failed'')),
           (''error'', case failure of None \<Rightarrow> PNone | Some e \<Rightarrow> PStr (error_text vid e))]))))))))))"

definition fleet_status :: "bool \<Rightarrow> int \<Rightarrow> int \<Rightarrow> string" where
  "fleet_status stopped completed failures =
     (if stopped then ''interrupted'' else if failures = 0 then ''completed''
      else if completed = 0 then ''failed'' else ''completed'')"

definition fleet_args :: "(string, pyval) dict \<Rightarrow> (string, pyval) dict" where
  "fleet_args data = (let a = cfg_get data ''args'' in case (if truthy a then a else PDict data) of PDict d \<Rightarrow> d | _ \<Rightarrow> [])"

definition run_fleet ::
    "'h machine \<Rightarrow> (string \<Rightarrow> pyval option) \<Rightarrow> (string, pyval) dict option \<Rightarrow> (string, pyval) dict \<Rightarrow> int set
     \<Rightarrow> string \<Rightarrow> (int \<Rightarrow> bool) \<Rightarrow> (int \<times> string) list \<Rightarrow> ('h, unit) op" where
  "run_fleet m decode cfg usb_cfg prot cmd_id arrives candidates =
     (let N = int (length candidates) in
      bnd (now_s m) (\<lambda>t0.
      bnd (on_tracker (\<lambda>t. snd (start_reclone_batch N ''manual'' t0 t))) (\<lambda>_.
      bnd (fleet_progress m cmd_id ''starting'' (Some 0) None [(''total'', PInt N)]) (\<lambda>_.
      bnd (each (reclone_one m decode cfg usb_cfg prot cmd_id arrives) candidates) (\<lambda>_.
      bnd (tracked 0 b_completed) (\<lambda>completed.
      bnd (tracked 0 b_failed) (\<lambda>failures.
      bnd (peek (\<lambda>w. reclone_stop_requested (tracker_of w))) (\<lambda>stopped.
      bnd (now_s m) (\<lambda>t1.
      bnd (on_tracker (end_reclone_batch (fleet_status stopped completed failures) t1)) (\<lambda>_.
      terminal cmd_id ''proxmox_reclone_all''
        (if stopped \<or> failures \<noteq> 0 \<and> completed = 0 then ''failed'' else ''completed'')
        ((if stopped then ''fleet reclone stopped: '' else ''fleet reclone done: '') @ str_int completed
         @ '' completed, '' @ str_int failures @ '' failed''
         @ (if stopped then '' ('' @ str_int (N - completed - failures) @ '' skipped)'' else []))
        None [(''total'', PInt N), (''completed'', PInt completed), (''failed'', PInt failures)]))))))))))"

text \<open>\<open>listing\<close> is the answer of the VM inventory.\<close>

definition reclone_all ::
    "'h machine \<Rightarrow> (string \<Rightarrow> pyval option) \<Rightarrow> (string, pyval) dict option \<Rightarrow> (string, pyval) dict
     \<Rightarrow> (string, pyval) dict \<Rightarrow> string \<Rightarrow> vm_listing list result \<Rightarrow> (int \<Rightarrow> bool) \<Rightarrow> ('h, unit) op" where
  "reclone_all m decode cfg usb_cfg data cmd_id listing arrives =
     (let prot = resolve_protected_vmids cfg; act = ''proxmox_reclone_all'' in
      bnd (lift (py_int (py_or (cfg_get (fleet_args data) ''concurrency'') (PInt 0)))) (\<lambda>_.
      bnd (peek (\<lambda>w. running (tracker_of w))) (\<lambda>busy.
      if busy then terminal cmd_id act ''failed'' ''a fleet reclone is already running on this host'' None []
      else (case listing of
          Inl e \<Rightarrow> terminal cmd_id act ''failed'' (''failed to enumerate VMs: '' @ exn_message e) None []
        | Inr rows \<Rightarrow>
            bnd (peek (\<lambda>w. concat (map (eligible m prot w) rows))) (\<lambda>candidates.
            if candidates = []
            then terminal cmd_id act ''completed'' ''no eligible VMs with a present USB bus to reclone'' None []
            else run_fleet m decode cfg usb_cfg prot cmd_id arrives candidates)))))"

section \<open>What a reclone leaves alone\<close>

context inside_view
begin

lemma keeps_resolve [keeps_intro]:
  "keeps f (qm_config m vid)" "keeps f (local_node_name m decode)" "keeps f (list_qemu_vms_cluster m decode)"
  by (auto simp: qm_config_def local_node_name_def list_qemu_vms_cluster_def intro!: keeps_intro
      split: option.splits pyval.splits)

lemma keeps_first_template [keeps_intro]: "keeps f (first_template m cvid vs)"
  by (induction vs) (auto simp: is_runnable_template_def intro!: keeps_intro)

lemma keeps_resolve_template [keeps_intro]: "keeps f (resolve_template_vmid m decode c)"
  by (auto simp: resolve_template_vmid_def Let_def intro!: keeps_intro split: option.splits)

lemma keeps_plan [keeps_intro]: "keeps f (plan_reclone m decode usb_cfg vid source)"
  by (auto simp: plan_reclone_def find_device_def bus_present_def Let_def intro!: keeps_intro split: option.splits)

end

context badge_view
begin

lemma keeps_frames [keeps_intro]:
  "keeps f (progress m c a s st p v x)" "keeps f (terminal c a s msg v x)" "keeps f (vm_progress m fr vid s2 p2)"
  "keeps f (mark_recloning m vid2)"
  by (auto simp: progress_def terminal_def record_terminal_def vm_progress_def mark_recloning_def clear_recloning_def f_badge f_ledger
      intro!: keeps_intro keeps_modify split: option.splits)

end

text \<open>A part of the world that also survives a destroy, a clone and the check of the pool.\<close>

locale rest_view = badge_view +
  assumes f_store: "f (w\<lparr>store := d\<rparr>) = f w" and f_deleting: "f (w\<lparr>deleting := q\<rparr>) = f w"
    and f_pools: "f (w\<lparr>verified_pools := ps\<rparr>) = f w"
begin

lemma keeps_files [keeps_intro]: "keeps f (on_disk g)" "keeps f (with_disk k)"
  by (auto simp: keeps_def on_disk_def with_disk_def f_store split: prod.split)

lemma keeps_destroy [keeps_intro]: "keeps f (destroy_vm m cfg bus p x v)"
  by (auto simp: destroy_vm_def destroy_present_def expire_pending_commands_def pct_config_def qm_config_def
      mark_deleting_def tear_down_def settle_gone_def settle_failed_def exclude_if_def notify_torn_down_def Let_def f_deleting
      intro!: keeps_intro keeps_modify)

lemma keeps_pool [keeps_intro]: "keeps f (ensure_sim_pool m decode usb_cfg)"
  by (auto simp: ensure_sim_pool_def list_pools_def pvesh_read_def pvesh_action_def pvesh_bin_def verify_pool_def f_pools
      intro!: keeps_intro keeps_modify split: option.splits)

lemma keeps_finish [keeps_intro]: "keeps f (finish_clone m decode prot False vid nm bus img ty)"
  by (auto simp: finish_clone_def on_usb_state_def intro!: keeps_intro keeps_first_boot simp: f_store)

lemma keeps_phases: "list_all (\<lambda>p. keeps f (snd p)) ps \<Longrightarrow> keeps f (in_phases ps)"
  by (induction ps rule: in_phases.induct) (auto intro!: keeps_intro split: option.splits)

lemma keeps_build [keeps_intro]: "keeps f (in_phases (build_phases m prot usb_cfg fr pool vid nm plan))"
  by (rule keeps_phases) (auto simp: build_phases_def configure_clone_def Let_def intro!: keeps_intro)

lemma keeps_rebuild [keeps_intro]: "keeps f (rebuild_vm m decode cfg usb_cfg prot fr vid nm plan)"
  by (auto simp: rebuild_vm_def finish_reclone_def usb_device_type_def read_sysfs_def Let_def
      intro!: keeps_intro split: option.splits)

end

interpretation hold_rest: rest_view pci_hold
  by unfold_locales simp_all

interpretation tracker_rest: rest_view tracker_of
  by unfold_locales simp_all

section \<open>Nothing is touched without a plan\<close>

lemma dpop_dset: "dpop k (dset k v d) = dpop k d"
  by (induction d) (auto simp: dpop_eq_filter)

text \<open>
  A reclone gives back the controller it held. However it ends, by success, failure or
  exception, no hold of it stays behind: the holds are the ones there were, except that none
  is left on the controller of this VM.
\<close>

theorem reclone_releases_hold:
  "let w' = snd (reclone_vm_core m decode cfg usb_cfg prot frame vid source nm w) in
     pci_hold w' = pci_hold w \<or> (\<exists>addr. pci_hold w' = dpop addr (pci_hold w))"
proof -
  obtain r w1 where p: "plan_reclone m decode usb_cfg vid source w = (r, w1)" by force
  have h1: "pci_hold w1 = pci_hold w" using keepsD [OF hold_view.keeps_plan p] .
  show ?thesis
  proof (cases "\<exists>plan. r = Inr (Inr plan) \<and> rp_pci plan \<noteq> []")
    case False
    have "keeps pci_hold (rebuild_vm m decode cfg usb_cfg prot frame vid nm plan)" for plan
      by (intro keeps_intro hold_rest.keeps_rebuild)
    with False h1 show ?thesis
      by (auto simp: reclone_vm_core_def bnd_def p always_then_def keeps_def split: sum.splits prod.splits)
  next
    case True
    then obtain plan where plan: "r = Inr (Inr plan)" "rp_pci plan \<noteq> []" by blast
    let ?w2 = "w1\<lparr>pci_hold := dset (pci_short (rp_pci plan)) vid (pci_hold w1)\<rparr>"
    obtain x w3 where b: "rebuild_vm m decode cfg usb_cfg prot frame vid nm plan ?w2 = (x, w3)" by force
    have "pci_hold w3 = dset (pci_short (rp_pci plan)) vid (pci_hold w)"
      using keepsD [OF hold_rest.keeps_rebuild b] h1 by simp
    moreover have "snd (reclone_vm_core m decode cfg usb_cfg prot frame vid source nm w) =
        w3\<lparr>pci_hold := dpop (pci_short (rp_pci plan)) (pci_hold w3)\<rparr>"
      using plan b by (simp add: reclone_vm_core_def bnd_def p hold_pci_for_reclone_def release_pci_hold_def always_then_def)
    ultimately show ?thesis by (auto simp: dpop_dset)
  qed
qed

text \<open>A command that only reads.\<close>

definition reads_only :: "event \<Rightarrow> bool" where
  "reads_only e = (case e of Cmd a r \<Rightarrow> take 2 a \<in> {[''qm'', ''config''], [''qm'', ''list''], [''pvesh'', ''get'']} | _ \<Rightarrow> False)"

text \<open>An answer that shows a VM: its configuration, or its row in the cluster listing.\<close>

definition shows_vm :: "(string \<Rightarrow> pyval option) \<Rightarrow> int \<Rightarrow> event \<Rightarrow> bool" where
  "shows_vm decode vid e =
     (case e of
        Cmd a (Exited rc out err) \<Rightarrow>
          rc = 0 \<and> (a = [''qm'', ''config'', str_int vid] \<and> parse_kv out \<noteq> []
            \<or> (case decode (or_text out ''[]'') of
                 Some (PList rows) \<Rightarrow> (case cluster_rows rows of Inl e \<Rightarrow> False | Inr rs \<Rightarrow> vid \<in> fst ` set rs)
               | _ \<Rightarrow> False))
      | _ \<Rightarrow> False)"

abbreviation shown_if :: "(string \<Rightarrow> pyval option) \<Rightarrow> int option result \<Rightarrow> event list \<Rightarrow> bool" where
  "shown_if decode r es \<equiv> (case r of Inr (Some t) \<Rightarrow> list_ex (shows_vm decode t) es | _ \<Rightarrow> True)"

lemma emits_queries [emits_intro]:
  "emits reads_only (qm_config m vid)" "emits reads_only (list_qemu_vmids m)" "emits reads_only (local_node_name m decode)"
  "emits reads_only (list_qemu_vms_cluster m decode)"
  by (auto simp: qm_config_def guest_config_def list_qemu_vmids_def local_node_name_def list_qemu_vms_cluster_def reads_only_def
      intro!: emits_intro split: option.splits pyval.splits)

lemma emits_first_template [emits_intro]: "emits reads_only (first_template m cvid vs)"
  by (induction vs) (auto simp: is_runnable_template_def intro!: emits_intro)

lemma emits_resolve [emits_intro]: "emits reads_only (resolve_template_vmid m decode c)"
  by (auto simp: resolve_template_vmid_def Let_def intro!: emits_intro split: option.splits)

lemma emits_plan: "emits reads_only (plan_reclone m decode usb_cfg vid source)"
  by (auto simp: plan_reclone_def find_device_def bus_present_def Let_def intro!: emits_intro split: option.splits)

lemma yields_qm_config:
  "yields (qm_config m vid) (\<lambda>r es. case r of Inr cfg \<Rightarrow> cfg = [] \<or> list_ex (shows_vm decode vid) es | Inl e \<Rightarrow> True)"
  unfolding qm_config_def guest_config_def
  by (rule yields_bnd [OF yields_sh, where QB = "\<lambda>x r es. es = [] \<and> r = Inr (if fst x \<noteq> 0 then [] else parse_kv (fst (snd x)))"])
     (auto simp: yields_def shows_vm_def split: sum.splits)

lemma yields_first_template: "yields (first_template m cvid vs) (shown_if decode)"
proof (induction vs)
  case Nil
  then show ?case by (simp add: yields_Pair)
next
  case (Cons v vs)
  let ?Q = "\<lambda>r es. case r of Inr b \<Rightarrow> b \<longrightarrow> list_ex (shows_vm decode v) es | Inl e \<Rightarrow> True"
  have "yields (is_runnable_template m v) ?Q"
    unfolding is_runnable_template_def
    by (rule yields_bnd [OF yields_qm_config, where QB = "\<lambda>x r es. es = [] \<and> r = Inr (dget x ''template'' = Some ''1'')"])
       (auto simp: yields_def split: sum.splits)
  then have "yields (bnd (is_runnable_template m v) (\<lambda>tpl. if tpl then ret (Some v) else first_template m cvid vs)) (shown_if decode)"
    by (rule yields_bnd [where QB = "\<lambda>b r es. if b then r = Inr (Some v) \<and> es = [] else shown_if decode r es"])
       (use Cons in \<open>auto simp: yields_def split: sum.splits option.splits if_splits\<close>)
  with Cons show ?case by simp
qed

lemma yields_cluster:
  "yields (list_qemu_vms_cluster m decode)
     (\<lambda>r es. case r of Inr rs \<Rightarrow> rs = [] \<or> (\<forall>v\<in>fst ` set rs. list_ex (shows_vm decode v) es) | Inl e \<Rightarrow> True)"
  unfolding list_qemu_vms_cluster_def
  by (rule yields_bnd [OF yields_sh, where QB = "\<lambda>x r es. es = [] \<and> (r = Inr [] \<or> fst x = 0 \<and> (\<exists>rows.
        decode (or_text (fst (snd x)) ''[]'') = Some (PList rows) \<and> r = cluster_rows rows))"])
     (auto simp: yields_def shows_vm_def image_iff split: sum.splits option.splits pyval.splits if_splits, force+)

lemma yields_resolve: "yields (resolve_template_vmid m decode c) (shown_if decode)"
proof -
  let ?raw = "if c = PNone then [] else strip (py_str c)"
  have num: "yields (bnd (qm_config m v) (\<lambda>cfg. if cfg \<noteq> [] then ret (Some v)
      else bnd (list_qemu_vmids m) (\<lambda>vids. first_template m v (sort vids)))) (shown_if decode)" for v
  proof (rule yields_bnd [OF yields_qm_config, where QB = "\<lambda>cfg r es. if cfg \<noteq> [] then r = Inr (Some v) \<and> es = [] else shown_if decode r es"])
    fix cfg :: "(string, string) dict"
    have "yields (bnd (list_qemu_vmids m) (\<lambda>vids. first_template m v (sort vids))) (shown_if decode)"
      by (rule yields_then [OF appends_if_emits [OF emits_queries(2)] yields_first_template])
         (auto split: sum.splits option.splits)
    then show "yields (if cfg \<noteq> [] then ret (Some v) else bnd (list_qemu_vmids m) (\<lambda>vids. first_template m v (sort vids)))
        (\<lambda>r es. if cfg \<noteq> [] then r = Inr (Some v) \<and> es = [] else shown_if decode r es)"
      by (auto simp: yields_def)
  qed (auto split: sum.splits option.splits if_splits)
  have nm: "yields (bnd (local_node_name m decode) (\<lambda>node. bnd (list_qemu_vms_cluster m decode) (\<lambda>rows.
      ret (case named_here raw node rows of [vid] \<Rightarrow> Some vid | _ \<Rightarrow> None)))) (shown_if decode)" for raw
  proof (rule yields_then [OF appends_if_emits [OF emits_queries(3)]])
    fix node
    show "yields (bnd (list_qemu_vms_cluster m decode) (\<lambda>rows.
      ret (case named_here raw node rows of [vid] \<Rightarrow> Some vid | _ \<Rightarrow> None))) (shown_if decode)"
    proof (rule yields_bnd [OF yields_cluster, where QB = "\<lambda>rows r es. es = [] \<and> r = Inr (case named_here raw node rows of [vid] \<Rightarrow> Some vid | _ \<Rightarrow> None)"])
      fix rows :: "(int \<times> string \<times> string) list" and es fs :: "event list" and r :: "int option result"
      assume a: "case Inr rows of Inr rs \<Rightarrow> rs = [] \<or> (\<forall>v\<in>fst ` set rs. list_ex (shows_vm decode v) es) | Inl e \<Rightarrow> True"
        and b: "fs = [] \<and> r = Inr (case named_here raw node rows of [vid] \<Rightarrow> Some vid | _ \<Rightarrow> None)"
      have sub: "set (named_here raw node rows) \<subseteq> fst ` set rows" by (auto simp: named_here_def)
      show "shown_if decode r (es @ fs)"
      proof (cases "\<exists>v. named_here raw node rows = [v]")
        case True
        then obtain v where v: "named_here raw node rows = [v]" by blast
        with sub have "v \<in> fst ` set rows" by simp
        moreover from this have "rows \<noteq> []" by auto
        ultimately have "list_ex (shows_vm decode v) es" using a by auto
        with v b show ?thesis by simp
      next
        case False
        then show ?thesis using b by (auto split: list.splits)
      qed
    qed (auto simp: yields_def)
  qed (auto split: sum.splits option.splits)
  show ?thesis
    unfolding resolve_template_vmid_def Let_def
    using num nm by (auto split: option.splits intro!: yields_Pair yields_ret yields_throw)
qed

lemma yields_if: "(b \<Longrightarrow> yields p Q) \<Longrightarrow> (\<not> b \<Longrightarrow> yields q Q) \<Longrightarrow> yields (if b then p else q) Q"
  by simp

text \<open>The world apart from the host and the trace.\<close>

interpretation outside_view: inside_view "\<lambda>w. w\<lparr>host := h, trace := []\<rparr>" for h
  by unfold_locales simp_all

lemma yields_plan:
  "yields (plan_reclone m decode usb_cfg vid source)
     (\<lambda>r es. case r of Inr (Inr plan) \<Rightarrow> rp_template plan \<noteq> 0 \<and> list_ex (shows_vm decode (rp_template plan)) es | _ \<Rightarrow> True)"
proof -
  define Q where "Q r es \<longleftrightarrow> (case r of Inr (Inr plan) \<Rightarrow> rp_template plan \<noteq> 0 \<and> list_ex (shows_vm decode (rp_template plan)) es | _ \<Rightarrow> True)"
    for r :: "(recloned + reclone_plan) result" and es
  have Q: "Q (Inl e) es" "Q (Inr (Inl f)) es" "Q r fs \<Longrightarrow> Q r (es @ fs)" for e es fs r f
    by (auto simp: Q_def split: sum.splits)
  have choose: "yields (bnd (resolve_template_vmid m decode c) (\<lambda>t. ret (case t of
        None \<Rightarrow> Inl (failed_with (SourceMissing c) (or_pci bus pci))
      | Some tpl \<Rightarrow> if tpl = 0 then Inl (failed_with (SourceMissing c) (or_pci bus pci))
                    else Inr \<lparr>rp_bus = bus, rp_pci = pci, rp_image = img, rp_template = tpl\<rparr>))) Q" for c bus pci img
    by (rule yields_bnd [OF yields_resolve [where decode = decode],
          where QB = "\<lambda>t r es. es = [] \<and> r = Inr (case t of
        None \<Rightarrow> Inl (failed_with (SourceMissing c) (or_pci bus pci))
      | Some tpl \<Rightarrow> if tpl = 0 then Inl (failed_with (SourceMissing c) (or_pci bus pci))
                    else Inr \<lparr>rp_bus = bus, rp_pci = pci, rp_image = img, rp_template = tpl\<rparr>)"])
       (auto simp: yields_def Q_def split: option.splits if_splits)
  have dev: "appends (find_device m vid)"
    by (auto simp: find_device_def Let_def intro!: emits_intro appends_if_emits [OF emits_queries(1)])
  have "yields (plan_reclone m decode usb_cfg vid source) Q"
    unfolding plan_reclone_def Let_def
  proof (rule yields_then [OF dev])
    fix x :: "string option \<times> string"
    obtain bus pci where x: "x = (bus, pci)" by force
    show "yields (case x of (bus, pci) \<Rightarrow> bnd (bus_present m bus) (\<lambda>present.
        if pci = [] \<and> \<not> present then ret (Inl (failed_with NoDevice bus))
        else bnd (peek (\<lambda>w. image_of vid (load_usb_state (store w)))) (\<lambda>img.
          if \<not> truthy (clone_source source usb_cfg img) then ret (Inl (failed_with NoTemplate (or_pci bus pci)))
          else bnd (resolve_template_vmid m decode (clone_source source usb_cfg img)) (\<lambda>t. ret (case t of
              None \<Rightarrow> Inl (failed_with (SourceMissing (clone_source source usb_cfg img)) (or_pci bus pci))
            | Some tpl \<Rightarrow> if tpl = 0 then Inl (failed_with (SourceMissing (clone_source source usb_cfg img)) (or_pci bus pci))
                          else Inr \<lparr>rp_bus = bus, rp_pci = pci, rp_image = img, rp_template = tpl\<rparr>))))) Q"
      unfolding x prod.case bus_present_def
      apply (rule yields_then [OF emits_pure(4)])
        apply (rule yields_if)
         apply (rule yields_ret, rule Q)
        apply (rule yields_then [OF emits_pure(4)])
          apply (rule yields_if)
           apply (rule yields_ret, rule Q)
          apply (rule choose)
         apply (rule Q, rule Q, assumption)
       apply (rule Q, rule Q, assumption)
      done
  qed (auto intro: Q)
  then show ?thesis by (simp add: Q_def [abs_def])
qed

lemma plan_failure: "plan_reclone m decode usb_cfg vid source w = (Inr (Inl failure), w1) \<Longrightarrow> rr_error failure \<noteq> None"
  unfolding plan_reclone_def Let_def
  by (auto elim!: bnd_InrD simp: failed_with_def split: if_splits option.splits)

text \<open>
  A VM is not touched before its replacement is certain. Everything a reclone does up to
  its plan only reads: the agent's files and marks are as before, and only configurations and
  listings were asked for. Without a plan the reclone ends there, with the failure or the
  exception; and a plan names a clone source that one of those answers showed to exist.
\<close>

theorem reclone_plans_first:
  "case plan_reclone m decode usb_cfg vid source w of (r, w1) \<Rightarrow>
     (\<exists>es. w1 = w\<lparr>host := host w1, trace := trace w @ es\<rparr> \<and> list_all reads_only es
       \<and> (case r of Inr (Inr plan) \<Rightarrow> rp_template plan \<noteq> 0 \<and> list_ex (shows_vm decode (rp_template plan)) es | _ \<Rightarrow> True))
     \<and> (case r of
          Inr (Inr plan) \<Rightarrow> True
        | Inr (Inl failure) \<Rightarrow> rr_error failure \<noteq> None
            \<and> reclone_vm_core m decode cfg usb_cfg prot frame vid source nm w = (Inr failure, w1)
        | Inl e \<Rightarrow> reclone_vm_core m decode cfg usb_cfg prot frame vid source nm w = (Inl e, w1))"
proof -
  obtain r w1 where p: "plan_reclone m decode usb_cfg vid source w = (r, w1)" by force
  have "w1\<lparr>host := host w, trace := []\<rparr> = w\<lparr>host := host w, trace := []\<rparr>"
    using keepsD [OF outside_view.keeps_plan p] .
  then have same: "w1 = w\<lparr>host := host w1, trace := trace w1\<rparr>" by (cases w1; cases w) simp
  obtain es where es: "trace (snd (plan_reclone m decode usb_cfg vid source w)) = trace w @ es"
    and q: "case fst (plan_reclone m decode usb_cfg vid source w) of
      Inr (Inr plan) \<Rightarrow> rp_template plan \<noteq> 0 \<and> list_ex (shows_vm decode (rp_template plan)) es | _ \<Rightarrow> True"
    and ro: "list_all reads_only es"
    using yieldsE [OF yields_emits [OF yields_plan emits_plan]] by blast
  have "w1 = w\<lparr>host := host w1, trace := trace w @ es\<rparr>" using same es p by simp
  moreover have "rr_error f \<noteq> None" if "r = Inr (Inl f)" for f using plan_failure p that by blast
  ultimately show ?thesis
    using q ro unfolding p prod.case fst_conv
    by (auto simp: reclone_vm_core_def bnd_def p split: sum.splits)
qed

section \<open>The books of the fleet batch\<close>

lemma ends_resolve [ends_intro]:
  "ends (qm_config m vid)" "ends (local_node_name m decode)" "ends (list_qemu_vms_cluster m decode)" "ends (list_qemu_vmids m)"
proof -
  have l: "local_entry es \<noteq> Inl Diverged" for es by (induction es) (auto split: pyval.splits)
  have i: "py_int v \<noteq> Inl Diverged" for v by (cases v) (auto split: option.split)
  have c: "cluster_rows rs \<noteq> Inl Diverged" for rs
    by (induction rs) (use i in \<open>auto simp: rbind_def split: pyval.splits sum.splits\<close>)
  have "py_iter v \<noteq> Inl Diverged" for v by (cases v) simp_all
  then have n: "rbind (rbind (loaded d) py_iter) local_entry \<noteq> Inl Diverged" for d
    using l by (auto simp: rbind_def loaded_def split: sum.splits option.splits)
  show "ends (qm_config m vid)" "ends (list_qemu_vmids m)"
    by (auto simp: qm_config_def list_qemu_vmids_def intro!: ends_intro)
  show "ends (local_node_name m decode)"
    by (auto simp: local_node_name_def intro!: ends_intro n)
  show "ends (list_qemu_vms_cluster m decode)"
    by (auto simp: list_qemu_vms_cluster_def intro!: ends_intro c split: option.splits pyval.splits)
qed

lemma ends_first_template [ends_intro]: "ends (first_template m cvid vs)"
  by (induction vs) (auto simp: is_runnable_template_def intro!: ends_intro)

lemma ends_plan: "ends (plan_reclone m decode usb_cfg vid source)"
  by (auto simp: plan_reclone_def find_device_def bus_present_def resolve_template_vmid_def Let_def
      intro!: ends_intro split: option.splits)

lemma ends_pool: "ends (ensure_sim_pool m decode usb_cfg)"
  by (auto simp: ensure_sim_pool_def list_pools_def pvesh_read_def pvesh_action_def pvesh_bin_def verify_pool_def loaded_def
      intro!: ends_intro split: option.splits)

lemma ends_phases: "list_all (\<lambda>p. ends (snd p)) ps \<Longrightarrow> ends (in_phases ps)"
  by (induction ps rule: in_phases.induct) (auto intro!: ends_intro split: option.splits)

lemma ends_vm_progress [ends_intro]: "ends (vm_progress m fr vid s p)"
  by (auto simp: vm_progress_def intro!: ends_intro returns_ends [OF returns_frames(1)] split: option.splits)

lemma ends_rebuild:
  assumes "clock_ok m"
  shows "ends (rebuild_vm m decode cfg usb_cfg prot fr vid nm plan)"
proof -
  have b: "ends (in_phases (build_phases m prot usb_cfg fr pool vid vn plan))" for pool vn
    by (rule ends_phases) (auto simp: build_phases_def configure_clone_def Let_def intro!: ends_intro)
  show ?thesis
    by (auto simp: rebuild_vm_def finish_reclone_def usb_device_type_def read_sysfs_def Let_def
        intro!: ends_intro b ends_pool ends_destroy [OF assms] ends_finish_clone [OF assms] returns_ends [OF returns_marks(2)]
        split: option.splits)
qed

lemma ends_core:
  assumes "clock_ok m"
  shows "ends (reclone_vm_core m decode cfg usb_cfg prot fr vid source nm)"
proof -
  have a: "ends (always_then p q)" if "ends p" "ends q" for p :: "('a, recloned) op" and q
    using that by (auto simp: ends_def always_then_def split: prod.splits sum.splits) (metis fst_conv)+
  show ?thesis
    by (auto simp: reclone_vm_core_def hold_pci_for_reclone_def release_pci_hold_def
        intro!: ends_intro ends_plan a ends_rebuild [OF assms] split: sum.splits)
qed

lemma keeps_always: "keeps f p \<Longrightarrow> keeps f q \<Longrightarrow> keeps f (always_then p q)"
  by (auto simp: keeps_def always_then_def split: prod.splits sum.splits) (metis snd_conv)+

lemma core_keeps_tracker: "keeps tracker_of (reclone_vm_core m decode cfg usb_cfg prot fr vid source nm)"
  by (auto simp: reclone_vm_core_def hold_pci_for_reclone_def release_pci_hold_def
      intro!: keeps_intro keeps_always keeps_modify tracker_rest.keeps_plan tracker_rest.keeps_rebuild
      split: sum.splits)

text \<open>A turn in the terms of the abstract batch.\<close>

definition fleet_state :: "'h world \<Rightarrow> bool \<Rightarrow> int \<Rightarrow> rat \<Rightarrow> (int \<times> bool) list \<Rightarrow> bool" where
  "fleet_state w stop n s vs \<longleftrightarrow> tr_stop (tracker_of w) = stop \<and> tracker_ok (tracker_of w)
     \<and> abs_batch (tracker_of w) = Running n s vs"

lemma Running_running: "abs_batch t = Running n s vs \<Longrightarrow> running t"
  by (auto simp: abs_batch_def running_def split: option.splits if_splits)

lemma bnd_peek: "bnd (peek f) g w = g (f w) w"
  by (simp add: bnd_def)

lemma bnd_on_tracker: "bnd (on_tracker f) g w = g () (w\<lparr>tracker_of := f (tracker_of w)\<rparr>)"
  by (simp add: bnd_def on_tracker_def)

lemma one_turn:
  assumes clock: "clock_ok m" and st: "fleet_state w stop n s vs"
  obtains w' ok where "reclone_one m decode cfg usb_cfg prot cid arrives (vid, nm) w = (Inr (), w')"
    "if stop \<or> arrives vid then fleet_state w' True n s vs else fleet_state w' False n s (vs @ [(vid, ok)])"
proof -
  let ?t0 = "tracker_of w"
  let ?t1 = "if arrives vid then snd (request_reclone_stop ?t0) else ?t0"
  let ?w1 = "w\<lparr>tracker_of := ?t1\<rparr>"
  have run0: "running ?t0" using st by (auto simp: fleet_state_def dest: Running_running)
  have ok1: "tracker_ok ?t1" using st tracker_step_ok [OF tracker_step.Stop] by (simp add: fleet_state_def)
  have ab1: "abs_batch ?t1 = Running n s vs" using st by (simp add: fleet_state_def abs_same)
  have stop1: "tr_stop ?t1 = (stop \<or> arrives vid)"
    using st run0 by (simp add: fleet_state_def request_reclone_stop_def)
  define req where "req = (if arrives vid then on_tracker (\<lambda>t. snd (request_reclone_stop t)) else (ret () :: ('a, unit) op))"
  have s1: "req w = (Inr (), ?w1)" by (simp add: on_tracker_def req_def)
  note one = reclone_one_def [of m decode cfg usb_cfg prot cid arrives "(vid, nm)", unfolded prod.case, folded req_def]
  show ?thesis
  proof (cases "stop \<or> arrives vid")
    case True
    have "reclone_one m decode cfg usb_cfg prot cid arrives (vid, nm) w = (Inr (), ?w1)"
      using stop1 True by (simp add: one bnd_def s1 reclone_stop_requested_def)
    moreover have "fleet_state ?w1 True n s vs" using ok1 ab1 stop1 True by (simp add: fleet_state_def)
    ultimately show ?thesis using that True by simp
  next
    case False
    let ?t2 = "mark_reclone_progress vid ''destroying'' nm ?t0"
    let ?w2 = "w\<lparr>tracker_of := ?t2\<rparr>"
    have q: "req w = (Inr (), w)" using s1 False by simp
    have ns: "\<not> tr_stop ?t0" using st False by (simp add: fleet_state_def)
    have pr: "\<exists>w''. fleet_progress m cid st p v x v' = (Inr (), w'') \<and> tracker_of w'' = tracker_of v'" for st p v x and v' :: "'a world"
    proof -
      obtain u w'' where r: "progress m cid ''proxmox_reclone_all'' ''running'' st p v x v' = (Inr u, w'')"
        using returnsD [OF returns_frames(1)] by blast
      with keepsD [OF tracker_rest.keeps_frames(1) r] show ?thesis by (simp add: fleet_progress_def)
    qed
    obtain w3 where s3: "fleet_progress m cid ''recloning'' None (Some vid) [(''name'', PStr nm)] ?w2 = (Inr (), w3)"
      and t3: "tracker_of w3 = ?t2" using pr [of "''recloning''" None "Some vid" "[(''name'', PStr nm)]" ?w2] by auto
    define core where "core = except_any (bnd (reclone_vm_core m decode cfg usb_cfg prot None vid PNone nm) (\<lambda>r. ret (rr_error r)))
        (\<lambda>e. ret (Some (CoreRaised e)))"
    have "returns core" unfolding core_def by (intro returns_intro ends_intro ends_core [OF clock])
    then obtain failure w4 where s4: "core w3 = (Inr failure, w4)" using returnsD by blast
    have "keeps tracker_of core" unfolding core_def by (intro keeps_intro core_keeps_tracker)
    from keepsD [OF this s4] have t4: "tracker_of w4 = ?t2" using t3 by simp
    let ?t5 = "mark_reclone_vm_done vid (failure = None) nm (m_clock m (host w4)) ?t2"
    let ?w5 = "w4\<lparr>tracker_of := ?t5\<rparr>"
    obtain w6 where s6: "bnd (tracked 0 (\<lambda>b. b_completed b + b_failed b)) (\<lambda>k.
        bnd (tracked 1 (\<lambda>b. if b_total b = 0 then 1 else b_total b)) (\<lambda>total.
        fleet_progress m cid ''recloning'' (Some (100 * k div total)) (Some vid)
          [(''name'', PStr nm), (''result'', PStr (if failure = None then ''completed'' else ''failed'')),
           (''error'', case failure of None \<Rightarrow> PNone | Some e \<Rightarrow> PStr (error_text vid e))])) ?w5 = (Inr (), w6)"
      and t6: "tracker_of w6 = ?t5"
      using pr [where v' = ?w5] by (simp add: bnd_def tracked_def) (metis (no_types, lifting) world.select_convs(17) world.surjective world.update_convs(17))
    have "reclone_one m decode cfg usb_cfg prot cid arrives (vid, nm) w = (Inr (), w6)"
    proof -
      have e: "bnd req f w = f () w" "bnd (fleet_progress m cid ''recloning'' None (Some vid) [(''name'', PStr nm)]) f ?w2 = f () w3"
        "bnd core g w3 = g failure w4" for f and g :: "reclone_error option \<Rightarrow> ('a, unit) op"
        by (simp_all add: bnd_def q s3 s4)
      show ?thesis unfolding one core_def [symmetric]
        by (simp add: e bnd_peek bnd_on_tracker bnd_now t4 ns reclone_stop_requested_def s6)
    qed
    moreover have "fleet_state w6 False n s (vs @ [(vid, failure = None)])"
    proof -
      have "tracker_ok ?t0" using st by (simp add: fleet_state_def)
      then have "tracker_ok ?t5"
        using tracker_step_ok [OF tracker_step.Done] tracker_step_ok [OF tracker_step.Progress] by blast
      moreover have "abs_batch ?t5 = Running n s (vs @ [(vid, failure = None)])"
        using st by (simp add: abs_done abs_same fleet_state_def)
      moreover have "tr_stop ?t5 = tr_stop ?t0"
        by (simp add: mark_reclone_vm_done_def mark_reclone_progress_def on_batch_def)
      ultimately show ?thesis using ns t6 by (simp add: fleet_state_def)
    qed
    ultimately show ?thesis using that False by auto
  qed
qed

definition turns_of :: "bool \<Rightarrow> (int \<Rightarrow> bool) \<Rightarrow> (int \<times> string) list \<Rightarrow> (int \<times> string) list" where
  "turns_of stop arrives cands = (if stop then [] else takeWhile (\<lambda>c. \<not> arrives (fst c)) cands)"

lemma all_turns:
  assumes clock: "clock_ok m"
  shows "fleet_state w stop n s vs \<Longrightarrow> \<exists>w' oks. each (reclone_one m decode cfg usb_cfg prot cid arrives) cands w = (Inr (), w')
    \<and> length oks = length (turns_of stop arrives cands)
    \<and> fleet_state w' (stop \<or> turns_of stop arrives cands \<noteq> cands) n s (vs @ zip (map fst (turns_of stop arrives cands)) oks)"
proof (induction cands arbitrary: w stop vs)
  case Nil
  then show ?case by (cases stop) (simp_all add: turns_of_def)
next
  case (Cons c cands)
  obtain vid nm where c: "c = (vid, nm)" by force
  obtain w1 ok where one: "reclone_one m decode cfg usb_cfg prot cid arrives c w = (Inr (), w1)"
    and st: "if stop \<or> arrives vid then fleet_state w1 True n s vs else fleet_state w1 False n s (vs @ [(vid, ok)])"
    using one_turn [OF clock Cons.prems] unfolding c by metis
  have step: "each (reclone_one m decode cfg usb_cfg prot cid arrives) (c # cands) w =
      each (reclone_one m decode cfg usb_cfg prot cid arrives) cands w1"
    by (simp add: bnd_def one)
  show ?case
  proof (cases "stop \<or> arrives vid")
    case True
    with st have "fleet_state w1 True n s vs" by simp
    from Cons.IH [OF this] obtain w' oks where "each (reclone_one m decode cfg usb_cfg prot cid arrives) cands w1 = (Inr (), w')"
      and "oks = []" "fleet_state w' True n s vs"
      by (auto simp: turns_of_def)
    moreover have "turns_of stop arrives (c # cands) = []" using True by (auto simp: turns_of_def c)
    ultimately show ?thesis unfolding step by (intro exI [of _ w'] exI [of _ "[]"]) simp
  next
    case False
    with st have "fleet_state w1 False n s (vs @ [(vid, ok)])" by simp
    from Cons.IH [OF this] obtain w' oks where e: "each (reclone_one m decode cfg usb_cfg prot cid arrives) cands w1 = (Inr (), w')"
      and l: "length oks = length (turns_of False arrives cands)"
      and f: "fleet_state w' (False \<or> turns_of False arrives cands \<noteq> cands) n s
        ((vs @ [(vid, ok)]) @ zip (map fst (turns_of False arrives cands)) oks)"
      by blast
    have "turns_of stop arrives (c # cands) = c # turns_of False arrives cands" using False by (simp add: turns_of_def c)
    with e l f False show ?thesis unfolding step by (intro exI [of _ w'] exI [of _ "ok # oks"]) (simp add: c)
  qed
qed

lemma verdicts_of_log:
  "list_all (\<lambda>e. de_vmid e \<noteq> None) es \<Longrightarrow>
     map snd (List.map_filter (\<lambda>e. map_option (\<lambda>v. (v, de_ok e)) (de_vmid e)) es) = map de_ok es"
  by (induction es) (auto simp: List.map_filter_def)

lemma batch_counts:
  assumes "tracker_ok t" "tr_batch t = Some b" "map snd (verdicts b) = oks"
  shows "b_completed b = int (length (filter (\<lambda>ok. ok) oks))" "b_failed b = int (length (filter Not oks))"
proof -
  have "oks = map de_ok (b_log b)"
    using assms by (simp add: tracker_ok_def verdicts_def verdicts_of_log)
  with assms(1,2) show "b_completed b = int (length (filter (\<lambda>ok. ok) oks))" "b_failed b = int (length (filter Not oks))"
    by (simp_all add: tracker_ok_def filter_map comp_def)
qed

text \<open>
  C9: the fleet batch accounts for every VM. However the single reclones end, the batch ends:
  it took the candidates in order up to the one before whose turn the stop request came, has
  one verdict for each of them, its counters are the numbers of successes and failures, and its
  terminal status follows from them. It is never left running.
\<close>

theorem fleet_accounts:
  assumes clock: "clock_ok m" and idle: "\<not> running (tracker_of w)"
  shows "let turns = takeWhile (\<lambda>c. \<not> arrives (fst c)) cands in
    \<exists>w' b oks. run_fleet m decode cfg usb_cfg prot cid arrives cands w = (Inr (), w')
      \<and> tr_batch (tracker_of w') = Some b \<and> \<not> running (tracker_of w') \<and> b_total b = int (length cands)
      \<and> length oks = length turns \<and> verdicts b = zip (map fst turns) oks
      \<and> b_completed b = int (length (filter (\<lambda>ok. ok) oks)) \<and> b_failed b = int (length (filter Not oks))
      \<and> b_status b = fleet_status (turns \<noteq> cands) (b_completed b) (b_failed b)"
proof -
  let ?N = "int (length cands)" and ?turns = "takeWhile (\<lambda>c. \<not> arrives (fst c)) cands"
  let ?t1 = "snd (start_reclone_batch ?N ''manual'' (m_clock m (host w)) (tracker_of w))"
  let ?w1 = "w\<lparr>tracker_of := ?t1\<rparr>"
  obtain u w2 where s2: "fleet_progress m cid ''starting'' (Some 0) None [(''total'', PInt ?N)] ?w1 = (Inr (u :: unit), w2)"
    using returnsD [OF returns_frames(1)] unfolding fleet_progress_def by blast
  have t2: "tracker_of w2 = ?t1"
    using keepsD [OF tracker_rest.keeps_frames(1) s2 [unfolded fleet_progress_def]] by simp
  have "fleet_state w2 False ?N (m_clock m (host w)) []"
    using idle unfolding fleet_state_def t2
    by (simp add: start_reclone_batch_def abs_batch_def verdicts_def tracker_ok_def List.map_filter_def)
  from all_turns [OF clock this, of decode cfg usb_cfg prot cid arrives cands] obtain w3 oks
    where s3: "each (reclone_one m decode cfg usb_cfg prot cid arrives) cands w2 = (Inr (), w3)"
      and l: "length oks = length ?turns"
      and f: "fleet_state w3 (?turns \<noteq> cands) ?N (m_clock m (host w)) (zip (map fst ?turns) oks)"
    by (auto simp: turns_of_def)
  then obtain b where b: "tr_batch (tracker_of w3) = Some b" "b_total b = ?N" "verdicts b = zip (map fst ?turns) oks"
      "tracker_ok (tracker_of w3)" "tr_stop (tracker_of w3) = (?turns \<noteq> cands)"
    by (auto simp: fleet_state_def abs_batch_def split: option.splits if_splits)
  let ?st = "fleet_status (?turns \<noteq> cands) (b_completed b) (b_failed b)"
  let ?w4 = "w3\<lparr>tracker_of := end_reclone_batch ?st (m_clock m (host w3)) (tracker_of w3)\<rparr>"
  have st: "?st \<notin> {[], ''running''}" by (auto simp: fleet_status_def)
  have e2: "bnd (fleet_progress m cid ''starting'' (Some 0) None [(''total'', PInt ?N)]) g ?w1 = g () w2"
    "bnd (each (reclone_one m decode cfg usb_cfg prot cid arrives) cands) g w2 = g () w3" for g :: "unit \<Rightarrow> ('a, unit) op"
    by (simp_all add: bnd_def s2 s3)
  have e3: "bnd (tracked 0 b_completed) h w3 = h (b_completed b) w3" "bnd (tracked 0 b_failed) h w3 = h (b_failed b) w3"
    for h :: "int \<Rightarrow> ('a, unit) op"
    by (simp_all add: bnd_def tracked_def b)
  obtain act msg x where run: "run_fleet m decode cfg usb_cfg prot cid arrives cands w = terminal cid ''proxmox_reclone_all'' act msg None x ?w4"
    unfolding run_fleet_def Let_def
    by (simp add: bnd_now bnd_on_tracker e2 e3 bnd_peek reclone_stop_requested_def b(5))
  obtain L where fin: "terminal cid ''proxmox_reclone_all'' act msg None x ?w4 = (Inr (), ?w4\<lparr>ledger_of := L, trace := trace ?w4 @
      [Sent ''CS_COMMAND_RESULT'' ([(''cs_cmd_id'', PStr cid), (''action'', PStr ''proxmox_reclone_all''), (''status'', PStr act), (''message'', PStr msg)] @ x)]\<rparr>)"
    unfolding terminal_quiet by blast
  have counts: "b_completed b = int (length (filter (\<lambda>ok. ok) oks))" "b_failed b = int (length (filter Not oks))"
    using batch_counts [OF b(4,1), of oks] b(3) l by simp_all
  show ?thesis
    unfolding Let_def run fin using b counts l st
    by (auto simp: end_reclone_batch_def on_batch_def running_def verdicts_def)
qed

theorem fleet_accounts_witness:
  "\<exists>w' b. run_fleet still_host (\<lambda>_. None) None [] {} ''c'' (\<lambda>v. v = 90002) [(90001, ''a''), (90002, ''b'')] (fresh_world 0) = (Inr (), w')
     \<and> tr_batch (tracker_of w') = Some b \<and> b_status b = ''interrupted'' \<and> map fst (verdicts b) = [90001]"
proof -
  have "\<not> running (tracker_of (fresh_world (0 :: rat)))" by (simp add: fresh_world_def no_batch_def running_def)
  from fleet_accounts [OF still_host_clock this, of "\<lambda>v. v = 90002" "[(90001, ''a''), (90002, ''b'')]" "\<lambda>_. None" None "[]" "{}" "''c''"]
  show ?thesis by (auto simp: fleet_status_def length_Suc_conv)
qed

end
