(* ===== verification/HostOps.thy ===== *)
theory HostOps
  imports Templates
begin

text \<open>
  The host-level commands of \<open>agent/src/pve_cmds.py\<close> that carry no VMID guard (unlocking,
  clearing stuck processes, maintenance mode, pools, storages), and the remaining primitives of
  the long operations (backup, restore, a guest script with its output). Replies are the
  dictionaries the code returns.
\<close>

section \<open>JSON replies\<close>

text \<open>\<open>v.get(k)\<close> on a decoded value, \<open>v or {}\<close>, and \<open>v.items()\<close>.\<close>

fun get_of :: "pyval \<Rightarrow> string \<Rightarrow> pyval result" where
  "get_of (PDict d) k = Inr (cfg_get d k)"
| "get_of v k = Inl AttributeError"

definition or_dict :: "pyval \<Rightarrow> pyval" where
  "or_dict v = (if truthy v then v else PDict [])"

fun items_of :: "pyval \<Rightarrow> (string \<times> pyval) list result" where
  "items_of (PDict d) = Inr d"
| "items_of v = Inl AttributeError"

definition pvesh_json :: "'h machine \<Rightarrow> (string \<Rightarrow> pyval option) \<Rightarrow> string \<Rightarrow> ('h, pyval) op" where
  "pvesh_json m decode path =
     except_any
       (bnd (sh m [''pvesh'', ''get'', path, ''--output-format'', ''json''] 15 False) (\<lambda>(rc, out, err).
        if rc = 0 then lift (loaded (decode (or_text out ''null''))) else ret PNone))
       (\<lambda>e. ret PNone)"

section \<open>The cluster\<close>

definition is_one :: "pyval \<Rightarrow> bool" where
  "is_one v \<longleftrightarrow> v = PInt 1 \<or> v = PBool True"

text \<open>The rows of one type; a row that is no dictionary raises.\<close>

fun rows_of_type :: "string \<Rightarrow> pyval list \<Rightarrow> (string, pyval) dict list result" where
  "rows_of_type ty [] = Inr []"
| "rows_of_type ty (r # rs) =
     (case r of
        PDict d \<Rightarrow> rbind (rows_of_type ty rs) (\<lambda>rest. Inr (if cfg_get d ''type'' = PStr ty then d # rest else rest))
      | _ \<Rightarrow> Inl AttributeError)"

text \<open>The first row of the type; later rows are not looked at.\<close>

fun first_of_type :: "string \<Rightarrow> pyval list \<Rightarrow> (string, pyval) dict option result" where
  "first_of_type ty [] = Inr None"
| "first_of_type ty (r # rs) =
     (case r of
        PDict d \<Rightarrow> if cfg_get d ''type'' = PStr ty then Inr (Some d) else first_of_type ty rs
      | _ \<Rightarrow> Inl AttributeError)"

definition cluster_summary :: "pyval list \<Rightarrow> (string, pyval) dict result" where
  "cluster_summary rows =
     rbind (first_of_type ''cluster'' rows) (\<lambda>cl.
     rbind (rows_of_type ''node'' rows) (\<lambda>nodes.
     let here = filter (\<lambda>r. is_one (cfg_get r ''local'')) nodes in
     Inr (case (cl, here) of
            (Some c, l # _) \<Rightarrow>
              if c = [] \<or> l = [] \<or> length nodes < 2 then []
              else [(''name'', PStr (py_str (or_empty (cfg_get c ''name'')))),
                    (''node'', PStr (py_str (or_empty (cfg_get l ''name'')))),
                    (''nodes'', PInt (int (length nodes)))]
          | _ \<Rightarrow> [])))"

definition cluster_info :: "'h machine \<Rightarrow> (string \<Rightarrow> pyval option) \<Rightarrow> ('h, (string, pyval) dict) op" where
  "cluster_info m decode =
     bnd (pvesh_json m decode ''/cluster/status'') (\<lambda>v.
     case v of PList rows \<Rightarrow> lift (cluster_summary rows) | _ \<Rightarrow> ret [])"

text \<open>The HA guests that still run on a node.\<close>

definition HA_IDLE :: "string set" where
  "HA_IDLE = {''stopped'', ''disabled'', ''ignored'', ''error''}"

fun ha_guests :: "string \<Rightarrow> (string \<times> pyval) list \<Rightarrow> string list result" where
  "ha_guests node [] = Inr []"
| "ha_guests node ((sid, sv) # rest) =
     rbind (get_of (or_dict sv) ''node'') (\<lambda>n.
     rbind (if n \<noteq> PStr node then Inr False
            else rbind (get_of (or_dict sv) ''state'') (\<lambda>s. Inr (\<forall>x\<in>HA_IDLE. s \<noteq> PStr x))) (\<lambda>here.
     rbind (ha_guests node rest) (\<lambda>sids. Inr (if here then sid # sids else sids))))"

definition maintenance_state :: "string \<Rightarrow> pyval \<Rightarrow> (string, pyval) dict result" where
  "maintenance_state node status =
     rbind (case status of PDict d \<Rightarrow> Inr (or_dict (cfg_get d ''manager_status'')) | _ \<Rightarrow> Inr (PDict [])) (\<lambda>ms.
     rbind (rbind (get_of ms ''service_status'') (\<lambda>v. items_of (or_dict v))) (\<lambda>services.
     rbind (ha_guests node services) (\<lambda>here.
     rbind (rbind (get_of ms ''node_status'') (\<lambda>v. get_of (or_dict v) node)) (\<lambda>mode.
     Inr [(''status'', PStr ''SUCCESS''), (''node'', PStr node), (''maintenance'', PBool (mode = PStr ''maintenance'')),
          (''ha_guests'', PList (map PStr (sort here)))]))))"

definition error_reply :: "string \<Rightarrow> (string, pyval) dict" where
  "error_reply msg = [(''status'', PStr ''ERROR''), (''message'', PStr msg)]"

definition node_maintenance ::
    "'h machine \<Rightarrow> (string \<Rightarrow> pyval option) \<Rightarrow> string \<Rightarrow> ('h, (string, pyval) dict) op" where
  "node_maintenance m decode action =
     (if action \<notin> {''enable'', ''disable'', ''status''}
      then ret (error_reply (''unknown maintenance action '' @ repr_str action))
      else
        bnd (local_node_name m decode) (\<lambda>node.
        bnd (if action = ''status'' then ret (0, [], [])
             else sh m [''ha-manager'', ''crm-command'', ''node-maintenance'', action, node] 30 False) (\<lambda>(rc, out, err).
        if rc \<noteq> 0 then
          ret [(''status'', PStr ''ERROR''), (''node'', PStr node),
               (''message'', PStr (''ha-manager node-maintenance '' @ action @ '' failed: '' @ take 300 (strip err)))]
        else
          bnd (pvesh_json m decode ''/cluster/ha/status/manager_status'') (\<lambda>status.
          lift (maintenance_state node status)))))"

section \<open>Unlocking\<close>

text \<open>
  One id: \<open>int(tid)\<close> is evaluated inside the \<open>try\<close>, and again in the handler for an id that
  looks numeric.
\<close>

definition failed_id :: "pyval \<Rightarrow> pyval result" where
  "failed_id tid = (if looks_numeric (py_str tid) then rbind (py_int tid) (\<lambda>i. Inr (PInt i)) else Inr tid)"

definition unlock_one ::
    "'h machine \<Rightarrow> pyval \<Rightarrow> int list \<times> pyval list \<Rightarrow> ('h, int list \<times> pyval list) op" where
  "unlock_one m tid acc =
     (case acc of (unlocked, failures) \<Rightarrow>
      catch
        (bnd (lift (py_int tid)) (\<lambda>i.
         bnd (sh m [''qm'', ''unlock'', str_int i] FAST_CMD_TIMEOUT False) (\<lambda>_.
         ret (unlocked @ [i], failures))))
        (\<lambda>e. case e of
               PveError msg \<Rightarrow> bnd (lift (failed_id tid)) (\<lambda>x. ret (unlocked, failures @ [x]))
             | ValueError \<Rightarrow> bnd (lift (failed_id tid)) (\<lambda>x. ret (unlocked, failures @ [x]))
             | _ \<Rightarrow> throw e))"

definition unlock_template :: "'h machine \<Rightarrow> pyval list \<Rightarrow> ('h, int list \<times> pyval list) op" where
  "unlock_template m ids = iter (unlock_one m) ids ([], [])"

text \<open>\<open>except PveError: pass\<close> around one command, telling whether it ran to its end.\<close>

definition attempted :: "'h machine \<Rightarrow> string list \<Rightarrow> int \<Rightarrow> ('h, bool) op" where
  "attempted m argv secs =
     catch (bnd (sh m argv secs False) (\<lambda>_. ret True))
       (\<lambda>e. case e of PveError msg \<Rightarrow> ret False | _ \<Rightarrow> throw e)"

definition all_digits :: "string list \<Rightarrow> int list" where
  "all_digits ws = concat (map (\<lambda>s. if is_digits s then (case parse_int s of None \<Rightarrow> [] | Some i \<Rightarrow> [i]) else []) ws)"

definition term_pid :: "'h machine \<Rightarrow> int \<Rightarrow> nat \<Rightarrow> ('h, nat) op" where
  "term_pid m pid n =
     bnd (attempted m [''kill'', ''-TERM'', str_int pid] 5) (\<lambda>ok. ret (if ok then n + 1 else n))"

text \<open>The rows of \<open>qm list\<close> whose third field is \<open>locked\<close>.\<close>

definition locked_row :: "string \<Rightarrow> int list" where
  "locked_row line =
     (case split_ws line of
        v # _ # s # _ \<Rightarrow> if is_digits v \<and> s = ''locked'' then (case parse_int v of None \<Rightarrow> [] | Some i \<Rightarrow> [i]) else []
      | _ \<Rightarrow> [])"

definition unlock_locked :: "'h machine \<Rightarrow> int \<Rightarrow> int list \<Rightarrow> ('h, int list) op" where
  "unlock_locked m vid acc =
     bnd (attempted m [''qm'', ''unlock'', str_int vid] FAST_CMD_TIMEOUT) (\<lambda>ok. ret (if ok then acc @ [vid] else acc))"

definition PROVISION_MARKERS :: "string list" where
  "PROVISION_MARKERS = [''/var/lib/pxmx/provision.lock'', ''/var/lib/pxmx/provision_halt.cache'',
     ''/var/lib/pxmx/provision_cooldown_reset'']"

definition remove_if_there :: "'h machine \<Rightarrow> string \<Rightarrow> ('h, unit) op" where
  "remove_if_there m path =
     bnd (path_exists m path) (\<lambda>ex. if ex then bnd (change_file m (Remove path)) (\<lambda>_. ret ()) else ret ())"

definition stuck_qm :: string where "stuck_qm = ''^qm (clone|list)''"

definition clear_provision_lock :: "'h machine \<Rightarrow> ('h, nat \<times> int list) op" where
  "clear_provision_lock m =
     bnd (sh m [''pgrep'', ''-f'', stuck_qm] 10 False) (\<lambda>(_, out, _).
     let pids = all_digits (split_ws out) in
     bnd (iter (term_pid m) pids 0) (\<lambda>killed.
     bnd (if pids = [] then ret ()
          else bnd (pause m 3) (\<lambda>_.
               bnd (sh m [''pkill'', ''-KILL'', ''-f'', stuck_qm] 5 False) (\<lambda>_. ret ()))) (\<lambda>_.
     bnd (sh m [''qm'', ''list''] 20 False) (\<lambda>(rc, rows, _).
     bnd (if rc = 0 then iter (unlock_locked m) (concat (map locked_row (drop 1 (splitlines rows)))) [] else ret []) (\<lambda>unlocked.
     bnd (each (remove_if_there m) PROVISION_MARKERS) (\<lambda>_.
     ret (killed, unlocked)))))))"

text \<open>
  The quarantine store cleared from here: the same file \<open>usb_quarantine\<close> clears, except that a
  file that is not JSON is replaced. The result is whether the write worked.
\<close>

definition writes_ok :: "disk \<Rightarrow> bool" where
  "writes_ok d \<longleftrightarrow> fst (next_fault (faults d)) = WriteOk"

definition clear_usb_quarantine :: "string option \<Rightarrow> disk \<Rightarrow> bool result \<times> disk" where
  "clear_usb_quarantine bus d =
     (if str_set bus then
        (case quarantine_file d of
           Stored q \<Rightarrow> (Inr (writes_ok d), save_quarantine (dpop (the bus) q) d)
         | OtherShape t \<Rightarrow>
             if t then (Inl TypeError, d) else (Inr (writes_ok d), save_quarantine [] d)
         | _ \<Rightarrow> (Inr (writes_ok d), save_quarantine [] d))
      else (Inr (writes_ok d), save_quarantine [] d))"

lemma clear_usb_quarantine_same:
  "quarantine_file d \<noteq> Garbled \<Longrightarrow> snd (clear_usb_quarantine bus d) = snd (clear_quarantine bus d)"
  by (auto simp: clear_usb_quarantine_def clear_quarantine_def split: stored.splits)

section \<open>Pools and storages\<close>

definition pool_add_vms :: "'h machine \<Rightarrow> pyval \<Rightarrow> pyval \<Rightarrow> ('h, (string, pyval) dict) op" where
  "pool_add_vms m pool vmids =
     (let p = strip (py_str (or_empty pool)) in
      bnd (lift (rbind (if truthy vmids then py_iter vmids else Inr []) (map_result py_int))) (\<lambda>vms.
      if p = [] \<or> vms = []
      then ret [(''status'', PStr ''SUCCESS''), (''added'', PInt 0), (''message'', PStr ''nothing to do'')]
      else
        bnd (sh m [''pvesh'', ''set'', ''/pools/'' @ p, ''--vms'', join_sep '','' (map str_int vms)] 60 False) (\<lambda>(rc, out, err).
        ret (if rc \<noteq> 0
             then [(''status'', PStr ''ERROR''), (''added'', PInt 0), (''message'', PStr (take 300 (or_text err out)))]
             else [(''status'', PStr ''SUCCESS''), (''added'', PInt (int (length vms)))]))))"

text \<open>Storage names with their types, the first row of a name counting.\<close>

fun storage_rows :: "string list \<Rightarrow> (string, string) dict \<Rightarrow> (string, string) dict" where
  "storage_rows [] acc = acc"
| "storage_rows (l # ls) acc =
     storage_rows ls
       (case split_ws l of
          [] \<Rightarrow> acc
        | n # rest \<Rightarrow> if n \<in> set (dkeys acc) then acc else acc @ [(n, case rest of [] \<Rightarrow> [] | t # _ \<Rightarrow> t)])"

definition list_backup_storages :: "'h machine \<Rightarrow> ('h, (string, pyval) dict) op" where
  "list_backup_storages m =
     bnd (sh m [''pvesm'', ''status'', ''--content'', ''backup''] 15 False) (\<lambda>(rc, out, err).
     let st = (if rc = 0 then storage_rows (drop 1 (splitlines out)) [] else []) in
     ret [(''hosts'', PList [PDict [(''hostname'', PStr (m_node m)), (''storages'', PList (map PStr (dkeys st))),
            (''storage_types'', PDict (map (\<lambda>(n, t). (n, PStr t)) st))]])])"

section \<open>Primitives of the long operations\<close>

definition vzdump ::
    "'h machine \<Rightarrow> string \<Rightarrow> string \<Rightarrow> string \<Rightarrow> int \<Rightarrow> pyval \<Rightarrow> int set option \<Rightarrow> ('h, unit) op" where
  "vzdump m dumpdir compress mode secs vmid prot =
     bnd (lift (assert_sim_vm vmid (prot_or_none prot) SIM_VMIN)) (\<lambda>vid.
     bnd (sh m [''vzdump'', str_int vid, ''--compress'', compress, ''--mode'', mode, ''--dumpdir'', dumpdir] secs True) (\<lambda>_.
     ret ()))"

definition qmrestore :: "'h machine \<Rightarrow> string \<Rightarrow> bool \<Rightarrow> int \<Rightarrow> pyval \<Rightarrow> int set option \<Rightarrow> ('h, unit) op" where
  "qmrestore m path force secs vmid prot =
     bnd (lift (assert_sim_vm vmid (prot_or_none prot) SIM_VMIN)) (\<lambda>vid.
     bnd (sh m ([''qmrestore'', path, str_int vid] @ (if force then [''--force''] else [])) secs True) (\<lambda>_. ret ()))"

text \<open>The output of a guest script: \<open>None\<close> is unknown, text that is no envelope comes back raw.\<close>

definition envelope_text :: "pyval option \<Rightarrow> string \<Rightarrow> string" where
  "envelope_text v raw =
     (case v of
        None \<Rightarrow> raw
      | Some x \<Rightarrow> (case get_of (or_dict x) ''out-data'' of Inl e \<Rightarrow> raw | Inr y \<Rightarrow> py_str (or_empty y)))"

definition qm_guest_exec_shell_out ::
    "'h machine \<Rightarrow> (string \<Rightarrow> pyval option) \<Rightarrow> string \<Rightarrow> int \<Rightarrow> int \<Rightarrow> pyval \<Rightarrow> int set option \<Rightarrow> ('h, string option) op" where
  "qm_guest_exec_shell_out m decode script inner secs vmid prot =
     bnd (lift (assert_sim_vm vmid (prot_or_none prot) SIM_VMIN)) (\<lambda>vid.
     bnd (sh m [''qm'', ''guest'', ''exec'', str_int vid, ''--timeout'', str_int inner, ''--'', ''bash'', ''-c'', script] secs False)
       (\<lambda>(rc, out, err).
        ret (if rc \<noteq> 0 \<or> out = [] then None else Some (envelope_text (decode out) out))))"

section \<open>What they do\<close>

text \<open>Unlocking reports every id once, in order, as unlocked or as failed.\<close>

lemma unlock_one_accounts:
  assumes "unlock_one m tid (us, fs) w = (Inr (us', fs'), w')"
  shows "(\<exists>i. py_int tid = Inr i \<and> us' = us @ [i] \<and> fs' = fs)
    \<or> us' = us \<and> (\<exists>x. fs' = fs @ [x] \<and> (x = tid \<or> (\<exists>i. py_int tid = Inr i \<and> x = PInt i)))"
  using assms
  by (auto simp: unlock_one_def catch_def bnd_def failed_id_def rbind_def
      split: prod.splits sum.splits exn.splits if_splits)

lemma unlock_template_accounts:
  assumes "iter (unlock_one m) ids (us, fs) w = (Inr (us', fs'), w')"
  shows "length us' + length fs' = length us + length fs + length ids"
  using assms
proof (induction ids arbitrary: us fs w)
  case (Cons tid ids)
  then obtain a w1 where a: "unlock_one m tid (us, fs) w = (Inr a, w1)"
      "iter (unlock_one m) ids a w1 = (Inr (us', fs'), w')"
    by (auto elim: bnd_InrD)
  obtain us1 fs1 where "a = (us1, fs1)" by (cases a)
  with a have a': "unlock_one m tid (us, fs) w = (Inr (us1, fs1), w1)"
      "iter (unlock_one m) ids (us1, fs1) w1 = (Inr (us', fs'), w')" by simp_all
  from unlock_one_accounts [OF a'(1)] Cons.IH [OF a'(2)] show ?case by auto
qed simp

text \<open>The guarded primitives keep the guard's contract.\<close>

definition names_vm :: "int \<Rightarrow> event \<Rightarrow> bool" where
  "names_vm vid e = (case e of Cmd a r \<Rightarrow> str_int vid \<in> set (take 4 a) | Detached a \<Rightarrow> False | _ \<Rightarrow> True)"

lemma guarded_primitives:
  assumes "assert_sim_vm v (prot_or_none prot) SIM_VMIN = Inr vid"
  shows "emits (names_vm vid) (vzdump m d c mo s v prot)"
    and "emits (names_vm vid) (qmrestore m path f s v prot)"
    and "emits (names_vm vid) (qm_guest_exec_shell_out m decode script i s v prot)"
  using assms
  by (auto simp: vzdump_def qmrestore_def qm_guest_exec_shell_out_def names_vm_def intro!: emits_intro)

lemma guarded_primitives_refuse:
  assumes "assert_sim_vm v (prot_or_none prot) SIM_VMIN = Inl e"
  shows "vzdump m d c mo s v prot w = (Inl e, w)" "qmrestore m path f s v prot w = (Inl e, w)"
    "qm_guest_exec_shell_out m decode script i s v prot w = (Inl e, w)"
  using assms by (simp_all add: vzdump_def qmrestore_def qm_guest_exec_shell_out_def bnd_def)

end
