(* ===== verification/LongOps.thy ===== *)
theory LongOps
  imports Reclone HostOps
begin

text \<open>
  The remaining long operations of \<open>agent/src/cs_sim.py\<close> (recloning a container, a provisioning
  pass on request, backup, reseed, self-update) and \<open>run_long_op\<close>, which runs any of them and
  turns every ending into a terminal result.
\<close>

section \<open>Containers\<close>

definition CT_KEYS :: "string list" where
  "CT_KEYS = [''onboot'', ''startup'', ''cores'', ''memory'', ''swap'', ''features'', ''protection'', ''tags'',
     ''description'', ''nameserver'', ''searchdomain'', ''unprivileged'']"

definition kept_key :: "(string, string) dict \<Rightarrow> string \<Rightarrow> string list" where
  "kept_key cfg k = (case dget cfg k of Some v \<Rightarrow> if v \<noteq> [] then [''--'' @ k, v] else [] | None \<Rightarrow> [])"

definition kept_net :: "string \<times> string \<Rightarrow> string list" where
  "kept_net p = (if has_prefix ''net'' (fst p) \<and> snd p \<noteq> [] then [''--'' @ fst p, snd p] else [])"

definition settings_to_keep :: "(string, string) dict \<Rightarrow> string list" where
  "settings_to_keep cfg = concat (map (kept_key cfg) CT_KEYS) @ concat (map kept_net cfg)"

definition ct_name :: "'h machine \<Rightarrow> int \<Rightarrow> (string, string) dict \<Rightarrow> string" where
  "ct_name m vid cfg =
     (if str_set (dget cfg ''hostname'') then the (dget cfg ''hostname'')
      else if str_set (vm_name m vid) then the (vm_name m vid) else ''ct-'' @ str_int vid)"

definition rebuild_ct ::
    "'h machine \<Rightarrow> int set \<Rightarrow> int \<Rightarrow> pyval \<Rightarrow> string list \<Rightarrow> string \<Rightarrow> string \<Rightarrow> ('h, unit) op" where
  "rebuild_ct m prot vid source keep nm cmd_id =
     bnd (progress m cmd_id ''clone_lxc'' ''running'' ''cloning'' (Some 50) (Some vid) []) (\<lambda>_.
     bnd (lift (py_int source)) (\<lambda>src.
     bnd (pct_clone m src nm 600 (PInt vid) (Some prot)) (\<lambda>_.
     bnd (if keep \<noteq> [] then pct_set m keep (PInt vid) (Some prot) else ret ()) (\<lambda>_.
     bnd (progress m cmd_id ''clone_lxc'' ''running'' ''starting'' (Some 80) (Some vid) []) (\<lambda>_.
     bnd (pct_start m (PInt vid) (Some prot)) (\<lambda>_.
     terminal cmd_id ''clone_lxc'' ''completed''
       (''CT '' @ str_int vid @ '' recloned from '' @ py_str source) (Some vid) []))))))"

definition clone_lxc ::
    "'h machine \<Rightarrow> (string, pyval) dict option \<Rightarrow> (string, pyval) dict \<Rightarrow> string \<Rightarrow> ('h, unit) op" where
  "clone_lxc m cfg data cmd_id =
     (let prot = resolve_protected_vmids cfg; source = first_set data ''source_vmid'' ''template_id'' in
      bnd (lift (assert_sim_vm (first_set data ''vmid'' ''vm_id'') prot SIM_VMIN)) (\<lambda>vid.
      bnd (is_template m vid (Some ''lxc'')) (\<lambda>template.
      if template then
        terminal cmd_id ''clone_lxc'' ''failed''
          (''CT '' @ str_int vid @ '' is a template - refusing to destroy'') (Some vid) []
      else if \<not> truthy source then
        terminal cmd_id ''clone_lxc'' ''failed'' ''no source_vmid provided'' (Some vid) []
      else
        bnd (pct_config m vid) (\<lambda>old.
        bnd (progress m cmd_id ''clone_lxc'' ''running'' ''destroying'' (Some 20) (Some vid) []) (\<lambda>_.
        bnd (pct_stop m (PInt vid) (Some prot)) (\<lambda>_.
        bnd (pct_destroy m 300 (PInt vid) (Some prot)) (\<lambda>(ok, reason).
        if \<not> ok then
          terminal cmd_id ''clone_lxc'' ''failed''
            (''destroy of CT '' @ str_int vid @ '' before clone failed: '' @ reason) (Some vid) []
        else rebuild_ct m prot vid source (settings_to_keep old) (ct_name m vid old) cmd_id)))))))"

section \<open>Provisioning on request\<close>

text \<open>The provisioning pass is an argument: its report, or the exception it raised.\<close>

record pass_report =
  ps_provisioned :: int
  ps_torn_down :: int

definition provision_unassigned ::
    "'h machine \<Rightarrow> ('h, pass_report) op \<Rightarrow> string \<Rightarrow> ('h, unit) op" where
  "provision_unassigned m pass cmd_id =
     bnd (with_disk (\<lambda>d. case clear_excluded_buses d of (n, d') \<Rightarrow> (Inr n, d'))) (\<lambda>cleared.
     bnd (with_disk (clear_quarantine None)) (\<lambda>_.
     bnd (progress m cmd_id ''provision_unassigned'' ''running'' ''provisioning'' (Some 30) None
            [(''cleared_exclusions'', PInt (int cleared))]) (\<lambda>_.
     bnd (except_any (bnd pass (\<lambda>r. ret (Inr r))) (\<lambda>e. ret (Inl e))) (\<lambda>r.
     case r of
       Inl e \<Rightarrow> terminal cmd_id ''provision_unassigned'' ''failed'' (''provision loop error: '' @ exn_message e) None []
     | Inr rep \<Rightarrow>
         terminal cmd_id ''provision_unassigned'' ''completed''
           (''provisioned '' @ str_int (ps_provisioned rep) @ '' VM(s), tore down '' @ str_int (ps_torn_down rep))
           None [(''result'', PDict [(''provisioned'', PInt (ps_provisioned rep)), (''torn_down'', PInt (ps_torn_down rep))])]))))"

section \<open>Backup\<close>

text \<open>The files of a directory and then the directory itself, or a single file.\<close>

definition clean_up :: "'h machine \<Rightarrow> string \<Rightarrow> ('h, unit) op" where
  "clean_up m path =
     bnd (peek (\<lambda>w. m_dir m path (host w))) (\<lambda>dir.
     if dir then bnd (change_file m (RemoveTree path)) (\<lambda>_. ret ())
     else remove_if_there m path)"

text \<open>\<open>data.get("vm_ids") or data.get("vmids") or []\<close>, a single id made a list.\<close>

definition backup_ids :: "(string, pyval) dict \<Rightarrow> pyval list result" where
  "backup_ids data =
     (let v = first_set data ''vm_ids'' ''vmids'' in
      if \<not> truthy v then Inr []
      else (case v of PStr s \<Rightarrow> Inr [v] | PInt i \<Rightarrow> Inr [v] | PBool b \<Rightarrow> Inr [v] | _ \<Rightarrow> py_iter v))"

record blob_target =
  bt_account :: string
  bt_container :: string
  bt_spoke :: string
  bt_job :: pyval

definition blob_url :: "blob_target \<Rightarrow> int \<Rightarrow> string \<Rightarrow> string" where
  "blob_url t vid file =
     ''https://'' @ bt_account t @ ''.blob.core.windows.net/'' @ bt_container t @ ''/'' @ bt_spoke t @ ''/''
       @ str_int vid @ ''/'' @ file"

definition backup_frame ::
    "'h machine \<Rightarrow> string \<Rightarrow> blob_target \<Rightarrow> int \<Rightarrow> string \<Rightarrow> string \<Rightarrow> int \<Rightarrow> (string \<times> pyval) list \<Rightarrow> ('h, unit) op" where
  "backup_frame m cmd_id t vid status step pct extra =
     progress m cmd_id ''backup'' status step (Some pct) (Some vid) ((''job_id'', bt_job t) # extra)"

text \<open>A failed step: report, remove the dump, carry on with the next VM.\<close>

definition backup_failed ::
    "'h machine \<Rightarrow> string \<Rightarrow> blob_target \<Rightarrow> int \<Rightarrow> string \<Rightarrow> string \<Rightarrow> string \<Rightarrow> ('h, bool) op" where
  "backup_failed m cmd_id t vid dir step msg =
     bnd (backup_frame m cmd_id t vid ''failed'' step 100 [(''error'', PStr msg)]) (\<lambda>_.
     bnd (clean_up m dir) (\<lambda>_. ret False))"

definition upload_dump ::
    "'h machine \<Rightarrow> string \<Rightarrow> blob_target \<Rightarrow> int \<Rightarrow> string \<Rightarrow> ('h, bool) op" where
  "upload_dump m cmd_id t vid dir =
     bnd (peek (\<lambda>w. filter (\<lambda>f. m_file m (dir @ ''/'' @ f) (host w) \<noteq> None) (m_list m dir (host w)))) (\<lambda>files.
     case sort files of
       [] \<Rightarrow> backup_failed m cmd_id t vid dir ''locate_backup'' ''no backup artifact produced''
     | f # fs \<Rightarrow>
         bnd (backup_frame m cmd_id t vid ''running'' ''uploading'' 80 [(''spoke_id'', PStr (bt_spoke t))]) (\<lambda>_.
         bnd (sh m [''azcopy'', ''copy'', dir @ ''/'' @ last (f # fs), blob_url t vid (last (f # fs)), ''--overwrite=true'']
                3600 False) (\<lambda>(rc, out, err).
         if rc \<noteq> 0 then backup_failed m cmd_id t vid dir ''uploading'' ''azcopy upload failed''
         else bnd (backup_frame m cmd_id t vid ''completed'' ''completed'' 100 []) (\<lambda>_.
              bnd (clean_up m dir) (\<lambda>_. ret True)))))"

definition backup_one ::
    "'h machine \<Rightarrow> int set \<Rightarrow> string \<Rightarrow> blob_target \<Rightarrow> pyval \<Rightarrow> bool \<Rightarrow> ('h, bool) op" where
  "backup_one m prot cmd_id t vmid overall =
     (case assert_sim_vm vmid prot SIM_VMIN of
        Inl e \<Rightarrow>
          bnd (progress m cmd_id ''backup'' ''failed'' ''validate'' (Some 0) None
                 [(''vmid'', vmid), (''error'', PStr (exn_message e))]) (\<lambda>_. ret False)
      | Inr vid \<Rightarrow>
          (let dir = ''/tmp/cs-backup/'' @ str_int vid in
           bnd (clean_up m dir) (\<lambda>_.
           bnd (change_file m (MakeDir dir)) (\<lambda>made.
           if \<not> made then throw OSError
           else
             bnd (backup_frame m cmd_id t vid ''starting'' ''starting'' 0 []) (\<lambda>_.
             bnd (backup_frame m cmd_id t vid ''running'' ''vzdump'' 15 []) (\<lambda>_.
             bnd (catch (bnd (vzdump m dir ''zstd'' ''snapshot'' 1800 (PInt vid) (Some prot)) (\<lambda>_. ret None))
                    (\<lambda>e. case e of PveError msg \<Rightarrow> ret (Some msg) | _ \<Rightarrow> throw e)) (\<lambda>failure.
             bnd (case failure of
                    Some msg \<Rightarrow> backup_failed m cmd_id t vid dir ''vzdump'' msg
                  | None \<Rightarrow> upload_dump m cmd_id t vid dir) (\<lambda>ok.
             ret (overall \<and> ok)))))))))"

definition backup_job ::
    "'h machine \<Rightarrow> (string, pyval) dict option \<Rightarrow> string \<Rightarrow> (string, pyval) dict \<Rightarrow> string \<Rightarrow> ('h, unit) op" where
  "backup_job m cfg agent_id data cmd_id =
     (let prot = resolve_protected_vmids cfg;
          account = cfg_get data ''azure_account''; container = cfg_get data ''azure_container'';
          key = cfg_get data ''azure_key''; spoke = cfg_get data ''spoke_id'' in
      bnd (lift (backup_ids data)) (\<lambda>ids.
      if ids = [] \<or> \<not> truthy account \<or> \<not> truthy container \<or> \<not> truthy key then
        terminal cmd_id ''backup'' ''failed'' ''missing vm_ids / azure_account / azure_container / azure_key'' None []
      else
        bnd (has_program m ''azcopy'') (\<lambda>there.
        if \<not> there then terminal cmd_id ''backup'' ''failed'' ''azcopy not installed on this host'' None []
        else
          (let t = \<lparr>bt_account = py_str account, bt_container = py_str container,
                    bt_spoke = (if truthy spoke then py_str spoke else agent_id), bt_job = cfg_get data ''job_id''\<rparr> in
           bnd (iter (backup_one m prot cmd_id t) ids True) (\<lambda>ok.
           terminal cmd_id ''backup'' (if ok then ''completed'' else ''failed'')
             (if ok then ''backup job complete'' else ''backup job finished with errors'') None
             [(''job_id'', bt_job t), (''vm_ids'', PList ids)])))))"

section \<open>Reseed\<close>

definition RESEED_LOCK :: string where "RESEED_LOCK = ''/tmp/.proxmox_reseed_lock''"

definition reseed_end :: "string \<Rightarrow> string \<Rightarrow> string \<Rightarrow> int \<Rightarrow> pyval \<Rightarrow> ('h, unit) op" where
  "reseed_end cmd_id status msg vid job = terminal cmd_id ''reseed'' status msg (Some vid) [(''job_id'', job)]"

definition reseed_failed :: "'h machine \<Rightarrow> string \<Rightarrow> string \<Rightarrow> int \<Rightarrow> pyval \<Rightarrow> string \<Rightarrow> ('h, unit) op" where
  "reseed_failed m cmd_id msg vid job download =
     bnd (reseed_end cmd_id ''failed'' msg vid job) (\<lambda>_. clean_up m download)"

definition reseed_steps ::
    "'h machine \<Rightarrow> string \<Rightarrow> string \<Rightarrow> int \<Rightarrow> pyval \<Rightarrow> string \<Rightarrow> ('h, unit) op" where
  "reseed_steps m cmd_id url vid job download =
     (let frame = (\<lambda>status step pct. progress m cmd_id ''reseed'' status step (Some pct) (Some vid) [(''job_id'', job)]) in
      bnd (frame ''starting'' ''starting'' 0) (\<lambda>_.
      bnd (frame ''running'' ''downloading'' 15) (\<lambda>_.
      bnd (has_program m ''curl'') (\<lambda>there.
      if \<not> there then terminal cmd_id ''reseed'' ''failed'' ''curl not installed'' (Some vid) []
      else
        bnd (sh m [''curl'', ''-L'', ''-o'', download, url] 600 False) (\<lambda>(rc, _, _).
        if rc \<noteq> 0 then reseed_failed m cmd_id ''download failed'' vid job download
        else
          bnd (frame ''running'' ''restoring'' 45) (\<lambda>_.
          bnd (sh m [''qmrestore'', download, str_int vid, ''--force''] 600 False) (\<lambda>(rc, _, err).
          if rc \<noteq> 0 then
            reseed_failed m cmd_id (''qmrestore failed: '' @ take 200 (strip err)) vid job download
          else
            bnd (frame ''running'' ''templating'' 75) (\<lambda>_.
            bnd (sh m [''qm'', ''template'', str_int vid] 120 False) (\<lambda>(rc, _, err).
            bnd (clean_up m download) (\<lambda>_.
            if rc \<noteq> 0 then reseed_end cmd_id ''failed'' (''qm template failed: '' @ take 200 (strip err)) vid job
            else reseed_end cmd_id ''completed'' (''reseed complete for template '' @ str_int vid) vid job))))))))))"

definition reseed :: "'h machine \<Rightarrow> (string, pyval) dict \<Rightarrow> string \<Rightarrow> ('h, unit) op" where
  "reseed m data cmd_id =
     (let url = cfg_get data ''blob_url''; job = cfg_get data ''job_id'' in
      bnd (lift (py_int (py_or (first_set data ''vm_id'' ''vmid'') (PInt 100)))) (\<lambda>vid.
      if \<not> truthy url then
        terminal cmd_id ''reseed'' ''failed'' ''no blob_url supplied (download+restore required)'' None []
      else
        bnd (path_exists m RESEED_LOCK) (\<lambda>locked.
        if locked then reseed_end cmd_id ''failed'' ''a reseed is already in progress'' vid job
        else
          bnd (change_file m (Touch RESEED_LOCK)) (\<lambda>_.
          always_then (reseed_steps m cmd_id (py_str url) vid job (''/tmp/reseed-vm-'' @ str_int vid @ ''.vma.zst''))
            (bnd (change_file m (Remove RESEED_LOCK)) (\<lambda>_. ret ()))))))"

section \<open>Self-update on request\<close>

definition update_agent :: "'h machine \<Rightarrow> ('h, unit) op \<Rightarrow> string \<Rightarrow> ('h, unit) op" where
  "update_agent m trigger cmd_id =
     bnd (progress m cmd_id ''update_agent'' ''running'' ''applying_update'' (Some 50) None []) (\<lambda>_.
     bnd (except_any (bnd trigger (\<lambda>_. ret None)) (\<lambda>e. ret (Some e))) (\<lambda>failure.
     case failure of
       Some e \<Rightarrow> terminal cmd_id ''update_agent'' ''failed'' (''update failed: '' @ exn_message e) None []
     | None \<Rightarrow> terminal cmd_id ''update_agent'' ''completed''
                 ''update applied; agent restarting (or already current)'' None []))"

section \<open>Running a long operation\<close>

text \<open>
  The agent as a long operation sees it: configuration, identity, and what this development
  takes as given (the provisioning pass, the updater, the VM inventory, when a stop arrives,
  in which order a batch delete finishes).
\<close>

record 'h agent =
  ag_decode :: "string \<Rightarrow> pyval option"
  ag_cfg :: "(string, pyval) dict option"
  ag_usb :: "(string, pyval) dict"
  ag_id :: string
  ag_pass :: "('h, pass_report) op"
  ag_update :: "('h, unit) op"
  ag_inventory :: "vm_listing list result"
  ag_stop :: "int \<Rightarrow> bool"
  ag_order :: "int list \<Rightarrow> int list"

definition LONG_ACTIONS :: "string list" where
  "LONG_ACTIONS = [''delete_vm'', ''delete_vms'', ''reclone_vm'', ''proxmox_reclone_all'', ''clone_lxc'',
     ''provision_unassigned'', ''backup'', ''reseed'', ''update_agent'', ''quarantine_dongle_and_destroy'']"

definition delete_targets :: "(string, pyval) dict \<Rightarrow> pyval list result" where
  "delete_targets data =
     (let args = (case cfg_get data ''args'' of PDict d \<Rightarrow> d | _ \<Rightarrow> data);
          v = py_or (first_set args ''vmids'' ''vm_ids'') (cfg_get data ''vmids'')
      in if truthy v then py_iter v else Inr [])"

definition handler_of ::
    "'h machine \<Rightarrow> 'h agent \<Rightarrow> (string, pyval) dict \<Rightarrow> string \<Rightarrow> (string, ('h, unit) op) dict" where
  "handler_of m a data cmd_id =
     [(''delete_vm'', delete_vm m (ag_cfg a) data cmd_id),
      (''delete_vms'', bnd (lift (delete_targets data)) (\<lambda>raw. delete_vms m (ag_cfg a) (ag_order a) raw cmd_id)),
      (''reclone_vm'', reclone_vm m (ag_decode a) (ag_cfg a) (ag_usb a) data cmd_id),
      (''proxmox_reclone_all'',
         reclone_all m (ag_decode a) (ag_cfg a) (ag_usb a) data cmd_id (ag_inventory a) (ag_stop a)),
      (''clone_lxc'', clone_lxc m (ag_cfg a) data cmd_id),
      (''provision_unassigned'', provision_unassigned m (ag_pass a) cmd_id),
      (''backup'', backup_job m (ag_cfg a) (ag_id a) data cmd_id),
      (''reseed'', reseed m data cmd_id),
      (''update_agent'', update_agent m (ag_update a) cmd_id),
      (''quarantine_dongle_and_destroy'', quarantine_dongle_and_destroy m (ag_cfg a) data cmd_id)]"

definition run_long_op ::
    "'h machine \<Rightarrow> 'h agent \<Rightarrow> string \<Rightarrow> (string, pyval) dict \<Rightarrow> string \<Rightarrow> ('h, unit) op" where
  "run_long_op m a action data cmd_id =
     (case dget (handler_of m a data cmd_id) action of
        None \<Rightarrow> terminal cmd_id action ''failed'' (''unknown long op: '' @ action) None []
      | Some p \<Rightarrow>
          except_any p (\<lambda>e. case e of
              GuardError r \<Rightarrow> terminal cmd_id action ''failed'' (exn_message e) None []
            | _ \<Rightarrow> terminal cmd_id action ''failed'' (action @ '' error: '' @ exn_message e) None []))"

end
