(* ===== verification/Reporting.thy ===== *)
theory Reporting
  imports LongOps
begin

text \<open>
  Every long operation answers the hub exactly once. The operations below the handlers send no
  result frame (locale \<open>no_result\<close>, interpreted for the predicate below); each handler sends
  one exactly when it returns; \<open>run_long_op\<close> sends the one that is missing after an exception.
\<close>

definition is_result :: "event \<Rightarrow> bool" where
  "is_result e = (case e of Sent k x \<Rightarrow> k = ''CS_COMMAND_RESULT'' | _ \<Rightarrow> False)"

definition results :: "event list \<Rightarrow> event list" where
  "results es = filter is_result es"

lemma results_simps [simp]: "results [] = []" "results (es @ fs) = results es @ results fs"
  by (simp_all add: results_def)

section \<open>What sends no result\<close>

text \<open>
  A set of events with every command but a \<open>qm clone\<close>: the operations up to the choice of the
  clone sources stay inside it. With all commands added (\<open>no_result\<close>) so do the cloning ones.
\<close>

definition clones :: "string list \<Rightarrow> bool" where
  "clones argv \<longleftrightarrow> take 2 argv = [''qm'', ''clone'']"

lemma clones_simps [simp]:
  "\<not> clones []" "\<not> clones [a]" "clones (a # b # xs) \<longleftrightarrow> a = ''qm'' \<and> b = ''clone''"
  by (auto simp: clones_def)

locale no_clone =
  fixes P :: "event \<Rightarrow> bool"
  assumes P_cmd: "\<not> clones a \<Longrightarrow> P (Cmd a r)" and P_detached: "P (Detached a)" and P_slept: "P (Slept d)"
    and P_changed: "P (Changed c)" and P_sent: "k \<noteq> ''CS_COMMAND_RESULT'' \<Longrightarrow> P (Sent k x)"
begin

lemma basic [emits_intro]:
  "emits P (pause m d)" "emits P (spawn_detached a)" "emits P (change_file m ch)"
  by (intro emits_intro, simp_all add: P_slept P_detached P_changed)+

lemma other_command [emits_intro]: "\<not> clones a \<Longrightarrow> emits P (sh m a s c)"
  by (intro emits_intro) (simp add: P_cmd)

lemma sends: "k \<noteq> ''CS_COMMAND_RESULT'' \<Longrightarrow> emits P (send_event k x)"
  by (intro emits_intro P_sent)

lemma probes [emits_intro]:
  "emits P (detect_guest_type m vid)" "emits P (guest_kind m k vid)" "emits P (vm_status m vid)"
  "emits P (is_template m vid k)" "emits P (stopped_probe m vid g)" "emits P (gone_probe m vid g)"
  "emits P (guest_exists m vid g)" "emits P (guest_config m g vid)" "emits P (qm_config m vid)"
  "emits P (pct_config m vid)" "emits P (kill_unit m vid)" "emits P (stop_flag m vid f)"
  "emits P (list_qemu_vmids m)"
  by (auto simp: detect_guest_type_def guest_kind_def vm_status_def is_template_def stopped_probe_def
      gone_probe_def guest_exists_def qm_config_def pct_config_def guest_config_def kill_unit_def
      stop_flag_def list_qemu_vmids_def Let_def intro!: emits_intro)

lemma waits [emits_intro]: "emits P (wait_stopped m vid k t)" "emits P (wait_guest_gone m vid k t)"
  by (auto simp: wait_stopped_def wait_guest_gone_def poll_until_def P_slept intro!: emits_intro emits_poll)

lemma pids [emits_intro]: "emits P (first_pgrep m ps)"
  by (induction ps) (auto intro!: emits_intro)

lemma ladders [emits_intro]:
  "emits P (pct_stop_flags m vid fs)" "emits P (pct_destroy_flags m vid t reason gs)"
  by (induction fs, auto intro!: emits_intro) (induction gs arbitrary: reason, auto intro!: emits_intro)

lemma guarded [emits_intro]:
  "emits P (qm_stop_force m v prot)" "emits P (qm_destroy m t v prot)" "emits P (pct_stop m v prot)"
  "emits P (pct_destroy m t v prot)" "emits P (qm_start m v prot)" "emits P (pct_start m v prot)"
  "emits P (qm_set m args v prot)" "emits P (pct_set m args v prot)"
  "emits P (pct_clone m src nm t v prot)" "emits P (qm_agent_ping m t v prot)" "emits P (qm_guest_exec m args v prot)"
  "emits P (qm_guest_exec_shell m decode sc x y v prot)" "emits P (vzdump m dir co mo t v prot)"
  by (auto simp: qm_stop_force_def qemu_pid_def qm_destroy_def qm_destroy_retry_def destroy_argv_def pct_stop_def pct_destroy_def
      qm_start_def pct_start_def qm_set_def pct_set_def pct_clone_def qm_agent_ping_def
      qm_guest_exec_def qm_guest_exec_shell_def vzdump_def Let_def intro!: emits_intro split: option.splits)

lemma marks [emits_intro]:
  "emits P (mark_deleting m vid)" "emits P (mark_recloning m vid)" "emits P (clear_recloning vid)"
  "emits P (hold_pci_for_reclone addr vid)" "emits P (release_pci_hold addr)" "emits P (on_tracker g)"
  "emits P (verify_pool p)" "emits P (on_usb_state b h)" "emits P (tracked dflt f)" "emits P (record_terminal c a s msg)"
  by (auto simp: mark_deleting_def mark_recloning_def clear_recloning_def hold_pci_for_reclone_def
      release_pci_hold_def on_tracker_def verify_pool_def on_usb_state_def tracked_def record_terminal_def Let_def
      intro!: emits_intro emits_modify)

lemma frames [emits_intro]:
  "emits P (progress m c a s st p v x)" "emits P (vm_progress m fr vid st2 p2)"
  "emits P (fleet_progress m c st p v x)" "emits P (backup_frame m c t vid s st pct x)"
  by (auto simp: progress_def vm_progress_def fleet_progress_def backup_frame_def intro!: emits_intro sends
      split: option.splits)

lemma teardown [emits_intro]:
  "emits P (expire_pending_commands m vid k)" "emits P (notify_torn_down m vid)" "emits P (exclude_if m ex bus)"
  "emits P (settle_gone m vid bus ex)" "emits P (settle_failed m vid bus ex)" "emits P (tear_down m vid k prot)"
  "emits P (destroy_vm m cfg bus pr ex v)" "emits P (destroy_sim_vm m cfg vid prot)"
  by (auto simp: expire_pending_commands_def notify_torn_down_def exclude_if_def settle_gone_def settle_failed_def
      tear_down_def destroy_vm_def destroy_present_def destroy_sim_vm_def Let_def
      intro!: emits_intro sends split: option.splits prod.splits)

lemma templates [emits_intro]:
  "emits P (local_node_name m decode)" "emits P (list_qemu_vms_cluster m decode)" "emits P (first_template m cvid vs)"
  by (auto simp: local_node_name_def list_qemu_vms_cluster_def intro!: emits_intro split: option.splits pyval.splits)
     (induction vs, auto simp: is_runnable_template_def intro!: emits_intro)

lemma planning [emits_intro]:
  "emits P (resolve_template_vmid m decode c)" "emits P (plan_reclone m decode usb_cfg vid source)"
  "emits P (ensure_sim_pool m decode usb_cfg)"
  by (auto simp: resolve_template_vmid_def plan_reclone_def find_device_def bus_present_def ensure_sim_pool_def
      list_pools_def pvesh_read_def pvesh_bin_def pvesh_action_def Let_def intro!: emits_intro split: option.splits)

lemma clone_loops [emits_intro]:
  "emits P (keepalive m r vid)" "emits P (wait_agent m prot r vid n)" "emits P (stamp_hostname m decode prot2 vid sc n)"
  "emits P (wait_back m prot r vid d n)"
proof -
  show keep: "emits P (keepalive m r vid)" by (auto simp: keepalive_def intro!: emits_intro)
  show "emits P (wait_agent m prot r vid n)" "emits P (stamp_hostname m decode prot2 vid sc n)"
    "emits P (wait_back m prot r vid d n)"
    by (induction n) (auto intro!: emits_intro keep)
qed

lemma cloning [emits_intro]:
  "emits P (finish_clone m decode prot b vid nm bus img ty)" "emits P (configure_clone m prot usb_cfg vid dev)"
  by (auto simp: finish_clone_def first_boot_def settle_first_def reboot_and_wait_def run_update_def
      configure_clone_def Let_def intro!: emits_intro)

lemma phases: "(\<And>q. q \<in> snd ` set ps \<Longrightarrow> emits P q) \<Longrightarrow> emits P (in_phases ps)"
  by (induction ps rule: in_phases.induct) (auto intro!: emits_intro)

lemma usb_type [emits_intro]: "emits P (usb_device_type m decode usb_cfg bus)"
  by (auto simp: usb_device_type_def read_sysfs_def Let_def intro!: emits_intro)

end

locale no_result = no_clone +
  assumes P_any: "P (Cmd a r)"
begin

declare other_command [emits_intro del]

lemma any_command [emits_intro]: "emits P (sh m a s c)" "emits P (qm_clone m tpl nm pool t v prot)"
proof -
  show c: "emits P (sh m a s c)" for a s c by (intro emits_intro P_any)
  show "emits P (qm_clone m tpl nm pool t v prot)" by (auto simp: qm_clone_def intro!: emits_intro c)
qed

lemma rebuilding [emits_intro]:
  "emits P (finish_reclone m decode cfg usb_cfg fr vid nm plan)" "emits P (rebuild_vm m decode cfg usb_cfg prot fr vid nm plan)"
proof -
  show f: "emits P (finish_reclone m decode cfg usb_cfg fr vid nm plan)" for nm plan
    by (auto simp: finish_reclone_def intro!: emits_intro)
  have "emits P (in_phases (build_phases m prot usb_cfg fr pool vid v plan))" for pool v
    by (rule phases) (auto simp: build_phases_def intro!: emits_intro)
  then show "emits P (rebuild_vm m decode cfg usb_cfg prot fr vid nm plan)"
    by (auto simp: rebuild_vm_def Let_def intro!: emits_intro f)
qed

lemma always_then [emits_intro]:
  assumes "emits P p" "emits P q"
  shows "emits P (always_then p q)"
  unfolding emits_def
proof (rule yieldsI)
  fix w
  obtain r w1 where p: "p w = (r, w1)" by (cases "p w")
  obtain s w2 where q: "q w1 = (s, w2)" by (cases "q w1")
  obtain es fs where "trace w1 = trace w @ es" "list_all P es" "trace w2 = trace w1 @ fs" "list_all P fs"
    using emitsD [OF assms(1) p] emitsD [OF assms(2) q] by metis
  with p q show "\<exists>es. trace (snd (always_then p q w)) = trace w @ es \<and> list_all P es"
    by (cases s) (auto simp: always_then_def)
qed

lemma recloning [emits_intro]:
  "emits P (reclone_vm_core m decode cfg usb_cfg prot fr vid source nm)"
  "emits P (reclone_one m decode cfg usb_cfg prot c arrives x)" "emits P (delete_one m cfg prot c n vid acc)"
proof -
  show core: "emits P (reclone_vm_core m decode cfg usb_cfg prot fr vid source nm)" for fr vid source nm
    by (auto simp: reclone_vm_core_def intro!: emits_intro split: sum.splits)
  show "emits P (reclone_one m decode cfg usb_cfg prot c arrives x)"
    by (cases x) (auto simp: reclone_one_def intro!: emits_intro core)
  show "emits P (delete_one m cfg prot c n vid acc)"
    by (auto simp: delete_one_def Let_def intro!: emits_intro)
qed

lemma cleaning [emits_intro]:
  "emits P (remove_if_there m path)" "emits P (clean_up m path)"
  by (auto simp: remove_if_there_def clean_up_def intro!: emits_intro)

lemma backing_up [emits_intro]: "emits P (backup_one m prot c t vmid ok)"
  by (auto simp: backup_one_def upload_dump_def backup_failed_def Let_def
      intro!: emits_intro split: sum.splits exn.splits list.splits option.splits)

end

interpretation unreported: no_result "\<lambda>e. \<not> is_result e"
  by unfold_locales (simp_all add: is_result_def)

lemma silent_results: "list_all (\<lambda>e. \<not> is_result e) es \<Longrightarrow> results es = []"
  by (induction es) (auto simp: results_def)

section \<open>Answering once\<close>

text \<open>
  \<open>answers c a p\<close>: if \<open>p\<close> returns it has sent exactly one result frame, for command \<open>c\<close> and
  action \<open>a\<close>, and the ledger's entry of the command, if there is one, holds a result; if it
  raises it has sent none.
\<close>

definition frame_for :: "string \<Rightarrow> string \<Rightarrow> event \<Rightarrow> bool" where
  "frame_for c a e \<longleftrightarrow> (\<exists>st msg x. st \<in> {''completed'', ''failed''} \<and>
     e = Sent ''CS_COMMAND_RESULT'' ([(''cs_cmd_id'', PStr c), (''action'', PStr a), (''status'', PStr st),
           (''message'', PStr msg)] @ x))"

definition settled :: "string \<Rightarrow> 'h world \<Rightarrow> bool" where
  "settled c w \<longleftrightarrow> (case dget (lg_seen (ledger_of w)) c of None \<Rightarrow> True | Some e \<Rightarrow> se_terminal e \<noteq> None)"

definition once :: "string \<Rightarrow> string \<Rightarrow> 'a result \<Rightarrow> event list \<Rightarrow> bool" where
  "once c a r es \<longleftrightarrow> (case r of Inr y \<Rightarrow> \<exists>e. results es = [e] \<and> frame_for c a e | Inl x \<Rightarrow> results es = [])"

lemma once_simps [simp]:
  "once c a (Inl x) es \<longleftrightarrow> results es = []"
  "once c a (Inr y) es \<longleftrightarrow> (\<exists>e. results es = [e] \<and> frame_for c a e)"
  "results es = [] \<Longrightarrow> once c a r (es @ fs) \<longleftrightarrow> once c a r fs"
  "results fs = [] \<Longrightarrow> once c a r (es @ fs) \<longleftrightarrow> once c a r es"
  by (simp_all add: once_def split: sum.splits)

definition answers :: "string \<Rightarrow> string \<Rightarrow> ('h, 'a) op \<Rightarrow> bool" where
  "answers c a p \<longleftrightarrow>
     yields p (once c a)
     \<and> (\<forall>w y. fst (p w) = Inr y \<longrightarrow> settled c (snd (p w)))"

abbreviation silent :: "('h, 'a) op \<Rightarrow> bool" where
  "silent p \<equiv> emits (\<lambda>e. \<not> is_result e) p"

named_theorems answers_intro "handlers that send exactly one result"

lemma silent_yields: "silent p \<Longrightarrow> yields p (\<lambda>r es. results es = [])"
  unfolding emits_def by (erule yields_mono) (rule silent_results)

lemma answers_terminal [answers_intro]:
  assumes "st \<in> {''completed'', ''failed''}"
  shows "answers c a (terminal c a st msg v x :: ('h, unit) op)"
proof -
  let ?c = "case v of Some u \<Rightarrow> if a = ''reclone_vm'' then clear_recloning u else ret () | None \<Rightarrow> ret ()"
  have pre: "yields ?c (\<lambda>r es. es = [] \<and> r = Inr ())"
    by (auto simp: yields_def clear_recloning_def split: option.splits)
  have f: "yields (send_event ''CS_COMMAND_RESULT''
       ([(''cs_cmd_id'', PStr c), (''action'', PStr a), (''status'', PStr st), (''message'', PStr msg)] @ y))
     (once c a)" for y
    using assms by (auto simp: yields_def send_event_def results_def is_result_def frame_for_def)
  have mid: "yields (bnd (record_terminal c a st msg) (\<lambda>_. send_event ''CS_COMMAND_RESULT''
       ([(''cs_cmd_id'', PStr c), (''action'', PStr a), (''status'', PStr st), (''message'', PStr msg)] @ y)))
     (once c a)" for y
    by (rule yields_bnd [OF _ f, where QA = "\<lambda>r es. es = [] \<and> r = Inr ()"])
       (auto simp: yields_def record_terminal_def)
  have "yields (terminal c a st msg v x :: ('h, unit) op) (once c a)"
    unfolding terminal_def by (rule yields_bnd [OF pre mid]) auto
  moreover have "settled c (snd (terminal c a st msg v x w))" for w :: "'h world"
    by (auto simp: terminal_def record_terminal_def bnd_def send_event_def settled_def note_terminal_def
        clear_recloning_def split: option.splits prod.splits sum.splits)
  ultimately show ?thesis by (simp add: answers_def)
qed

lemma answers_then [answers_intro]:
  assumes "silent p" "\<And>x. answers c a (f x)"
  shows "answers c a (bnd p f)"
  unfolding answers_def
proof
  show "yields (bnd p f) (once c a)"
    by (rule yields_bnd [OF silent_yields [OF assms(1)], where QB = "\<lambda>x. once c a"])
       (use assms(2) in \<open>auto simp: answers_def split: sum.splits\<close>)
  show "\<forall>w y. fst (bnd p f w) = Inr y \<longrightarrow> settled c (snd (bnd p f w))"
    using assms(2) by (auto simp: answers_def bnd_def split: prod.splits sum.splits)
qed

lemma answers_after:
  assumes "answers c a p" "silent q" "returns q" "keeps ledger_of q"
  shows "answers c a (bnd p (\<lambda>_. q))"
  unfolding answers_def
proof
  have "yields q (\<lambda>r es. results es = [] \<and> (\<exists>y. r = Inr y))"
  proof (rule yieldsI)
    fix w
    obtain es where "trace (snd (q w)) = trace w @ es" "results es = []"
      using silent_yields [OF assms(2)] by (rule yieldsE)
    moreover obtain y where "fst (q w) = Inr y" using assms(3) by (auto simp: returns_def)
    ultimately show "\<exists>es. trace (snd (q w)) = trace w @ es \<and> results es = [] \<and> (\<exists>y. fst (q w) = Inr y)" by auto
  qed
  with assms(1)
  show "yields (bnd p (\<lambda>_. q)) (once c a)"
    unfolding answers_def by (auto elim!: yields_bnd [where QB = "\<lambda>x r es. results es = [] \<and> (\<exists>y. r = Inr y)"])
  show "\<forall>w y. fst (bnd p (\<lambda>_. q) w) = Inr y \<longrightarrow> settled c (snd (bnd p (\<lambda>_. q) w))"
    using assms(1,4) by (auto simp: answers_def bnd_def settled_def keeps_def split: prod.splits sum.splits) (metis prod.sel)+
qed

lemma answers_raise [answers_intro]: "answers c a (throw e)" "answers c a (Pair (Inl e))"
  by (simp_all add: answers_def yields_def)

lemma answers_cases [answers_intro]:
  "(b \<Longrightarrow> answers c a p) \<Longrightarrow> (\<not> b \<Longrightarrow> answers c a q) \<Longrightarrow> answers c a (if b then p else q)"
  "(\<And>x y. answers c a (f2 x y)) \<Longrightarrow> answers c a (case_prod f2 z)"
  "(\<And>x. answers c a (f1 x)) \<Longrightarrow> answers c a (Let y f1)"
  "answers c a p \<Longrightarrow> (\<And>x. answers c a (f1 x)) \<Longrightarrow> answers c a (case_option p f1 o1)"
  "(\<And>x. answers c a (fl x)) \<Longrightarrow> (\<And>x. answers c a (fr x)) \<Longrightarrow> answers c a (case_sum fl fr s)"
  by (auto split: prod.splits option.splits sum.splits)

lemma answers_always:
  assumes "answers c a p" "silent q" "returns q" "keeps ledger_of q"
  shows "answers c a (always_then p q)"
  unfolding answers_def
proof
  show "yields (always_then p q) (once c a)"
  proof (rule yieldsI)
    fix w
    obtain r w1 where p: "p w = (r, w1)" by (cases "p w")
    obtain y w2 where q: "q w1 = (Inr y, w2)" using returnsD [OF assms(3)] by blast
    obtain es where es: "trace w1 = trace w @ es"
        "once c a r es"
      using assms(1) p by (auto simp: answers_def elim!: yieldsE [where w = w])
    obtain fs where "trace w2 = trace w1 @ fs" "results fs = []"
      using silent_yields [OF assms(2)] q by (auto elim!: yieldsE [where w = w1])
    with es p q show "\<exists>es. trace (snd (always_then p q w)) = trace w @ es \<and>
        once c a (fst (always_then p q w)) es"
      by (intro exI [of _ "es @ fs"]) (simp add: always_then_def split: sum.splits)
  qed
  show "\<forall>w y. fst (always_then p q w) = Inr y \<longrightarrow> settled c (snd (always_then p q w))"
    using assms(1,4)
    by (auto simp: answers_def always_then_def settled_def keeps_def split: prod.splits sum.splits) (metis prod.sel)+
qed

section \<open>The handlers\<close>

lemma silent_loops [emits_intro]:
  "silent (each (reclone_one m decode cfg usb_cfg prot c arrives) cs)" "silent (iter (delete_one m cfg prot c n) vs acc)"
  "silent (iter (backup_one m prot c t) ids ok)"
  by (intro emits_each emits_iter unreported.recloning unreported.backing_up)+

lemma answers_deletes [answers_intro]:
  "answers c ''delete_vm'' (delete_vm m cfg data c)" "answers c ''delete_vms'' (delete_vms m cfg order raw c)"
  "answers c ''quarantine_dongle_and_destroy'' (quarantine_dongle_and_destroy m cfg data c)"
  unfolding delete_vm_def delete_vms_def quarantine_dongle_and_destroy_def Let_def
  by (auto intro!: answers_intro emits_intro unreported.frames unreported.teardown simp: batch_status_def
      split: prod.splits if_split_asm)

lemma answers_reclones [answers_intro]:
  "answers c ''reclone_vm'' (reclone_vm m decode cfg usb_cfg data c)"
  "answers c ''proxmox_reclone_all'' (reclone_all m decode cfg usb_cfg data c listing arrives)"
  unfolding reclone_vm_def reclone_all_def run_fleet_def Let_def
  by (auto intro!: answers_intro emits_intro unreported.frames unreported.recloning unreported.marks split: prod.splits if_split_asm)

lemma answers_rebuild_ct [answers_intro]: "answers c ''clone_lxc'' (rebuild_ct m prot vid source keep nm c)"
  unfolding rebuild_ct_def by (auto intro!: answers_intro emits_intro unreported.frames unreported.guarded)

lemma answers_clone_lxc [answers_intro]: "answers c ''clone_lxc'' (clone_lxc m cfg data c)"
  unfolding clone_lxc_def Let_def
  by (auto intro!: answers_intro emits_intro unreported.frames unreported.guarded unreported.probes)

lemma answers_provision:
  "silent pass \<Longrightarrow> answers c ''provision_unassigned'' (provision_unassigned m pass c)"
  unfolding provision_unassigned_def
  by (auto intro!: answers_intro emits_intro unreported.frames split: sum.splits)

lemma answers_backup [answers_intro]: "answers c ''backup'' (backup_job m cfg i data c)"
  unfolding backup_job_def Let_def by (auto intro!: answers_intro emits_intro)

lemma returns_clean_up [returns_intro]: "returns (remove_if_there m path)" "returns (clean_up m path)"
  by (auto simp: remove_if_there_def clean_up_def intro!: returns_intro)

lemma keeps_ledger_clean_up: "keeps ledger_of (clean_up m path)" "keeps ledger_of (bnd (change_file m ch) (\<lambda>_. ret ()))"
  by (auto simp: clean_up_def remove_if_there_def intro!: keeps_intro keeps_run)

lemma answers_reseed_end [answers_intro]:
  "st \<in> {''completed'', ''failed''} \<Longrightarrow> answers c ''reseed'' (reseed_end c st msg vid job)"
  unfolding reseed_end_def by (rule answers_intro)

lemma answers_reseed_failed [answers_intro]: "answers c ''reseed'' (reseed_failed m c msg vid job download)"
  unfolding reseed_failed_def
  by (rule answers_after [OF answers_reseed_end unreported.cleaning(2) returns_clean_up(2) keeps_ledger_clean_up(1)]) simp

lemma answers_reseed_steps: "answers c ''reseed'' (reseed_steps m c url vid job download)"
  unfolding reseed_steps_def Let_def
  by (auto intro!: answers_intro emits_intro unreported.frames unreported.basic unreported.cleaning
      returns_clean_up keeps_ledger_clean_up)

lemma answers_reseed [answers_intro]: "answers c ''reseed'' (reseed m data c)"
  unfolding reseed_def Let_def
  by (auto intro!: answers_intro emits_intro answers_always answers_reseed_steps returns_intro keeps_ledger_clean_up
      unreported.basic)

lemma answers_update:
  "silent trigger \<Longrightarrow> answers c ''update_agent'' (update_agent m trigger c)"
  unfolding update_agent_def
  by (auto intro!: answers_intro emits_intro unreported.frames split: option.splits)

lemma answers_handler:
  assumes "silent (ag_pass a)" "silent (ag_update a)" "dget (handler_of m a data c) action = Some p"
  shows "answers c action p"
  using assms
  by (auto simp: handler_of_def intro!: answers_intro answers_provision answers_update emits_intro split: if_splits)

section \<open>No handler hangs\<close>

lemma ends_conversions [ends_intro]:
  "ends (lift (py_int v))" "ends (lift (backup_ids d))" "ends (lift (delete_targets d))"
proof -
  have i: "py_int v \<noteq> Inl Diverged" for v by (cases v) (auto split: option.split)
  have t: "py_iter v \<noteq> Inl Diverged" for v by (cases v) auto
  show "ends (lift (py_int v))" by (intro ends_intro i)
  show "ends (lift (backup_ids d))" "ends (lift (delete_targets d))"
    using t by (auto simp: ends_def backup_ids_def delete_targets_def Let_def split: pyval.splits)
qed

lemma ends_with_disk: "(\<And>d. fst (f d) \<noteq> Inl Diverged) \<Longrightarrow> ends (with_disk f)"
  by (auto simp: ends_def with_disk_def split: prod.splits) (metis fst_conv)

lemmas ends_frames = returns_ends [OF returns_frames(1)] returns_ends [OF returns_frames(2)]

lemma ends_more_guarded [ends_intro]:
  "ends (pct_clone m src nm s v p)" "ends (pct_set m args v p)" "ends (pct_start m v p)" "ends (vzdump m d co mo s v p)"
  "ends (pct_config m vid)"
  by (auto simp: pct_clone_def pct_set_def pct_start_def vzdump_def pct_config_def intro!: ends_intro)

lemma ends_delete_handlers:
  assumes "clock_ok m"
  shows "ends (delete_vm m cfg data c)" "ends (delete_vms m cfg order raw c)"
    "ends (quarantine_dongle_and_destroy m cfg data c)"
  unfolding delete_vm_def delete_vms_def quarantine_dongle_and_destroy_def delete_one_def Let_def
  by (auto intro!: ends_intro ends_frames ends_destroy [OF assms] split: prod.splits)

lemma ends_reclone_one:
  "clock_ok m \<Longrightarrow> ends (reclone_one m decode cfg usb_cfg prot c arrives x)"
  by (cases x) (auto simp: reclone_one_def on_tracker_def fleet_progress_def tracked_def
      intro!: ends_intro ends_frames ends_core)

lemma ends_reclone_handlers:
  assumes "clock_ok m"
  shows "ends (reclone_vm m decode cfg usb_cfg data c)"
    "ends (reclone_all m decode cfg usb_cfg data c listing arrives)"
  unfolding reclone_vm_def reclone_all_def run_fleet_def Let_def
  by (auto simp: on_tracker_def fleet_progress_def tracked_def
      intro!: ends_intro ends_frames ends_core [OF assms] ends_reclone_one [OF assms] split: sum.splits option.splits)

lemma ends_clone_lxc:
  assumes "clock_ok m"
  shows "ends (clone_lxc m cfg data c)"
  unfolding clone_lxc_def rebuild_ct_def Let_def
  by (auto intro!: ends_intro ends_frames ladders_end [OF assms])

lemma ends_provision: "ends pass \<Longrightarrow> ends (provision_unassigned m pass c)"
  unfolding provision_unassigned_def
  by (auto simp: clear_quarantine_def intro!: ends_intro ends_frames ends_with_disk split: sum.splits prod.splits)

lemma ends_clean_up [ends_intro]: "ends (clean_up m path)"
  by (rule returns_ends [OF returns_clean_up(2)])

lemma ends_backup [ends_intro]: "ends (backup_job m cfg i data c)"
proof -
  have f: "ends (backup_failed m c t vid dir step msg)" for t vid dir step msg
    by (auto simp: backup_failed_def backup_frame_def intro!: ends_intro ends_frames)
  have o: "ends (backup_one m prot c t v ok)" for prot t v ok
    by (auto simp: backup_one_def upload_dump_def backup_frame_def Let_def
        intro!: ends_intro ends_frames f split: sum.splits exn.splits option.splits)
  show ?thesis unfolding backup_job_def Let_def by (auto intro!: ends_intro ends_frames o)
qed

lemma ends_reseed [ends_intro]: "ends (reseed m data c)"
proof -
  have a: "ends (always_then p q)" if "ends p" "ends q" for p q :: "('a, unit) op"
    using that by (auto simp: ends_def always_then_def split: prod.splits sum.splits) (metis fst_conv)+
  show ?thesis
    unfolding reseed_def reseed_steps_def reseed_failed_def reseed_end_def Let_def
    by (auto intro!: ends_intro ends_frames a)
qed

lemma ends_update: "ends trigger \<Longrightarrow> ends (update_agent m trigger c)"
  unfolding update_agent_def by (auto intro!: ends_intro ends_frames split: option.splits)

lemma ends_handler:
  assumes "clock_ok m" "ends (ag_pass a)" "ends (ag_update a)" "dget (handler_of m a data c) action = Some p"
  shows "ends p"
  using assms(4)
  by (auto simp: handler_of_def split: if_splits
      intro!: ends_intro ends_delete_handlers [OF assms(1)] ends_reclone_handlers [OF assms(1)] ends_clone_lxc [OF assms(1)]
        ends_provision [OF assms(2)] ends_update [OF assms(3)])

section \<open>One answer per operation\<close>

lemma answersD: "answers c a p \<Longrightarrow> fst (p w) = Inr y \<Longrightarrow> settled c (snd (p w))"
  by (auto simp: answers_def)

text \<open>What is left of a handler that raised: the terminal frame of the \<open>except\<close> branch.\<close>

lemma once_after_except:
  assumes p: "answers c a p" "ends p" and h: "\<And>e. answers c a (h e)" "\<And>e. returns (h e)"
  obtains x w' es where "except_any p h w = (Inr x, w')" "trace w' = trace w @ es" "once c a (Inr x) es" "settled c w'"
proof -
  obtain r w1 where run: "p w = (r, w1)" by (cases "p w")
  obtain es where es: "trace w1 = trace w @ es" "once c a r es"
    using p(1) run by (auto simp: answers_def elim!: yieldsE [where w = w])
  show thesis
  proof (cases r)
    case (Inr x)
    then have "settled c w1" using answersD [OF p(1), of w] run by simp
    with that [of x w1 es] es run Inr show thesis by (simp add: except_any_def catch_def)
  next
    case (Inl e)
    then have "e \<noteq> Diverged" using p(2) run unfolding ends_def by (metis fst_conv)
    obtain x w2 where h2: "h e w1 = (Inr x, w2)" using returnsD [OF h(2)] by blast
    obtain fs where fs: "trace w2 = trace w1 @ fs" "once c a (Inr x) fs"
      using h(1) [of e] h2 by (auto simp: answers_def elim!: yieldsE [where w = w1])
    have "settled c w2" using answersD [OF h(1), of e w1] h2 by simp
    with that [of x w2 "es @ fs"] es fs run h2 Inl \<open>e \<noteq> Diverged\<close> show thesis
      by (auto simp: except_any_def catch_def)
  qed
qed

text \<open>
  Every long operation is answered exactly once. Whatever the action, the payload and the
  host (as long as its clock runs), \<open>run_long_op\<close> returns without raising, has sent exactly one
  result frame, which carries this command's id and action and the status completed or failed,
  and the ledger, if it knows the command, now holds a result for redeliveries. The
  provisioning pass and the updater, which are arguments, are assumed to end and to send no
  result frames of their own.
\<close>

theorem long_op_answered_once:
  assumes "clock_ok m" "ends (ag_pass a)" "ends (ag_update a)" "silent (ag_pass a)" "silent (ag_update a)"
  shows "\<exists>w' es e. run_long_op m a action data c w = (Inr (), w') \<and> trace w' = trace w @ es
    \<and> results es = [e] \<and> frame_for c action e \<and> settled c w'"
proof (cases "dget (handler_of m a data c) action")
  case None
  then have run: "run_long_op m a action data c = terminal c action ''failed'' (''unknown long op: '' @ action) None []"
    by (simp add: run_long_op_def)
  have "answers c action (terminal c action ''failed'' (''unknown long op: '' @ action) None [] :: ('a, unit) op)"
    by (intro answers_intro) simp
  then obtain es where "trace (snd (run_long_op m a action data c w)) = trace w @ es"
      "once c action (fst (run_long_op m a action data c w)) es" "settled c (snd (run_long_op m a action data c w))"
    unfolding run by (auto simp: answers_def terminal_quiet elim!: yieldsE [where w = w])
  then show ?thesis by (auto simp: run terminal_quiet)
next
  case (Some p)
  let ?h = "\<lambda>e. case e of GuardError r \<Rightarrow> terminal c action ''failed'' (exn_message e) None []
     | _ \<Rightarrow> terminal c action ''failed'' (action @ '' error: '' @ exn_message e) None []"
  have h: "answers c action (?h e :: ('a, unit) op)" "returns (?h e :: ('a, unit) op)" for e
    by (cases e; auto intro!: answers_intro returns_frames)+
  obtain x w' es where "except_any p ?h w = (Inr x, w')" "trace w' = trace w @ es" "once c action (Inr x) es" "settled c w'"
    by (rule once_after_except [OF answers_handler [OF assms(4,5) Some] ends_handler [OF assms(1-3) Some] h])
  then show ?thesis by (auto simp: run_long_op_def Some)
qed

definition idle_agent :: "rat agent" where
  "idle_agent = \<lparr>ag_decode = (\<lambda>_. None), ag_cfg = None, ag_usb = [], ag_id = ''a1'',
     ag_pass = ret \<lparr>ps_provisioned = 0, ps_torn_down = 0\<rparr>, ag_update = ret (), ag_inventory = Inr [],
     ag_stop = (\<lambda>_. False), ag_order = (\<lambda>vs. vs)\<rparr>"

theorem long_op_answered_once_witness:
  "\<exists>w' es e. run_long_op still_host idle_agent ''delete_vm'' [(''vmid'', PInt 1001)] ''c1'' (fresh_world 0) = (Inr (), w')
     \<and> trace w' = es \<and> results es = [e] \<and> frame_for ''c1'' ''delete_vm'' e"
  using long_op_answered_once [OF still_host_clock, of idle_agent "''delete_vm''" "[(''vmid'', PInt 1001)]" "''c1''" "fresh_world 0"]
  by (auto simp: idle_agent_def ends_intro emits_pure fresh_world_def)

end
