(* ===== verification/UsbBus.thy ===== *)
theory UsbBus
  imports Reclone Gate
begin

text \<open>
  The host's USB bus as \<open>agent/src/usb_provision.py\<close> sees it: the scan of sysfs for certified
  dongles, freeing them from the host's drivers, and the reconciliation of the assignments
  with what the virtual machines really pass through.
\<close>

section \<open>Scanning sysfs\<close>

definition USB_DEVICES :: string where "USB_DEVICES = ''/sys/bus/usb/devices''"

definition sys_path :: "string \<Rightarrow> string \<Rightarrow> string" where
  "sys_path name file = USB_DEVICES @ ''/'' @ name @ ''/'' @ file"

text \<open>The \<open>vid:pid\<close> of a device entry; none for an interface, or if one of the files is unreadable.\<close>

definition device_vidpid :: "'h machine \<Rightarrow> string \<Rightarrow> ('h, string option) op" where
  "device_vidpid m name =
     bnd (peek (\<lambda>w. m_dir m (USB_DEVICES @ ''/'' @ name) (host w))) (\<lambda>there.
     if \<not> there \<or> CHR '':'' \<in> set name then ret None
     else
       bnd (read_sysfs m (sys_path name ''idVendor'')) (\<lambda>v.
       bnd (read_sysfs m (sys_path name ''idProduct'')) (\<lambda>p.
       ret (if v = [] \<or> p = [] then None else Some (v @ '':'' @ p)))))"

record dongle =
  dg_vidpid :: string
  dg_product :: string
  dg_type :: string

definition scan_one ::
    "'h machine \<Rightarrow> string set \<Rightarrow> (string, string) dict \<Rightarrow> string \<Rightarrow> (string, dongle) dict
     \<Rightarrow> ('h, (string, dongle) dict) op" where
  "scan_one m vidpids types name found =
     bnd (device_vidpid m name) (\<lambda>vp.
     case vp of
       None \<Rightarrow> ret found
     | Some vidpid \<Rightarrow>
         if vidpid \<notin> vidpids then ret found
         else bnd (read_sysfs m (sys_path name ''product'')) (\<lambda>product.
              ret (dset name \<lparr>dg_vidpid = vidpid, dg_product = or_text product name,
                dg_type = (case dget types vidpid of None \<Rightarrow> ''wireless'' | Some t \<Rightarrow> t)\<rparr> found)))"

definition scan_present_dongles ::
    "'h machine \<Rightarrow> string set \<Rightarrow> (string, string) dict \<Rightarrow> ('h, (string, dongle) dict) op" where
  "scan_present_dongles m vidpids types =
     bnd (list_dir m USB_DEVICES) (\<lambda>entries. iter (scan_one m vidpids types) entries [])"

text \<open>The driver an interface is bound to.\<close>

definition interfaces_of :: "string \<Rightarrow> string list \<Rightarrow> string list" where
  "interfaces_of name entries = filter (has_prefix (name @ '':'')) entries"

definition bound_driver :: "'h machine \<Rightarrow> string \<Rightarrow> ('h, string option) op" where
  "bound_driver m child =
     bnd (link_target m (sys_path child ''driver'')) (\<lambda>l.
     ret (case l of None \<Rightarrow> None | Some d \<Rightarrow> if d = [] \<or> d = ''.'' then None else Some d))"

definition note_driver :: "'h machine \<Rightarrow> string \<Rightarrow> string list \<Rightarrow> ('h, string list) op" where
  "note_driver m child ds =
     bnd (bound_driver m child) (\<lambda>d. ret (case d of None \<Rightarrow> ds | Some x \<Rightarrow> List.insert x ds))"

definition drivers_of_device ::
    "'h machine \<Rightarrow> string set \<Rightarrow> string list \<Rightarrow> string \<Rightarrow> string list \<Rightarrow> ('h, string list) op" where
  "drivers_of_device m vidpids entries name ds =
     bnd (device_vidpid m name) (\<lambda>vp.
     if vp \<in> Some ` vidpids then iter (note_driver m) (interfaces_of name entries) ds else ret ds)"

definition discover_bound_dongle_drivers :: "'h machine \<Rightarrow> string set \<Rightarrow> ('h, string list) op" where
  "discover_bound_dongle_drivers m vidpids =
     bnd (list_dir m USB_DEVICES) (\<lambda>entries. iter (drivers_of_device m vidpids entries) entries [])"

text \<open>\<open>usbfs\<close> on any interface means QEMU holds the dongle; an unreadable directory counts as held.\<close>

fun any_usbfs :: "'h machine \<Rightarrow> string list \<Rightarrow> ('h, bool) op" where
  "any_usbfs m [] = ret False"
| "any_usbfs m (child # cs) =
     bnd (link_target m (sys_path child ''driver'')) (\<lambda>l. if l = Some ''usbfs'' then ret True else any_usbfs m cs)"

definition bus_attached :: "'h machine \<Rightarrow> string \<Rightarrow> ('h, bool) op" where
  "bus_attached m bus =
     bnd (peek (\<lambda>w. m_dir m USB_DEVICES (host w))) (\<lambda>readable.
     if \<not> readable then ret True
     else bnd (list_dir m USB_DEVICES) (\<lambda>entries. any_usbfs m (interfaces_of bus entries)))"

section \<open>Taking dongles from the host's drivers\<close>

record unbind_report =
  ub_unbound :: "string list"
  ub_failed :: "string list"
  ub_drivers :: "string list"

definition unbind_child :: "'h machine \<Rightarrow> string \<Rightarrow> unbind_report \<Rightarrow> ('h, unbind_report) op" where
  "unbind_child m child rep =
     bnd (bound_driver m child) (\<lambda>d.
     case d of
       None \<Rightarrow> ret rep
     | Some drv \<Rightarrow>
         bnd (change_file m (WriteText (''/sys/bus/usb/drivers/'' @ drv @ ''/unbind'') child)) (\<lambda>ok.
         ret (if ok then rep\<lparr>ub_drivers := List.insert drv (ub_drivers rep), ub_unbound := ub_unbound rep @ [child]\<rparr>
              else rep\<lparr>ub_drivers := List.insert drv (ub_drivers rep), ub_failed := ub_failed rep @ [child]\<rparr>)))"

definition unbind_device ::
    "'h machine \<Rightarrow> string set \<Rightarrow> string set \<Rightarrow> string list \<Rightarrow> string \<Rightarrow> unbind_report \<Rightarrow> ('h, unbind_report) op" where
  "unbind_device m vidpids skip entries name rep =
     (if name \<in> skip then ret rep
      else bnd (device_vidpid m name) (\<lambda>vp.
           if vp \<in> Some ` vidpids then iter (unbind_child m) (interfaces_of name entries) rep else ret rep))"

definition force_unbind_dongle_drivers ::
    "'h machine \<Rightarrow> string set \<Rightarrow> string set \<Rightarrow> ('h, unbind_report) op" where
  "force_unbind_dongle_drivers m vidpids skip =
     bnd (list_dir m USB_DEVICES) (\<lambda>entries.
     bnd (iter (unbind_device m vidpids skip entries) entries \<lparr>ub_unbound = [], ub_failed = [], ub_drivers = []\<rparr>) (\<lambda>rep.
     ret (rep\<lparr>ub_drivers := sort (ub_drivers rep)\<rparr>)))"

definition DONGLE_BLACKLIST_CONF :: string where
  "DONGLE_BLACKLIST_CONF = ''/etc/modprobe.d/cs-dongle-blacklist.conf''"

text \<open>The header's dash is one UTF-8 character of three bytes.\<close>

definition render_blacklist_conf :: "string list \<Rightarrow> string" where
  "render_blacklist_conf drivers =
     ''# Auto-generated by pxmx client-sim agent '' @ em_dash @ '' do not edit manually'' @ newline
     @ ''# Prevents the host from binding to USB dongles used for VM passthrough'' @ newline
     @ join_sep newline (map (\<lambda>d. ''blacklist '' @ d) (sort drivers)) @ newline"

record blacklist_report =
  bl_drivers :: "string list"
  bl_written :: bool
  bl_unloaded :: "string list"
  bl_unbound :: "string list"

text \<open>The write and \<open>depmod\<close> under one \<open>except OSError\<close>.\<close>

definition write_blacklist :: "'h machine \<Rightarrow> string \<Rightarrow> ('h, bool) op" where
  "write_blacklist m rendered =
     bnd (change_file m (WriteText DONGLE_BLACKLIST_CONF rendered)) (\<lambda>ok.
     if \<not> ok then ret False
     else catch (bnd (sh m [''depmod'', ''-a''] 20 False) (\<lambda>_. ret True))
            (\<lambda>e. if e = OSError then ret False else throw e))"

definition unload_driver :: "'h machine \<Rightarrow> string \<Rightarrow> string list \<Rightarrow> ('h, string list) op" where
  "unload_driver m drv unloaded =
     bnd (sh m [''lsmod''] 10 False) (\<lambda>(rc, out, err).
     if \<not> list_ex (\<lambda>l. split_ws l \<noteq> [] \<and> hd (split_ws l) = drv) (splitlines out) then ret unloaded
     else bnd (sh m [''rmmod'', drv] 10 False) (\<lambda>(rc2, out2, err2).
          ret (if rc2 = 0 then unloaded @ [drv] else unloaded)))"

definition free_unassigned :: "'h machine \<Rightarrow> string set \<Rightarrow> ('h, string list) op" where
  "free_unassigned m vidpids =
     except_any
       (bnd (peek (\<lambda>w. dkeys (bus_to_vmid (load_usb_state (store w))))) (\<lambda>assigned.
        bnd (force_unbind_dongle_drivers m vidpids (set assigned)) (\<lambda>rep. ret (ub_unbound rep))))
       (\<lambda>e. ret [])"

definition blacklist_dongle_drivers :: "'h machine \<Rightarrow> string set \<Rightarrow> ('h, blacklist_report) op" where
  "blacklist_dongle_drivers m vidpids =
     (let nothing_done = (\<lambda>ds wr. \<lparr>bl_drivers = ds, bl_written = wr, bl_unloaded = [], bl_unbound = []\<rparr>) in
      if vidpids = {} then ret (nothing_done [] True)
      else
        bnd (discover_bound_dongle_drivers m vidpids) (\<lambda>found.
        if found = [] then ret (nothing_done [] True)
        else
          (let drivers = sort found; rendered = render_blacklist_conf drivers in
           bnd (read_text m DONGLE_BLACKLIST_CONF) (\<lambda>existing.
           bnd (if existing = Some rendered then ret True else write_blacklist m rendered) (\<lambda>written.
           if \<not> written then ret (nothing_done drivers False)
           else
             bnd (iter (unload_driver m) drivers []) (\<lambda>unloaded.
             bnd (free_unassigned m vidpids) (\<lambda>unbound.
             ret \<lparr>bl_drivers = drivers, bl_written = True, bl_unloaded = unloaded, bl_unbound = unbound\<rparr>)))))))"

section \<open>What a virtual machine passes through\<close>

text \<open>The first \<open>usb\<close> entry that names a bus; entries that name a \<open>vid:pid\<close> are passed over.\<close>

fun usb_bus_of :: "(string, string) dict \<Rightarrow> string option" where
  "usb_bus_of [] = None"
| "usb_bus_of ((k, v) # cfg) =
     (case (if has_prefix ''usb'' k then after_first ''host='' v else None) of
        Some s \<Rightarrow> if first_field s \<noteq> [] \<and> CHR '':'' \<notin> set (first_field s) then Some (first_field s) else usb_bus_of cfg
      | None \<Rightarrow> usb_bus_of cfg)"

definition passes_usb :: "(string, string) dict \<Rightarrow> bool" where
  "passes_usb cfg = list_ex (\<lambda>(k, v). has_prefix ''usb'' k \<and> has_infix ''host='' v) cfg"

definition passes_pci :: "(string, string) dict \<Rightarrow> bool" where
  "passes_pci cfg = list_ex (\<lambda>(k, v). has_prefix ''hostpci'' k) cfg"

definition vm_usb_bus :: "'h machine \<Rightarrow> int \<Rightarrow> ('h, string option) op" where
  "vm_usb_bus m vid = except_any (bnd (qm_config m vid) (\<lambda>cfg. ret (usb_bus_of cfg))) (\<lambda>e. ret None)"

definition vm_has_pci_passthrough :: "'h machine \<Rightarrow> int \<Rightarrow> ('h, bool) op" where
  "vm_has_pci_passthrough m vid = except_any (bnd (qm_config m vid) (\<lambda>cfg. ret (passes_pci cfg))) (\<lambda>e. ret True)"

definition vm_has_usb_passthrough :: "'h machine \<Rightarrow> int \<Rightarrow> ('h, bool) op" where
  "vm_has_usb_passthrough m vid = except_any (bnd (qm_config m vid) (\<lambda>cfg. ret (passes_usb cfg))) (\<lambda>e. ret True)"

section \<open>Reconciling the assignments\<close>

text \<open>A VM found on a bus is tracked; if the dongle is absent its missing timer starts.\<close>

definition retrack_st :: "int \<Rightarrow> string \<Rightarrow> bool \<Rightarrow> rat \<Rightarrow> usb_state \<Rightarrow> usb_state" where
  "retrack_st vid bus here now st =
     st\<lparr>bus_to_vmid := dset bus (str_int vid) (bus_to_vmid st),
        vmid_to_bus := dset (str_int vid) bus (vmid_to_bus st),
        vmid_to_image := dset (str_int vid) (image_of vid st) (vmid_to_image st),
        missing_since := (if here then dpop bus (missing_since st)
                          else if dhas (missing_since st) bus then missing_since st
                          else dset bus now (missing_since st))\<rparr>"

definition retrack_vm ::
    "'h machine \<Rightarrow> (string \<Rightarrow> bool) \<Rightarrow> rat \<Rightarrow> int \<Rightarrow> usb_state \<times> bool \<Rightarrow> ('h, usb_state \<times> bool) op" where
  "retrack_vm m here now vid acc =
     bnd (is_template m vid None) (\<lambda>tpl.
     if tpl then ret acc
     else bnd (vm_usb_bus m vid) (\<lambda>bus.
          if \<not> str_set bus then ret acc
          else ret (retrack_st vid (the bus) (here (the bus)) now (fst acc), True)))"

definition reconcile_vm_configs ::
    "'h machine \<Rightarrow> int \<Rightarrow> int \<Rightarrow> (string \<Rightarrow> bool) \<Rightarrow> rat \<Rightarrow> int list \<Rightarrow> ('h, bool) op" where
  "reconcile_vm_configs m start_vid end_vid here now existing =
     bnd (peek (\<lambda>w. load_usb_state (store w))) (\<lambda>st.
     bnd (lift (candidate_ids {} (dvals (bus_to_vmid st)))) (\<lambda>tracked_ids.
     bnd (iter (retrack_vm m here now)
           (filter (\<lambda>v. start_vid \<le> v \<and> v \<le> end_vid \<and> v \<notin> set tracked_ids) (sort (remdups existing))) (st, False)) (\<lambda>(st', changed).
     bnd (if changed then on_disk (save_usb_state st') else ret ()) (\<lambda>_.
     ret changed))))"

text \<open>
  An assignment is stale if its VM is gone, passes another bus through, or passes none; a VM
  that names its dongle by \<open>vid:pid\<close> keeps it.
\<close>

definition is_stale :: "'h machine \<Rightarrow> int set \<Rightarrow> string \<Rightarrow> int \<Rightarrow> ('h, bool) op" where
  "is_stale m existing bus vid =
     (if vid \<notin> existing then ret True
      else bnd (vm_usb_bus m vid) (\<lambda>actual.
           if actual = Some bus then ret False
           else if actual \<noteq> None then ret True
           else bnd (vm_has_usb_passthrough m vid) (\<lambda>usb. ret (\<not> usb))))"

definition release_st :: "string \<Rightarrow> int \<Rightarrow> usb_state \<Rightarrow> usb_state" where
  "release_st bus vid st =
     st\<lparr>bus_to_vmid := dpop bus (bus_to_vmid st),
        vmid_to_bus := (if dget (vmid_to_bus st) (str_int vid) = Some bus
                        then dpop (str_int vid) (vmid_to_bus st) else vmid_to_bus st),
        missing_since := dpop bus (missing_since st)\<rparr>"

definition release_one ::
    "'h machine \<Rightarrow> int set \<Rightarrow> string \<times> string \<Rightarrow> usb_state \<times> nat \<Rightarrow> ('h, usb_state \<times> nat) op" where
  "release_one m existing e acc =
     (case e of (bus, vmid) \<Rightarrow>
        case parse_int vmid of
          None \<Rightarrow> ret acc
        | Some vid \<Rightarrow>
            bnd (is_stale m existing bus vid) (\<lambda>stale.
            ret (if stale then (release_st bus vid (fst acc), Suc (snd acc)) else acc)))"

definition release_stale_assignments :: "'h machine \<Rightarrow> int list \<Rightarrow> ('h, nat) op" where
  "release_stale_assignments m existing =
     bnd (peek (\<lambda>w. load_usb_state (store w))) (\<lambda>st.
     bnd (iter (release_one m (set existing)) (bus_to_vmid st) (st, 0)) (\<lambda>(st', n).
     bnd (if n \<noteq> 0 then on_disk (save_usb_state st') else ret ()) (\<lambda>_.
     ret n)))"

text \<open>A leftover VM nothing tracks is destroyed to free its number.\<close>

definition reclaim_zombie_vmid :: "'h machine \<Rightarrow> (string, pyval) dict option \<Rightarrow> int \<Rightarrow> ('h, bool) op" where
  "reclaim_zombie_vmid m cfg vid =
     except_any (bnd (destroy_vm m cfg None None False (PInt vid)) (\<lambda>r. ret (ds_ok r))) (\<lambda>e. ret False)"

section \<open>A dongle in use is left alone\<close>

text \<open>The device an interface belongs to, and the changes freeing the unassigned dongles may make.\<close>

definition device_of :: "string \<Rightarrow> string" where
  "device_of child = takeWhile (\<lambda>c. c \<noteq> CHR '':'') child"

fun frees_only :: "string set \<Rightarrow> event \<Rightarrow> bool" where
  "frees_only held (Changed (WriteText path text)) =
     (path = DONGLE_BLACKLIST_CONF \<or> device_of text \<notin> held \<and> has_prefix ''/sys/bus/usb/drivers/'' path)"
| "frees_only held (Cmd argv out) = (hd argv \<in> {''depmod'', ''lsmod'', ''rmmod''})"
| "frees_only held e = False"

lemma device_of_interface:
  assumes "has_prefix (name @ '':'') child" "CHR '':'' \<notin> set name"
  shows "device_of child = name"
proof -
  obtain rest where "child = (name @ '':'') @ rest" using assms(1) by (auto simp: has_prefix_iff)
  moreover have "takeWhile (\<lambda>c. c \<noteq> CHR '':'') (name @ CHR '':'' # rest) = name"
    using assms(2) by (subst takeWhile_append2) auto
  ultimately show ?thesis by (simp add: device_of_def)
qed

text \<open>A device found certified is no interface entry.\<close>

lemma yields_vidpid:
  "yields (device_vidpid m name) (\<lambda>r es. es = [] \<and> (\<forall>vp. r = Inr (Some vp) \<longrightarrow> CHR '':'' \<notin> set name))"
  by (auto simp: yields_def device_vidpid_def read_sysfs_def bnd_def read_text_def split: option.splits)

lemma emits_read_sysfs [emits_intro]: "emits P (read_sysfs m p)" "emits P (device_vidpid m name)"
    "emits P (bound_driver m child)"
  by (auto simp: read_sysfs_def device_vidpid_def bound_driver_def intro!: emits_intro)

lemma emits_discover [emits_intro]: "emits P (discover_bound_dongle_drivers m V)" "emits P (scan_present_dongles m V ts)"
  by (auto simp: discover_bound_dongle_drivers_def drivers_of_device_def note_driver_def scan_present_dongles_def
      scan_one_def intro!: emits_intro split: option.splits)

lemma emits_unbind_child:
  assumes "device_of child \<notin> held"
  shows "emits (frees_only held) (unbind_child m child rep)"
  using assms by (auto simp: unbind_child_def has_prefix_iff intro!: emits_intro split: option.splits)

lemma emits_unbind_device: "emits (frees_only held) (unbind_device m V held entries name rep)"
proof -
  have "emits (frees_only held) (bnd (device_vidpid m name) (\<lambda>vp.
          if vp \<in> Some ` V then iter (unbind_child m) (interfaces_of name entries) rep else ret rep))"
    if "name \<notin> held"
    unfolding emits_def
  proof (rule yields_bnd [OF yields_vidpid,
      where QB = "\<lambda>vp r es. CHR '':'' \<notin> set name \<or> vp = None \<longrightarrow> list_all (frees_only held) es"])
    fix vp
    have "emits (frees_only held) (iter (unbind_child m) (interfaces_of name entries) rep)" if "CHR '':'' \<notin> set name"
      using that \<open>name \<notin> held\<close>
      by (auto simp: interfaces_of_def device_of_interface intro!: emits_intro emits_unbind_child)
    moreover have "emits (\<lambda>e. True) (iter (unbind_child m) (interfaces_of name entries) rep)"
      by (auto simp: unbind_child_def intro!: emits_intro split: option.splits)
    ultimately show "yields (if vp \<in> Some ` V then iter (unbind_child m) (interfaces_of name entries) rep else ret rep)
        (\<lambda>r es. CHR '':'' \<notin> set name \<or> vp = None \<longrightarrow> list_all (frees_only held) es)"
      by (cases "CHR '':'' \<notin> set name"; cases vp) (auto simp: emits_def yields_ret intro: yields_mono)
  qed auto
  then show ?thesis by (auto simp: unbind_device_def intro!: emits_intro)
qed

lemma emits_force_unbind: "emits (frees_only held) (force_unbind_dongle_drivers m V held)"
  by (auto simp: force_unbind_dongle_drivers_def intro!: emits_intro emits_unbind_device)


lemma emits_write_blacklist: "emits (frees_only held) (write_blacklist m text)"
  by (auto simp: write_blacklist_def intro!: emits_intro)

lemma emits_unload: "emits (frees_only held) (unload_driver m drv ds)"
  by (auto simp: unload_driver_def intro!: emits_intro)

context inside_view
begin

lemma keeps_blacklist [keeps_intro]: "keeps f (write_blacklist m text)" "keeps f (unload_driver m drv ds)"
    "keeps f (discover_bound_dongle_drivers m V)"
  by (auto simp: write_blacklist_def unload_driver_def discover_bound_dongle_drivers_def drivers_of_device_def
      note_driver_def device_vidpid_def bound_driver_def read_sysfs_def f_inside intro!: keeps_intro keeps_run split: option.splits)

end


section \<open>Stale assignments\<close>

text \<open>A host whose VM configurations do not change while they are read.\<close>

definition steady :: "'h machine \<Rightarrow> (int \<Rightarrow> (string, string) dict) \<Rightarrow> bool" where
  "steady m cfg \<longleftrightarrow> (\<forall>vid. gives (qm_config m vid) (cfg vid))"

definition stale_entry :: "(int \<Rightarrow> (string, string) dict) \<Rightarrow> int set \<Rightarrow> string \<times> string \<Rightarrow> bool" where
  "stale_entry cfg existing e =
     (case parse_int (snd e) of
        None \<Rightarrow> False
      | Some vid \<Rightarrow>
          vid \<notin> existing
          \<or> usb_bus_of (cfg vid) \<noteq> Some (fst e) \<and> (usb_bus_of (cfg vid) = None \<longrightarrow> \<not> passes_usb (cfg vid)))"

lemma gives_probes:
  assumes "steady m cfg"
  shows "gives (vm_usb_bus m vid) (usb_bus_of (cfg vid))"
    and "gives (vm_has_usb_passthrough m vid) (passes_usb (cfg vid))"
    and "gives (vm_has_pci_passthrough m vid) (passes_pci (cfg vid))"
  using assms
  by (auto simp: steady_def vm_usb_bus_def vm_has_usb_passthrough_def vm_has_pci_passthrough_def
      intro!: gives_except gives_bnd [OF _ gives_ret(1)])

lemma gives_stale:
  assumes "steady m cfg" "parse_int vmid = Some vid"
  shows "gives (is_stale m existing bus vid) (stale_entry cfg existing (bus, vmid))"
  using assms(2)
  by (auto simp: is_stale_def stale_entry_def gives_ret
      intro!: gives_bnd [OF gives_probes(1) [OF assms(1)]] gives_bnd [OF gives_probes(2) [OF assms(1)]])

lemma gives_iter: "(\<And>x s. gives (f x s) (g x s)) \<Longrightarrow> gives (iter f xs s) (fold g xs s)"
  by (induction xs arbitrary: s) (auto intro!: gives_bnd gives_ret)

definition released_by :: "(int \<Rightarrow> (string, string) dict) \<Rightarrow> int set \<Rightarrow> string \<times> string \<Rightarrow> usb_state \<times> nat \<Rightarrow> usb_state \<times> nat" where
  "released_by cfg existing e acc =
     (if stale_entry cfg existing e then (release_st (fst e) (the (parse_int (snd e))) (fst acc), Suc (snd acc)) else acc)"

lemma gives_release:
  assumes "steady m cfg"
  shows "gives (release_one m existing e acc) (released_by cfg existing e acc)"
proof (cases "parse_int (snd e)")
  case None
  then show ?thesis by (cases e) (simp add: release_one_def released_by_def stale_entry_def gives_ret)
next
  case (Some vid)
  then show ?thesis
    by (cases e) (auto simp: release_one_def released_by_def intro!: gives_bnd [OF gives_stale [OF assms]] gives_ret)
qed

lemma fold_released:
  "bus_to_vmid (fst (fold (released_by cfg ex) es (st, k)))
     = filter (\<lambda>p. fst p \<notin> fst ` set (filter (stale_entry cfg ex) es)) (bus_to_vmid st)"
  "snd (fold (released_by cfg ex) es (st, k)) = k + length (filter (stale_entry cfg ex) es)"
proof (induction es arbitrary: st k)
  case (Cons e es)
  {
    case 1
    show ?case using Cons(1) by (auto simp: released_by_def release_st_def dpop_eq_filter intro!: filter_cong)
  next
    case 2
    show ?case using Cons(2) by (simp add: released_by_def)
  }
qed simp_all

context inside_view
begin

lemma keeps_release [keeps_intro]: "keeps f (vm_usb_bus m vid)" "keeps f (vm_has_usb_passthrough m vid)"
    "keeps f (vm_has_pci_passthrough m vid)" "keeps f (is_stale m ex bus vid)" "keeps f (release_one m ex e acc)"
    "keeps f (iter (release_one m ex) es acc)"
  by (auto simp: vm_usb_bus_def vm_has_usb_passthrough_def vm_has_pci_passthrough_def is_stale_def release_one_def
      intro!: keeps_intro split: option.splits)

end

text \<open>
  Releasing stale assignments is exact. On a host whose configurations hold still, an entry of
  the bus map goes if and only if its VM is gone, passes another bus through or passes no
  dongle at all; everything else stays, a dongle named by \<open>vid:pid\<close> included, and the number
  returned is the number released.
\<close>

theorem release_stale_exact:
  assumes "steady m cfg" "faults (store w) = []" "wfd (bus_to_vmid (load_usb_state (store w)))"
    and "release_stale_assignments m existing w = (r, w')"
  shows "bus_to_vmid (load_usb_state (store w'))
           = filter (\<lambda>e. \<not> stale_entry cfg (set existing) e) (bus_to_vmid (load_usb_state (store w)))
         \<and> r = Inr (length (filter (stale_entry cfg (set existing)) (bus_to_vmid (load_usb_state (store w)))))"
proof -
  let ?st = "load_usb_state (store w)"
  let ?stale = "stale_entry cfg (set existing)"
  let ?out = "fold (released_by cfg (set existing)) (bus_to_vmid ?st) (?st, 0)"
  have "gives (iter (release_one m (set existing)) (bus_to_vmid ?st) (?st, 0)) ?out"
    by (rule gives_iter [OF gives_release [OF assms(1)]])
  then obtain w1 where run: "iter (release_one m (set existing)) (bus_to_vmid ?st) (?st, 0) w = (Inr ?out, w1)"
    unfolding gives_def by blast
  have "keeps store (iter (release_one m (set existing)) (bus_to_vmid ?st) (?st, 0))"
    by (rule store_view.keeps_release(6))
  then have s: "store w1 = store w" using run by (rule keepsD)
  have keep: "filter (\<lambda>p. fst p \<notin> fst ` set (filter ?stale (bus_to_vmid ?st))) (bus_to_vmid ?st)
      = filter (\<lambda>e. \<not> ?stale e) (bus_to_vmid ?st)"
    by (rule filter_keys_of [OF assms(3)])
  obtain st' n where out: "?out = (st', n)" by force
  have N: "n = length (filter ?stale (bus_to_vmid ?st))" using fold_released(2) [of cfg "set existing" "bus_to_vmid ?st" ?st 0] out by simp
  have B: "bus_to_vmid st' = filter (\<lambda>e. \<not> ?stale e) (bus_to_vmid ?st)"
    using fold_released(1) [of cfg "set existing" "bus_to_vmid ?st" ?st 0] out keep by simp
  have final: "(r, w') = (Inr n, if n = 0 then w1 else w1\<lparr>store := save_usb_state st' (store w1)\<rparr>)"
    using assms(4) run unfolding out release_stale_assignments_def by (auto simp: bnd_def on_disk_def split: if_splits)
  show ?thesis
  proof (cases "n = 0")
    case True
    then have "filter (\<lambda>e. \<not> ?stale e) (bus_to_vmid ?st) = bus_to_vmid ?st"
      using N by (simp add: filter_empty_conv)
    with True final N s show ?thesis by simp
  next
    case False
    with final N B s assms(2) show ?thesis by simp
  qed
qed

text \<open>A bus whose VM is there but passes nothing through, and one whose VM is gone.\<close>

definition two_tracked :: "rat world" where
  "two_tracked = (fresh_world 0)\<lparr>store := empty_disk\<lparr>usb_file :=
     Stored (to_doc (new_usb_state\<lparr>bus_to_vmid := [(''1-1'', str_int 90001), (''1-2'', str_int 90002), (''1-3'', [])]\<rparr>))\<rparr>\<rparr>"

lemma ready_steady: "steady ready_host (\<lambda>vid. [])"
  unfolding steady_def qm_config_def guest_config_def
  by (intro allI gives_bnd [where x = "(0, ''ok'', [])"])
     (simp_all add: gives_def sh_def run_command_def bnd_def parse_kv_def splitlines_def)

theorem release_stale_exact_witness:
  "\<exists>w'. release_stale_assignments ready_host [90001] two_tracked = (Inr 2, w')
      \<and> bus_to_vmid (load_usb_state (store w')) = [(''1-3'', [])]"
proof -
  have b: "bus_to_vmid (load_usb_state (store two_tracked)) = [(''1-1'', str_int 90001), (''1-2'', str_int 90002), (''1-3'', [])]"
    "faults (store two_tracked) = []"
    by (simp_all add: two_tracked_def load_usb_state_def empty_disk_def)
  have p: "parse_int (str_int 90001) = Some 90001" "parse_int (str_int 90002) = Some 90002" "parse_int [] = None"
    by (simp, simp, code_simp)
  have s: "stale_entry (\<lambda>vid. []) (set [90001]) (''1-1'', str_int 90001)" "stale_entry (\<lambda>vid. []) (set [90001]) (''1-2'', str_int 90002)"
    "\<not> stale_entry (\<lambda>vid. []) (set [90001]) (''1-3'', [])"
    by (simp_all add: stale_entry_def p passes_usb_def)
  obtain r w' where run: "release_stale_assignments ready_host [90001] two_tracked = (r, w')" by force
  from release_stale_exact [OF ready_steady b(2) _ run] b s run show ?thesis by simp
qed

end
