(* ===== verification/PostProv.thy ===== *)
theory PostProv
  imports UsbBus
begin

text \<open>
  The two queues of \<open>agent/src/usb_provision.py\<close> that follow up on a clone: VMs whose guest did
  not come back after the first reboot, and VMs that are due for a settling reboot. Both work on
  the state the provisioning pass holds in memory (\<open>pass_state\<close>).
\<close>

section \<open>The state of the pass\<close>

definition on_pass :: "(usb_state \<Rightarrow> usb_state) \<Rightarrow> ('h, unit) op" where
  "on_pass f = modify (\<lambda>w. w\<lparr>pass_state := f (pass_state w)\<rparr>)"

definition save_pass :: "('h, unit) op" where
  "save_pass = modify (\<lambda>w. w\<lparr>store := save_usb_state (pass_state w) (store w)\<rparr>)"

definition load_pass :: "('h, unit) op" where
  "load_pass = modify (\<lambda>w. w\<lparr>pass_state := load_usb_state (store w)\<rparr>)"

definition of_pass :: "(usb_state \<Rightarrow> 'a) \<Rightarrow> ('h, 'a) op" where
  "of_pass f = peek (\<lambda>w. f (pass_state w))"

text \<open>\<open>d.pop(bus, None)\<close> where \<open>bus\<close> may be \<open>None\<close>.\<close>

fun dpop_opt :: "'k option \<Rightarrow> ('k, 'v) dict \<Rightarrow> ('k, 'v) dict" where
  "dpop_opt None d = d"
| "dpop_opt (Some k) d = dpop k d"

definition forget_in_pass :: "string option \<Rightarrow> string \<Rightarrow> usb_state \<Rightarrow> usb_state" where
  "forget_in_pass bus v st =
     st\<lparr>bus_to_vmid := dpop_opt bus (bus_to_vmid st), vmid_to_bus := dpop v (vmid_to_bus st),
        vmid_to_image := dpop v (vmid_to_image st), missing_since := dpop_opt bus (missing_since st),
        vidpid_by_bus := dpop_opt bus (vidpid_by_bus st)\<rparr>"

text \<open>A destroy whose failure is only logged.\<close>

definition destroy_quietly ::
    "'h machine \<Rightarrow> (string, pyval) dict option \<Rightarrow> int set option \<Rightarrow> string option \<Rightarrow> int \<Rightarrow> ('h, bool) op" where
  "destroy_quietly m cfg prot bus vid =
     except_any (bnd (destroy_vm m cfg bus prot False (PInt vid)) (\<lambda>_. ret True)) (\<lambda>e. ret False)"

section \<open>The retry queue\<close>

definition RETRY_EVERY_S :: rat where "RETRY_EVERY_S = 600"
definition RETRY_GIVE_UP_S :: rat where "RETRY_GIVE_UP_S = 3600"

definition drop_retry :: "string \<Rightarrow> usb_state \<Rightarrow> usb_state" where
  "drop_retry v st = st\<lparr>post_prov_retry := dpop v (post_prov_retry st)\<rparr>"

definition stamp_retry :: "string \<Rightarrow> retry_entry \<Rightarrow> rat \<Rightarrow> usb_state \<Rightarrow> usb_state" where
  "stamp_retry v e now st = st\<lparr>post_prov_retry := dset v (e\<lparr>last_ts := now\<rparr>) (post_prov_retry st)\<rparr>"

definition retry_due ::
    "'h machine \<Rightarrow> (string \<Rightarrow> pyval option) \<Rightarrow> (string, pyval) dict option \<Rightarrow> int set \<Rightarrow> rat \<Rightarrow> string
     \<Rightarrow> int \<Rightarrow> retry_entry \<Rightarrow> ('h, unit) op" where
  "retry_due m decode cfg prot now v vid e =
     bnd (of_pass (\<lambda>st. dget (vmid_to_bus st) v)) (\<lambda>bus_now.
     if bus_now \<noteq> rt_bus e then on_pass (drop_retry v)
     else
       bnd (qm_config m vid) (\<lambda>conf.
       if conf = [] then on_pass (drop_retry v)
       else
         bnd (qm_agent_ping m 10 (PInt vid) (Some prot)) (\<lambda>up.
         if up then bnd (run_update m decode prot vid) (\<lambda>_. on_pass (drop_retry v))
         else if RETRY_GIVE_UP_S < now - start_ts e then
           bnd (on_pass (drop_retry v)) (\<lambda>_.
           bnd (destroy_quietly m cfg (Some prot) (rt_bus e) vid) (\<lambda>_.
           on_pass (forget_in_pass (rt_bus e) v)))
         else on_pass (stamp_retry v e now))))"

definition retry_one ::
    "'h machine \<Rightarrow> (string \<Rightarrow> pyval option) \<Rightarrow> (string, pyval) dict option \<Rightarrow> int set \<Rightarrow> rat
     \<Rightarrow> string \<times> retry_entry \<Rightarrow> bool \<Rightarrow> ('h, bool) op" where
  "retry_one m decode cfg prot now p mutated =
     (case p of (v, e) \<Rightarrow>
        bnd (lift (py_int (PStr v))) (\<lambda>vid.
        if now - last_ts e < RETRY_EVERY_S then ret mutated
        else bnd (retry_due m decode cfg prot now v vid e) (\<lambda>_. ret True)))"

text \<open>\<open>cfg\<close> is the \<open>client_simulation\<close> section; the result tells whether to save the state.\<close>

definition run_post_prov_retry_queue ::
    "'h machine \<Rightarrow> (string \<Rightarrow> pyval option) \<Rightarrow> (string, pyval) dict option \<Rightarrow> ('h, bool) op" where
  "run_post_prov_retry_queue m decode cfg =
     bnd (of_pass post_prov_retry) (\<lambda>queue.
     if queue = [] then ret False
     else bnd (now_s m) (\<lambda>now. iter (retry_one m decode cfg (resolve_protected_vmids cfg) now) queue False))"

section \<open>The reboot queue\<close>

definition drop_reboot :: "string \<Rightarrow> usb_state \<Rightarrow> usb_state" where
  "drop_reboot v st = st\<lparr>post_prov_reboot := dpop v (post_prov_reboot st)\<rparr>"

definition no_backup :: backup_opts where
  "no_backup = \<lparr>bo_storage = PNone, bo_mode = PNone, bo_keep = PNone\<rparr>"

text \<open>Through the guest agent; if the channel fails, a hardware reset.\<close>

definition settle_reboot :: "'h machine \<Rightarrow> int set \<Rightarrow> int \<Rightarrow> ('h, unit) op" where
  "settle_reboot m prot vid =
     except_any (bnd (qm_guest_exec m [''reboot''] (PInt vid) (Some prot)) (\<lambda>_. ret ()))
       (\<lambda>e. except_any (bnd (vm_action_any m vid ''reboot'' None None no_backup) (\<lambda>_. ret ())) (\<lambda>e2. ret ()))"

definition reboot_due :: "'h machine \<Rightarrow> int set \<Rightarrow> string \<Rightarrow> int \<Rightarrow> reboot_entry \<Rightarrow> ('h, unit) op" where
  "reboot_due m prot v vid e =
     bnd (of_pass (\<lambda>st. dget (vmid_to_bus st) v)) (\<lambda>bus_now.
     if bus_now \<noteq> rb_bus e then on_pass (drop_reboot v)
     else
       bnd (qm_config m vid) (\<lambda>conf.
       if conf = [] then on_pass (drop_reboot v)
       else bnd (settle_reboot m prot vid) (\<lambda>_. on_pass (drop_reboot v))))"

definition reboot_one ::
    "'h machine \<Rightarrow> int set \<Rightarrow> rat \<Rightarrow> string \<times> reboot_entry \<Rightarrow> bool \<Rightarrow> ('h, bool) op" where
  "reboot_one m prot now p mutated =
     (case p of (v, e) \<Rightarrow>
        bnd (lift (py_int (PStr v))) (\<lambda>vid.
        if now < reboot_at e then ret mutated
        else bnd (reboot_due m prot v vid e) (\<lambda>_. ret True)))"

definition run_post_prov_reboot_queue ::
    "'h machine \<Rightarrow> (string, pyval) dict option \<Rightarrow> ('h, bool) op" where
  "run_post_prov_reboot_queue m cfg =
     bnd (of_pass post_prov_reboot) (\<lambda>queue.
     if queue = [] then ret False
     else bnd (now_s m) (\<lambda>now. iter (reboot_one m (resolve_protected_vmids cfg) now) queue False))"

section \<open>What the sweeps leave in the queues\<close>

lemma on_pass_run [simp]: "on_pass f w = (Inr (), w\<lparr>pass_state := f (pass_state w)\<rparr>)"
  by (simp add: on_pass_def)

lemma of_pass_run [simp]: "of_pass f w = (Inr (f (pass_state w)), w)"
  by (simp add: of_pass_def)

context badge_view
begin

lemma keeps_settle_reboot [keeps_intro]: "keeps f (settle_reboot m prot vid)"
  by (auto simp: settle_reboot_def vm_action_any_def backup_vm_def Let_def intro!: keeps_intro)

end

interpretation pass_rest: rest_view pass_state
  by unfold_locales simp_all

lemma keeps_destroy_quietly: "keeps pass_state (destroy_quietly m cfg prot bus vid)"
  by (auto simp: destroy_quietly_def intro!: keeps_intro)

lemma reboot_due_state:
  assumes "reboot_due m prot v vid e w = (Inr u, w1)"
  shows "pass_state w1 = drop_reboot v (pass_state w)"
  using assms unfolding reboot_due_def
  by (auto elim!: bnd_InrD dest!: keepsD [OF mem_view.keeps_settle_reboot] keepsD [OF mem_view.keeps_resolve(1)]
      split: if_splits)

lemma drop_reboot_get [simp]: "dget (post_prov_reboot (drop_reboot v st)) = (dget (post_prov_reboot st))(v := None)"
  by (simp add: drop_reboot_def fun_eq_iff)

text \<open>
  The reboot sweep is exact: if it comes through, every entry that was due is gone and every
  entry that is not due yet is still there as it was.
\<close>

theorem reboot_queue_exact:
  assumes "run_post_prov_reboot_queue m cfg w = (Inr mutated, w')" "wfd (post_prov_reboot (pass_state w))"
  shows "dget (post_prov_reboot (pass_state w')) v
           = (case dget (post_prov_reboot (pass_state w)) v of
                None \<Rightarrow> None
              | Some e \<Rightarrow> if m_clock m (host w) < reboot_at e then Some e else None)"
proof -
  let ?q = "post_prov_reboot (pass_state w)"
  let ?now = "m_clock m (host w)"
  show ?thesis
  proof (cases "?q = []")
    case True
    then show ?thesis using assms(1) by (simp add: run_post_prov_reboot_queue_def bnd_def)
  next
    case False
    then have run: "iter (reboot_one m (resolve_protected_vmids cfg) ?now) ?q False w = (Inr mutated, w')"
      using assms(1) by (simp add: run_post_prov_reboot_queue_def bnd_def now_s_def)
    have "(\<forall>(v, e) \<in> set ?q. dget (post_prov_reboot (pass_state w')) v \<in> (if ?now < reboot_at e then {Some e} else {None}))
        \<and> (\<forall>v. v \<notin> fst ` set ?q \<longrightarrow> dget (post_prov_reboot (pass_state w')) v = dget ?q v)"
    proof (rule iter_each_key [OF run, where view = "\<lambda>w. dget (post_prov_reboot (pass_state w))"])
      fix v e s r and wa wb :: "'a world"
      assume at: "dget (post_prov_reboot (pass_state wa)) v = Some e"
        and step: "reboot_one m (resolve_protected_vmids cfg) ?now (v, e) s wa = (Inr r, wb)"
      from step show "\<exists>out \<in> if ?now < reboot_at e then {Some e} else {None}.
          dget (post_prov_reboot (pass_state wb)) = (dget (post_prov_reboot (pass_state wa)))(v := out)"
        using at by (auto simp: reboot_one_def fun_upd_idem elim!: bnd_InrD dest!: reboot_due_state split: if_splits option.splits)
    qed (use assms(2) in simp_all)
    note after = this
    show ?thesis
    proof (cases "dget ?q v")
      case None
      with after show ?thesis by (metis map_of_eq_None_iff option.simps(4))
    next
      case (Some e)
      then have "(v, e) \<in> set ?q" by (rule map_of_SomeD)
      with after Some show ?thesis by (fastforce split: if_splits)
    qed
  qed
qed


lemma retry_due_state:
  assumes "retry_due m decode cfg prot now v vid e w = (Inr u, w1)"
  shows "dget (post_prov_retry (pass_state w1)) = (dget (post_prov_retry (pass_state w)))(v := None)
    \<or> now - start_ts e \<le> RETRY_GIVE_UP_S
      \<and> dget (post_prov_retry (pass_state w1)) = (dget (post_prov_retry (pass_state w)))(v := Some (e\<lparr>last_ts := now\<rparr>))"
  using assms unfolding retry_due_def
  by (auto elim!: bnd_InrD dest!: keepsD [OF keeps_destroy_quietly] keepsD [OF mem_view.keeps_pve(7)]
      keepsD [OF mem_view.keeps_reboot(2)] keepsD [OF mem_view.keeps_resolve(1)]
      simp: drop_retry_def stamp_retry_def forget_in_pass_def fun_eq_iff split: if_splits)

lemma retry_one_key:
  assumes "retry_one m decode cfg prot now (v, e) s w = (Inr r, w1)" "dget (post_prov_retry (pass_state w)) v = Some e"
  obtains (waits) "now - last_ts e < RETRY_EVERY_S"
      "dget (post_prov_retry (pass_state w1)) = (dget (post_prov_retry (pass_state w)))(v := Some e)"
    | (leaves) "dget (post_prov_retry (pass_state w1)) = (dget (post_prov_retry (pass_state w)))(v := None)"
    | (again) "\<not> now - last_ts e < RETRY_EVERY_S" "now - start_ts e \<le> RETRY_GIVE_UP_S"
      "dget (post_prov_retry (pass_state w1)) = (dget (post_prov_retry (pass_state w)))(v := Some (e\<lparr>last_ts := now\<rparr>))"
  using assms
  by (cases "now - last_ts e < RETRY_EVERY_S")
     (auto simp: retry_one_def fun_upd_idem elim!: bnd_InrD dest!: retry_due_state)

definition still_queued :: "rat \<Rightarrow> retry_entry option \<Rightarrow> retry_entry option \<Rightarrow> bool" where
  "still_queued now before after =
     (case after of
        None \<Rightarrow> True
      | Some e \<Rightarrow> (case before of
          None \<Rightarrow> False
        | Some e0 \<Rightarrow>
            if now - last_ts e0 < RETRY_EVERY_S then e = e0
            else now - start_ts e0 \<le> RETRY_GIVE_UP_S \<and> e = e0\<lparr>last_ts := now\<rparr>))"

text \<open>
  The retry sweep never lets a VM linger: if it comes through, an entry still queued is either
  one that was not due (untouched) or one whose VM has been silent for an hour at most, with
  its next attempt scheduled from now. Nothing new enters the queue.
\<close>

theorem retry_queue_bounded:
  assumes "run_post_prov_retry_queue m decode cfg w = (Inr mutated, w')" "wfd (post_prov_retry (pass_state w))"
  shows "still_queued (m_clock m (host w)) (dget (post_prov_retry (pass_state w)) v)
           (dget (post_prov_retry (pass_state w')) v)"
proof (cases "post_prov_retry (pass_state w) = []")
  case True
  then show ?thesis using assms(1) by (simp add: run_post_prov_retry_queue_def bnd_def still_queued_def)
next
  case False
  let ?q = "post_prov_retry (pass_state w)"
  let ?now = "m_clock m (host w)"
  let ?outs = "\<lambda>v e. {out. still_queued ?now (Some e) out}"
  have run: "iter (retry_one m decode cfg (resolve_protected_vmids cfg) ?now) ?q False w = (Inr mutated, w')"
    using False assms(1) by (simp add: run_post_prov_retry_queue_def bnd_def now_s_def)
  have after: "(\<forall>(v, e) \<in> set ?q. dget (post_prov_retry (pass_state w')) v \<in> ?outs v e)
      \<and> (\<forall>v. v \<notin> fst ` set ?q \<longrightarrow> dget (post_prov_retry (pass_state w')) v = dget ?q v)"
  proof (rule iter_each_key [OF run, where view = "\<lambda>w. dget (post_prov_retry (pass_state w))"])
    fix v e s r and wa wb :: "'a world"
    assume at: "dget (post_prov_retry (pass_state wa)) v = Some e"
      and step: "retry_one m decode cfg (resolve_protected_vmids cfg) ?now (v, e) s wa = (Inr r, wb)"
    obtain out where "still_queued ?now (Some e) out"
      "dget (post_prov_retry (pass_state wb)) = (dget (post_prov_retry (pass_state wa)))(v := out)"
      by (rule retry_one_key [OF step at]) (erule that [rotated], simp add: still_queued_def)+
    then show "\<exists>out \<in> ?outs v e.
        dget (post_prov_retry (pass_state wb)) = (dget (post_prov_retry (pass_state wa)))(v := out)" by blast
  qed (use assms(2) in simp_all)
  show ?thesis
  proof (cases "dget ?q v")
    case None
    with after show ?thesis by (metis (no_types, lifting) map_of_eq_None_iff option.simps(4) still_queued_def)
  next
    case (Some e)
    then have "(v, e) \<in> set ?q" by (rule map_of_SomeD)
    with after Some show ?thesis by fastforce
  qed
qed

text \<open>Two clones waiting: one was recloned onto another dongle meanwhile, one is not due.\<close>

definition queued_world :: "rat world" where
  "queued_world = (fresh_world 10000)\<lparr>pass_state := new_usb_state\<lparr>
     post_prov_retry := [(str_int 90001, new_retry 0 (Some ''1-1'') 1 []), (str_int 90002, new_retry 9900 (Some ''1-2'') 1 [])],
     post_prov_reboot := [(str_int 90001, \<lparr>cloned_at = 0, reboot_at = 900, rb_bus = Some ''1-1'', rb_image = 1\<rparr>),
                          (str_int 90002, \<lparr>cloned_at = 9900, reboot_at = 10800, rb_bus = Some ''1-2'', rb_image = 1\<rparr>)]\<rparr>\<rparr>"

lemma queued_world_queues:
  "post_prov_retry (pass_state queued_world)
     = [(str_int 90001, new_retry 0 (Some ''1-1'') 1 []), (str_int 90002, new_retry 9900 (Some ''1-2'') 1 [])]"
  "post_prov_reboot (pass_state queued_world)
     = [(str_int 90001, \<lparr>cloned_at = 0, reboot_at = 900, rb_bus = Some ''1-1'', rb_image = 1\<rparr>),
        (str_int 90002, \<lparr>cloned_at = 9900, reboot_at = 10800, rb_bus = Some ''1-2'', rb_image = 1\<rparr>)]"
  "m_clock still_host (host queued_world) = 10000" "vmid_to_bus (pass_state queued_world) = []"
  by (simp_all add: queued_world_def fresh_world_def still_host_def new_usb_state_def)

lemma queued_world_runs:
  "\<exists>w'. run_post_prov_retry_queue still_host exit0 None queued_world = (Inr True, w')"
  "\<exists>w'. run_post_prov_reboot_queue still_host None queued_world = (Inr True, w')"
  by (simp_all add: run_post_prov_retry_queue_def run_post_prov_reboot_queue_def queued_world_queues bnd_def now_s_def
      retry_one_def retry_due_def reboot_one_def reboot_due_def new_retry_def RETRY_EVERY_S_def)

theorem retry_queue_bounded_witness:
  "\<exists>w'. run_post_prov_retry_queue still_host exit0 None queued_world = (Inr True, w')
     \<and> still_queued 10000 (Some (new_retry 9900 (Some ''1-2'') 1 [])) (dget (post_prov_retry (pass_state w')) (str_int 90002))"
proof -
  obtain w' where run: "run_post_prov_retry_queue still_host exit0 None queued_world = (Inr True, w')"
    using queued_world_runs(1) by blast
  with retry_queue_bounded [OF run, of "str_int 90002"] show ?thesis by (simp add: queued_world_queues)
qed

theorem reboot_queue_exact_witness:
  "\<exists>w'. run_post_prov_reboot_queue still_host None queued_world = (Inr True, w')
     \<and> dget (post_prov_reboot (pass_state w')) (str_int 90001) = None
     \<and> dget (post_prov_reboot (pass_state w')) (str_int 90002) \<noteq> None"
proof -
  obtain w' where run: "run_post_prov_reboot_queue still_host None queued_world = (Inr True, w')"
    using queued_world_runs(2) by blast
  with reboot_queue_exact [OF run, of "str_int 90001"] reboot_queue_exact [OF run, of "str_int 90002"]
  show ?thesis by (simp add: queued_world_queues)
qed

end
