(* ===== verification/Resets.thy ===== *)
theory Resets
  imports Disk
begin

text \<open>
  The log of the ports the agent itself re-enumerated (\<open>agent/src/usb_diagnostics.py\<close>): written
  by the recovery ladder, read by the detectors so that they do not mistake the agent's own
  resets for faults of the hardware.
\<close>

definition DIAG_KERNEL_WINDOW_S :: rat where "DIAG_KERNEL_WINDOW_S = 86400"
definition RESET_ATTRIBUTION_S :: rat where "RESET_ATTRIBUTION_S = 15"
definition RESET_LOG_TTL_S :: rat where "RESET_LOG_TTL_S = DIAG_KERNEL_WINDOW_S"
definition RESET_LOG_MAX :: nat where "RESET_LOG_MAX = 200"

text \<open>\<open>xs[-n:]\<close>\<close>

definition last_n :: "nat \<Rightarrow> 'a list \<Rightarrow> 'a list" where
  "last_n n xs = drop (length xs - n) xs"

definition fresh_times :: "rat \<Rightarrow> rat list \<Rightarrow> rat list" where
  "fresh_times now ts = filter (\<lambda>t. now - t < RESET_LOG_TTL_S) ts"

definition times_of :: "(string, rat list) dict \<Rightarrow> string \<Rightarrow> rat list" where
  "times_of hist bus = (case dget hist bus of None \<Rightarrow> [] | Some ts \<Rightarrow> ts)"

definition prune_log :: "rat \<Rightarrow> (string, rat list) dict \<Rightarrow> (string, rat list) dict" where
  "prune_log now hist = filter (\<lambda>p. snd p \<noteq> []) (map (\<lambda>p. (fst p, fresh_times now (snd p))) hist)"

definition note_reset :: "string \<Rightarrow> rat \<Rightarrow> (string, rat list) dict \<Rightarrow> (string, rat list) dict" where
  "note_reset bus now hist =
     prune_log now (dset bus (last_n RESET_LOG_MAX (fresh_times now (times_of hist bus) @ [now])) hist)"

text \<open>A file that does not parse makes the update fail, which is only logged.\<close>

definition record_port_reset :: "string \<Rightarrow> rat \<Rightarrow> disk \<Rightarrow> disk" where
  "record_port_reset bus now d =
     (if bus = [] then d
      else case reset_log_file d of
        EmptyFile \<Rightarrow> d
      | Garbled \<Rightarrow> d
      | f \<Rightarrow> write_atomic put_resets (note_reset bus now (read_or [] f)) d)"

definition load_reset_log :: "disk \<Rightarrow> (string, rat list) dict" where
  "load_reset_log d = read_or [] (reset_log_file d)"

definition agent_reset_recently :: "string \<Rightarrow> rat \<Rightarrow> rat \<Rightarrow> disk \<Rightarrow> bool" where
  "agent_reset_recently bus back_s now d =
     (bus \<noteq> [] \<and> list_ex (\<lambda>t. 0 \<le> now - t \<and> now - t \<le> back_s) (times_of (load_reset_log d) bus))"

section \<open>The agent recognises its own resets\<close>

lemma set_last_n: "xs \<noteq> [] \<Longrightarrow> 0 < n \<Longrightarrow> last xs \<in> set (last_n n xs)"
  by (simp add: last_n_def) (metis One_nat_def Suc_le_eq diff_less last_drop last_in_set length_greater_0_conv length_drop
      zero_less_diff)

lemma dget_prune:
  "wfd hist \<Longrightarrow> times_of (prune_log now hist) bus = fresh_times now (times_of hist bus)"
  by (induction hist) (fastforce simp: prune_log_def times_of_def fresh_times_def image_iff split: option.splits)+

lemma note_reset_fresh:
  assumes "wfd hist"
  shows "now \<in> set (times_of (note_reset bus now hist) bus)"
    and "other \<noteq> bus \<Longrightarrow> times_of (note_reset bus now hist) other = fresh_times now (times_of hist other)"
proof -
  let ?ts = "last_n RESET_LOG_MAX (fresh_times now (times_of hist bus) @ [now])"
  have "now \<in> set ?ts" using set_last_n [of "fresh_times now (times_of hist bus) @ [now]" RESET_LOG_MAX]
    by (simp add: RESET_LOG_MAX_def)
  then show "now \<in> set (times_of (note_reset bus now hist) bus)"
    using assms by (simp add: note_reset_def dget_prune, simp add: times_of_def fresh_times_def RESET_LOG_TTL_S_def DIAG_KERNEL_WINDOW_S_def)
  show "other \<noteq> bus \<Longrightarrow> times_of (note_reset bus now hist) other = fresh_times now (times_of hist other)"
    using assms by (simp add: note_reset_def dget_prune, simp add: times_of_def)
qed

text \<open>
  A recorded reset is recognised: once the agent has noted that it re-enumerated a bus, the
  detectors attribute a detach to it for the whole attribution window, and what is recorded
  about one bus never makes a fault on another bus look self-inflicted.
\<close>

theorem own_reset_recognised:
  assumes "faults d = []" "reset_log_file d \<notin> {EmptyFile, Garbled}" "wfd (load_reset_log d)" "bus \<noteq> []"
    and "now \<le> t" "t \<le> now + back_s"
  shows "agent_reset_recently bus back_s t (record_port_reset bus now d)
    \<and> (if agent_reset_recently other back_s t (record_port_reset bus now d)
       then other = bus \<or> agent_reset_recently other back_s t d else True)"
proof -
  have l: "load_reset_log (record_port_reset bus now d) = note_reset bus now (load_reset_log d)"
    using assms(1,2,4) resetf.atomic_ok [OF assms(1)]
    by (auto simp: load_reset_log_def record_port_reset_def split: stored.splits)
  have "agent_reset_recently bus back_s t (record_port_reset bus now d)"
    using note_reset_fresh(1) [OF assms(3), of now bus] assms(4-6)
    by (auto simp: agent_reset_recently_def l list_ex_iff algebra_simps intro!: bexI [of _ now])
  moreover have "agent_reset_recently other back_s t d"
    if "agent_reset_recently other back_s t (record_port_reset bus now d)" "other \<noteq> bus"
    using that note_reset_fresh(2) [OF assms(3) that(2), of now]
    by (auto simp: agent_reset_recently_def l list_ex_iff fresh_times_def)
  ultimately show ?thesis by auto
qed

theorem own_reset_recognised_witness:
  "agent_reset_recently ''1-1'' 135 1100 (record_port_reset ''1-1'' 1000 empty_disk)"
  using own_reset_recognised [of empty_disk "''1-1''" 1000 1100 135 "''1-2''"]
  by (simp add: empty_disk_def load_reset_log_def)

end
