(* ===== verification/Sweeps.thy ===== *)
theory Sweeps
  imports PostProv Resets
begin

text \<open>
  The corrective sweeps of a provisioning pass (\<open>agent/src/usb_provision.py\<close>): VMs outside the
  host's block, dongles that moved to another bus, dongles that went missing, dongles that
  dropped their passthrough, and the audit for gaps in the VMIDs. All work on the state the pass
  holds in memory, and append the VMs they tore down to a list.
\<close>

section \<open>VMs outside the block\<close>

definition out_of_range :: "int \<Rightarrow> int \<Rightarrow> (string, string) dict \<Rightarrow> (int \<times> string) list result" where
  "out_of_range start_vid end_vid v2b =
     rbind (map_result (\<lambda>(v, b). rbind (py_int (PStr v)) (\<lambda>i. Inr (i, b))) v2b)
       (\<lambda>xs. Inr (filter (\<lambda>(i, b). \<not> (start_vid \<le> i \<and> i \<le> end_vid)) xs))"

definition forget_moved :: "int \<Rightarrow> string \<Rightarrow> usb_state \<Rightarrow> usb_state" where
  "forget_moved vid bus st =
     st\<lparr>vmid_to_bus := dpop (str_int vid) (vmid_to_bus st), bus_to_vmid := dpop bus (bus_to_vmid st),
        vmid_to_image := dpop (str_int vid) (vmid_to_image st), missing_since := dpop bus (missing_since st)\<rparr>"

definition evict_one ::
    "'h machine \<Rightarrow> (string, pyval) dict option \<Rightarrow> int \<times> string \<Rightarrow> int list \<Rightarrow> ('h, int list) op" where
  "evict_one m cfg p torn =
     (case p of (vid, bus) \<Rightarrow>
        bnd (destroy_quietly m cfg None (Some bus) vid) (\<lambda>_.
        bnd (on_pass (forget_moved vid bus)) (\<lambda>_.
        ret (torn @ [vid]))))"

definition evict_out_of_range ::
    "'h machine \<Rightarrow> (string, pyval) dict option \<Rightarrow> int \<Rightarrow> int \<Rightarrow> int list \<Rightarrow> ('h, int list) op" where
  "evict_out_of_range m cfg start_vid end_vid torn =
     bnd (of_pass vmid_to_bus) (\<lambda>v2b.
     bnd (lift (out_of_range start_vid end_vid v2b)) (\<lambda>strays.
     if strays = [] then ret torn
     else bnd (iter (evict_one m cfg) strays torn) (\<lambda>torn'. bnd save_pass (\<lambda>_. ret torn'))))"

section \<open>Dongles that moved\<close>

text \<open>The first present bus, other than the old one, with the \<open>vid:pid\<close>.\<close>

definition moved_to :: "(string, dongle) dict \<Rightarrow> string \<Rightarrow> string \<Rightarrow> string option" where
  "moved_to present old vidpid =
     (case filter (\<lambda>p. dg_vidpid (snd p) = vidpid \<and> fst p \<noteq> old) present of [] \<Rightarrow> None | p # _ \<Rightarrow> Some (fst p))"

definition move_st :: "string \<Rightarrow> string \<Rightarrow> string \<Rightarrow> string \<Rightarrow> usb_state \<Rightarrow> usb_state" where
  "move_st old new vmid vidpid st =
     st\<lparr>bus_to_vmid := dset new vmid (dpop old (bus_to_vmid st)),
        vmid_to_bus := dset vmid new (vmid_to_bus st),
        missing_since := dpop new (dpop old (missing_since st)),
        vidpid_by_bus := dset new vidpid (dpop old (vidpid_by_bus st))\<rparr>"

definition migrate_one :: "(string, dongle) dict \<Rightarrow> string \<times> string \<Rightarrow> usb_state \<Rightarrow> usb_state" where
  "migrate_one present e st =
     (case e of (old, vmid) \<Rightarrow>
        if dhas present old then st
        else case dget (vidpid_by_bus st) old of
          None \<Rightarrow> st
        | Some vidpid \<Rightarrow>
            if vidpid = [] then st
            else case moved_to present old vidpid of
              None \<Rightarrow> st
            | Some new \<Rightarrow>
                (case dget (bus_to_vmid st) new of
                   Some other \<Rightarrow> if new = [] \<or> other \<noteq> [] \<and> other \<noteq> vmid then st else move_st old new vmid vidpid st
                 | None \<Rightarrow> if new = [] then st else move_st old new vmid vidpid st))"

definition migrate_buses :: "(string, dongle) dict \<Rightarrow> usb_state \<Rightarrow> usb_state" where
  "migrate_buses present st = fold (migrate_one present) (bus_to_vmid st) st"

section \<open>Dongles that went missing\<close>

definition forget_missing :: "string \<Rightarrow> string \<Rightarrow> usb_state \<Rightarrow> usb_state" where
  "forget_missing bus vmid st =
     st\<lparr>bus_to_vmid := dpop bus (bus_to_vmid st), vmid_to_bus := dpop vmid (vmid_to_bus st),
        missing_since := dpop bus (missing_since st)\<rparr>"

text \<open>The conversion of the VMID is inside the \<open>try\<close>; a VM counts as torn down if nothing was raised.\<close>

definition tear_down_logged ::
    "'h machine \<Rightarrow> (string, pyval) dict option \<Rightarrow> string \<Rightarrow> string \<Rightarrow> int list \<Rightarrow> ('h, int list) op" where
  "tear_down_logged m cfg bus vmid torn =
     except_any
       (bnd (lift (py_int (PStr vmid))) (\<lambda>vid.
        bnd (destroy_vm m cfg (Some bus) None False (PInt vid)) (\<lambda>_. ret (torn @ [vid]))))
       (\<lambda>e. ret torn)"

definition missing_one ::
    "'h machine \<Rightarrow> (string, pyval) dict option \<Rightarrow> (string, dongle) dict \<Rightarrow> rat \<Rightarrow> rat \<Rightarrow> string \<times> string
     \<Rightarrow> int list \<Rightarrow> ('h, int list) op" where
  "missing_one m cfg present timeout now e torn =
     (case e of (bus, vmid) \<Rightarrow>
        if dhas present bus
        then bnd (on_pass (\<lambda>st. st\<lparr>missing_since := dpop bus (missing_since st)\<rparr>)) (\<lambda>_. ret torn)
        else
          bnd (of_pass (\<lambda>st. dget (missing_since st) bus)) (\<lambda>since.
          case since of
            None \<Rightarrow> bnd (on_pass (\<lambda>st. st\<lparr>missing_since := dset bus now (missing_since st)\<rparr>)) (\<lambda>_. ret torn)
          | Some t \<Rightarrow>
              if timeout \<le> now - t
              then bnd (tear_down_logged m cfg bus vmid torn) (\<lambda>torn'.
                   bnd (on_pass (forget_missing bus vmid)) (\<lambda>_. ret torn'))
              else ret torn))"

definition tear_down_missing ::
    "'h machine \<Rightarrow> (string, pyval) dict option \<Rightarrow> (string, dongle) dict \<Rightarrow> rat \<Rightarrow> rat \<Rightarrow> int list
     \<Rightarrow> ('h, int list) op" where
  "tear_down_missing m cfg present timeout now torn =
     (if timeout \<le> 0 then ret torn
      else bnd (of_pass bus_to_vmid) (\<lambda>b2v. iter (missing_one m cfg present timeout now) b2v torn))"

section \<open>Dongles that dropped their passthrough\<close>

definition DETACHED_GRACE_S :: rat where "DETACHED_GRACE_S = 120"
definition DETACH_RECLONE_MAX :: int where "DETACH_RECLONE_MAX = 3"
definition DETACH_STRIKE_WINDOW_S :: rat where "DETACH_STRIKE_WINDOW_S = 3600"
definition REBOOT_BEFORE_RECLONE_S :: rat where "REBOOT_BEFORE_RECLONE_S = 900"

text \<open>What the pass remembers of one bus, and what it does next about a detached one.\<close>

record detach_memory =
  dm_since :: "rat option"
  dm_restarted :: "rat option"
  dm_strikes :: "detach_entry option"

datatype detach_step = Arm | Hold | OwnReset | RestartVm | Settle | RecloneVm detach_entry | QuarantineBus

definition live_strikes :: "rat \<Rightarrow> detach_entry option \<Rightarrow> detach_entry option" where
  "live_strikes now e =
     (case e of None \<Rightarrow> None | Some d \<Rightarrow> if DETACH_STRIKE_WINDOW_S < now - dt_first d then None else Some d)"

definition detach_verdict :: "rat \<Rightarrow> bool \<Rightarrow> detach_memory \<Rightarrow> detach_step" where
  "detach_verdict now own mem =
     (case dm_since mem of
        None \<Rightarrow> Arm
      | Some t \<Rightarrow>
          if now - t < DETACHED_GRACE_S then Hold
          else if own then OwnReset
          else (case dm_restarted mem of
            None \<Rightarrow> RestartVm
          | Some r \<Rightarrow>
              if now - r < REBOOT_BEFORE_RECLONE_S then Settle
              else (case live_strikes now (dm_strikes mem) of
                None \<Rightarrow> RecloneVm \<lparr>dt_n = 1, dt_first = now, dt_last = now\<rparr>
              | Some d \<Rightarrow>
                  if DETACH_RECLONE_MAX \<le> dt_n d then QuarantineBus
                  else RecloneVm \<lparr>dt_n = dt_n d + 1, dt_first = dt_first d, dt_last = now\<rparr>)))"

definition detach_next :: "rat \<Rightarrow> detach_step \<Rightarrow> detach_memory \<Rightarrow> detach_memory" where
  "detach_next now s mem =
     (case s of
        Arm \<Rightarrow> mem\<lparr>dm_since := Some now\<rparr>
      | Hold \<Rightarrow> mem
      | OwnReset \<Rightarrow> mem\<lparr>dm_since := None\<rparr>
      | RestartVm \<Rightarrow> mem\<lparr>dm_since := None, dm_restarted := Some now\<rparr>
      | Settle \<Rightarrow> mem
      | RecloneVm d \<Rightarrow> \<lparr>dm_since = None, dm_restarted = None, dm_strikes = Some d\<rparr>
      | QuarantineBus \<Rightarrow> \<lparr>dm_since = None, dm_restarted = None, dm_strikes = None\<rparr>)"

text \<open>A bus seen attached (or absent) is disarmed; its strikes outlive that by the window.\<close>

definition attached_next :: "rat \<Rightarrow> detach_memory \<Rightarrow> detach_memory" where
  "attached_next now mem =
     \<lparr>dm_since = None, dm_restarted = None,
      dm_strikes = (case dm_strikes mem of
        None \<Rightarrow> None | Some d \<Rightarrow> if DETACH_STRIKE_WINDOW_S < now - dt_last d then None else Some d)\<rparr>"

text \<open>The memory of a bus in the state document.\<close>

definition or_empty_dict :: "('k, 'v) dict option \<Rightarrow> ('k, 'v) dict" where
  "or_empty_dict d = (case d of None \<Rightarrow> [] | Some x \<Rightarrow> x)"

definition memory_of :: "string \<Rightarrow> usb_state \<Rightarrow> detach_memory" where
  "memory_of bus st =
     \<lparr>dm_since = dget (or_empty_dict (detached_since st)) bus,
      dm_restarted = dget (or_empty_dict (detach_restarted st)) bus,
      dm_strikes = dget (or_empty_dict (detach_reclones st)) bus\<rparr>"

definition put_opt :: "'k \<Rightarrow> 'v option \<Rightarrow> ('k, 'v) dict \<Rightarrow> ('k, 'v) dict" where
  "put_opt k v d = (case v of None \<Rightarrow> dpop k d | Some x \<Rightarrow> dset k x d)"

definition remember :: "string \<Rightarrow> detach_memory \<Rightarrow> usb_state \<Rightarrow> usb_state" where
  "remember bus mem st =
     st\<lparr>detached_since := Some (put_opt bus (dm_since mem) (or_empty_dict (detached_since st))),
        detach_restarted := Some (put_opt bus (dm_restarted mem) (or_empty_dict (detach_restarted st))),
        detach_reclones := Some (put_opt bus (dm_strikes mem) (or_empty_dict (detach_reclones st)))\<rparr>"

definition vm_running :: "'h machine \<Rightarrow> string \<Rightarrow> ('h, bool) op" where
  "vm_running m vmid =
     except_any (bnd (lift (py_int (PStr vmid))) (\<lambda>vid. bnd (vm_status m vid) (\<lambda>s. ret (vs_running s))))
       (\<lambda>e. ret False)"

definition cold_restart :: "'h machine \<Rightarrow> string \<Rightarrow> ('h, unit) op" where
  "cold_restart m vmid =
     except_any
       (bnd (lift (py_int (PStr vmid))) (\<lambda>vid.
        bnd (qm_stop_force m (PInt vid) None) (\<lambda>_.
        bnd (pause m 2) (\<lambda>_.
        qm_start m (PInt vid) None))))
       (\<lambda>e. ret ())"

definition chronic_detach :: string where
  "chronic_detach = ''chronic detach '' @ em_dash @ '' passthrough keeps dropping''"

text \<open>Carrying out a verdict.\<close>

definition detach_effect ::
    "'h machine \<Rightarrow> (string, pyval) dict option \<Rightarrow> string \<Rightarrow> string \<Rightarrow> detach_step \<Rightarrow> int list
     \<Rightarrow> ('h, int list) op" where
  "detach_effect m cfg bus vmid s torn =
     (case s of
        RestartVm \<Rightarrow> bnd (cold_restart m vmid) (\<lambda>_. ret torn)
      | RecloneVm d \<Rightarrow>
          bnd (tear_down_logged m cfg bus vmid torn) (\<lambda>torn'.
          bnd (on_pass (forget_missing bus vmid)) (\<lambda>_. ret torn'))
      | QuarantineBus \<Rightarrow>
          bnd (now_s m) (\<lambda>t.
          bnd (on_disk (quarantine_bus bus chronic_detach t)) (\<lambda>_.
          bnd (tear_down_logged m cfg bus vmid torn) (\<lambda>torn'.
          bnd (on_pass (forget_missing bus vmid)) (\<lambda>_. ret torn'))))
      | _ \<Rightarrow> ret torn)"

definition detached_running ::
    "'h machine \<Rightarrow> (string, pyval) dict option \<Rightarrow> rat \<Rightarrow> string \<Rightarrow> string \<Rightarrow> int list \<Rightarrow> ('h, int list) op" where
  "detached_running m cfg now bus vmid torn =
     bnd (peek (\<lambda>w. agent_reset_recently bus (DETACHED_GRACE_S + RESET_ATTRIBUTION_S) now (store w))) (\<lambda>own.
     bnd (of_pass (memory_of bus)) (\<lambda>mem.
     let s = detach_verdict now own mem in
     bnd (on_pass (remember bus (detach_next now s mem))) (\<lambda>_.
     detach_effect m cfg bus vmid s torn)))"

definition detach_one ::
    "'h machine \<Rightarrow> (string, pyval) dict option \<Rightarrow> (string, dongle) dict \<Rightarrow> rat \<Rightarrow> string \<times> string
     \<Rightarrow> int list \<Rightarrow> ('h, int list) op" where
  "detach_one m cfg present now e torn =
     (case e of (bus, vmid) \<Rightarrow>
        bnd (if dhas present bus then bus_attached m bus else ret True) (\<lambda>held.
        if held
        then bnd (on_pass (\<lambda>st. remember bus (attached_next now (memory_of bus st)) st)) (\<lambda>_. ret torn)
        else
          bnd (vm_running m vmid) (\<lambda>up.
          if \<not> up
          then bnd (on_pass (\<lambda>st. remember bus ((memory_of bus st)\<lparr>dm_since := None\<rparr>) st)) (\<lambda>_. ret torn)
          else detached_running m cfg now bus vmid torn)))"

definition with_detach_maps :: "usb_state \<Rightarrow> usb_state" where
  "with_detach_maps st =
     st\<lparr>detached_since := Some (or_empty_dict (detached_since st)),
        detach_reclones := Some (or_empty_dict (detach_reclones st)),
        detach_restarted := Some (or_empty_dict (detach_restarted st))\<rparr>"

definition reclone_detached ::
    "'h machine \<Rightarrow> (string, pyval) dict option \<Rightarrow> (string, dongle) dict \<Rightarrow> rat \<Rightarrow> rat \<Rightarrow> int list
     \<Rightarrow> ('h, int list) op" where
  "reclone_detached m cfg present timeout now torn =
     (if timeout \<le> 0 then ret torn
      else bnd (of_pass bus_to_vmid) (\<lambda>b2v.
           bnd (on_pass with_detach_maps) (\<lambda>_.
           bnd (iter (detach_one m cfg present now) b2v torn) (\<lambda>torn'.
           bnd save_pass (\<lambda>_. ret torn')))))"

section \<open>Gaps in the VMIDs\<close>

definition VMID_AUDIT_INTERVAL_S :: rat where "VMID_AUDIT_INTERVAL_S = 300"

text \<open>The tracked VMs of the block; none if some key is no number.\<close>

definition tracked_in_block :: "int \<Rightarrow> int \<Rightarrow> usb_state \<Rightarrow> int list result" where
  "tracked_in_block start_vid end_vid st =
     rbind (map_result (\<lambda>v. py_int (PStr v)) (dkeys (vmid_to_bus st)))
       (\<lambda>is. Inr (sort (filter (\<lambda>i. start_vid \<le> i \<and> i \<le> end_vid) is)))"

text \<open>A number on the host with a device passed through is not free, tracked or not.\<close>

definition occupied :: "'h machine \<Rightarrow> int set \<Rightarrow> int \<Rightarrow> ('h, bool) op" where
  "occupied m existing chk =
     (if chk \<notin> existing then ret False
      else bnd (vm_has_usb_passthrough m chk) (\<lambda>usb. if usb then ret True else vm_has_pci_passthrough m chk))"

fun lowest_gap :: "'h machine \<Rightarrow> int set \<Rightarrow> int set \<Rightarrow> int list \<Rightarrow> ('h, int option) op" where
  "lowest_gap m act existing [] = ret None"
| "lowest_gap m act existing (chk # cs) =
     (if chk \<in> act then lowest_gap m act existing cs
      else bnd (occupied m existing chk) (\<lambda>occ. if occ then lowest_gap m act existing cs else ret (Some chk)))"

text \<open>The VM to give up: the highest, if there is a gap below it. It needs two settled VMs.\<close>

definition gap_target ::
    "'h machine \<Rightarrow> int \<Rightarrow> int set \<Rightarrow> int list \<Rightarrow> ('h, int option) op" where
  "gap_target m start_vid existing act =
     (if length act < 2 then ret None
      else bnd (lowest_gap m (set act) existing [start_vid .. last act - 1]) (\<lambda>gap.
           ret (case gap of
                  None \<Rightarrow> None
                | Some g \<Rightarrow> (case filter (\<lambda>v. g < v) act of [] \<Rightarrow> None | vs \<Rightarrow> Some (Max (set vs))))))"

definition shed_for_gap ::
    "'h machine \<Rightarrow> (string, pyval) dict option \<Rightarrow> int \<Rightarrow> ('h, unit) op" where
  "shed_for_gap m cfg target =
     bnd (of_pass (\<lambda>st. dget (vmid_to_bus st) (str_int target))) (\<lambda>bus.
     if \<not> str_set bus then ret ()
     else except_any
       (bnd (destroy_vm m cfg bus None False (PInt target)) (\<lambda>_. on_pass (forget_moved target (the bus))))
       (\<lambda>e. ret ()))"

definition vmid_gap_audit ::
    "'h machine \<Rightarrow> (string, pyval) dict option \<Rightarrow> int \<Rightarrow> int \<Rightarrow> rat \<Rightarrow> int set \<Rightarrow> (string, dongle) dict
     \<Rightarrow> ('h, unit) op" where
  "vmid_gap_audit m cfg start_vid end_vid now existing present =
     bnd (peek (\<lambda>w. load_vmid_gap_last_run (store w))) (\<lambda>last_run.
     bnd (lift last_run) (\<lambda>t.
     if now - t < VMID_AUDIT_INTERVAL_S then ret ()
     else
       bnd (on_disk (save_vmid_gap_last_run now)) (\<lambda>_.
       bnd (of_pass (\<lambda>st. list_ex (\<lambda>p. \<not> dhas (bus_to_vmid st) (fst p)) present)) (\<lambda>unassigned.
       if unassigned then ret ()
       else
         bnd (of_pass (tracked_in_block start_vid end_vid)) (\<lambda>r.
         case r of
           Inl e \<Rightarrow> if e = ValueError then ret () else throw e
         | Inr assigned \<Rightarrow>
             bnd provisioning_vmids (\<lambda>busy.
             bnd (gap_target m start_vid existing (filter (\<lambda>v. v \<notin> busy) assigned)) (\<lambda>target.
             case target of None \<Rightarrow> ret () | Some v \<Rightarrow> shed_for_gap m cfg v)))))))"

section \<open>The ladder as a state machine\<close>

text \<open>
  What a pass sees of a bus, and the step of the ladder it takes. A run is any sequence of
  passes at non-decreasing times, with the actions taken on the way.
\<close>

datatype sight = Attached | Stopped | Detached bool

fun ladder_step :: "rat \<Rightarrow> sight \<Rightarrow> detach_memory \<Rightarrow> detach_memory" where
  "ladder_step now Attached mem = attached_next now mem"
| "ladder_step now Stopped mem = mem\<lparr>dm_since := None\<rparr>"
| "ladder_step now (Detached own) mem = detach_next now (detach_verdict now own mem) mem"

fun ladder_act :: "rat \<Rightarrow> sight \<Rightarrow> detach_memory \<Rightarrow> (rat \<times> detach_step) list" where
  "ladder_act now (Detached own) mem = [(now, detach_verdict now own mem)]"
| "ladder_act now s mem = []"

inductive detach_run :: "rat \<Rightarrow> detach_memory \<Rightarrow> (rat \<times> detach_step) list \<Rightarrow> bool" where
  start: "detach_run now \<lparr>dm_since = None, dm_restarted = None, dm_strikes = None\<rparr> []"
| tick: "detach_run now mem acts \<Longrightarrow> now \<le> later
         \<Longrightarrow> detach_run later (ladder_step later s mem) (acts @ ladder_act later s mem)"

text \<open>
  A monitor of the actions. It remembers the last restart since a VM was last taken away and
  when that was; it fails when a VM is taken away without a restart at least fifteen minutes
  before, when a VM is restarted within two minutes of the last one being taken away, or when a
  reclone is counted beyond the third.
\<close>

type_synonym monitor = "(rat option \<times> rat option) option"

definition restart_in_time :: "rat option \<Rightarrow> rat \<Rightarrow> bool" where
  "restart_in_time r t = (case r of None \<Rightarrow> False | Some r0 \<Rightarrow> REBOOT_BEFORE_RECLONE_S \<le> t - r0)"

definition grace_after :: "rat option \<Rightarrow> rat \<Rightarrow> bool" where
  "grace_after d t = (case d of None \<Rightarrow> True | Some d0 \<Rightarrow> DETACHED_GRACE_S \<le> t - d0)"

fun watch_act :: "rat \<times> detach_step \<Rightarrow> monitor \<Rightarrow> monitor" where
  "watch_act e None = None"
| "watch_act (t, RestartVm) (Some (r, d)) = (if grace_after d t then Some (Some t, d) else None)"
| "watch_act (t, RecloneVm e) (Some (r, d)) =
     (if restart_in_time r t \<and> 1 \<le> dt_n e \<and> dt_n e \<le> DETACH_RECLONE_MAX then Some (None, Some t) else None)"
| "watch_act (t, QuarantineBus) (Some (r, d)) = (if restart_in_time r t then Some (None, Some t) else None)"
| "watch_act (t, s) (Some (r, d)) = Some (r, d)"

definition ladder_inv :: "rat \<Rightarrow> detach_memory \<Rightarrow> monitor \<Rightarrow> bool" where
  "ladder_inv now mem mon \<longleftrightarrow> (\<exists>r d. mon = Some (r, d)
     \<and> (\<forall>t. dm_restarted mem = Some t \<longrightarrow> r = Some t)
     \<and> (\<forall>t d0. dm_since mem = Some t \<longrightarrow> d = Some d0 \<longrightarrow> d0 \<le> t)
     \<and> (\<forall>d0. d = Some d0 \<longrightarrow> d0 \<le> now)
     \<and> (\<forall>e. dm_strikes mem = Some e \<longrightarrow> 1 \<le> dt_n e \<and> dt_n e \<le> DETACH_RECLONE_MAX))"

lemma ladder_inv_tick:
  assumes "ladder_inv now mem mon" "now \<le> later"
  shows "ladder_inv later (ladder_step later s mem) (fold watch_act (ladder_act later s mem) mon)"
proof -
  obtain r d where mon: "mon = Some (r, d)" using assms(1) by (auto simp: ladder_inv_def)
  show ?thesis
  proof (cases s)
    case Attached
    then show ?thesis using assms
      by (auto simp: ladder_inv_def attached_next_def split: option.splits)
  next
    case Stopped
    then show ?thesis using assms by (auto simp: ladder_inv_def)
  next
    case (Detached own)
    then show ?thesis using assms
      by (fastforce simp: ladder_inv_def detach_verdict_def detach_next_def live_strikes_def restart_in_time_def grace_after_def
          DETACH_RECLONE_MAX_def DETACHED_GRACE_S_def not_less split: option.splits if_splits)
  qed
qed

text \<open>
  C32: the ladder restarts before it rebuilds, in every run: a VM is taken off a flapping dongle (to
  be cloned again, or with the dongle quarantined) only if it was restarted at least fifteen
  minutes before and none was taken away in between, no VM is restarted within two minutes of
  the previous one being taken away, and no episode counts more than three reclones.
\<close>

theorem detach_restarts_first:
  assumes "detach_run now mem acts"
  shows "fold watch_act acts (Some (None, None)) \<noteq> None"
proof -
  from assms have "ladder_inv now mem (fold watch_act acts (Some (None, None)))"
  proof (induction rule: detach_run.induct)
    case (start now)
    then show ?case by (simp add: ladder_inv_def)
  next
    case (tick now mem acts later s)
    then show ?case using ladder_inv_tick by simp
  qed
  then show ?thesis by (auto simp: ladder_inv_def)
qed

text \<open>A dongle that stays detached: armed, restarted, armed again, and then rebuilt.\<close>

theorem detach_restarts_first_witness:
  "\<exists>mem acts. detach_run 1200 mem acts
     \<and> map snd acts = [Arm, RestartVm, Arm, RecloneVm \<lparr>dt_n = 1, dt_first = 1200, dt_last = 1200\<rparr>]
     \<and> fold watch_act acts (Some (None, None)) \<noteq> None
     \<and> fold watch_act (tl acts @ tl acts) (Some (None, None)) = None"
proof -
  let ?tick = "\<lambda>t mem. ladder_step t (Detached False) mem"
  let ?m0 = "\<lparr>dm_since = None, dm_restarted = None, dm_strikes = None\<rparr>"
  let ?m4 = "?tick 1200 (?tick 200 (?tick 120 (?tick 0 ?m0)))"
  let ?acts = "[(0, Arm), (120, RestartVm), (200, Arm), (1200, RecloneVm \<lparr>dt_n = 1, dt_first = 1200, dt_last = 1200\<rparr>)]"
  note defs = detach_verdict_def detach_next_def live_strikes_def DETACHED_GRACE_S_def REBOOT_BEFORE_RECLONE_S_def
  have r1: "detach_run 0 (?tick 0 ?m0) [(0, Arm)]"
    using detach_run.tick [OF detach_run.start [of 0], of 0 "Detached False"] by (simp add: defs)
  have r2: "detach_run 120 (?tick 120 (?tick 0 ?m0)) [(0, Arm), (120, RestartVm)]"
    using detach_run.tick [OF r1, of 120 "Detached False"] by (simp add: defs)
  have r3: "detach_run 200 (?tick 200 (?tick 120 (?tick 0 ?m0))) [(0, Arm), (120, RestartVm), (200, Arm)]"
    using detach_run.tick [OF r2, of 200 "Detached False"] by (simp add: defs)
  have r4: "detach_run 1200 ?m4 ?acts"
    using detach_run.tick [OF r3, of 1200 "Detached False"] by (simp add: defs)
  have ok: "fold watch_act ?acts (Some (None, None)) \<noteq> None" by (rule detach_restarts_first [OF r4])
  have "fold watch_act (tl ?acts @ tl ?acts) (Some (None, None)) = None"
    by (simp add: restart_in_time_def grace_after_def DETACH_RECLONE_MAX_def REBOOT_BEFORE_RECLONE_S_def DETACHED_GRACE_S_def)
  with ok r4 show ?thesis by force
qed

section \<open>The sweep takes the steps of the ladder\<close>

lemma memory_remember [simp]:
  "memory_of bus (remember bus mem st) = mem"
  "other \<noteq> bus \<Longrightarrow> memory_of other (remember bus mem st) = memory_of other st"
  by (cases mem; auto simp: memory_of_def remember_def put_opt_def or_empty_dict_def split: option.splits)+

lemma memory_forget [simp]: "memory_of bus (forget_missing b v st) = memory_of bus st"
  by (simp add: memory_of_def forget_missing_def)

context inside_view
begin

lemma keeps_detach_probes [keeps_intro]:
  "keeps f (bus_attached m bus)" "keeps f (vm_running m vmid)" "keeps f (cold_restart m vmid)"
proof -
  have "keeps f (any_usbfs m cs)" for cs by (induction cs) (auto intro!: keeps_intro)
  then show "keeps f (bus_attached m bus)" by (auto simp: bus_attached_def intro!: keeps_intro)
qed (auto simp: vm_running_def cold_restart_def intro!: keeps_intro)

end

context rest_view
begin

lemma keeps_tear_down [keeps_intro]: "keeps f (tear_down_logged m cfg bus vmid torn)"
  by (auto simp: tear_down_logged_def intro!: keeps_intro)

end

text \<open>The steps that take the VM off the bus.\<close>

definition takes_vm :: "(rat \<times> detach_step) list \<Rightarrow> bool" where
  "takes_vm acts = list_ex (\<lambda>(t, s). case s of RecloneVm e \<Rightarrow> True | QuarantineBus \<Rightarrow> True | _ \<Rightarrow> False) acts"

lemma detach_effect_state:
  assumes "detach_effect m cfg bus vmid s torn w = (Inr torn', w')"
  shows "if takes_vm [(t, s)] then pass_state w' = forget_missing bus vmid (pass_state w)
         else pass_state w' = pass_state w \<and> torn' = torn"
  using assms
  by (cases s)
     (auto simp: detach_effect_def takes_vm_def elim!: bnd_InrD
        dest!: keepsD [OF pass_rest.keeps_tear_down] keepsD [OF mem_view.keeps_detach_probes(3)]
          keepsD [OF pass_rest.keeps_files(1)] keepsD [OF keeps_reads(1) [where f = pass_state]])

lemma bus_to_vmid_remember [simp]: "bus_to_vmid (remember bus mem st) = bus_to_vmid st"
    "bus_to_vmid (forget_missing bus v st) = dpop bus (bus_to_vmid st)"
  by (simp_all add: remember_def forget_missing_def)



section \<open>Following a dongle keeps the maps inverse\<close>

lemma moved_to_present: "moved_to present old vp = Some new \<Longrightarrow> dhas present new \<and> new \<noteq> old"
proof -
  assume "moved_to present old vp = Some new"
  then have "filter (\<lambda>p. dg_vidpid (snd p) = vp \<and> fst p \<noteq> old) present \<noteq> []"
    and new: "new = fst (hd (filter (\<lambda>p. dg_vidpid (snd p) = vp \<and> fst p \<noteq> old) present))"
    by (auto simp: moved_to_def split: list.splits)
  then have "hd (filter (\<lambda>p. dg_vidpid (snd p) = vp \<and> fst p \<noteq> old) present) \<in> set present"
    "fst (hd (filter (\<lambda>p. dg_vidpid (snd p) = vp \<and> fst p \<noteq> old) present)) \<noteq> old"
    using hd_in_set by fastforce+
  with new show ?thesis by (simp add: dhas_def map_of_eq_None_iff)
qed

text \<open>What one step of the migration needs, and keeps.\<close>

definition movable :: "usb_state \<Rightarrow> bool" where
  "movable st \<longleftrightarrow> paired st \<and> dget (vmid_to_bus st) [] = None"

lemma paired_move:
  assumes "paired st" "dget (bus_to_vmid st) old = Some vmid" "dget (bus_to_vmid st) new = None" "new \<noteq> []" "new \<noteq> old"
  shows "paired (move_st old new vmid vp st)"
proof (rule pairedI)
  note iff = paired_iff [OF assms(1)]
  show "wfd (vmid_to_bus (move_st old new vmid vp st))" "wfd (bus_to_vmid (move_st old new vmid vp st))"
    using paired_wfd [OF assms(1)] by (auto simp: move_st_def)
  show "dget (bus_to_vmid (move_st old new vmid vp st)) [] = None"
    using paired_no_empty [OF assms(1)] assms(4) by (simp add: move_st_def)
  fix v b
  show "(dget (vmid_to_bus (move_st old new vmid vp st)) v = Some b) = (dget (bus_to_vmid (move_st old new vmid vp st)) b = Some v)"
    using iff [of v b] iff [of vmid b] iff [of vmid old] iff [of v old] assms(2-5) by (auto simp: move_st_def)
qed

lemma migrate_one_keeps:
  assumes "movable st" "dhas present old \<or> dget (bus_to_vmid st) old = Some vmid"
  defines "st' \<equiv> migrate_one present (old, vmid) st"
  shows "movable st'" and "dom (dget (vmid_to_bus st')) = dom (dget (vmid_to_bus st))"
    and "\<And>b. b \<noteq> old \<Longrightarrow> \<not> dhas present b \<Longrightarrow> dget (bus_to_vmid st') b = dget (bus_to_vmid st) b"
    and "\<And>v b. dget (vmid_to_bus st) v = Some b \<Longrightarrow> dhas present b \<Longrightarrow> dget (vmid_to_bus st') v = Some b"
proof -
  have p: "paired st" and e: "dget (vmid_to_bus st) [] = None" using assms(1) by (auto simp: movable_def)
  note iff = paired_iff [OF p]
  have cases: "st' = st \<or> (\<exists>new vp. st' = move_st old new vmid vp st \<and> \<not> dhas present old \<and> dhas present new \<and> new \<noteq> old
      \<and> new \<noteq> [] \<and> dget (bus_to_vmid st) new = None)"
  proof (cases "st' = st")
    case False
    then obtain vp new where m: "\<not> dhas present old" "moved_to present old vp = Some new" "new \<noteq> []"
      "st' = move_st old new vmid vp st" "\<forall>other. dget (bus_to_vmid st) new = Some other \<longrightarrow> other = [] \<or> other = vmid"
      by (auto simp: st'_def migrate_one_def split: option.splits if_splits)
    moreover have "dhas present new" "new \<noteq> old" using moved_to_present [OF m(2)] by auto
    moreover have "dget (bus_to_vmid st) new = None"
      using m(1,5) \<open>new \<noteq> old\<close> assms(2) e iff [of vmid new] iff [of vmid old] iff [of "[]" new]
      by (cases "dget (bus_to_vmid st) new") auto
    ultimately show ?thesis by blast
  qed simp
  have at: "dget (vmid_to_bus st) vmid = Some old" if "\<not> dhas present old" using that assms(2) iff [of vmid old] by auto
  have "vmid \<noteq> []" if "\<not> dhas present old" using at [OF that] e by auto
  then show "movable st'" using cases p e assms(2) paired_move [OF p]
    by (auto simp: movable_def) (simp add: move_st_def)
  show "dom (dget (vmid_to_bus st')) = dom (dget (vmid_to_bus st))"
    using cases at by (auto simp: move_st_def split: if_splits)
  show "dget (bus_to_vmid st') b = dget (bus_to_vmid st) b" if "b \<noteq> old" "\<not> dhas present b" for b
    using cases that by (auto simp: move_st_def)
  show "dget (vmid_to_bus st') v = Some b" if "dget (vmid_to_bus st) v = Some b" "dhas present b" for v b
    using cases that at by (auto simp: move_st_def)
qed

lemma migrate_fold:
  assumes "movable st" "distinct (map fst es)"
    and "\<forall>(old, vmid) \<in> set es. dhas present old \<or> dget (bus_to_vmid st) old = Some vmid"
  shows "movable (fold (migrate_one present) es st)
    \<and> dom (dget (vmid_to_bus (fold (migrate_one present) es st))) = dom (dget (vmid_to_bus st))
    \<and> (\<forall>v b. dget (vmid_to_bus st) v = Some b \<longrightarrow> dhas present b
          \<longrightarrow> dget (vmid_to_bus (fold (migrate_one present) es st)) v = Some b)"
  using assms
proof (induction es arbitrary: st)
  case (Cons p es)
  obtain old vmid where p: "p = (old, vmid)" by force
  have h: "dhas present old \<or> dget (bus_to_vmid st) old = Some vmid" using Cons.prems(3) by (simp add: p)
  note one = migrate_one_keeps [OF Cons.prems(1) h]
  have rest: "\<forall>(o2, v2) \<in> set es. dhas present o2 \<or> dget (bus_to_vmid (migrate_one present (old, vmid) st)) o2 = Some v2"
  proof safe
    fix o2 v2 assume "(o2, v2) \<in> set es" "dget (bus_to_vmid (migrate_one present (old, vmid) st)) o2 \<noteq> Some v2"
    then show "dhas present o2" using one(3) [of o2] Cons.prems(2,3) by (force simp: p)
  qed
  from Cons.IH [OF one(1) _ rest] one(2,4) Cons.prems(2) show ?case by (simp add: p)
qed simp

text \<open>
  Following dongles to the buses they moved to keeps the two maps inverse to each other, tracks
  exactly the VMs that were tracked, and never touches a VM whose dongle is still in place.
\<close>

theorem migration_keeps_bijection:
  assumes "paired st" "dget (vmid_to_bus st) [] = None"
  shows "paired (migrate_buses present st)
    \<and> dom (dget (vmid_to_bus (migrate_buses present st))) = dom (dget (vmid_to_bus st))
    \<and> (\<forall>v b. dget (vmid_to_bus st) v = Some b \<longrightarrow> dhas present b
          \<longrightarrow> dget (vmid_to_bus (migrate_buses present st)) v = Some b)"
proof -
  have d: "wfd (bus_to_vmid st)" using paired_wfd [OF assms(1)] by simp
  have m: "\<forall>(old, vmid) \<in> set (bus_to_vmid st). dhas present old \<or> dget (bus_to_vmid st) old = Some vmid"
    by (safe, drule map_of_is_SomeI [OF d], simp)
  have "movable st" using assms by (simp add: movable_def)
  from migrate_fold [OF this d m] show ?thesis unfolding migrate_buses_def movable_def by blast
qed

theorem migration_keeps_bijection_witness:
  "let st = \<lparr>vmid_to_bus = [(''90001'', ''1-1'')], bus_to_vmid = [(''1-1'', ''90001'')], vmid_to_image = [],
        excluded_buses = [], quarantined = [], missing_since = [], vidpid_by_bus = [(''1-1'', ''0bda:c811'')],
        post_prov_retry = [], post_prov_reboot = [], guest_health = [], hostname_fix = [], detach_reclones = None,
        dongle_health = None, detached_since = None, detach_restarted = None\<rparr>;
       present = [(''1-4'', \<lparr>dg_vidpid = ''0bda:c811'', dg_product = [], dg_type = []\<rparr>)]
   in paired (migrate_buses present st) \<and> dget (vmid_to_bus (migrate_buses present st)) ''90001'' = Some ''1-4''"
  (is "let st = ?st; present = ?present in _")
proof -
  have "paired ?st" "dget (vmid_to_bus ?st) [] = None" by (simp_all add: paired_def)
  from migration_keeps_bijection [OF this, of ?present]
  have "paired (migrate_buses ?present ?st)" by blast
  then show ?thesis
    by (simp add: Let_def) (simp add: migrate_buses_def migrate_one_def dhas_def moved_to_def move_st_def)
qed

section \<open>What the gap audit gives up\<close>

definition hole :: "(int \<Rightarrow> (string, string) dict) \<Rightarrow> int set \<Rightarrow> int set \<Rightarrow> int \<Rightarrow> bool" where
  "hole conf existing act g \<longleftrightarrow> g \<notin> act \<and> \<not> (g \<in> existing \<and> (passes_usb (conf g) \<or> passes_pci (conf g)))"

lemma gives_occupied:
  assumes "steady m conf"
  shows "gives (occupied m existing g) (g \<in> existing \<and> (passes_usb (conf g) \<or> passes_pci (conf g)))"
  by (auto simp: occupied_def gives_ret
      intro!: gives_bnd [OF gives_probes(2) [OF assms]] gives_probes(3) [OF assms])

lemma gives_lowest_gap:
  assumes "steady m conf"
  shows "gives (lowest_gap m act existing cs) (find (hole conf existing act) cs)"
proof (induction cs)
  case (Cons g cs)
  then show ?case
    by (auto simp: hole_def intro!: gives_bnd [OF gives_occupied [OF assms]] gives_ret(1))
qed (simp add: gives_def)

lemma find_Some_ex: "(\<exists>x \<in> set xs. P x) \<Longrightarrow> \<exists>y. find P xs = Some y \<and> y \<in> set xs"
  by (induction xs) auto

text \<open>
  The audit gives up the highest settled VM of the block if and only if there are at least two
  and some number below it is a real hole: neither tracked nor held on the host by a VM with a
  device passed through. The search order does not matter to the choice.
\<close>

theorem gap_target_exact:
  assumes "steady m conf" "sorted act" "distinct act"
  shows "gives (gap_target m start_vid existing act)
    (if 2 \<le> length act \<and> list_ex (hole conf existing (set act)) [start_vid .. last act - 1]
     then Some (last act) else None)"
proof (cases "2 \<le> length act")
  case False
  then show ?thesis by (simp add: gap_target_def gives_ret)
next
  case True
  then have ne: "act \<noteq> []" by auto
  let ?cs = "[start_vid .. last act - 1]"
  let ?gap = "find (hole conf existing (set act)) ?cs"
  have top: "v \<le> last act" if "v \<in> set act" for v
    using that assms(2) ne by (metis in_set_conv_nth last_conv_nth less_Suc_eq_le Suc_diff_1 length_greater_0_conv
        sorted_nth_mono diff_less zero_less_one)
  have pick: "(case ?gap of None \<Rightarrow> None
         | Some g \<Rightarrow> (case filter (\<lambda>v. g < v) act of [] \<Rightarrow> None | vs \<Rightarrow> Some (Max (set vs))))
      = (if list_ex (hole conf existing (set act)) ?cs then Some (last act) else None)"
  proof (cases "list_ex (hole conf existing (set act)) ?cs")
    case True
    then obtain g where g: "?gap = Some g" "g \<in> set ?cs"
      using find_Some_ex [of ?cs "hole conf existing (set act)"] by (auto simp: list_ex_iff)
    then have l: "last act \<in> set (filter (\<lambda>v. g < v) act)" using ne by simp
    then have mx: "Max (set (filter (\<lambda>v. g < v) act)) = last act"
      using top by (intro Max_eqI) auto
    from l obtain x xs where f: "filter (\<lambda>v. g < v) act = x # xs"
      by (cases "filter (\<lambda>v. g < v) act") simp_all
    show ?thesis using True mx by (simp add: g(1) f)
  next
    case False
    then have "?gap = None" by (simp add: find_None_iff list_ex_iff)
    with False show ?thesis by simp
  qed
  have "gives (gap_target m start_vid existing act)
      (case ?gap of None \<Rightarrow> None
         | Some g \<Rightarrow> (case filter (\<lambda>v. g < v) act of [] \<Rightarrow> None | vs \<Rightarrow> Some (Max (set vs))))"
    using True by (auto simp: gap_target_def intro!: gives_bnd [OF gives_lowest_gap [OF assms(1)]] gives_ret)
  with True pick show ?thesis by simp
qed

theorem gap_target_exact_witness:
  "gives (gap_target ready_host 90001 {90001, 90003, 90004} [90001, 90004]) (Some 90004)"
proof -
  have "list_ex (hole (\<lambda>v. []) {90001, 90003, 90004} (set [90001, 90004])) [90001 .. 90003]"
    by (simp add: list_ex_iff hole_def passes_usb_def passes_pci_def)
  with gap_target_exact [OF ready_steady, of "[90001, 90004]" 90001 "{90001, 90003, 90004}"] show ?thesis by simp
qed

end
