(* ===== verification/Alloc.thy ===== *)
theory Alloc
  imports Sweeps "HOL-Library.Product_Lexorder"
begin

text \<open>
  Placing virtual machines on free dongles (the second half of \<open>run_provision_loop\<close> in
  \<open>agent/src/usb_provision.py\<close>): which dongles are usable and in which order, which VMID and which
  image a new VM gets, and the clone with its roll-back.
\<close>

section \<open>Choosing the dongles\<close>

definition hub_reserve_enabled :: "(string, pyval) dict \<Rightarrow> bool" where
  "hub_reserve_enabled usb_cfg =
     (case cfg_get usb_cfg ''usb_hub_reserve'' of
        PNone \<Rightarrow> True
      | PStr s \<Rightarrow> lower (strip s) \<notin> {''0'', ''false'', ''no'', ''off''}
      | v \<Rightarrow> truthy v)"

text \<open>Hub depth, the numbers of the path, the path. Both separators split.\<close>

definition bus_parts :: "string \<Rightarrow> string list" where
  "bus_parts bus = split_on (CHR ''.'') (map (\<lambda>c. if c = CHR ''-'' then CHR ''.'' else c) bus)"

definition part_number :: "string \<Rightarrow> int" where
  "part_number p = (if is_digits p then (case parse_int p of Some i \<Rightarrow> i | None \<Rightarrow> 0) else 0)"

definition bus_sort_key :: "string \<Rightarrow> nat \<times> int list \<times> string" where
  "bus_sort_key bus = (length (filter (\<lambda>c. c = CHR ''.'') bus), map part_number (bus_parts bus), bus)"

definition behind_hub :: "string \<Rightarrow> bool" where
  "behind_hub bus = (CHR ''.'' \<in> set bus)"

definition sim_phy_accepts :: "string \<Rightarrow> string \<Rightarrow> bool" where
  "sim_phy_accepts phy dtype =
     (if phy = ''any'' then True
      else if dtype \<in> {''other'', ''unknown'', []} then True
      else if phy = dtype then True
      else phy = ''ethernet'' \<and> dtype = ''wired'')"

text \<open>Why a dongle is set aside; the texts are what the reason shows.\<close>

datatype standing = Preferred | Overflow | InUse | Excluded | Sidelined string | WrongType string

definition dongle_standing ::
    "usb_state \<Rightarrow> (string, quarantine_entry) dict \<Rightarrow> string \<Rightarrow> bool \<Rightarrow> string \<times> dongle \<Rightarrow> standing" where
  "dongle_standing st quarantine phy use_all e =
     (case e of (bus, info) \<Rightarrow>
        if str_set (dget (bus_to_vmid st) bus) then InUse
        else if (case dget (excluded_buses st) bus of None \<Rightarrow> False | Some t \<Rightarrow> t \<noteq> 0) then Excluded
        else case dget quarantine bus of
          Some q \<Rightarrow>
            if q_permanent q \<or> QUARANTINE_MAX_FAILS \<le> q_fails q
            then Sidelined (bus @ ''('' @ str_int (q_fails q) @ (if q_permanent q then ''/P'' else []) @ '')'')
            else if sim_phy_accepts phy (dg_type info) then Preferred
            else if use_all \<and> phy \<in> {''wireless'', ''ethernet''} then Overflow
            else WrongType (bus @ '':'' @ dg_type info)
        | None \<Rightarrow>
            if sim_phy_accepts phy (dg_type info) then Preferred
            else if use_all \<and> phy \<in> {''wireless'', ''ethernet''} then Overflow
            else WrongType (bus @ '':'' @ dg_type info))"

definition buses_standing :: "(string \<times> dongle \<Rightarrow> standing) \<Rightarrow> standing \<Rightarrow> (string, dongle) dict \<Rightarrow> string list" where
  "buses_standing f s present = map fst (filter (\<lambda>e. f e = s) present)"

definition ordered_dongles :: "bool \<Rightarrow> (string \<times> dongle \<Rightarrow> standing) \<Rightarrow> (string, dongle) dict \<Rightarrow> string list" where
  "ordered_dongles reserve f present =
     (let ordered = sort_key bus_sort_key (buses_standing f Preferred present)
                    @ sort_key bus_sort_key (buses_standing f Overflow present);
          direct = filter (\<lambda>b. \<not> behind_hub b) ordered in
      if reserve \<and> direct \<noteq> [] \<and> list_ex behind_hub ordered then direct else ordered)"

text \<open>The groups set aside, in the order of the source's dictionary, and the reason they give.\<close>

definition culled_groups :: "(string \<times> dongle \<Rightarrow> standing) \<Rightarrow> (string, dongle) dict \<Rightarrow> (string \<times> string list) list" where
  "culled_groups f present =
     [(''assigned'', buses_standing f InUse present), (''excluded'', buses_standing f Excluded present),
      (''quarantined'', List.map_filter (\<lambda>e. case f e of Sidelined s \<Rightarrow> Some s | _ \<Rightarrow> None) present),
      (''type'', List.map_filter (\<lambda>e. case f e of WrongType s \<Rightarrow> Some s | _ \<Rightarrow> None) present)]"

definition group :: "(string \<times> string list) list \<Rightarrow> string \<Rightarrow> string list" where
  "group culled k = (case dget culled k of None \<Rightarrow> [] | Some xs \<Rightarrow> xs)"

definition size_text :: "string list \<Rightarrow> string" where
  "size_text xs = str_int (int (length xs))"

definition sidelined_texts :: "(string \<times> string list) list \<Rightarrow> string \<Rightarrow> string list" where
  "sidelined_texts culled phy =
     (if group culled ''quarantined'' \<noteq> [] then [size_text (group culled ''quarantined'') @ '' quarantined''] else [])
     @ (if group culled ''excluded'' \<noteq> [] then [size_text (group culled ''excluded'') @ '' excluded''] else [])
     @ (if group culled ''type'' \<noteq> []
        then [size_text (group culled ''type'') @ '' wrong type for sim_phy='' @ phy] else [])"

definition build_idle_reason :: "(string \<times> string list) list \<Rightarrow> bool \<Rightarrow> string \<Rightarrow> string" where
  "build_idle_reason culled any_present phy =
     (if group culled ''assigned'' \<noteq> [] then
        (let side = sidelined_texts culled phy in
         ''all dongles deployed ('' @ size_text (group culled ''assigned'') @ '' in use''
         @ (if side \<noteq> [] then ''; '' @ join_sep '', '' side else []) @ '')'')
      else
        (let shown = map (\<lambda>(k, v). k @ ''='' @ py_repr (PList (map PStr v))) (filter (\<lambda>(k, v). v \<noteq> []) culled);
             detail = (if \<not> any_present then ''none present''
                       else if shown = [] then ''none match sim_phy='' @ phy else join_sep ''; '' shown)
         in ''no eligible dongles ('' @ detail @ '')''))"

section \<open>Choosing the image\<close>

definition image_count :: "(string, int) dict \<Rightarrow> int \<Rightarrow> int" where
  "image_count v2i n = int (length (filter (\<lambda>v. v = n) (dvals v2i)))"

definition deficit :: "(string, int) dict \<Rightarrow> clone_image \<Rightarrow> int" where
  "deficit v2i im = (im_pct im * (int (length v2i) + 1) + 99) div 100 - image_count v2i (im_num im)"

text \<open>The first image furthest below its share.\<close>

definition better :: "(string, int) dict \<Rightarrow> clone_image \<Rightarrow> clone_image option \<Rightarrow> clone_image option" where
  "better v2i im acc =
     (case acc of None \<Rightarrow> Some im | Some b \<Rightarrow> if deficit v2i b < deficit v2i im then Some im else Some b)"

definition pick_image :: "clone_image list \<Rightarrow> (string, int) dict \<Rightarrow> clone_image option" where
  "pick_image images v2i = fold (better v2i) images None"

section \<open>Choosing the VMID\<close>

text \<open>
  The numbers are tried upwards. A number on the host is taken over only after the VM holding
  it turned out to be a leftover without any device, and was destroyed. The result carries the
  numbers believed to exist.
\<close>

fun find_vmid ::
    "'h machine \<Rightarrow> (string, pyval) dict option \<Rightarrow> int set \<Rightarrow> (int \<Rightarrow> bool) \<Rightarrow> int set \<Rightarrow> int list
     \<Rightarrow> ('h, int option \<times> int set) op" where
  "find_vmid m cfg prot taken existing [] = ret (None, existing)"
| "find_vmid m cfg prot taken existing (vid # vs) =
     (if taken vid then find_vmid m cfg prot taken existing vs
      else if vid \<notin> existing then ret (Some vid, existing)
      else if vid \<in> prot then find_vmid m cfg prot taken existing vs
      else
        bnd (vm_has_usb_passthrough m vid) (\<lambda>usb.
        if usb then find_vmid m cfg prot taken existing vs
        else
          bnd (vm_has_pci_passthrough m vid) (\<lambda>pci.
          if pci then find_vmid m cfg prot taken existing vs
          else
            bnd (reclaim_zombie_vmid m cfg vid) (\<lambda>freed.
            if freed then ret (Some vid, existing - {vid})
            else find_vmid m cfg prot taken existing vs))))"

section \<open>The clones of one pass\<close>

text \<open>What the clones of a pass share, and what changes from one to the next.\<close>

record batch_env =
  be_cfg :: "(string, pyval) dict option"
  be_usb :: "(string, pyval) dict"
  be_start :: int
  be_end :: int
  be_concurrency :: int
  be_ceiling :: int
  be_mem_avg :: "rat option"
  be_mem_limit :: int
  be_images :: "clone_image list"
  be_templates :: "int set"
  be_present :: "(string, dongle) dict"

record batch_state =
  bs_admitted :: nat
  bs_paced :: bool
  bs_toggled :: bool
  bs_existing :: "int set"
  bs_results :: "bool list"

definition on_brain :: "(brain \<Rightarrow> brain) \<Rightarrow> ('h, unit) op" where
  "on_brain f = modify (\<lambda>w. w\<lparr>brain_of := f (brain_of w)\<rparr>)"

definition on_item :: "string \<Rightarrow> (prov_item \<Rightarrow> prov_item) \<Rightarrow> ('h, unit) op" where
  "on_item bus f =
     modify (\<lambda>w. w\<lparr>prov_items := map (\<lambda>it. if pi_bus it = bus then f it else it) (prov_items w)\<rparr>)"

definition item_ends :: "string \<Rightarrow> string \<Rightarrow> ('h, unit) op" where
  "item_ends bus status = on_item bus (\<lambda>it. it\<lparr>pi_status := status\<rparr>)"

definition current_cpu_pct :: "('h, (rat \<times> rat) list) op \<Rightarrow> ('h, rat option) op" where
  "current_cpu_pct stats =
     except_any (bnd stats (\<lambda>nodes. ret (case nodes of [] \<Rightarrow> None | n # _ \<Rightarrow> Some (fst n)))) (\<lambda>e. ret None)"

definition with_result :: "bool \<Rightarrow> batch_state \<Rightarrow> batch_state" where
  "with_result ok s = s\<lparr>bs_results := bs_results s @ [ok]\<rparr>"

text \<open>
  Admission: from the second clone on, and only if clones may run in parallel, wait and look at
  the CPU. The published figure is rounded to one decimal by the source; here it is exact.
\<close>

definition admit ::
    "'h machine \<Rightarrow> ('h, (rat \<times> rat) list) op \<Rightarrow> batch_env \<Rightarrow> batch_state \<Rightarrow> ('h, batch_state) op" where
  "admit m stats env s =
     (let s1 = s\<lparr>bs_admitted := Suc (bs_admitted s)\<rparr> in
      if bs_admitted s = 0 \<or> be_concurrency env \<le> 1 then ret s1
      else
        bnd (pause m 14) (\<lambda>_.
        bnd (current_cpu_pct stats) (\<lambda>cpu.
        case cpu of
          None \<Rightarrow> ret s1
        | Some c \<Rightarrow>
            if c < of_int (be_ceiling env) then ret s1
            else
              bnd (now_s m) (\<lambda>t.
              bnd (on_brain (\<lambda>b. b\<lparr>br_halt := Some \<lparr>ht_reason = ''pacing'', ht_cpu = Some c,
                     ht_cpu_limit = be_ceiling env, ht_mem = be_mem_avg env, ht_mem_limit = be_mem_limit env,
                     ht_ts = trunc t\<rparr>\<rparr>)) (\<lambda>_.
              ret (s1\<lparr>bs_paced := True\<rparr>))))))"

definition reserve_vmid :: "int \<Rightarrow> string \<Rightarrow> usb_state \<Rightarrow> usb_state" where
  "reserve_vmid vid bus st = st\<lparr>vmid_to_bus := dset (str_int vid) bus (vmid_to_bus st)\<rparr>"

definition unreserve_vmid :: "int \<Rightarrow> usb_state \<Rightarrow> usb_state" where
  "unreserve_vmid vid st = st\<lparr>vmid_to_bus := dpop (str_int vid) (vmid_to_bus st)\<rparr>"

definition settle_vmid :: "int \<Rightarrow> string \<Rightarrow> int \<Rightarrow> usb_state \<Rightarrow> usb_state" where
  "settle_vmid vid bus img st =
     st\<lparr>bus_to_vmid := dset bus (str_int vid) (bus_to_vmid st),
        vmid_to_image := dset (str_int vid) img (vmid_to_image st)\<rparr>"

definition taken_vmid :: "batch_env \<Rightarrow> usb_state \<Rightarrow> int \<Rightarrow> bool" where
  "taken_vmid env st vid = (dhas (vmid_to_bus st) (str_int vid) \<or> vid \<in> be_templates env)"

text \<open>The clone proper, on a reserved number; a failure takes everything back.\<close>

definition clone_onto ::
    "'h machine \<Rightarrow> (string \<Rightarrow> pyval option) \<Rightarrow> batch_env \<Rightarrow> string \<Rightarrow> int \<Rightarrow> clone_image \<Rightarrow> batch_state
     \<Rightarrow> ('h, batch_state) op" where
  "clone_onto m decode env bus vid im s =
     bnd (except_any
            (bnd (clone_and_provision m decode (resolve_protected_vmids (be_cfg env)) (be_usb env) vid bus
                    (map_option dg_type (dget (be_present env) bus)) (im_template im) (im_num im)) (\<lambda>_. ret True))
            (\<lambda>e. ret False)) (\<lambda>ok.
     if ok then
       bnd (on_pass (settle_vmid vid bus (im_num im))) (\<lambda>_.
       bnd (item_ends bus ''done'') (\<lambda>_.
       ret (with_result True (s\<lparr>bs_existing := insert vid (bs_existing s)\<rparr>))))
     else
       bnd (on_pass (unreserve_vmid vid)) (\<lambda>_.
       bnd (destroy_quietly m (be_cfg env) None (Some bus) vid) (\<lambda>_.
       bnd (item_ends bus ''failed'') (\<lambda>_.
       ret (with_result False s)))))"

definition place_on ::
    "'h machine \<Rightarrow> (string \<Rightarrow> pyval option) \<Rightarrow> batch_env \<Rightarrow> string \<Rightarrow> batch_state \<Rightarrow> ('h, batch_state) op" where
  "place_on m decode env bus s =
     bnd (of_pass (taken_vmid env)) (\<lambda>taken.
     bnd (find_vmid m (be_cfg env) (resolve_protected_vmids (be_cfg env)) taken (bs_existing s)
            [be_start env .. be_end env]) (\<lambda>(choice, existing).
     let s1 = s\<lparr>bs_existing := existing\<rparr> in
     case choice of
       None \<Rightarrow> bnd (item_ends bus ''failed'') (\<lambda>_. ret (with_result False s1))
     | Some vid \<Rightarrow>
         bnd (on_pass (reserve_vmid vid bus)) (\<lambda>_.
         bnd (on_item bus (\<lambda>it. it\<lparr>pi_vmid := vid\<rparr>)) (\<lambda>_.
         bnd (of_pass (\<lambda>st. pick_image (be_images env) (vmid_to_image st))) (\<lambda>pick.
         case pick of
           None \<Rightarrow> bnd (on_pass (unreserve_vmid vid)) (\<lambda>_. bnd (item_ends bus ''failed'') (\<lambda>_. ret (with_result False s1)))
         | Some im \<Rightarrow>
             if im_template im = 0
             then bnd (on_pass (unreserve_vmid vid)) (\<lambda>_. bnd (item_ends bus ''failed'') (\<lambda>_. ret (with_result False s1)))
             else clone_onto m decode env bus vid im s1)))))"

text \<open>One dongle; \<open>live bus\<close> is the auto-provision toggle as it stands when the turn comes.\<close>

definition provision_one ::
    "'h machine \<Rightarrow> (string \<Rightarrow> pyval option) \<Rightarrow> ('h, (rat \<times> rat) list) op \<Rightarrow> batch_env \<Rightarrow> (string \<Rightarrow> bool)
     \<Rightarrow> string \<Rightarrow> batch_state \<Rightarrow> ('h, batch_state) op" where
  "provision_one m decode stats env live bus s =
     bnd (admit m stats env s) (\<lambda>s1.
     if bs_paced s1 then bnd (item_ends bus ''failed'') (\<lambda>_. ret (with_result False s1))
     else
       (let s2 = (if live bus then s1 else s1\<lparr>bs_toggled := True\<rparr>) in
        if bs_toggled s2 then bnd (item_ends bus ''cancelled'') (\<lambda>_. ret (with_result False s2))
        else place_on m decode env bus s2))"

section \<open>The fleet fills to the shares\<close>

definition im_share :: "nat \<Rightarrow> clone_image \<Rightarrow> int" where
  "im_share n im = (im_pct im * int n + 99) div 100"

definition within_shares :: "clone_image list \<Rightarrow> (string, int) dict \<Rightarrow> bool" where
  "within_shares images v2i = list_all (\<lambda>im. image_count v2i (im_num im) \<le> im_share (length v2i) im) images"

lemma deficit_eq: "deficit v2i im = im_share (Suc (length v2i)) im - image_count v2i (im_num im)"
  by (simp add: deficit_def im_share_def algebra_simps)

lemma fold_better:
  "\<exists>im. fold (better v2i) images (Some b) = Some im \<and> im \<in> insert b (set images)
     \<and> (\<forall>x \<in> insert b (set images). deficit v2i x \<le> deficit v2i im)"
proof (induction images arbitrary: b)
  case (Cons a images)
  then show ?case
    using Cons.IH [of a] Cons.IH [of b] by (fastforce simp: better_def)
qed simp

lemma pick_image_max:
  assumes "images \<noteq> []"
  shows "\<exists>im. pick_image images v2i = Some im \<and> im \<in> set images
     \<and> (\<forall>x \<in> set images. deficit v2i x \<le> deficit v2i im)"
proof -
  obtain a rest where "images = a # rest" using assms by (cases images) auto
  with fold_better [of v2i rest a] show ?thesis by (simp add: pick_image_def better_def)
qed

text \<open>Counts of different images count different entries.\<close>

lemma counts_bounded:
  assumes "distinct (map im_num images)"
  shows "(\<Sum>im \<leftarrow> images. image_count v2i (im_num im)) \<le> int (length v2i)"
proof (induction v2i)
  case (Cons p v2i)
  have "(\<Sum>im \<leftarrow> ims. (if snd p = im_num im then 1 else 0 :: int)) \<le> 1" if "distinct (map im_num ims)" for ims
  proof -
    have "(\<Sum>im \<leftarrow> ims. (if snd p = im_num im then 1 else 0 :: int)) = (if snd p \<in> im_num ` set ims then 1 else 0)"
      using that by (induction ims) auto
    then show ?thesis by simp
  qed
  from this [OF assms]
  have "(\<Sum>im \<leftarrow> images. image_count v2i (im_num im) + (if snd p = im_num im then 1 else 0)) \<le> int (length v2i) + 1"
    using Cons by (simp add: sum_list_addf)
  moreover have "image_count (p # v2i) n = image_count v2i n + (if snd p = n then 1 else 0)" for n
    by (simp add: image_count_def)
  ultimately show ?case by simp
qed (simp add: image_count_def)

lemma shares_cover:
  assumes "100 \<le> (\<Sum>im \<leftarrow> images. im_pct im)"
  shows "int n \<le> (\<Sum>im \<leftarrow> images. im_share n im)"
proof -
  have "im_pct im * int n \<le> 100 * im_share n im" for im
    by (simp add: im_share_def)
  then have "(\<Sum>im \<leftarrow> images. im_pct im * int n) \<le> (\<Sum>im \<leftarrow> images. 100 * im_share n im)"
    by (intro sum_list_mono) simp
  moreover have "(\<Sum>im \<leftarrow> images. im_pct im * int n) = (\<Sum>im \<leftarrow> images. im_pct im) * int n"
    "(\<Sum>im \<leftarrow> images. 100 * im_share n im) = 100 * (\<Sum>im \<leftarrow> images. im_share n im)"
    by (simp_all add: sum_list_mult_const sum_list_const_mult)
  moreover have "100 * int n \<le> (\<Sum>im \<leftarrow> images. im_pct im) * int n"
    using assms by (intro mult_right_mono) simp_all
  ultimately show ?thesis by simp
qed

text \<open>
  C31: no image is ever cloned beyond its share. If the shares of the configured images make up the
  whole and no image holds more VMs than its share of the fleet, rounded up, then the image
  picked for the next VM keeps it that way; so the proportions hold at every size the fleet
  grows through.
\<close>

theorem picks_respect_shares:
  assumes "100 \<le> (\<Sum>im \<leftarrow> images. im_pct im)" "list_all (\<lambda>im. 0 \<le> im_pct im) images" "distinct (map im_num images)"
    and "within_shares images v2i" "pick_image images v2i = Some im" "dget v2i v = None"
  shows "im \<in> set images \<and> within_shares images (dset v (im_num im) v2i)"
proof -
  have ne: "images \<noteq> []" using assms(5) by (auto simp: pick_image_def)
  then have im: "im \<in> set images" and best: "deficit v2i x \<le> deficit v2i im" if "x \<in> set images" for x
    using pick_image_max [OF ne, of v2i] assms(5) that by auto
  obtain x where x: "x \<in> set images" "0 < deficit v2i x"
  proof -
    have "0 < (\<Sum>im \<leftarrow> images. deficit v2i im)"
      using shares_cover [OF assms(1), of "Suc (length v2i)"] counts_bounded [OF assms(3), of v2i]
      by (simp add: deficit_eq sum_list_subtractf)
    then have "\<not> (\<forall>x \<in> set images. deficit v2i x \<le> 0)"
      by (metis (no_types, lifting) image_iff list.set_map not_less sum_list_nonpos)
    then show ?thesis using that by (meson not_less)
  qed
  have pos: "0 < deficit v2i im" using best [OF x(1)] x(2) by simp
  have app: "dset v (im_num im) v2i = v2i @ [(v, im_num im)]"
    using assms(6) by (induction v2i) (auto split: if_splits)
  have mono: "im_share (length v2i) y \<le> im_share (Suc (length v2i)) y" if "0 \<le> im_pct y" for y
    using that by (auto simp: im_share_def intro!: zdiv_mono1 mult_left_mono)
  have "image_count (v2i @ [(v, im_num im)]) (im_num y) \<le> im_share (Suc (length v2i)) y" if y: "y \<in> set images" for y
  proof (cases "im_num y = im_num im")
    case True
    then have "y = im" using assms(3) y im [OF x(1)] by (auto simp: distinct_map inj_on_def)
    then show ?thesis using pos by (simp add: image_count_def deficit_eq)
  next
    case False
    then show ?thesis
      using assms(2,4) y mono [of y] by (fastforce simp: image_count_def within_shares_def list_all_iff)
  qed
  then show ?thesis using im [OF x(1)] by (simp add: app within_shares_def list_all_iff)
qed

theorem picks_respect_shares_witness:
  "let images = [\<lparr>im_num = 1, im_template = 100, im_pct = 70\<rparr>, \<lparr>im_num = 2, im_template = 101, im_pct = 30\<rparr>] in
   pick_image images [(''a'', 1), (''b'', 2)] = Some (hd images)
   \<and> within_shares images (dset ''c'' 1 [(''a'', 1), (''b'', 2)])"
proof -
  let ?images = "[\<lparr>im_num = 1, im_template = 100, im_pct = 70\<rparr>, \<lparr>im_num = 2, im_template = 101, im_pct = 30\<rparr>]"
  have p: "pick_image ?images [(''a'', 1), (''b'', 2)] = Some (hd ?images)"
    by (simp add: pick_image_def better_def deficit_def image_count_def)
  have w: "within_shares ?images [(''a'', 1), (''b'', 2)]"
    by (simp add: within_shares_def image_count_def im_share_def)
  show ?thesis using picks_respect_shares [OF _ _ _ w p, of "''c''"] p by (simp add: Let_def)
qed

section \<open>Which numbers are taken over\<close>

text \<open>
  What the search for a number may do: look, and act on a VM that holds a number of the block
  without being tracked, a template or protected, and whose configuration shows no device.
\<close>

definition reclaims_only ::
    "(int \<Rightarrow> (string, string) dict) \<Rightarrow> int set \<Rightarrow> (int \<Rightarrow> bool) \<Rightarrow> int set \<Rightarrow> int list \<Rightarrow> event \<Rightarrow> bool" where
  "reclaims_only conf prot taken existing vs e \<longleftrightarrow>
     looks e \<or> (\<exists>vid \<in> set vs. vid \<in> existing \<and> \<not> taken vid \<and> vid \<notin> prot \<and> 90000 \<le> vid
                 \<and> \<not> passes_usb (conf vid) \<and> \<not> passes_pci (conf vid) \<and> touches vid e)"

lemma looks_passthrough [emits_intro]:
  "emits looks (vm_has_usb_passthrough m vid)" "emits looks (vm_has_pci_passthrough m vid)"
  by (auto simp: vm_has_usb_passthrough_def vm_has_pci_passthrough_def qm_config_def guest_config_def intro!: emits_intro)

lemma emits_reclaim:
  assumes "prot = resolve_protected_vmids cfg"
  shows "emits (\<lambda>e. vid \<notin> prot \<and> 90000 \<le> vid \<and> touches vid e) (reclaim_zombie_vmid m cfg vid)"
proof -
  have same: "destroy_vm m cfg None None False v = destroy_vm m cfg None (Some prot) False v" for v
    by (simp add: destroy_vm_def assms)
  have "emits (\<lambda>e. vid \<notin> prot \<and> 90000 \<le> vid \<and> touches vid e) (destroy_vm m cfg None None False (PInt vid))"
  proof (cases rule: guard_vmid_cases [of vid prot])
    case (refused r)
    then show ?thesis unfolding same by (simp add: emits_def yields_def destroy_vm_def Let_def)
  next
    case ok
    have "emits (touches vid) (destroy_vm m cfg None (Some prot) False (PInt vid))"
      by (rule g_destroy_vm.confined [OF ok(1)])
    then show ?thesis unfolding same by (rule emits_mono) (use ok(2,3) in \<open>auto simp: SIM_VMIN_def\<close>)
  qed
  then show ?thesis by (auto simp: reclaim_zombie_vmid_def intro!: emits_intro)
qed

text \<open>An operation whose result is known: only that continuation matters.\<close>

lemma emits_gives:
  assumes "emits P p" "gives p x" "emits P (f x)"
  shows "emits P (bnd p f)"
  unfolding emits_def
proof (rule yieldsI)
  fix w
  obtain w1 where p: "p w = (Inr x, w1)" using assms(2) by (auto simp: gives_def)
  obtain es where es: "trace w1 = trace w @ es" "list_all P es" using emitsD [OF assms(1) p] .
  obtain r w2 where q: "f x w1 = (r, w2)" by force
  obtain fs where fs: "trace w2 = trace w1 @ fs" "list_all P fs" using emitsD [OF assms(3) q] .
  show "\<exists>es. trace (snd (bnd p f w)) = trace w @ es \<and> list_all P es"
    using p q es fs by (simp add: bnd_def)
qed



section \<open>Which dongles get a VM\<close>

definition usable ::
    "usb_state \<Rightarrow> (string, quarantine_entry) dict \<Rightarrow> string \<Rightarrow> bool \<Rightarrow> string \<times> dongle \<Rightarrow> bool" where
  "usable st quarantine phy use_all e \<longleftrightarrow>
     \<not> str_set (dget (bus_to_vmid st) (fst e))
     \<and> (case dget (excluded_buses st) (fst e) of None \<Rightarrow> True | Some t \<Rightarrow> t = 0)
     \<and> (case dget quarantine (fst e) of None \<Rightarrow> True | Some q \<Rightarrow> \<not> q_permanent q \<and> q_fails q < QUARANTINE_MAX_FAILS)
     \<and> (sim_phy_accepts phy (dg_type (snd e)) \<or> use_all \<and> phy \<in> {''wireless'', ''ethernet''})"

lemma usable_iff: "usable st q phy all_types e \<longleftrightarrow> dongle_standing st q phy all_types e \<in> {Preferred, Overflow}"
  by (cases e) (auto simp: usable_def dongle_standing_def split: option.splits)

lemma set_standing: "set (buses_standing f s present) = {b. \<exists>info. (b, info) \<in> set present \<and> f (b, info) = s}"
  by (force simp: buses_standing_def)

text \<open>
  A dongle is given a VM in this pass if and only if it is present, drives no VM, is neither
  excluded nor quarantined, has a type the tenant simulates (or every type is wanted), and, if
  it sits behind a hub that is kept in reserve, no usable dongle is plugged in directly.
\<close>

theorem selection_exact:
  "b \<in> set (ordered_dongles reserve (dongle_standing st q phy all_types) present) \<longleftrightarrow>
     (\<exists>info. (b, info) \<in> set present \<and> usable st q phy all_types (b, info))
     \<and> \<not> (reserve \<and> behind_hub b
          \<and> (\<exists>e. e \<in> set present \<and> usable st q phy all_types e \<and> \<not> behind_hub (fst e)))"
proof -
  let ?f = "dongle_standing st q phy all_types"
  define ordered where "ordered = sort_key bus_sort_key (buses_standing ?f Preferred present)
                  @ sort_key bus_sort_key (buses_standing ?f Overflow present)"
  have all: "x \<in> set ordered \<longleftrightarrow> (\<exists>info. (x, info) \<in> set present \<and> usable st q phy all_types (x, info))" for x
    by (auto simp: ordered_def set_standing usable_iff)
  have direct: "(\<exists>e. e \<in> set present \<and> usable st q phy all_types e \<and> \<not> behind_hub (fst e))
      \<longleftrightarrow> filter (\<lambda>x. \<not> behind_hub x) ordered \<noteq> []"
    by (force simp: filter_empty_conv all)
  have "ordered_dongles reserve ?f present
      = (if reserve \<and> filter (\<lambda>x. \<not> behind_hub x) ordered \<noteq> [] \<and> list_ex behind_hub ordered
         then filter (\<lambda>x. \<not> behind_hub x) ordered else ordered)"
    unfolding ordered_dongles_def ordered_def [symmetric] Let_def by (rule refl)
  then show ?thesis unfolding direct all [symmetric] by (auto simp: list_ex_iff)
qed

section \<open>A clone keeps the maps inverse\<close>

abbreviation maps_of :: "'h world \<Rightarrow> (string, string) dict \<times> (string, string) dict" where
  "maps_of w \<equiv> (vmid_to_bus (pass_state w), bus_to_vmid (pass_state w))"

interpretation maps_view: rest_view maps_of
  by unfold_locales simp_all

context rest_view
begin

lemma keeps_find_vmid [keeps_intro]: "keeps f (find_vmid m cfg prot taken ex vs)"
  by (induction vs arbitrary: ex) (auto simp: reclaim_zombie_vmid_def intro!: keeps_intro)

end

lemma keeps_clone_maps: "keeps maps_of (clone_and_provision m decode prot usb_cfg vid bus ty tpl img)"
  by (auto simp: clone_and_provision_def configure_clone_def finish_clone_def on_usb_state_def Let_def
      stamp_post_prov_reboot_def queue_retry_def intro!: keeps_intro keeps_modify maps_view.keeps_first_boot)

lemma keeps_maps_ops:
  "keeps maps_of (item_ends bus st)" "keeps maps_of (on_item bus f)"
  "keeps maps_of (destroy_quietly m cfg p b v)"
proof -
  show i: "keeps maps_of (on_item bus f)" for f by (simp add: on_item_def keeps_modify)
  show "keeps maps_of (item_ends bus st)" by (simp add: item_ends_def i)
  show "keeps maps_of (destroy_quietly m cfg p b v)" by (auto simp: destroy_quietly_def intro!: keeps_intro)
qed

lemma find_vmid_free:
  "find_vmid m cfg prot taken ex vs w = (Inr (Some vid, ex'), w') \<Longrightarrow> vid \<in> set vs \<and> \<not> taken vid"
  by (induction vs arbitrary: ex w) (auto elim!: bnd_InrD split: if_splits, blast+)


lemma keeps_admit: "keeps maps_of stats \<Longrightarrow> keeps maps_of (admit m stats env s)"
  by (auto simp: admit_def current_cpu_pct_def on_brain_def Let_def intro!: keeps_intro keeps_modify split: option.splits list.splits)

text \<open>What the placing of one VM does to the maps: nothing, or one new pair.\<close>

definition new_pair :: "batch_env \<Rightarrow> string \<Rightarrow> 'h world \<Rightarrow> 'h world \<Rightarrow> bool" where
  "new_pair env bus w w' \<longleftrightarrow> (\<exists>vid. be_start env \<le> vid \<and> vid \<le> be_end env \<and> vid \<notin> be_templates env
     \<and> dget (vmid_to_bus (pass_state w)) (str_int vid) = None
     \<and> maps_of w' = (dset (str_int vid) bus (vmid_to_bus (pass_state w)), dset bus (str_int vid) (bus_to_vmid (pass_state w))))"

lemma dpop_fresh: "dget d k = None \<Longrightarrow> dpop k (dset k v d) = d"
  by (simp add: dpop_dset) (simp add: map_of_eq_None_iff dpop_eq_filter filter_id_conv image_iff, metis fst_conv prod.collapse)

lemma clone_onto_maps:
  assumes "clone_onto m decode env bus vid im s w = (Inr s', w')"
    and "vmid_to_bus (pass_state w) = dset (str_int vid) bus v2b" "dget v2b (str_int vid) = None"
  shows "if last (bs_results s') then maps_of w' = (vmid_to_bus (pass_state w), dset bus (str_int vid) (bus_to_vmid (pass_state w)))
         else maps_of w' = (v2b, bus_to_vmid (pass_state w))"
proof -
  let ?attempt = "except_any
            (bnd (clone_and_provision m decode (resolve_protected_vmids (be_cfg env)) (be_usb env) vid bus
                    (map_option dg_type (dget (be_present env) bus)) (im_template im) (im_num im)) (\<lambda>_. ret True)) (\<lambda>e. ret False)"
  have k: "keeps maps_of ?attempt" by (intro keeps_intro keeps_clone_maps)
  obtain ok w1 where t: "?attempt w = (Inr ok, w1)"
    and rest: "(if ok then bnd (on_pass (settle_vmid vid bus (im_num im))) (\<lambda>_. bnd (item_ends bus ''done'') (\<lambda>_.
          ret (with_result True (s\<lparr>bs_existing := insert vid (bs_existing s)\<rparr>))))
        else bnd (on_pass (unreserve_vmid vid)) (\<lambda>_. bnd (destroy_quietly m (be_cfg env) None (Some bus) vid) (\<lambda>_.
          bnd (item_ends bus ''failed'') (\<lambda>_. ret (with_result False s))))) w1 = (Inr s', w')"
    using assms(1) unfolding clone_onto_def by (rule bnd_InrD)
  have m1: "maps_of w1 = maps_of w" by (rule keepsD [OF k t])
  show ?thesis
  proof (cases ok)
    case True
    then show ?thesis using rest m1
      by (auto simp: with_result_def settle_vmid_def elim!: bnd_InrD dest!: keepsD [OF keeps_maps_ops(1)])
  next
    case False
    then show ?thesis using rest m1 assms(2,3)
      by (auto simp: with_result_def unreserve_vmid_def dpop_fresh elim!: bnd_InrD
          dest!: keepsD [OF keeps_maps_ops(1)] keepsD [OF keeps_maps_ops(3)])
  qed
qed

lemma paired_new_pair:
  assumes "paired (pass_state w)" "dget (bus_to_vmid (pass_state w)) bus = None" "bus \<noteq> []" "new_pair env bus w w'"
  shows "paired (pass_state w')"
proof -
  obtain vid where v: "dget (vmid_to_bus (pass_state w)) (str_int vid) = None"
    "vmid_to_bus (pass_state w') = dset (str_int vid) bus (vmid_to_bus (pass_state w))"
    "bus_to_vmid (pass_state w') = dset bus (str_int vid) (bus_to_vmid (pass_state w))"
    using assms(4) by (auto simp: new_pair_def)
  note iff = paired_iff [OF assms(1)]
  show ?thesis
  proof (rule pairedI)
    show "wfd (vmid_to_bus (pass_state w'))" "wfd (bus_to_vmid (pass_state w'))"
      using paired_wfd [OF assms(1)] v by simp_all
    show "dget (bus_to_vmid (pass_state w')) [] = None"
      using paired_no_empty [OF assms(1)] assms(3) v by simp
    fix x b
    show "(dget (vmid_to_bus (pass_state w')) x = Some b) = (dget (bus_to_vmid (pass_state w')) b = Some x)"
      using iff [of x b] iff [of x bus] iff [of "str_int vid" b] v assms(2) by auto
  qed
qed

lemma paired_maps: "paired (pass_state w) \<Longrightarrow> maps_of w' = maps_of w \<Longrightarrow> paired (pass_state w')"
  by (simp add: paired_def)

lemma place_on_maps:
  assumes "place_on m decode env bus s w = (Inr s', w')"
  shows "if last (bs_results s') then new_pair env bus w w' else maps_of w' = maps_of w"
proof -
  obtain choice ex w1 where f: "find_vmid m (be_cfg env) (resolve_protected_vmids (be_cfg env)) (taken_vmid env (pass_state w))
      (bs_existing s) [be_start env .. be_end env] w = (Inr (choice, ex), w1)"
    and rest: "(case choice of
       None \<Rightarrow> bnd (item_ends bus ''failed'') (\<lambda>_. ret (with_result False (s\<lparr>bs_existing := ex\<rparr>)))
     | Some vid \<Rightarrow>
         bnd (on_pass (reserve_vmid vid bus)) (\<lambda>_.
         bnd (on_item bus (\<lambda>it. it\<lparr>pi_vmid := vid\<rparr>)) (\<lambda>_.
         bnd (of_pass (\<lambda>st. pick_image (be_images env) (vmid_to_image st))) (\<lambda>pick.
         case pick of
           None \<Rightarrow> bnd (on_pass (unreserve_vmid vid)) (\<lambda>_. bnd (item_ends bus ''failed'') (\<lambda>_.
                    ret (with_result False (s\<lparr>bs_existing := ex\<rparr>))))
         | Some im \<Rightarrow>
             if im_template im = 0
             then bnd (on_pass (unreserve_vmid vid)) (\<lambda>_. bnd (item_ends bus ''failed'') (\<lambda>_.
                    ret (with_result False (s\<lparr>bs_existing := ex\<rparr>))))
             else clone_onto m decode env bus vid im (s\<lparr>bs_existing := ex\<rparr>))))) w1 = (Inr s', w')"
    using assms by (auto simp: place_on_def Let_def elim!: bnd_InrD)
  have m1: "maps_of w1 = maps_of w" by (rule keepsD [OF maps_view.keeps_find_vmid f])
  show ?thesis
  proof (cases choice)
    case None
    with rest m1 show ?thesis
      by (auto simp: with_result_def elim!: bnd_InrD dest!: keepsD [OF keeps_maps_ops(1)])
  next
    case (Some vid)
    then have free: "vid \<in> set [be_start env .. be_end env]" "\<not> taken_vmid env (pass_state w) vid"
      using find_vmid_free f by blast+
    then have fresh: "dget (vmid_to_bus (pass_state w)) (str_int vid) = None" "vid \<notin> be_templates env"
      by (auto simp: taken_vmid_def dhas_def)
    obtain w2 where w2: "on_item bus (\<lambda>it. it\<lparr>pi_vmid := vid\<rparr>) (w1\<lparr>pass_state := reserve_vmid vid bus (pass_state w1)\<rparr>) = (Inr (), w2)"
      by (simp add: on_item_def)
    have m2: "maps_of w2 = (dset (str_int vid) bus (vmid_to_bus (pass_state w)), bus_to_vmid (pass_state w))"
      using keepsD [OF keeps_maps_ops(2) w2] m1 by (simp add: reserve_vmid_def)
    consider (rolled) "bnd (on_pass (unreserve_vmid vid)) (\<lambda>_. bnd (item_ends bus ''failed'') (\<lambda>_.
          ret (with_result False (s\<lparr>bs_existing := ex\<rparr>)))) w2 = (Inr s', w')"
      | (cloned) im where "clone_onto m decode env bus vid im (s\<lparr>bs_existing := ex\<rparr>) w2 = (Inr s', w')"
      using rest Some w2 by (simp add: bnd_def split: option.splits if_splits)
    then show ?thesis
    proof cases
      case rolled
      with m2 fresh(1) show ?thesis
        by (auto simp: with_result_def unreserve_vmid_def dpop_fresh elim!: bnd_InrD dest!: keepsD [OF keeps_maps_ops(1)])
    next
      case cloned
      from clone_onto_maps [OF cloned _ fresh(1)] m2 free(1) fresh
      show ?thesis by (auto simp: new_pair_def)
    qed
  qed
qed

text \<open>
  C3: the reservation, the clone and its roll-back never desynchronise the two maps: after the turn
  of a dongle that drove no VM they are inverse to each other again, and they are the old ones
  unless the clone succeeded, in which case they gained exactly one pair, the dongle's bus and
  a number of the block that was free and is no template's.
\<close>

theorem provision_keeps_bijection:
  assumes "provision_one m decode stats env live bus s w = (Inr s', w')" "keeps maps_of stats"
    and "paired (pass_state w)" "dget (bus_to_vmid (pass_state w)) bus = None" "bus \<noteq> []"
  shows "paired (pass_state w') \<and> (if last (bs_results s') then new_pair env bus w w' else maps_of w' = maps_of w)"
proof -
  obtain s1 w1 where a: "admit m stats env s w = (Inr s1, w1)"
    and rest: "(if bs_paced s1 then bnd (item_ends bus ''failed'') (\<lambda>_. ret (with_result False s1))
       else (let s2 = (if live bus then s1 else s1\<lparr>bs_toggled := True\<rparr>) in
         if bs_toggled s2 then bnd (item_ends bus ''cancelled'') (\<lambda>_. ret (with_result False s2))
         else place_on m decode env bus s2)) w1 = (Inr s', w')"
    using assms(1) unfolding provision_one_def by (rule bnd_InrD)
  have m1: "maps_of w1 = maps_of w" by (rule keepsD [OF keeps_admit [OF assms(2)] a])
  have ends: "maps_of w' = maps_of w1 \<and> \<not> last (bs_results s')"
    if "bnd (item_ends bus st) (\<lambda>_. ret (with_result False x)) w1 = (Inr s', w')" for st x
    using that by (auto simp: with_result_def elim!: bnd_InrD dest!: keepsD [OF keeps_maps_ops(1)])
  have new: "new_pair env bus w1 w' \<longleftrightarrow> new_pair env bus w w'" using m1 by (simp add: new_pair_def)
  consider st x where "bnd (item_ends bus st) (\<lambda>_. ret (with_result False x)) w1 = (Inr s', w')"
    | x where "place_on m decode env bus x w1 = (Inr s', w')"
    using rest by (auto simp: Let_def split: if_splits)
  then have "if last (bs_results s') then new_pair env bus w w' else maps_of w' = maps_of w"
    by cases (use ends m1 new place_on_maps in fastforce)+
  then show ?thesis using paired_new_pair [OF assms(3,4,5)] paired_maps [OF assms(3)] by (auto split: if_splits)
qed

definition small_env :: batch_env where
  "small_env = \<lparr>be_cfg = None, be_usb = [], be_start = 90001, be_end = 90024, be_concurrency = 1, be_ceiling = 90,
     be_mem_avg = None, be_mem_limit = 80, be_images = [\<lparr>im_num = 1, im_template = 100, im_pct = 100\<rparr>],
     be_templates = {100}, be_present = []\<rparr>"

definition first_turn :: batch_state where
  "first_turn = \<lparr>bs_admitted = 0, bs_paced = False, bs_toggled = False, bs_existing = {}, bs_results = []\<rparr>"

theorem provision_keeps_bijection_witness:
  "\<exists>s' w'. provision_one still_host exit0 (ret []) small_env (\<lambda>b. False) ''1-1'' first_turn (fresh_world 0) = (Inr s', w')
     \<and> paired (pass_state w') \<and> vmid_to_bus (pass_state w') = []"
proof -
  let ?s = "first_turn\<lparr>bs_admitted := 1, bs_toggled := True, bs_results := [False]\<rparr>"
  obtain w' where run: "provision_one still_host exit0 (ret []) small_env (\<lambda>b. False) ''1-1'' first_turn (fresh_world 0)
      = (Inr ?s, w')"
    by (simp add: provision_one_def admit_def first_turn_def item_ends_def on_item_def with_result_def bnd_def)
  have p: "pass_state (fresh_world (0 :: rat)) = new_usb_state" by (simp add: fresh_world_def)
  have "maps_of w' = maps_of (fresh_world (0 :: rat)) \<and> paired (pass_state w')"
    using provision_keeps_bijection [OF run keeps_pure(1)] by (simp add: p, simp add: new_usb_state_def)
  with run p show ?thesis by (auto simp: new_usb_state_def)
qed

section \<open>A protected number that is free\<close>

text \<open>
  The search only looks at the protected numbers that exist on the host. A protected number of
  the block that no VM holds is therefore chosen, the guard then refuses the clone, and the
  roll-back gives the number back: the next dongle, and the next pass, choose it again. Every
  turn fails without a single command.
\<close>

theorem protected_hole_blocks:
  assumes "be_start env \<le> be_end env" "be_start env \<in> resolve_protected_vmids (be_cfg env)"
    and "be_start env \<notin> bs_existing s" "\<not> taken_vmid env (pass_state w) (be_start env)"
  shows "\<exists>s' w'. place_on m decode env bus s w = (Inr s', w')
     \<and> bs_results s' = bs_results s @ [False] \<and> maps_of w' = maps_of w \<and> trace w' = trace w"
proof -
  let ?v = "be_start env"
  let ?prot = "resolve_protected_vmids (be_cfg env)"
  obtain r where g: "assert_sim_vm (PInt ?v) ?prot SIM_VMIN = Inl (GuardError r)"
    using assms(2) by (cases rule: guard_vmid_cases [of ?v ?prot]) auto
  have f: "find_vmid m (be_cfg env) ?prot (taken_vmid env (pass_state w)) (bs_existing s) [?v .. be_end env] w
      = (Inr (Some ?v, bs_existing s), w)"
    using assms(1,3,4) by (subst upto.simps) simp
  have c: "clone_and_provision m decode ?prot (be_usb env) ?v bus ty tpl img w1 = (Inl (GuardError r), w1)" for ty tpl img w1
    by (simp add: clone_and_provision_def qm_clone_def g Let_def bnd_def)
  have d: "destroy_quietly m (be_cfg env) None (Some bus) ?v w1 = (Inr False, w1)" for w1
    by (simp add: destroy_quietly_def destroy_vm_def g Let_def bnd_def except_any_def catch_def)
  note defs = bnd_def item_ends_def on_item_def with_result_def
  have co: "\<exists>w2. clone_onto m decode env bus ?v im x w1 = (Inr (with_result False x), w2) \<and> trace w2 = trace w1" for im x w1
    using c d by (simp add: clone_onto_def except_any_def catch_def defs)
  let ?w = "w\<lparr>pass_state := reserve_vmid ?v bus (pass_state w),
      prov_items := map (\<lambda>it. if pi_bus it = bus then it\<lparr>pi_vmid := ?v\<rparr> else it) (prov_items w)\<rparr>"
  have "\<exists>s' w'. place_on m decode env bus s w = (Inr s', w') \<and> bs_results s' = bs_results s @ [False] \<and> trace w' = trace w"
  proof (cases "pick_image (be_images env) (vmid_to_image (reserve_vmid ?v bus (pass_state w)))")
    case None
    with f show ?thesis by (simp add: place_on_def Let_def defs)
  next
    case (Some im)
    obtain w2 where "clone_onto m decode env bus ?v im (s\<lparr>bs_existing := bs_existing s\<rparr>) ?w
        = (Inr (with_result False (s\<lparr>bs_existing := bs_existing s\<rparr>)), w2)" "trace w2 = trace ?w"
      using co by blast
    with f Some show ?thesis by (simp add: place_on_def Let_def defs)
  qed
  then obtain s' w' where run: "place_on m decode env bus s w = (Inr s', w')" "bs_results s' = bs_results s @ [False]"
    "trace w' = trace w" by blast
  moreover have "maps_of w' = maps_of w" using place_on_maps [OF run(1)] run(2) by simp
  ultimately show ?thesis by blast
qed

theorem protected_hole_blocks_witness:
  "\<exists>s' w'. place_on ready_host exit0 (small_env\<lparr>be_cfg := Some [(''protected_vmids'', PList [PInt 90001])]\<rparr>) ''1-1''
     first_turn (fresh_world 0) = (Inr s', w') \<and> bs_results s' = [False] \<and> trace w' = []"
proof -
  let ?env = "small_env\<lparr>be_cfg := Some [(''protected_vmids'', PList [PInt 90001])]\<rparr>"
  have p: "be_start ?env \<in> resolve_protected_vmids (be_cfg ?env)"
    by (simp add: small_env_def resolve_protected_vmids_def)
  have t: "\<not> taken_vmid ?env (pass_state (fresh_world (0 :: rat))) (be_start ?env)"
    by (simp add: taken_vmid_def small_env_def fresh_world_def new_usb_state_def dhas_def)
  have "be_start ?env \<le> be_end ?env" "be_start ?env \<notin> bs_existing first_turn"
    by (simp_all add: small_env_def first_turn_def)
  from protected_hole_blocks [OF this(1) p this(2) t, where m = ready_host and decode = exit0 and bus = "''1-1''"]
  show ?thesis by (auto simp: first_turn_def fresh_world_def)
qed

end
