(* ===== verification/Pass.thy ===== *)
theory Pass
  imports Alloc Reporting
begin

text \<open>
  One provisioning pass, \<open>run_provision_loop\<close> in \<open>agent/src/usb_provision.py\<close>: the settings, the
  repair of the tracked state, the sweeps, the gates, the PCI tiers and the clones, in the order
  and with the early returns of the code. \<open>base\<close> is \<open>client_simulation\<close>, \<open>usb\<close> its \<open>usb_config\<close>, as
  they stand when the pass starts; \<open>live\<close> gives the toggle as it stands when a dongle's turn comes.
  The two guest watchdogs the pass starts are arguments. The clones of a pass run one after the
  other, and the limit of 600 seconds on all of them is not modelled.
\<close>

section \<open>Settings\<close>

definition EXCLUDE_COOLDOWN_S :: int where "EXCLUDE_COOLDOWN_S = 900"
definition HEALTH_CHECK_INTERVAL_S :: rat where "HEALTH_CHECK_INTERVAL_S = 300"
definition PROV_RUN_STUCK_S :: rat where "PROV_RUN_STUCK_S = 600"

record settings =
  st_vidpids :: "string set"
  st_types :: "(string, string) dict"
  st_phy :: string
  st_use_all :: bool
  st_img1 :: "int option"
  st_img2 :: "int option"
  st_images :: "clone_image list"
  st_slots :: int
  st_start :: int
  st_end :: int
  st_missing :: int
  st_exclude :: int
  st_concurrency :: int

text \<open>\<open>int(v or d)\<close>\<close>

definition int_or :: "pyval \<Rightarrow> int \<Rightarrow> int result" where
  "int_or v d = py_int (if truthy v then v else PInt d)"

definition phy_setting :: "(string, pyval) dict \<Rightarrow> string" where
  "phy_setting usb = lower (py_str (if truthy (cfg_get usb ''sim_phy'') then cfg_get usb ''sim_phy'' else PStr ''any''))"

definition read_settings ::
    "'h machine \<Rightarrow> (string \<Rightarrow> pyval option) \<Rightarrow> string \<Rightarrow> (string, pyval) dict \<Rightarrow> string set \<Rightarrow> ('h, settings) op" where
  "read_settings m decode hostname usb vidpids =
     bnd (ensure_sim_pool m decode usb) (\<lambda>_.
     bnd (resolve_template_vmid m decode (cfg_get usb ''image1_template_id'')) (\<lambda>one.
     bnd (resolve_template_vmid m decode (cfg_get usb ''image2_template_id'')) (\<lambda>two.
     bnd (lift (int_or (cfg_get usb ''image1_pct'') 50)) (\<lambda>pct.
     bnd (resolve_images m decode usb one two pct) (\<lambda>images.
     bnd (lift (int_or (cfg_first usb [''usb_max_slots'', ''max_slots''] (PInt 24)) 24)) (\<lambda>slots.
     bnd (lift (host_vmid_range hostname slots (cfg_get usb ''vmid_start'') (cfg_get usb ''vmid_end'')
                  (let v = cfg_get usb ''vm_set_override'' in if truthy v then v else PInt 0))) (\<lambda>(lo, hi, batch, derived).
     bnd (lift (int_or (cfg_first usb [''usb_missing_timeout_seconds'', ''usb_missing_timeout'', ''missing_timeout''] (PInt 0)) 0)) (\<lambda>missing.
     bnd (lift (int_or (cfg_first usb [''usb_exclude_cooldown'', ''exclude_cooldown''] (PInt EXCLUDE_COOLDOWN_S)) EXCLUDE_COOLDOWN_S)) (\<lambda>exclude.
     bnd (lift (int_or (cfg_get usb ''reclone_concurrency'') 1)) (\<lambda>conc.
     ret \<lparr>st_vidpids = vidpids, st_types = certified_types decode usb, st_phy = phy_setting usb,
          st_use_all = truthy (cfg_get usb ''use_all_dongles''), st_img1 = one, st_img2 = two, st_images = images,
          st_slots = slots, st_start = lo, st_end = hi, st_missing = missing, st_exclude = exclude,
          st_concurrency = max 1 conc\<rparr>))))))))))"

text \<open>The averages and the last CPU sample, as they stand when the settings are read.\<close>

record readings =
  rd_cpu :: "rat option"
  rd_mem :: "rat option"
  rd_instant :: "rat option"

definition read_load :: "'h machine \<Rightarrow> ('h, readings) op" where
  "read_load m =
     bnd (now_s m) (\<lambda>t.
     peek (\<lambda>w. \<lparr>rd_cpu = resource_1h_average t (cpu_hist w), rd_mem = resource_1h_average t (mem_hist w),
                rd_instant = (if cpu_hist w = [] then None else Some (snd (last (cpu_hist w))))\<rparr>))"

section \<open>Repairing the tracked state\<close>

definition reload_if :: "bool \<Rightarrow> ('h, unit) op" where
  "reload_if b = (if b then load_pass else ret ())"

text \<open>The \<open>vid:pid\<close> of every tracked bus that is present is remembered.\<close>

definition remember_vidpids :: "(string, dongle) dict \<Rightarrow> usb_state \<Rightarrow> usb_state" where
  "remember_vidpids present st =
     st\<lparr>vidpid_by_bus := fold (\<lambda>bus d. case dget present bus of None \<Rightarrow> d | Some info \<Rightarrow> dset bus (dg_vidpid info) d)
          (dkeys (bus_to_vmid st)) (vidpid_by_bus st)\<rparr>"

text \<open>What is on the host: the guests, the dongles, and the time of the pass.\<close>

record sighting =
  sg_existing :: "int list"
  sg_present :: "(string, dongle) dict"
  sg_now :: rat

definition take_stock :: "'h machine \<Rightarrow> settings \<Rightarrow> ('h, sighting) op" where
  "take_stock m s =
     bnd load_pass (\<lambda>_.
     bnd (list_all_vmids m) (\<lambda>existing.
     bnd (scan_present_dongles m (st_vidpids s) (st_types s)) (\<lambda>present.
     bnd (now_s m) (\<lambda>now.
     ret \<lparr>sg_existing = existing, sg_present = present, sg_now = now\<rparr>))))"

definition repair_tracking :: "'h machine \<Rightarrow> settings \<Rightarrow> sighting \<Rightarrow> ('h, unit) op" where
  "repair_tracking m s g =
     bnd (with_disk (prune_ghost_vms (set (sg_existing g)))) (\<lambda>pruned.
     bnd (reload_if (pruned \<noteq> [])) (\<lambda>_.
     bnd (with_disk reconcile_bus_map) (\<lambda>fixed.
     bnd (reload_if (fixed \<noteq> [])) (\<lambda>_.
     bnd (reconcile_vm_configs m (st_start s) (st_end s) (dhas (sg_present g)) (sg_now g) (sg_existing g)) (\<lambda>changed.
     bnd (reload_if changed) (\<lambda>_.
     bnd (release_stale_assignments m (sg_existing g)) (\<lambda>released.
     bnd (reload_if (released \<noteq> 0)) (\<lambda>_.
     bnd (on_pass (remember_vidpids (sg_present g))) (\<lambda>_.
     bnd (on_pass (expire_exclusions (dhas (sg_present g)) (of_int (st_exclude s)) (sg_now g))) (\<lambda>_.
     on_disk (recover_quarantine (sg_now g))))))))))))"

definition settle_queues ::
    "'h machine \<Rightarrow> (string \<Rightarrow> pyval option) \<Rightarrow> (string, pyval) dict option \<Rightarrow> ('h, unit) op" where
  "settle_queues m decode base =
     bnd (run_post_prov_retry_queue m decode base) (\<lambda>retried.
     bnd (if retried then save_pass else ret ()) (\<lambda>_.
     bnd (run_post_prov_reboot_queue m base) (\<lambda>rebooted.
     if rebooted then save_pass else ret ())))"

section \<open>The kernel log\<close>

definition DMESG_GREP :: string where
  "DMESG_GREP = ''device descriptor read|unable to enumerate|not accepting address|error -71|error -110|can''
     @ [CHR 39] @ ''t set config|cannot enable port|reset .*fail''"

definition journal_argv :: "string list" where
  "journal_argv = [''journalctl'', ''-k'', ''--no-pager'', ''-o'', ''cat'', ''--since'', ''-180s'', ''-n'', ''2000'']"

text \<open>The filtered query, and the plain one where journalctl has no filter.\<close>

definition scan_dmesg_usb_errors :: "'h machine \<Rightarrow> ('h, (string, nat) dict) op" where
  "scan_dmesg_usb_errors m =
     except_any
       (bnd (sh m (journal_argv @ [''-g'', DMESG_GREP]) 10 False) (\<lambda>(rc, out, err).
        bnd (if rc \<noteq> 0 then sh m journal_argv 10 False else ret (rc, out, err)) (\<lambda>(rc', out', err').
        ret (if rc' \<noteq> 0 \<or> out' = [] then [] else count_usb_errors (splitlines out')))))
       (\<lambda>e. ret [])"

definition noisy_reason :: "nat \<Rightarrow> string" where
  "noisy_reason n = ''kernel USB errors ('' @ str_int (int n) @ '' in 180s)''"

definition quarantine_faulty :: "'h machine \<Rightarrow> (string, dongle) dict \<Rightarrow> ('h, unit) op" where
  "quarantine_faulty m present =
     bnd (scan_dmesg_usb_errors m) (\<lambda>errs.
     bnd (of_pass bus_to_vmid) (\<lambda>b2v.
     bnd (now_s m) (\<lambda>t.
     on_disk (quarantine_noisy (\<lambda>bus. dhas present bus \<or> dhas b2v bus) noisy_reason t errs))))"

section \<open>The sweeps of an enabled pass\<close>

definition limits :: "(string, pyval) dict \<Rightarrow> int \<times> int \<times> int" where
  "limits usb = (pct_setting usb ''cpu_provision_threshold'' 80, pct_setting usb ''cpu_provision_ceiling'' 90,
                 pct_setting usb ''mem_provision_threshold'' 80)"

text \<open>The published halt; the percentages are rounded to one decimal by the source and exact here.\<close>

definition halt_of :: "(string, pyval) dict \<Rightarrow> readings \<Rightarrow> rat \<Rightarrow> halt option" where
  "halt_of usb r now =
     (case limits usb of (cpu, ceil, mem) \<Rightarrow>
        if over_threshold (rd_cpu r) cpu \<or> over_threshold (rd_mem r) mem
        then Some \<lparr>ht_reason = (if over_threshold (rd_cpu r) cpu then ''cpu'' else ''mem''), ht_cpu = rd_cpu r,
                   ht_cpu_limit = cpu, ht_mem = rd_mem r, ht_mem_limit = mem, ht_ts = trunc now\<rparr>
        else None)"

text \<open>A watchdog of the guests runs when its interval is over; what it raises is only logged.\<close>

definition on_interval ::
    "(brain \<Rightarrow> rat) \<Rightarrow> (brain \<Rightarrow> brain) \<Rightarrow> rat \<Rightarrow> ('h, nat) op \<Rightarrow> ('h, unit) op" where
  "on_interval seen stamp now p =
     bnd (peek (\<lambda>w. seen (brain_of w))) (\<lambda>t.
     if now - t < HEALTH_CHECK_INTERVAL_S then ret ()
     else
       bnd (on_brain stamp) (\<lambda>_.
       except_any (bnd p (\<lambda>n. reload_if (n \<noteq> 0))) (\<lambda>e. ret ())))"

definition sweep_fleet ::
    "'h machine \<Rightarrow> ((string, dongle) dict \<Rightarrow> ('h, nat) op) \<Rightarrow> ('h, nat) op \<Rightarrow> (string, pyval) dict option
     \<Rightarrow> (string, pyval) dict \<Rightarrow> settings \<Rightarrow> readings \<Rightarrow> sighting \<Rightarrow> int list \<Rightarrow> ('h, int list \<times> rat) op" where
  "sweep_fleet m health names base usb s r g torn =
     bnd (evict_out_of_range m base (st_start s) (st_end s) torn) (\<lambda>torn1.
     bnd (on_brain (\<lambda>b. b\<lparr>br_halt := halt_of usb r (sg_now g)\<rparr>)) (\<lambda>_.
     bnd (peek (\<lambda>w. load_delete_gate_cooldown (store w))) (\<lambda>c.
     bnd (lift c) (\<lambda>cooldown.
     bnd (on_pass (migrate_buses (sg_present g))) (\<lambda>_.
     bnd (quarantine_faulty m (sg_present g)) (\<lambda>_.
     bnd (tear_down_missing m base (sg_present g) (of_int (st_missing s)) (sg_now g) torn1) (\<lambda>torn2.
     bnd (reclone_detached m base (sg_present g) (of_int (st_missing s)) (sg_now g) torn2) (\<lambda>torn3.
     bnd (on_interval br_health (\<lambda>b. b\<lparr>br_health := sg_now g\<rparr>) (sg_now g) (health (sg_present g))) (\<lambda>_.
     bnd (on_interval br_names (\<lambda>b. b\<lparr>br_names := sg_now g\<rparr>) (sg_now g) names) (\<lambda>_.
     bnd (list_all_vmids m) (\<lambda>existing.
     bnd (vmid_gap_audit m base (st_start s) (st_end s) (sg_now g) (set existing) (sg_present g)) (\<lambda>_.
     bnd save_pass (\<lambda>_.
     ret (torn3, cooldown))))))))))))))"

section \<open>The gates\<close>

text \<open>Rounding to an integer, halves to the even neighbour, as the format \<open>.0f\<close> does.\<close>

definition half_even :: "rat \<Rightarrow> int" where
  "half_even r =
     (let f = \<lfloor>r\<rfloor>; d = r - of_int f in
      if d < 1/2 then f else if 1/2 < d then f + 1 else if even f then f else f + 1)"

definition over_text :: "string \<Rightarrow> rat option \<Rightarrow> int \<Rightarrow> string" where
  "over_text what v limit =
     what @ (case v of None \<Rightarrow> [] | Some x \<Rightarrow> str_int (half_even x)) @ ''% >= '' @ str_int limit @ ''%''"

text \<open>What keeps a pass from cloning, if anything, in the order the reasons are tried.\<close>

definition clone_block :: "(string, pyval) dict \<Rightarrow> readings \<Rightarrow> bool \<Rightarrow> rat \<Rightarrow> rat \<Rightarrow> string option" where
  "clone_block usb r shed cooldown now =
     (case limits usb of (cpu, ceil, mem) \<Rightarrow>
        if now < cooldown then Some (''delete cooldown ('' @ str_int (trunc (cooldown - now)) @ ''s left)'')
        else if shed then Some ''delete just queued''
        else if over_threshold (rd_instant r) ceil then Some (over_text ''cpu ceiling '' (rd_instant r) ceil)
        else if over_threshold (rd_cpu r) cpu then Some (over_text ''cpu '' (rd_cpu r) cpu)
        else if over_threshold (rd_mem r) mem then Some (over_text ''mem '' (rd_mem r) mem)
        else None)"

text \<open>Every way a pass ends: the reason is published, the counts are reported.\<close>

definition ended :: "string \<Rightarrow> int \<Rightarrow> int list \<Rightarrow> ('h, pass_report) op" where
  "ended reason n torn =
     bnd (on_brain (\<lambda>b. b\<lparr>br_reason := reason\<rparr>)) (\<lambda>_.
     ret \<lparr>ps_provisioned = n, ps_torn_down = int (length torn)\<rparr>)"

section \<open>The PCI tiers\<close>

definition as_items :: "string set \<Rightarrow> pyval list" where
  "as_items vidpids = map PStr (sorted_list_of_set vidpids)"

definition provision_controllers ::
    "'h machine \<Rightarrow> (string \<Rightarrow> pyval option) \<Rightarrow> (string, pyval) dict option \<Rightarrow> string \<Rightarrow> (string, pyval) dict
     \<Rightarrow> settings \<Rightarrow> ('h, nat) op" where
  "provision_controllers m decode base hostname usb s =
     (let tier = (\<lambda>name excluded vidpids.
                    if excluded then ret 0
                    else provision_pci_tier m decode (resolve_protected_vmids base) usb True name (as_items vidpids)
                           (Some (im_template (hd (st_images s)))) (st_start s) (st_end s)) in
      bnd (tier ''t1'' (host_t1_excluded hostname usb) (t1_pci_vidpids decode usb)) (\<lambda>t1.
      bnd (tier ''t3'' (host_t3_excluded hostname usb) (t3_pci_vidpids decode usb)) (\<lambda>t3.
      bnd (if t1 + t3 \<noteq> 0 then save_pass else ret ()) (\<lambda>_.
      ret (t1 + t3)))))"

section \<open>The clones\<close>

text \<open>
  A run is published with one item per dongle; an item that has no VMID yet counts as 0. What one
  clone raises is its own failure: it keeps its admission number, and the others go on.
\<close>

definition new_item :: "(string, dongle) dict \<Rightarrow> string \<Rightarrow> prov_item" where
  "new_item present bus =
     \<lparr>pi_vmid = 0, pi_status = ''provisioning'', pi_bus = bus,
      pi_vidpid = (case dget present bus of None \<Rightarrow> [] | Some d \<Rightarrow> dg_vidpid d)\<rparr>"

definition try_one ::
    "'h machine \<Rightarrow> (string \<Rightarrow> pyval option) \<Rightarrow> ('h, (rat \<times> rat) list) op \<Rightarrow> batch_env \<Rightarrow> (string \<Rightarrow> bool)
     \<Rightarrow> string \<Rightarrow> batch_state \<Rightarrow> ('h, batch_state) op" where
  "try_one m decode stats env live bus b =
     except_any (provision_one m decode stats env live bus b)
       (\<lambda>e. ret (with_result False (b\<lparr>bs_admitted := Suc (bs_admitted b)\<rparr>)))"

definition open_run :: "rat \<Rightarrow> (string, dongle) dict \<Rightarrow> string list \<Rightarrow> ('h, unit) op" where
  "open_run now present ordered =
     modify (\<lambda>w. w\<lparr>prov_running := True, prov_items := map (new_item present) ordered,
       brain_of := (brain_of w)\<lparr>br_started := trunc now, br_total := length ordered, br_done := 0, br_failed := 0\<rparr>\<rparr>)"

definition close_run :: "nat \<Rightarrow> nat \<Rightarrow> ('h, nat) op" where
  "close_run all_of finished =
     bnd (peek (\<lambda>w. length (filter (\<lambda>it. pi_status it = ''cancelled'') (prov_items w)))) (\<lambda>cancelled.
     bnd (modify (\<lambda>w. w\<lparr>prov_running := False,
            brain_of := (brain_of w)\<lparr>br_done := finished, br_cancelled := cancelled,
                                     br_failed := all_of - finished - cancelled\<rparr>\<rparr>)) (\<lambda>_.
     ret cancelled))"

definition run_reason :: "nat \<Rightarrow> nat \<Rightarrow> nat \<Rightarrow> string" where
  "run_reason all_of finished cancelled =
     (if cancelled \<noteq> 0
      then ''auto-provision turned off mid-batch '' @ em_dash @ '' provisioned '' @ str_int (int finished)
           @ '', cancelled '' @ str_int (int cancelled) @ '' of '' @ str_int (int all_of)
      else ''provisioning: attempted '' @ str_int (int all_of) @ '', provisioned '' @ str_int (int finished))"

definition template_ids :: "settings \<Rightarrow> int set" where
  "template_ids s =
     set (filter (\<lambda>t. 0 < t) (map im_template (st_images s) @ map the (filter (\<lambda>t. t \<noteq> None) [st_img1 s, st_img2 s])))"

definition clone_env ::
    "(string, pyval) dict option \<Rightarrow> (string, pyval) dict \<Rightarrow> settings \<Rightarrow> readings \<Rightarrow> (string, dongle) dict \<Rightarrow> batch_env" where
  "clone_env base usb s r present =
     (case limits usb of (cpu, ceil, mem) \<Rightarrow>
        \<lparr>be_cfg = base, be_usb = usb, be_start = st_start s, be_end = st_end s, be_concurrency = st_concurrency s,
         be_ceiling = ceil, be_mem_avg = rd_mem r, be_mem_limit = mem, be_images = st_images s,
         be_templates = template_ids s, be_present = present\<rparr>)"

definition clone_batch ::
    "'h machine \<Rightarrow> (string \<Rightarrow> pyval option) \<Rightarrow> ('h, (rat \<times> rat) list) op \<Rightarrow> batch_env \<Rightarrow> (string \<Rightarrow> bool)
     \<Rightarrow> rat \<Rightarrow> string list \<Rightarrow> nat \<Rightarrow> int list \<Rightarrow> ('h, pass_report) op" where
  "clone_batch m decode stats env live now ordered pci torn =
     bnd (list_all_vmids m) (\<lambda>existing.
     bnd (open_run now (be_present env) ordered) (\<lambda>_.
     bnd (iter (try_one m decode stats env live) ordered
            \<lparr>bs_admitted = 0, bs_paced = False, bs_toggled = False, bs_existing = set existing, bs_results = []\<rparr>) (\<lambda>b.
     bnd save_pass (\<lambda>_.
     let finished = length (filter id (bs_results b)) in
     bnd (close_run (length ordered) finished) (\<lambda>cancelled.
     ended (run_reason (length ordered) finished cancelled) (int (finished + pci)) torn)))))"

text \<open>The dongles of the pass, after the slot cap.\<close>

definition place_dongles ::
    "'h machine \<Rightarrow> (string \<Rightarrow> pyval option) \<Rightarrow> ('h, (rat \<times> rat) list) op \<Rightarrow> (string \<Rightarrow> bool)
     \<Rightarrow> (string, pyval) dict option \<Rightarrow> (string, pyval) dict \<Rightarrow> settings \<Rightarrow> readings \<Rightarrow> sighting \<Rightarrow> nat \<Rightarrow> int list
     \<Rightarrow> ('h, pass_report) op" where
  "place_dongles m decode stats live base usb s r g pci torn =
     bnd (of_pass (\<lambda>st. int (length (vmid_to_bus st)))) (\<lambda>active.
     if st_slots s \<le> active then ended ''slot cap reached'' (int pci) torn
     else
       bnd (peek (\<lambda>w. dongle_standing (pass_state w) (read_quarantine (store w)) (st_phy s) (st_use_all s))) (\<lambda>f.
       let ordered = ordered_dongles (hub_reserve_enabled usb) f (sg_present g) in
       if ordered = []
       then ended (build_idle_reason (culled_groups f (sg_present g)) (sg_present g \<noteq> []) (st_phy s)) (int pci) torn
       else clone_batch m decode stats (clone_env base usb s r (sg_present g)) live (sg_now g) ordered pci torn))"

text \<open>A run that is still marked active stops the pass, unless it is older than ten minutes.\<close>

definition run_is_stuck :: "rat \<Rightarrow> 'h world \<Rightarrow> bool" where
  "run_is_stuck now w =
     (br_started (brain_of w) \<noteq> 0 \<and> PROV_RUN_STUCK_S < now - of_int (br_started (brain_of w)))"

definition clear_stuck_run :: "'h world \<Rightarrow> 'h world" where
  "clear_stuck_run w =
     w\<lparr>prov_running := False, prov_items := [],
       brain_of := (brain_of w)\<lparr>br_started := 0, br_total := 0, br_done := 0, br_failed := 0\<rparr>\<rparr>"

definition provision_fleet ::
    "'h machine \<Rightarrow> (string \<Rightarrow> pyval option) \<Rightarrow> ('h, (rat \<times> rat) list) op \<Rightarrow> (string \<Rightarrow> bool)
     \<Rightarrow> (string, pyval) dict option \<Rightarrow> string \<Rightarrow> (string, pyval) dict \<Rightarrow> settings \<Rightarrow> readings \<Rightarrow> sighting
     \<Rightarrow> bool \<Rightarrow> rat \<Rightarrow> int list \<Rightarrow> ('h, pass_report) op" where
  "provision_fleet m decode stats live base hostname usb s r g shed cooldown torn =
     (if usb = [] then ended ''usb_config not delivered yet'' 0 torn
      else if st_images s = [] then ended ''no template ids configured'' 0 torn
      else case clone_block usb r shed cooldown (sg_now g) of
        Some why \<Rightarrow> ended (''resource gate ('' @ why @ '')'') 0 torn
      | None \<Rightarrow>
          bnd (provision_controllers m decode base hostname usb s) (\<lambda>pci.
          bnd (peek prov_running) (\<lambda>running.
          bnd (peek (run_is_stuck (sg_now g))) (\<lambda>stuck.
          if running \<and> \<not> stuck then ended ''prov_run active'' (int pci) torn
          else
            bnd (if running then modify clear_stuck_run else ret ()) (\<lambda>_.
            place_dongles m decode stats live base usb s r g pci torn)))))"

section \<open>The pass\<close>

definition early_gate ::
    "'h machine \<Rightarrow> (string \<Rightarrow> pyval option) \<Rightarrow> (string, pyval) dict option \<Rightarrow> (string, pyval) dict
     \<Rightarrow> ('h, int list) op" where
  "early_gate m decode base usb =
     (if toggle_on usb
      then bnd (run_delete_gate m decode base usb) (\<lambda>(shed, report). ret (case shed of None \<Rightarrow> [] | Some v \<Rightarrow> [v]))
      else ret [])"

definition run_provision_loop ::
    "'h machine \<Rightarrow> (string \<Rightarrow> pyval option) \<Rightarrow> ('h, (rat \<times> rat) list) op
     \<Rightarrow> ((string, dongle) dict \<Rightarrow> ('h, nat) op) \<Rightarrow> ('h, nat) op \<Rightarrow> (string \<Rightarrow> bool)
     \<Rightarrow> (string, pyval) dict option \<Rightarrow> string \<Rightarrow> (string, pyval) dict \<Rightarrow> ('h, pass_report) op" where
  "run_provision_loop m decode stats health names live base hostname usb =
     bnd (lift (dongle_vidpids decode usb)) (\<lambda>vidpids.
     bnd (now_s m) (\<lambda>t.
     bnd (on_brain (\<lambda>b. b\<lparr>br_seen := t\<rparr>)) (\<lambda>_.
     bnd (peek (\<lambda>w. br_paused (brain_of w))) (\<lambda>paused.
     if paused then ended ''template refresh in progress'' 0 []
     else
       bnd (on_brain (\<lambda>b. b\<lparr>br_auto := toggle_on usb\<rparr>)) (\<lambda>_.
       bnd (early_gate m decode base usb) (\<lambda>early.
       if vidpids = {} then ended ''no dongle_vidpids configured'' 0 early
       else
         bnd (read_settings m decode hostname usb vidpids) (\<lambda>s.
         bnd (read_load m) (\<lambda>r.
         bnd (take_stock m s) (\<lambda>g.
         bnd (repair_tracking m s g) (\<lambda>_.
         bnd (settle_queues m decode base) (\<lambda>_.
         if \<not> toggle_on usb
         then bnd save_pass (\<lambda>_.
              bnd (on_brain (\<lambda>b. b\<lparr>br_halt := None\<rparr>)) (\<lambda>_.
              ended ''auto-provision disabled'' 0 []))
         else
           bnd (sweep_fleet m health names base usb s r g early) (\<lambda>(torn, cooldown).
           provision_fleet m decode stats live base hostname usb s r g (early \<noteq> []) cooldown torn))))))))))))"

section \<open>What a pass does to the outside\<close>

text \<open>Without the watchdogs and the clones, every step stays inside a set of events without \<open>qm clone\<close>.\<close>

context no_clone
begin

lemma pass_marks [emits_intro]:
  "emits P (on_pass f)" "emits P (of_pass g)" "emits P load_pass" "emits P save_pass" "emits P (reload_if b)"
  "emits P (on_brain h)" "emits P (ended reason n torn)"
  by (auto simp: on_pass_def of_pass_def load_pass_def save_pass_def reload_if_def on_brain_def ended_def
      intro!: emits_intro emits_modify)

lemma listing [emits_intro]: "emits P (list_all_vmids m)"
  by (auto simp: list_all_vmids_def intro!: emits_intro)

lemma quiet_destroys [emits_intro]:
  "emits P (destroy_quietly m cfg pr bus vid)" "emits P (tear_down_logged m cfg b vmid torn)"
  by (auto simp: destroy_quietly_def tear_down_logged_def intro!: emits_intro)

lemma settings [emits_intro]:
  "emits P (resolve_images m decode usb one two pct)" "emits P (read_settings m decode hostname usb vidpids)"
proof -
  show i: "emits P (resolve_images m decode usb one two pct)" for one two pct
    unfolding resolve_images_def image_at_def Let_def by (intro emits_intro emits_iter)
  show "emits P (read_settings m decode hostname usb vidpids)"
    unfolding read_settings_def by (intro emits_intro i)
qed

lemma sighting [emits_intro]: "emits P (take_stock m s)" "emits P (read_load m)"
  by (auto simp: take_stock_def read_load_def scan_present_dongles_def scan_one_def read_sysfs_def device_vidpid_def Let_def
      intro!: emits_intro emits_iter)

lemma tracking [emits_intro]:
  "emits P (vm_usb_bus m vid)" "emits P (vm_has_usb_passthrough m vid)" "emits P (vm_has_pci_passthrough m vid)"
  "emits P (reconcile_vm_configs m lo hi here now ex)" "emits P (release_stale_assignments m ex)"
  by (auto simp: vm_usb_bus_def vm_has_usb_passthrough_def vm_has_pci_passthrough_def reconcile_vm_configs_def retrack_vm_def
      release_stale_assignments_def release_one_def is_stale_def Let_def intro!: emits_intro emits_iter split: option.splits)

lemma repairs [emits_intro]: "emits P (repair_tracking m s g)"
  by (auto simp: repair_tracking_def intro!: emits_intro)

lemma resets [emits_intro]: "emits P (vm_action_any m vid ''reboot'' k None opts)"
  by (auto simp: vm_action_any_def lower_def lower_char_def Let_def intro!: emits_intro split: if_splits)

lemma queues [emits_intro]: "emits P (settle_queues m decode base)"
  by (auto simp: settle_queues_def run_post_prov_retry_queue_def retry_one_def run_post_prov_reboot_queue_def reboot_one_def
      retry_due_def reboot_due_def run_update_def settle_reboot_def Let_def intro!: emits_intro emits_iter split: option.splits)

end

text \<open>The gate and the sweeps do not clone either.\<close>

context no_clone
begin

lemma pci_reads [emits_intro]:
  "emits P (pci_passthrough_vidpids m vid k)" "emits P (free_pci_controllers m vps)"
  by (auto simp: pci_passthrough_vidpids_def lspci_vidpid_def build_lspci_map_def vm_config_text_def live_config_text_def
      resolve_addr_def free_pci_controllers_def list_host_pci_by_vidpid_def pci_addrs_in_use_def add_pci_of_def Let_def
      intro!: emits_intro emits_iter emits_modify split: option.splits)

lemma gate_picks [emits_intro]: "emits P (pick_candidate m pci cs)"
  by (induction cs) (auto simp: skip_candidate_def intro!: emits_intro)

lemma gate [emits_intro]: "emits P (run_delete_gate m decode base usb)"
  by (auto simp: run_delete_gate_def gate_attempt_def shed_newest_def shed_vm_def unmark_deleting_def provisioning_vmids_def
      Let_def intro!: emits_intro emits_modify split: option.splits)

lemma eviction [emits_intro]: "emits P (evict_out_of_range m cfg lo hi torn)"
  by (auto simp: evict_out_of_range_def evict_one_def intro!: emits_intro emits_iter)

lemma kernel_log [emits_intro]: "emits P (quarantine_faulty m present)"
  by (auto simp: quarantine_faulty_def scan_dmesg_usb_errors_def journal_argv_def intro!: emits_intro)

lemma missing [emits_intro]: "emits P (tear_down_missing m cfg present timeout now torn)"
  by (auto simp: tear_down_missing_def missing_one_def intro!: emits_intro emits_iter)

lemma attachment [emits_intro]: "emits P (any_usbfs m es)"
  by (induction es) (auto intro!: emits_intro)

lemma detached [emits_intro]: "emits P (reclone_detached m cfg present timeout now torn)"
  by (auto simp: reclone_detached_def detach_one_def detached_running_def detach_effect_def bus_attached_def
      vm_running_def cold_restart_def Let_def intro!: emits_intro emits_iter split: detach_step.splits)

lemma gap_search [emits_intro]: "emits P (lowest_gap m act ex cs)"
  by (induction cs) (auto simp: occupied_def intro!: emits_intro)

lemma audit [emits_intro]: "emits P (vmid_gap_audit m cfg lo hi now ex present)"
  by (auto simp: vmid_gap_audit_def gap_target_def shed_for_gap_def provisioning_vmids_def Let_def
      intro!: emits_intro split: option.splits sum.splits)

lemma sweeps [emits_intro]:
  assumes "\<And>present. emits P (health present)" "emits P names"
  shows "emits P (sweep_fleet m health names base usb s r g torn)"
  unfolding sweep_fleet_def on_interval_def by (intro emits_intro assms)

end

section \<open>Closed gates\<close>

definition calm :: "event \<Rightarrow> bool" where
  "calm e = (case e of Cmd a x \<Rightarrow> \<not> clones a | _ \<Rightarrow> True)"

interpretation uncloned: no_clone calm
  by unfold_locales (simp_all add: calm_def)

text \<open>What a pass never changes: the samples of the load.\<close>

locale load_view = rest_view +
  assumes f_brain: "f (w\<lparr>brain_of := b\<rparr>) = f w" and f_pass: "f (w\<lparr>pass_state := st\<rparr>) = f w"
    and f_lspci: "f (w\<lparr>lspci_cache := c\<rparr>) = f w"
begin

lemma keeps_brain [keeps_intro]: "keeps f (on_brain h)"
  unfolding on_brain_def by (intro keeps_modify f_brain)

lemma keeps_picks [keeps_intro]: "keeps f (pick_candidate m pci cs)"
proof -
  have "keeps f (skip_candidate m pci c)" for c
    by (auto simp: skip_candidate_def pci_passthrough_vidpids_def lspci_vidpid_def build_lspci_map_def vm_config_text_def live_config_text_def
      resolve_addr_def f_lspci Let_def intro!: keeps_intro keeps_modify split: option.splits)
  then show ?thesis by (induction cs) (auto intro!: keeps_intro)
qed

lemma keeps_gate [keeps_intro]: "keeps f (early_gate m decode base usb)"
  by (auto simp: early_gate_def run_delete_gate_def gate_attempt_def shed_newest_def shed_vm_def unmark_deleting_def
      provisioning_vmids_def f_deleting Let_def intro!: keeps_intro keeps_modify split: option.splits)

lemma keeps_settings [keeps_intro]: "keeps f (read_settings m decode hostname usb vidpids)"
proof -
  have "keeps f (resolve_images m decode usb one two pct)" for one two pct
    unfolding resolve_images_def image_at_def Let_def by (intro keeps_intro)
  then show ?thesis unfolding read_settings_def by (intro keeps_intro)
qed

end

interpretation load_kept: load_view "\<lambda>w. (cpu_hist w, mem_hist w)"
  by unfold_locales simp_all

lemma keeps_load_readings: "read_load m w = (Inr rd, w') \<Longrightarrow> \<exists>h. rd = \<lparr>rd_cpu = resource_1h_average (m_clock m h) (cpu_hist w),
    rd_mem = resource_1h_average (m_clock m h) (mem_hist w),
    rd_instant = (if cpu_hist w = [] then None else Some (snd (last (cpu_hist w))))\<rparr>"
  by (auto simp: read_load_def now_s_def bnd_def)

text \<open>An operation on one world that runs no \<open>qm clone\<close> and reports no new VM.\<close>

definition idle_at :: "('h, pass_report) op \<Rightarrow> 'h world \<Rightarrow> bool" where
  "idle_at p w \<longleftrightarrow> emits_at calm p w \<and> (\<forall>rep. fst (p w) = Inr rep \<longrightarrow> ps_provisioned rep = 0)"

lemma idle_at_bnd:
  assumes "emits calm p" "\<And>x w1. p w = (Inr x, w1) \<Longrightarrow> idle_at (f x) w1"
  shows "idle_at (bnd p f) w"
  using assms emits_at_bnd [OF emits_at [OF assms(1)], of w f]
  by (fastforce simp: idle_at_def bnd_def split: prod.splits sum.splits)

lemma idle_at_ended: "idle_at (ended why 0 torn) w"
proof -
  have "emits_at calm (ended why 0 torn) w" by (rule emits_at) (rule uncloned.pass_marks)
  then show ?thesis by (auto simp: idle_at_def ended_def on_brain_def bnd_def)
qed

lemma idle_at_if: "(b \<Longrightarrow> idle_at p w) \<Longrightarrow> (\<not> b \<Longrightarrow> idle_at q w) \<Longrightarrow> idle_at (if b then p else q) w"
  by simp

text \<open>The load is too high for a clone, whatever the clock will show.\<close>

definition too_busy :: "'h machine \<Rightarrow> (string, pyval) dict \<Rightarrow> 'h world \<Rightarrow> bool" where
  "too_busy m usb w \<longleftrightarrow> (case limits usb of (cpu, ceil, mem) \<Rightarrow>
     (cpu_hist w \<noteq> [] \<and> of_int ceil \<le> snd (last (cpu_hist w)))
     \<or> (\<forall>h. over_threshold (resource_1h_average (m_clock m h) (cpu_hist w)) cpu
           \<or> over_threshold (resource_1h_average (m_clock m h) (mem_hist w)) mem))"

lemma busy_blocks:
  assumes "too_busy m usb w" "read_load m w = (Inr rd, w')"
  shows "clone_block usb rd shed cooldown now \<noteq> None"
proof -
  obtain cpu ceil mem where lim: "limits usb = (cpu, ceil, mem)" by (cases "limits usb")
  obtain h where rd: "rd = \<lparr>rd_cpu = resource_1h_average (m_clock m h) (cpu_hist w),
    rd_mem = resource_1h_average (m_clock m h) (mem_hist w),
    rd_instant = (if cpu_hist w = [] then None else Some (snd (last (cpu_hist w))))\<rparr>"
    using keeps_load_readings [OF assms(2)] by blast
  from assms(1) consider "cpu_hist w \<noteq> []" "of_int ceil \<le> snd (last (cpu_hist w))"
    | "over_threshold (rd_cpu rd) cpu \<or> over_threshold (rd_mem rd) mem"
    by (auto simp: too_busy_def lim rd)
  then show ?thesis
    by cases (auto simp: clone_block_def lim rd over_threshold_def)
qed

lemma blocked_fleet_idle:
  "clone_block usb rd shed cooldown (sg_now g) \<noteq> None
   \<Longrightarrow> idle_at (provision_fleet m decode stats live base hostname usb s rd g shed cooldown torn) w"
  by (auto simp: provision_fleet_def idle_at_ended split: option.splits)

lemma busy_kept: "(cpu_hist w1, mem_hist w1) = (cpu_hist w, mem_hist w) \<Longrightarrow> too_busy m usb w1 = too_busy m usb w"
  by (simp add: too_busy_def)

text \<open>For any two watchdogs that do not clone.\<close>

lemma closed_gates_idle:
  assumes "br_paused (brain_of w) \<or> \<not> toggle_on usb \<or> too_busy m usb w"
    and "\<And>present. emits calm (health present)" "emits calm names"
  shows "\<exists>es. trace (snd (run_provision_loop m decode stats health names live base hostname usb w)) = trace w @ es
           \<and> list_all calm es
           \<and> (\<forall>rep. fst (run_provision_loop m decode stats health names live base hostname usb w) = Inr rep
                 \<longrightarrow> ps_provisioned rep = 0)"
proof -
  let ?load = "\<lambda>w. (cpu_hist w, mem_hist w)"
  note steps = uncloned.pass_marks uncloned.gate uncloned.settings uncloned.sighting uncloned.repairs uncloned.queues
    uncloned.sweeps [OF assms(2,3)]
  have early: "emits calm (early_gate m decode base usb)"
    by (auto simp: early_gate_def intro!: emits_intro steps split: option.splits)
  have idle: "idle_at (run_provision_loop m decode stats health names live base hostname usb) w"
    unfolding run_provision_loop_def
  proof (intro idle_at_bnd idle_at_if idle_at_ended emits_intro steps early, goal_cases)
    case (3 _ w1 _ w2 _ w3 paused w4 _ w5 early w6 _ w7 rd w8 g)
    have "?load w7 = ?load w"
      using keepsD [OF load_kept.keeps_settings 3(9)] keepsD [OF load_kept.keeps_gate 3(7)] 3(1,2,4)
        keepsD [OF load_kept.keeps_brain 3(6)] keepsD [OF load_kept.keeps_brain 3(3)]
      by (simp add: now_s_def)
    moreover have "br_paused (brain_of w) = paused"
      using 3(1-4) by (auto simp: now_s_def on_brain_def)
    ultimately have "too_busy m usb w7" using assms(1) 3(5,14) busy_kept by blast
    from busy_blocks [OF this 3(10)] show ?case by (simp add: blocked_fleet_idle split: prod.split)
  qed (use assms in simp_all)
  then show ?thesis by (auto simp: idle_at_def emits_at_def)
qed

end
