(* ===== verification/Health.thy ===== *)
theory Health
  imports Sweeps HostOps
begin

text \<open>
  The dongle-health watchdog of a provisioning pass (\<open>agent/src/usb_provision.py\<close>): the probes it
  runs inside the guests, the recovery ladders, and the sweep over the tracked clients. Of a probe
  result only the class is kept here, not the copy of the booleans that the state file carries for
  display.
\<close>

section \<open>Probes inside a guest\<close>

definition dquote :: string where "dquote = [char_of (34::nat)]"

definition probe_netdev_present :: string where
  "probe_netdev_present =
     ''ls /sys/class/net 2>/dev/null | grep -qE '' @ quote @ ''^wl'' @ quote"

definition probe_associated :: string where
  "probe_associated =
     ''ip route show default 2>/dev/null | grep -qE '' @ quote @ ''dev wl'' @ quote"

definition probe_gateway_ok :: string where
  "probe_gateway_ok =
     ''ping -c1 -W2 '' @ dquote @ ''$(ip route 2>/dev/null | awk '' @ quote
     @ ''/default/{print $3; exit}'' @ quote @ '')'' @ dquote @ '' >/dev/null 2>&1''"

definition probe_driver_crash :: string where
  "probe_driver_crash =
     ''dmesg 2>/dev/null | tail -300 | grep -qiE '' @ quote
     @ ''firmware crash|deauthenticat|rtw.*fail|rtl8.*firmware'' @ quote"

definition probe_sees_aps :: string where
  "probe_sees_aps =
     ''nmcli -t -f SSID dev wifi list --rescan no 2>/dev/null | grep -q . || iw dev '' @ dquote
     @ ''$(ls /sys/class/net 2>/dev/null | grep -m1 -E '' @ quote @ ''^wl'' @ quote @ '')'' @ dquote
     @ '' scan dump 2>/dev/null | grep -q '' @ quote @ ''^BSS'' @ quote"

definition probe_radio_dead_hint :: string where
  "probe_radio_dead_hint =
     ''W=$(ls /sys/class/net 2>/dev/null | grep -m1 -E '' @ quote @ ''^wl'' @ quote @ ''); [ -n ''
     @ dquote @ ''$W'' @ dquote @ '' ] || exit 1; tp=$(iw dev '' @ dquote @ ''$W'' @ dquote
     @ '' info 2>/dev/null | sed -n '' @ quote @ ''s/.*txpower '' @ backslash @ ''(-'' @ backslash
     @ ''{0,1'' @ backslash @ ''}[0-9]'' @ backslash @ ''{1,'' @ backslash @ ''}'' @ backslash @ '').*/''
     @ backslash @ ''1/p'' @ quote @ '' | head -1); [ -n '' @ dquote @ ''$tp'' @ dquote @ '' ] && [ ''
     @ dquote @ ''$tp'' @ dquote @ '' -le -50 ]''"

definition scan_script :: string where
  "scan_script =
     ''W=$(ls /sys/class/net 2>/dev/null | grep -m1 -E '' @ quote @ ''^wl'' @ quote @ ''); [ -n ''
     @ dquote @ ''$W'' @ dquote @ '' ] || exit 1; ip link set '' @ dquote @ ''$W'' @ dquote
     @ '' up 2>/dev/null; iw dev '' @ dquote @ ''$W'' @ dquote @ '' scan 2>&1 | grep -qiE '' @ quote
     @ ''not permitted|not supported|network is down|resource busy'' @ quote"

definition sim_script :: string where
  "sim_script =
     ''set +e; [ -r /usr/local/scripts/simulation.conf ] || exit 3; . /usr/local/scripts/ini-parser.sh ''
     @ ''>/dev/null 2>&1 || exit 3; . /usr/local/scripts/common.sh    >/dev/null 2>&1 || ''
     @ ''exit 3; process_ini_file /usr/local/scripts/simulation.conf >/dev/null 2>&1 || exit ''
     @ ''3; derive_username >/dev/null 2>&1; derive_bucket >/dev/null 2>&1; sid='' @ dquote
     @ ''s${bucket}'' @ dquote @ ''; u=$(get_value '' @ dquote @ ''$username'' @ dquote
     @ '' simulation_id 2>/dev/null); case '' @ dquote @ ''$u'' @ dquote @ '' in s[0-9]) sid='' @ dquote
     @ ''$u'' @ dquote
     @ '';; esac; for k in assoc_fail ssidpw_fail auth_fail port_flap; do   v=$(get_value '' @ dquote
     @ ''$sid'' @ dquote @ '' '' @ dquote @ ''$k'' @ dquote @ '' 2>/dev/null);   [ '' @ dquote @ ''$v''
     @ dquote @ '' = on ] && { echo ACTIVE; exit 0; }; done; echo IDLE; exit 0''"

definition ssid_script :: string where
  "ssid_script =
     ''nmcli -t -f SIGNAL,SSID dev wifi list --rescan no 2>/dev/null | awk -F: '' @ quote
     @ ''NF>1 && $2!='' @ dquote @ dquote @ '' {print $1'' @ dquote @ ''|'' @ dquote @ ''$2}'' @ quote
     @ '' | sort -rn | head -12; test -s /dev/null''"

text \<open>Whether the guest lists the dongle; \<open>None\<close> is unknown.\<close>

definition guest_sees_dongle ::
    "'h machine \<Rightarrow> (string \<Rightarrow> pyval option) \<Rightarrow> int \<Rightarrow> string \<Rightarrow> ('h, bool option) op" where
  "guest_sees_dongle m decode vid vidpid =
     (if vidpid = [] then ret None
      else except_any
        (bnd (qm_agent_ping m 10 (PInt vid) None) (\<lambda>up.
         if \<not> up then ret None
         else qm_guest_exec_shell m decode (''lsusb 2>/dev/null | grep -qiF '' @ quote @ vidpid @ quote) 15 25 (PInt vid) None))
        (\<lambda>e. ret None))"

text \<open>One check: an unknown answer counts as a failed one.\<close>

definition guest_check ::
    "'h machine \<Rightarrow> (string \<Rightarrow> pyval option) \<Rightarrow> int \<Rightarrow> string \<Rightarrow> ('h, bool) op" where
  "guest_check m decode vid script =
     bnd (qm_guest_exec_shell m decode script 15 25 (PInt vid) None) (\<lambda>r. ret (r = Some True))"

definition guest_health_probe ::
    "'h machine \<Rightarrow> (string \<Rightarrow> pyval option) \<Rightarrow> int \<Rightarrow> ('h, probe option) op" where
  "guest_health_probe m decode vid =
     except_any
       (bnd (qm_agent_ping m 10 (PInt vid) None) (\<lambda>up.
        if \<not> up then ret None
        else
          bnd (guest_check m decode vid probe_netdev_present) (\<lambda>netdev.
          bnd (guest_check m decode vid probe_associated) (\<lambda>assoc.
          bnd (guest_check m decode vid probe_gateway_ok) (\<lambda>gateway.
          bnd (guest_check m decode vid probe_driver_crash) (\<lambda>crash.
          bnd (guest_check m decode vid probe_sees_aps) (\<lambda>aps.
          bnd (guest_check m decode vid probe_radio_dead_hint) (\<lambda>hint.
          ret (Some \<lparr>pr_netdev = netdev, pr_associated = assoc, pr_sees_aps = Some aps,
                     pr_radio_dead = hint, pr_gateway = gateway\<rparr>))))))))
       ) (\<lambda>e. ret None)"

text \<open>An active scan; only a refused one proves the radio dead.\<close>

definition guest_radio_scan_refused ::
    "'h machine \<Rightarrow> (string \<Rightarrow> pyval option) \<Rightarrow> int \<Rightarrow> ('h, bool option) op" where
  "guest_radio_scan_refused m decode vid =
     except_any
       (bnd (qm_agent_ping m 10 (PInt vid) None) (\<lambda>up.
        if \<not> up then ret None
        else bnd (qm_guest_exec_shell m decode scan_script 30 45 (PInt vid) None) (\<lambda>r. ret (Some (r = Some True)))))
       (\<lambda>e. ret None)"

definition sim_answer :: "string option \<Rightarrow> bool option" where
  "sim_answer out =
     (case out of
        None \<Rightarrow> None
      | Some t \<Rightarrow> if has_infix ''ACTIVE'' (strip t) then Some True
                  else if has_infix ''IDLE'' (strip t) then Some False else None)"

definition guest_failure_sim_active ::
    "'h machine \<Rightarrow> (string \<Rightarrow> pyval option) \<Rightarrow> int \<Rightarrow> ('h, bool option) op" where
  "guest_failure_sim_active m decode vid =
     except_any (bnd (qm_guest_exec_shell_out m decode sim_script 20 30 (PInt vid) None) (\<lambda>out. ret (sim_answer out)))
       (\<lambda>e. ret None)"

text \<open>The rows \<open>signal|ssid\<close>, each network once.\<close>

fun ssid_rows :: "string list \<Rightarrow> (string \<times> int option) list \<Rightarrow> (string \<times> int option) list" where
  "ssid_rows [] rows = rows"
| "ssid_rows (l # ls) rows =
     (let line = strip l; parts = partition_on (CHR ''|'') line; ssid = strip (snd parts) in
      if line = [] \<or> CHR ''|'' \<notin> set line \<or> ssid = [] \<or> ssid \<in> fst ` set rows then ssid_rows ls rows
      else ssid_rows ls (rows @ [(ssid, parse_int (fst parts))]))"

definition guest_visible_ssids ::
    "'h machine \<Rightarrow> (string \<Rightarrow> pyval option) \<Rightarrow> int \<Rightarrow> ('h, (string \<times> int option) list option) op" where
  "guest_visible_ssids m decode vid =
     except_any (bnd (qm_guest_exec_shell_out m decode ssid_script 20 30 (PInt vid) None)
                   (\<lambda>out. ret (map_option (\<lambda>t. ssid_rows (splitlines t) []) out)))
       (\<lambda>e. ret None)"

section \<open>The ladders\<close>

definition HEALTH_LADDER :: "string list" where
  "HEALTH_LADDER = [''usb_reset'', ''reattach'', ''reboot'', ''reclone'', ''quarantine'']"

definition HEALTH_LADDER_VISIBLE :: "string list" where
  "HEALTH_LADDER_VISIBLE = [''reboot'', ''reclone'', ''quarantine'']"

definition VISIBLE_CONFIRM :: int where "VISIBLE_CONFIRM = 3"
definition HEALTH_MAX_PER_PASS :: nat where "HEALTH_MAX_PER_PASS = 2"

definition new_health :: health_entry where
  "new_health = \<lparr>dh_fails = 0, last_attempt = 0, dh_stage = [], dh_vmid = None\<rparr>"

text \<open>The next stage of a ladder and the record of it, unless the bus is cooling down.\<close>

definition climb :: "rat \<Rightarrow> int \<Rightarrow> string list \<Rightarrow> health_entry \<Rightarrow> (string \<times> health_entry) option" where
  "climb now vid ladder h =
     (if now - last_attempt h < (if dh_stage h = ''reboot'' then REBOOT_BEFORE_RECLONE_S else HEALTH_ATTEMPT_COOLDOWN_S)
      then None
      else
        (let stage = ladder ! nat (min (dh_fails h) (int (length ladder) - 1)) in
         Some (stage, \<lparr>dh_fails = dh_fails h + 1, last_attempt = now, dh_stage = stage, dh_vmid = Some vid\<rparr>)))"

text \<open>The state the sweep works on, how many clients it acted on, and whether to save.\<close>

record health_pass =
  hp_st :: usb_state
  hp_acted :: nat
  hp_dirty :: bool

definition health_of :: "usb_state \<Rightarrow> string \<Rightarrow> health_entry option" where
  "health_of st bus = dget (or_empty_dict (dongle_health st)) bus"

definition set_health :: "string \<Rightarrow> health_entry option \<Rightarrow> usb_state \<Rightarrow> usb_state" where
  "set_health bus e st = st\<lparr>dongle_health := Some (put_opt bus e (or_empty_dict (dongle_health st)))\<rparr>"

text \<open>\<open>dirty = d.pop(bus, None) is not None or dirty\<close>\<close>

definition drop_health :: "string \<Rightarrow> health_pass \<Rightarrow> health_pass" where
  "drop_health bus p =
     p\<lparr>hp_st := set_health bus None (hp_st p), hp_dirty := (health_of (hp_st p) bus \<noteq> None \<or> hp_dirty p)\<rparr>"

definition drop_guest :: "string \<Rightarrow> health_pass \<Rightarrow> health_pass" where
  "drop_guest bus p =
     p\<lparr>hp_st := (hp_st p)\<lparr>guest_health := dpop bus (guest_health (hp_st p))\<rparr>,
       hp_dirty := (dhas (guest_health (hp_st p)) bus \<or> hp_dirty p)\<rparr>"

definition set_guest :: "string \<Rightarrow> gh_entry \<Rightarrow> usb_state \<Rightarrow> usb_state" where
  "set_guest bus e st = st\<lparr>guest_health := dset bus e (guest_health st)\<rparr>"

definition plain_guest :: "string \<Rightarrow> int \<Rightarrow> rat \<Rightarrow> gh_entry" where
  "plain_guest s vid now =
     \<lparr>gh_state = s, gh_cand = None, gh_streak = 0, gh_vmid = vid, gh_at = now, gh_ssids = None, gh_held = None,
      gh_unsure = None\<rparr>"

text \<open>\<open>_set_gh\<close>\<close>

definition note_guest :: "string \<Rightarrow> int \<Rightarrow> rat \<Rightarrow> string \<Rightarrow> health_pass \<Rightarrow> health_pass" where
  "note_guest bus vid now s p =
     p\<lparr>hp_st := set_guest bus (plain_guest s vid now) (hp_st p),
       hp_dirty := (map_option gh_state (dget (guest_health (hp_st p)) bus) \<noteq> Some s \<or> hp_dirty p)\<rparr>"

definition forget_client :: "string \<Rightarrow> int \<Rightarrow> usb_state \<Rightarrow> usb_state" where
  "forget_client bus vid st =
     set_health bus None (st\<lparr>bus_to_vmid := dpop bus (bus_to_vmid st), vmid_to_bus := dpop (str_int vid) (vmid_to_bus st),
                             guest_health := dpop bus (guest_health st)\<rparr>)"

section \<open>Stages\<close>

definition record_reset :: "'h machine \<Rightarrow> string \<Rightarrow> ('h, unit) op" where
  "record_reset m bus = bnd (now_s m) (\<lambda>t. on_disk (record_port_reset bus t))"

definition usb_port_reset :: "'h machine \<Rightarrow> string \<Rightarrow> ('h, bool) op" where
  "usb_port_reset m bus =
     (let path = sys_path bus ''authorized'' in
      bnd (change_file m (WriteText path ''0'')) (\<lambda>off.
      if \<not> off then ret False
      else
        bnd (change_file m (WriteText path ''1'')) (\<lambda>on.
        if \<not> on then ret False
        else bnd (record_reset m bus) (\<lambda>_. ret True))))"

definition usb_key :: "string \<Rightarrow> (string, string) dict \<Rightarrow> string option" where
  "usb_key bus conf =
     (case filter (\<lambda>(k, v). has_prefix ''usb'' k \<and> has_infix (''host='' @ bus) v) conf of
        [] \<Rightarrow> None | p # _ \<Rightarrow> Some (fst p))"

definition reattach_usb :: "'h machine \<Rightarrow> int \<Rightarrow> string \<Rightarrow> ('h, bool) op" where
  "reattach_usb m vid bus =
     bnd (record_reset m bus) (\<lambda>_.
     bnd (except_any (qm_config m vid) (\<lambda>e. ret [])) (\<lambda>conf.
     case usb_key bus conf of
       None \<Rightarrow> ret False
     | Some key \<Rightarrow>
         bnd (sh m [''qm'', ''set'', str_int vid, ''-delete'', key] 30 False) (\<lambda>_.
         bnd (pause m 1) (\<lambda>_.
         bnd (sh m [''qm'', ''set'', str_int vid, ''-'' @ key, ''host='' @ bus] 30 False) (\<lambda>_.
         ret True)))))"

text \<open>The stage proper; the result tells whether the VM was destroyed.\<close>

definition unrecoverable :: "string \<Rightarrow> string" where
  "unrecoverable reason = ''dongle unrecoverable '' @ em_dash @ '' '' @ reason"

definition run_stage ::
    "'h machine \<Rightarrow> (string, pyval) dict option \<Rightarrow> string \<Rightarrow> int \<Rightarrow> string \<Rightarrow> string \<Rightarrow> ('h, bool) op" where
  "run_stage m cfg bus vid reason stage =
     except_any
       (if stage = ''usb_reset'' then bnd (usb_port_reset m bus) (\<lambda>_. ret False)
        else if stage = ''reattach'' then bnd (reattach_usb m vid bus) (\<lambda>_. ret False)
        else if stage = ''reboot'' then
          bnd (qm_stop_force m (PInt vid) None) (\<lambda>_.
          bnd (pause m 2) (\<lambda>_.
          bnd (qm_start m (PInt vid) None) (\<lambda>_. ret False)))
        else if stage = ''reclone'' then
          bnd (destroy_vm m cfg (Some bus) None False (PInt vid)) (\<lambda>_. ret True)
        else if stage = ''quarantine'' then
          bnd (now_s m) (\<lambda>t.
          bnd (on_disk (quarantine_bus bus (unrecoverable reason) t)) (\<lambda>_.
          bnd (destroy_vm m cfg (Some bus) None False (PInt vid)) (\<lambda>_. ret True)))
        else ret False)
       (\<lambda>e. ret False)"

definition given_up :: "(string, quarantine_entry) dict \<Rightarrow> string \<Rightarrow> bool" where
  "given_up q bus =
     (case dget q bus of None \<Rightarrow> False | Some e \<Rightarrow> q_permanent e \<or> QUARANTINE_MAX_FAILS \<le> q_fails e)"

definition escalate ::
    "'h machine \<Rightarrow> (string, pyval) dict option \<Rightarrow> rat \<Rightarrow> string \<Rightarrow> int \<Rightarrow> string list \<Rightarrow> string \<Rightarrow> health_pass
     \<Rightarrow> ('h, health_pass) op" where
  "escalate m cfg now bus vid ladder reason p =
     bnd (peek (\<lambda>w. given_up (read_quarantine (store w)) bus)) (\<lambda>skip.
     if skip then ret p
     else
       (let h = (case health_of (hp_st p) bus of None \<Rightarrow> new_health | Some e \<Rightarrow> e) in
        case climb now vid ladder h of
          None \<Rightarrow> ret (p\<lparr>hp_st := set_health bus (Some h) (hp_st p)\<rparr>)
        | Some (stage, h') \<Rightarrow>
            bnd (run_stage m cfg bus vid reason stage) (\<lambda>destroyed.
            ret \<lparr>hp_st = (let st = set_health bus (Some h') (hp_st p) in if destroyed then forget_client bus vid st else st),
                 hp_acted = Suc (hp_acted p), hp_dirty = True\<rparr>)))"

section \<open>One client\<close>

definition health_name :: "health \<Rightarrow> string" where
  "health_name h =
     (case h of Unknown \<Rightarrow> ''unknown'' | NoDriver \<Rightarrow> ''no_driver'' | RadioDead \<Rightarrow> ''radio_dead'' | NoScan \<Rightarrow> ''no_scan''
      | NoAssoc \<Rightarrow> ''no_assoc'' | NoGateway \<Rightarrow> ''no_gateway'' | Healthy \<Rightarrow> ''healthy'')"

text \<open>The streak of equal bad results; only a confirmed one shows.\<close>

definition next_streak :: "health \<Rightarrow> gh_entry option \<Rightarrow> int" where
  "next_streak h g =
     (case g of None \<Rightarrow> 1 | Some e \<Rightarrow> if gh_cand e = Some (health_name h) then gh_streak e + 1 else 1)"

definition candidate ::
    "health \<Rightarrow> int \<Rightarrow> rat \<Rightarrow> int \<Rightarrow> (string \<times> int option) list option \<Rightarrow> gh_entry" where
  "candidate h vid now streak ssids =
     \<lparr>gh_state = (if VISIBLE_CONFIRM \<le> streak then health_name h else ''healthy''), gh_cand = Some (health_name h),
      gh_streak = streak, gh_vmid = vid, gh_at = now, gh_ssids = ssids, gh_held = None, gh_unsure = None\<rparr>"

definition hold :: "string \<Rightarrow> bool \<Rightarrow> bool \<Rightarrow> usb_state \<Rightarrow> usb_state" where
  "hold bus held unsure st =
     st\<lparr>guest_health := map (\<lambda>(b, e). (b, if b = bus then e\<lparr>gh_held := Some held, gh_unsure := Some unsure\<rparr> else e))
          (guest_health st)\<rparr>"

definition visible_but :: "health \<Rightarrow> string" where
  "visible_but h = ''lsusb-visible but '' @ health_name h"

text \<open>What a confirmed fault leads to.\<close>

definition act_on_fault ::
    "'h machine \<Rightarrow> (string \<Rightarrow> pyval option) \<Rightarrow> (string, pyval) dict option \<Rightarrow> rat \<Rightarrow> string \<Rightarrow> int \<Rightarrow> health
     \<Rightarrow> health_pass \<Rightarrow> ('h, health_pass) op" where
  "act_on_fault m decode cfg now bus vid h p =
     (case h of
        NoAssoc \<Rightarrow>
          bnd (guest_failure_sim_active m decode vid) (\<lambda>sim.
          if sim \<noteq> Some False
          then ret (drop_health bus (p\<lparr>hp_st := hold bus True (sim = None) (hp_st p)\<rparr>))
          else escalate m cfg now bus vid HEALTH_LADDER_VISIBLE (visible_but h)
                 (p\<lparr>hp_st := hold bus False False (hp_st p)\<rparr>))
      | NoGateway \<Rightarrow> ret (drop_health bus p)
      | RadioDead \<Rightarrow>
          bnd (guest_radio_scan_refused m decode vid) (\<lambda>refused.
          if refused \<noteq> Some True
          then escalate m cfg now bus vid HEALTH_LADDER_VISIBLE (visible_but NoScan) p
          else escalate m cfg now bus vid [''quarantine'']
                 ''radio never initialised (txpower impossible, scan refused)'' p)
      | _ \<Rightarrow> escalate m cfg now bus vid HEALTH_LADDER_VISIBLE (visible_but h) p)"

definition check_visible ::
    "'h machine \<Rightarrow> (string \<Rightarrow> pyval option) \<Rightarrow> (string, pyval) dict option \<Rightarrow> rat \<Rightarrow> string \<Rightarrow> int
     \<Rightarrow> health_pass \<Rightarrow> ('h, health_pass) op" where
  "check_visible m decode cfg now bus vid p =
     bnd (guest_health_probe m decode vid) (\<lambda>r.
     let h = classify_guest_health r; g = dget (guest_health (hp_st p)) bus; streak = next_streak h g in
     if h = Unknown then ret p
     else if h = Healthy then ret (drop_health bus (note_guest bus vid now ''healthy'' p))
     else
       bnd (if h \<in> {NoScan, NoAssoc, RadioDead} then guest_visible_ssids m decode vid else ret None) (\<lambda>got.
       let ssids = (case got of Some x \<Rightarrow> Some x | None \<Rightarrow> (case g of None \<Rightarrow> None | Some e \<Rightarrow> gh_ssids e));
           p' = p\<lparr>hp_st := set_guest bus (candidate h vid now streak ssids) (hp_st p), hp_dirty := True\<rparr> in
       if streak < VISIBLE_CONFIRM then ret p'
       else act_on_fault m decode cfg now bus vid h p'))"

definition check_client ::
    "'h machine \<Rightarrow> (string \<Rightarrow> pyval option) \<Rightarrow> (string, pyval) dict option \<Rightarrow> (string, dongle) dict \<Rightarrow> rat
     \<Rightarrow> string \<times> string \<Rightarrow> health_pass \<Rightarrow> ('h, health_pass) op" where
  "check_client m decode cfg present now e p =
     (case e of (bus, vmid) \<Rightarrow>
        if HEALTH_MAX_PER_PASS \<le> hp_acted p then ret p
        else case py_int (PStr vmid) of
          Inl x \<Rightarrow> ret p
        | Inr vid \<Rightarrow>
            bnd (if dhas present bus then bus_attached m bus else ret False) (\<lambda>attached.
            if \<not> attached then ret (drop_guest bus (drop_health bus p))
            else
              bnd (except_any (bnd (vm_status m vid) (\<lambda>s. ret (vs_running s))) (\<lambda>e. ret False)) (\<lambda>up.
              if \<not> up then ret (drop_guest bus (drop_health bus p))
              else
                bnd (guest_sees_dongle m decode vid (case dget present bus of None \<Rightarrow> [] | Some d \<Rightarrow> dg_vidpid d)) (\<lambda>seen.
                case seen of
                  None \<Rightarrow> ret p
                | Some True \<Rightarrow> check_visible m decode cfg now bus vid p
                | Some False \<Rightarrow>
                    escalate m cfg now bus vid HEALTH_LADDER ''not visible in guest''
                      (note_guest bus vid now ''not_visible'' p)))))"

section \<open>The sweep\<close>

definition dongle_health_check_and_recover ::
    "'h machine \<Rightarrow> (string \<Rightarrow> pyval option) \<Rightarrow> (string, pyval) dict option \<Rightarrow> (string, dongle) dict \<Rightarrow> ('h, nat) op" where
  "dongle_health_check_and_recover m decode cfg present =
     bnd (peek (\<lambda>w. load_usb_state (store w))) (\<lambda>st.
     bnd (now_s m) (\<lambda>now.
     bnd (iter (check_client m decode cfg present now) (bus_to_vmid st)
            \<lparr>hp_st = st\<lparr>dongle_health := Some (or_empty_dict (dongle_health st))\<rparr>, hp_acted = 0, hp_dirty = False\<rparr>) (\<lambda>p.
     bnd (if hp_dirty p then on_disk (save_usb_state (hp_st p)) else ret ()) (\<lambda>_.
     ret (hp_acted p)))))"

end
