(* ===== verification/Names.thy ===== *)
theory Names
  imports Health
begin

text \<open>
  The hostname audit of a provisioning pass (\<open>hostname_audit_and_restamp\<close> in
  \<open>agent/src/usb_provision.py\<close>): every simulation VM of the host whose guest does not carry its
  own name is stamped again and rebooted, and after three attempts destroyed to be cloned anew.
\<close>

definition HOSTNAME_FIX_MAX :: int where "HOSTNAME_FIX_MAX = 3"
definition HOSTNAME_FIX_MAX_PER_PASS :: nat where "HOSTNAME_FIX_MAX_PER_PASS = 2"

section \<open>Whom to ask\<close>

text \<open>The VMs of the dongle map first, then every other simulation VM, each once.\<close>

definition mapped_vids :: "usb_state \<Rightarrow> int list" where
  "mapped_vids st =
     List.map_filter (\<lambda>v. case py_int (PStr v) of Inl e \<Rightarrow> None | Inr i \<Rightarrow> Some i) (dvals (bus_to_vmid st))"

fun add_new :: "int list \<Rightarrow> int list \<Rightarrow> int list" where
  "add_new acc [] = acc"
| "add_new acc (v # vs) = add_new (if v \<in> set acc then acc else acc @ [v]) vs"

definition audit_candidates :: "'h machine \<Rightarrow> int set \<Rightarrow> usb_state \<Rightarrow> ('h, int list) op" where
  "audit_candidates m prot st =
     bnd (except_any (list_qemu_vmids m) (\<lambda>e. ret [])) (\<lambda>listed.
     ret (add_new (add_new [] (mapped_vids st)) (filter (\<lambda>v. is_sim_vm (PInt v) prot SIM_VMIN) listed)))"

section \<open>One VM\<close>

record names_pass =
  np_st :: usb_state
  np_acted :: nat
  np_dirty :: bool

definition set_fix :: "int \<Rightarrow> hostname_fix_entry \<Rightarrow> names_pass \<Rightarrow> names_pass" where
  "set_fix vid e p =
     p\<lparr>np_st := (np_st p)\<lparr>hostname_fix := dset (str_int vid) e (hostname_fix (np_st p))\<rparr>, np_dirty := True\<rparr>"

definition drop_fix :: "int \<Rightarrow> names_pass \<Rightarrow> names_pass" where
  "drop_fix vid p =
     p\<lparr>np_st := (np_st p)\<lparr>hostname_fix := dpop (str_int vid) (hostname_fix (np_st p))\<rparr>\<rparr>"

definition no_fix :: hostname_fix_entry where
  "no_fix = \<lparr>hf_attempts = 0, hf_last = 0, hf_expected = [], hf_actual = [], hf_stamped = False\<rparr>"

definition fix_of :: "names_pass \<Rightarrow> int \<Rightarrow> hostname_fix_entry" where
  "fix_of p vid = (case dget (hostname_fix (np_st p)) (str_int vid) of None \<Rightarrow> no_fix | Some e \<Rightarrow> e)"

text \<open>A VM outside the dongle map is skipped if it is a template, or if that cannot be told.\<close>

definition skips_template :: "'h machine \<Rightarrow> usb_state \<Rightarrow> int \<Rightarrow> ('h, bool) op" where
  "skips_template m st vid =
     (if vid \<in> set (mapped_vids st) then ret False
      else except_any (is_template m vid (Some ''qemu'')) (\<lambda>e. ret True))"

definition give_up ::
    "'h machine \<Rightarrow> (string, pyval) dict option \<Rightarrow> int set \<Rightarrow> rat \<Rightarrow> int \<Rightarrow> names_pass \<Rightarrow> ('h, names_pass) op" where
  "give_up m cfg prot now vid p =
     bnd (destroy_quietly m cfg (Some prot) None vid) (\<lambda>ok.
     ret (if ok then (drop_fix vid p)\<lparr>np_dirty := True\<rparr> else set_fix vid ((fix_of p vid)\<lparr>hf_last := now\<rparr>) p))"

text \<open>Up to three tries to write the name.\<close>

fun restamp ::
    "'h machine \<Rightarrow> (string \<Rightarrow> pyval option) \<Rightarrow> int \<Rightarrow> string \<Rightarrow> nat \<Rightarrow> ('h, bool) op" where
  "restamp m decode vid script 0 = ret False"
| "restamp m decode vid script (Suc n) =
     bnd (qm_guest_exec_shell m decode script 60 90 (PInt vid) None) (\<lambda>r.
     if r = Some True then ret True
     else bnd (pause m 3) (\<lambda>_. restamp m decode vid script n))"

definition fix_name ::
    "'h machine \<Rightarrow> (string \<Rightarrow> pyval option) \<Rightarrow> rat \<Rightarrow> int \<Rightarrow> string \<Rightarrow> string \<Rightarrow> names_pass \<Rightarrow> ('h, names_pass) op" where
  "fix_name m decode now vid expected actual p =
     bnd (restamp m decode vid (hostname_stamp_script expected) 3) (\<lambda>stamped.
     bnd (if stamped then except_any (bnd (qm_guest_exec m [''reboot''] (PInt vid) None) (\<lambda>_. ret ())) (\<lambda>e. ret ()) else ret ()) (\<lambda>_.
     ret (set_fix vid \<lparr>hf_attempts = hf_attempts (fix_of p vid) + 1, hf_last = now, hf_expected = expected,
                       hf_actual = actual, hf_stamped = stamped\<rparr>
            (if stamped then p\<lparr>np_acted := Suc (np_acted p)\<rparr> else p))))"

text \<open>No answer and an empty answer are no evidence.\<close>

definition ask_name ::
    "'h machine \<Rightarrow> (string \<Rightarrow> pyval option) \<Rightarrow> rat \<Rightarrow> int \<Rightarrow> string \<Rightarrow> names_pass \<Rightarrow> ('h, names_pass) op" where
  "ask_name m decode now vid expected p =
     except_any
       (bnd (qm_agent_ping m 10 (PInt vid) None) (\<lambda>up.
        if \<not> up then ret p
        else
          bnd (qm_guest_exec_shell_out m decode ''hostname'' 15 25 (PInt vid) None) (\<lambda>out.
          let actual = (case out of None \<Rightarrow> [] | Some t \<Rightarrow> strip t) in
          if actual = [] then ret p
          else if actual = expected
          then ret ((drop_fix vid p)\<lparr>np_dirty := (dhas (hostname_fix (np_st p)) (str_int vid) \<or> np_dirty p)\<rparr>)
          else fix_name m decode now vid expected actual p)))
       (\<lambda>e. ret p)"

definition audit_vm ::
    "'h machine \<Rightarrow> (string \<Rightarrow> pyval option) \<Rightarrow> (string, pyval) dict option \<Rightarrow> int set \<Rightarrow> usb_state \<Rightarrow> rat
     \<Rightarrow> int \<Rightarrow> names_pass \<Rightarrow> ('h, names_pass) op" where
  "audit_vm m decode cfg prot st now vid p =
     (if HOSTNAME_FIX_MAX_PER_PASS \<le> np_acted p then ret p
      else case vm_name m vid of
        None \<Rightarrow> ret p
      | Some expected \<Rightarrow>
          if expected = [] then ret p
          else
            bnd (skips_template m st vid) (\<lambda>skip.
            if skip \<or> now - hf_last (fix_of p vid) < HEALTH_ATTEMPT_COOLDOWN_S then ret p
            else if HOSTNAME_FIX_MAX \<le> hf_attempts (fix_of p vid) then give_up m cfg prot now vid p
            else ask_name m decode now vid expected p))"

section \<open>The audit\<close>

definition hostname_audit_and_restamp ::
    "'h machine \<Rightarrow> (string \<Rightarrow> pyval option) \<Rightarrow> (string, pyval) dict option \<Rightarrow> ('h, nat) op" where
  "hostname_audit_and_restamp m decode cfg =
     bnd (peek (\<lambda>w. load_usb_state (store w))) (\<lambda>st.
     bnd (now_s m) (\<lambda>now.
     bnd (audit_candidates m (resolve_protected_vmids cfg) st) (\<lambda>vids.
     bnd (iter (audit_vm m decode cfg (resolve_protected_vmids cfg) st now) vids
            \<lparr>np_st = st, np_acted = 0, np_dirty = False\<rparr>) (\<lambda>p.
     bnd (if np_dirty p then on_disk (save_usb_state (np_st p)) else ret ()) (\<lambda>_.
     ret (np_acted p))))))"

end
