(* ===== verification/FullPass.thy ===== *)
theory FullPass
  imports Pass Names
begin

text \<open>
  The provisioning pass with its two guest watchdogs, and what holds of all of it: it ends, it
  answers nothing on its own, and behind closed gates it clones nothing.
\<close>

definition provision_pass ::
    "'h machine \<Rightarrow> (string \<Rightarrow> pyval option) \<Rightarrow> ('h, (rat \<times> rat) list) op \<Rightarrow> (string \<Rightarrow> bool)
     \<Rightarrow> (string, pyval) dict option \<Rightarrow> string \<Rightarrow> (string, pyval) dict \<Rightarrow> ('h, pass_report) op" where
  "provision_pass m decode stats live base hostname usb =
     run_provision_loop m decode stats (dongle_health_check_and_recover m decode base)
       (hostname_audit_and_restamp m decode base) live base hostname usb"

section \<open>The watchdogs do not clone\<close>

context no_clone
begin

lemma guest_questions [emits_intro]:
  "emits P (guest_sees_dongle m decode vid vp)" "emits P (guest_health_probe m decode vid)"
  "emits P (guest_radio_scan_refused m decode vid)" "emits P (guest_failure_sim_active m decode vid)"
  "emits P (guest_visible_ssids m decode vid)"
  unfolding guest_sees_dongle_def guest_health_probe_def guest_check_def guest_radio_scan_refused_def
    guest_failure_sim_active_def guest_visible_ssids_def qm_guest_exec_shell_out_def
  by ((intro emits_intro; simp)+)

lemma stages [emits_intro]: "emits P (run_stage m cfg bus vid reason stage)"
proof -
  have u: "emits P (usb_port_reset m bus)" and r: "emits P (reattach_usb m vid bus)"
    unfolding usb_port_reset_def reattach_usb_def record_reset_def Let_def by ((intro emits_intro; simp)+)
  show ?thesis unfolding run_stage_def by (intro emits_intro u r)
qed

lemma climbing [emits_intro]: "emits P (escalate m cfg now bus vid ladder reason p)"
  by (auto simp: escalate_def Let_def intro!: emits_intro split: option.splits)

lemma faults [emits_intro]: "emits P (act_on_fault m decode cfg now bus vid h p)"
  by (cases h) (auto simp: act_on_fault_def intro!: emits_intro)

lemma visible [emits_intro]: "emits P (check_visible m decode cfg now bus vid p)"
  by (auto simp: check_visible_def Let_def intro!: emits_intro split: option.splits)

lemma attached_bus [emits_intro]: "emits P (bus_attached m bus)"
  by (auto simp: bus_attached_def intro!: emits_intro)

lemma client_checks [emits_intro]: "emits P (check_client m decode cfg present now e p)"
  by (cases e) (auto simp: check_client_def intro!: emits_intro split: option.splits sum.splits bool.splits)

lemma health_sweep [emits_intro]: "emits P (dongle_health_check_and_recover m decode cfg present)"
  by (auto simp: dongle_health_check_and_recover_def intro!: emits_intro emits_iter)

lemma restamping [emits_intro]: "emits P (restamp m decode vid script n)"
  by (induction n) (auto intro!: emits_intro)

lemma name_checks [emits_intro]: "emits P (audit_vm m decode cfg prot st now vid p)"
  by (auto simp: audit_vm_def skips_template_def give_up_def ask_name_def fix_name_def qm_guest_exec_shell_out_def Let_def
      intro!: emits_intro split: option.splits)

lemma name_audit [emits_intro]: "emits P (hostname_audit_and_restamp m decode cfg)"
  by (auto simp: hostname_audit_and_restamp_def audit_candidates_def intro!: emits_intro emits_iter)

end

section \<open>A pass ends\<close>

named_theorems value_intro "computations whose only errors are the program's own exceptions"

lemma no_divergence [value_intro]:
  "Inr x \<noteq> Inl Diverged" "py_int v \<noteq> Inl Diverged"
  "r \<noteq> Inl Diverged \<Longrightarrow> (\<And>x. f x \<noteq> Inl Diverged) \<Longrightarrow> rbind r f \<noteq> Inl Diverged"
  "(\<And>x. g x \<noteq> Inl Diverged) \<Longrightarrow> map_result g xs \<noteq> Inl Diverged"
  "(\<And>x. h x \<noteq> Inl Diverged) \<Longrightarrow> filter_result h xs \<noteq> Inl Diverged"
proof -
  show "py_int v \<noteq> Inl Diverged" by (cases v) (auto split: option.split)
  have b: "r \<noteq> Inl Diverged \<Longrightarrow> (\<And>x. f x \<noteq> Inl Diverged) \<Longrightarrow> rbind r f \<noteq> Inl Diverged"
    for r :: "'x result" and f :: "'x \<Rightarrow> 'y result"
    by (cases r) simp_all
  show "r \<noteq> Inl Diverged \<Longrightarrow> (\<And>x. f x \<noteq> Inl Diverged) \<Longrightarrow> rbind r f \<noteq> Inl Diverged" by (rule b)
  show "(\<And>x. g x \<noteq> Inl Diverged) \<Longrightarrow> map_result g xs \<noteq> Inl Diverged"
    by (induction xs) (auto simp: rbind_def split: sum.splits)
  show "(\<And>x. h x \<noteq> Inl Diverged) \<Longrightarrow> filter_result h xs \<noteq> Inl Diverged"
    by (induction xs) (auto simp: rbind_def split: sum.splits)
qed simp

lemma pair_value [value_intro]: "(\<And>a b. f a b \<noteq> Inl Diverged) \<Longrightarrow> case_prod f p \<noteq> Inl Diverged"
  by (cases p) simp

text \<open>What is read from the world is known where it is used.\<close>

lemma ends_read: "(\<And>w. ends (g (f w))) \<Longrightarrow> ends (bnd (peek f) g)" "(\<And>w. ends (g (h w))) \<Longrightarrow> ends (bnd (of_pass h) g)"
  by (auto simp: ends_def bnd_def of_pass_def)

lemma gone_value [value_intro]: "gone ex v \<noteq> Inl Diverged"
  by (simp add: gone_def split: option.split)

lemma prune_value: "prune_ghosts_st ex st \<noteq> Inl Diverged"
  unfolding prune_ghosts_st_def Let_def by (intro value_intro)

lemma reconcile_value: "reconcile_all es acc \<noteq> Inl Diverged"
  by (induction es acc rule: reconcile_all.induct) (auto simp: reconcile_vm_def Let_def split: sum.splits prod.splits option.splits)

lemma settings_value [value_intro]:
  "int_or v d \<noteq> Inl Diverged" "host_vmid_range h n a b c \<noteq> Inl Diverged" "candidate_ids busy vs \<noteq> Inl Diverged"
  "load_delete_gate_cooldown dk \<noteq> Inl Diverged" "load_vmid_gap_last_run dk \<noteq> Inl Diverged"
proof -
  show "int_or v d \<noteq> Inl Diverged" unfolding int_or_def by (intro value_intro)
  have "is_default x y \<noteq> Inl Diverged" for x y
    using no_divergence(2) [of x] by (cases "py_int x") (auto simp: is_default_def)
  then show "host_vmid_range h n a b c \<noteq> Inl Diverged" unfolding host_vmid_range_def Let_def
    by (intro value_intro; simp add: value_intro)
  show "candidate_ids busy vs \<noteq> Inl Diverged" by (induction vs) (auto simp: rbind_def split: sum.splits option.splits)
  show "load_delete_gate_cooldown dk \<noteq> Inl Diverged" "load_vmid_gap_last_run dk \<noteq> Inl Diverged"
    by (auto simp: load_delete_gate_cooldown_def load_vmid_gap_last_run_def split: stored.splits)
qed

lemma ends_pass_marks [ends_intro]:
  "ends (on_pass f)" "ends (of_pass g)" "ends load_pass" "ends save_pass" "ends (reload_if b)"
  "ends (on_brain h)" "ends (ended reason n torn)" "ends (on_item bus k)" "ends (item_ends bus s)"
  by (auto simp: on_pass_def of_pass_def load_pass_def save_pass_def reload_if_def on_brain_def ended_def on_item_def
      item_ends_def intro!: ends_intro)

lemma ends_listing2 [ends_intro]: "ends (list_all_vmids m)"
  by (auto simp: list_all_vmids_def intro!: ends_intro)

lemma ends_int [ends_intro]: "ends (lift (py_int v))"
  by (intro ends_intro value_intro)

lemma ends_destroys:
  assumes "clock_ok m"
  shows "ends (destroy_quietly m cfg pr bus vid)" "ends (tear_down_logged m cfg b vmid torn)"
  unfolding destroy_quietly_def tear_down_logged_def by (intro ends_intro ends_destroy [OF assms])+

lemma ends_prunes [ends_intro]:
  "ends (with_disk (prune_ghost_vms ex))" "ends (with_disk reconcile_bus_map)"
  using prune_value [of ex] reconcile_value
  by (auto intro!: ends_with_disk simp: prune_ghost_vms_def reconcile_bus_map_def Let_def split: sum.splits prod.splits)

lemma ends_template [ends_intro]: "ends (resolve_template_vmid m decode c)"
  by (auto simp: resolve_template_vmid_def Let_def intro!: ends_intro split: option.splits)

lemma ends_settings [ends_intro]: "ends (read_settings m decode hostname usb vidpids)"
proof -
  have i: "ends (resolve_images m decode usb one two pct)" for one two pct
    unfolding resolve_images_def image_at_def Let_def by (intro ends_intro)
  show ?thesis unfolding read_settings_def by (intro ends_intro ends_pool i value_intro)
qed

lemma ends_sighting [ends_intro]: "ends (take_stock m s)" "ends (read_load m)"
  unfolding take_stock_def read_load_def scan_present_dongles_def scan_one_def read_sysfs_def device_vidpid_def Let_def
  by (intro ends_intro)+

lemma ends_tracking [ends_intro]:
  "ends (vm_usb_bus m vid)" "ends (vm_has_usb_passthrough m vid)" "ends (vm_has_pci_passthrough m vid)"
  "ends (reconcile_vm_configs m lo hi here now ex)" "ends (release_stale_assignments m ex)"
  by (auto simp: vm_usb_bus_def vm_has_usb_passthrough_def vm_has_pci_passthrough_def reconcile_vm_configs_def retrack_vm_def
      release_stale_assignments_def release_one_def is_stale_def Let_def intro!: ends_intro value_intro split: option.splits)

lemma ends_repairs [ends_intro]: "ends (repair_tracking m s g)"
  by (auto simp: repair_tracking_def intro!: ends_intro)

lemma ends_resets [ends_intro]: "ends (vm_action_any m vid ''reboot'' k None opts)"
  by (auto simp: vm_action_any_def guest_kind_def lower_def lower_char_def Let_def intro!: ends_intro split: if_splits)

lemma ends_queues: "clock_ok m \<Longrightarrow> ends (settle_queues m decode base)"
  by (auto simp: settle_queues_def run_post_prov_retry_queue_def retry_one_def run_post_prov_reboot_queue_def reboot_one_def
      retry_due_def reboot_due_def run_update_def settle_reboot_def Let_def intro!: ends_intro ends_destroys split: option.splits)

lemma ends_pci_reads [ends_intro]:
  "ends (pci_passthrough_vidpids m vid k)" "ends (free_pci_controllers m vps)"
  by (auto simp: pci_passthrough_vidpids_def lspci_vidpid_def build_lspci_map_def vm_config_text_def live_config_text_def
      resolve_addr_def free_pci_controllers_def list_host_pci_by_vidpid_def pci_addrs_in_use_def add_pci_of_def Let_def
      intro!: ends_intro split: option.splits)

lemma ends_picks [ends_intro]: "ends (pick_candidate m pci cs)"
  by (induction cs) (auto simp: skip_candidate_def intro!: ends_intro)

lemma ends_gate: "clock_ok m \<Longrightarrow> ends (run_delete_gate m decode base usb)"
proof -
  assume c: "clock_ok m"
  have s: "ends (shed_vm m base now vid bus)" for now vid bus
    by (auto simp: shed_vm_def unmark_deleting_def intro!: ends_intro ends_destroy [OF c] split: option.splits)
  have p: "ends (shed_newest m base pci now)" for pci now
    unfolding shed_newest_def provisioning_vmids_def Let_def by (intro ends_intro value_intro s)
  show ?thesis unfolding run_delete_gate_def gate_attempt_def
    by (rule ends_bnd [OF ends_prims(1)]) (intro ends_read ends_intro value_intro p)
qed

lemma ends_eviction: "clock_ok m \<Longrightarrow> ends (evict_out_of_range m cfg lo hi torn)"
  unfolding evict_out_of_range_def evict_one_def out_of_range_def by (intro ends_intro ends_destroys value_intro)

lemma ends_kernel_log [ends_intro]: "ends (quarantine_faulty m present)"
  by (auto simp: quarantine_faulty_def scan_dmesg_usb_errors_def intro!: ends_intro)

lemma ends_missing: "clock_ok m \<Longrightarrow> ends (tear_down_missing m cfg present timeout now torn)"
  by (auto simp: tear_down_missing_def missing_one_def intro!: ends_intro ends_destroys)

lemma ends_attachment [ends_intro]: "ends (bus_attached m bus)"
proof -
  have "ends (any_usbfs m es)" for es by (induction es) (auto intro!: ends_intro)
  then show ?thesis by (auto simp: bus_attached_def intro!: ends_intro)
qed

lemma ends_detached: "clock_ok m \<Longrightarrow> ends (reclone_detached m cfg present timeout now torn)"
proof -
  assume c: "clock_ok m"
  have r: "ends (cold_restart m vmid)" "ends (vm_running m vmid)" for vmid
    unfolding cold_restart_def vm_running_def by (intro ends_intro ladders_end [OF c])+
  have e: "ends (detach_effect m cfg bus vmid s torn)" for bus vmid s torn
    by (cases s) (auto simp: detach_effect_def intro!: ends_intro ends_destroys [OF c] r(1))
  show ?thesis unfolding reclone_detached_def detach_one_def detached_running_def Let_def
    by (intro ends_intro e r(2))
qed

lemma ends_gap_search [ends_intro]: "ends (lowest_gap m act ex cs)"
  by (induction cs) (auto simp: occupied_def intro!: ends_intro)

lemma ends_audit: "clock_ok m \<Longrightarrow> ends (vmid_gap_audit m cfg lo hi now ex present)"
proof -
  assume c: "clock_ok m"
  have s: "ends (shed_for_gap m cfg v)" for v
    unfolding shed_for_gap_def by (intro ends_intro ends_destroy [OF c])
  have g: "ends (gap_target m lo ex act)" for act unfolding gap_target_def by (intro ends_intro)
  have "tracked_in_block lo hi st \<noteq> Inl Diverged" for st
    unfolding tracked_in_block_def by (intro value_intro)
  then have t: "tracked_in_block lo hi st = Inl e \<Longrightarrow> e \<noteq> Diverged" for st e by metis
  have r: "ends (case tracked_in_block lo hi st of Inl e \<Rightarrow> if e = ValueError then ret () else throw e
      | Inr assigned \<Rightarrow> bnd provisioning_vmids (\<lambda>busy. bnd (gap_target m lo ex (filter (\<lambda>v. v \<notin> busy) assigned))
          (\<lambda>target. case target of None \<Rightarrow> ret () | Some v \<Rightarrow> shed_for_gap m cfg v)))" for st
    using t [of st] by (auto simp: provisioning_vmids_def intro!: ends_intro s g split: sum.splits)
  show ?thesis unfolding vmid_gap_audit_def
    by (intro ends_read(1) ends_bnd ends_cases(1) ends_intro ends_read(2) r value_intro)
qed

lemma ends_sweeps:
  assumes "clock_ok m" "\<And>present. ends (health present)" "ends names"
  shows "ends (sweep_fleet m health names base usb s r g torn)"
proof -
  have i: "ends (on_interval seen stamp now p)" if "ends p" for seen :: "brain \<Rightarrow> rat" and stamp now and p :: "('a, nat) op"
    unfolding on_interval_def by (intro ends_intro that)
  show ?thesis unfolding sweep_fleet_def
    by (intro ends_bnd ends_eviction ends_read(1) ends_missing ends_detached ends_audit i assms ends_intro value_intro)
qed

section \<open>The clones end\<close>

lemma ends_clones:
  assumes "clock_ok m"
  shows "ends (clone_and_provision m decode prot usb vid bus ty tpl img)"
    "ends (clone_and_provision_pci m decode prot usb b vid addr tpl tier)"
  unfolding clone_and_provision_def clone_and_provision_pci_def configure_clone_def
  by (auto simp: Let_def intro!: ends_intro ends_finish_clone [OF assms] ends_pool)

lemma ends_controllers:
  assumes "clock_ok m"
  shows "ends (provision_pci_tier m decode prot usb b tier vps tpl lo hi)"
proof -
  have c: "ends (clone_controllers (\<lambda>vid addr. clone_and_provision_pci m decode prot usb b vid addr t tier) prot lo hi u n free)"
    for t u n free
    by (induction free arbitrary: u n) (auto intro!: ends_intro ends_clones [OF assms] split: option.splits)
  show ?thesis unfolding provision_pci_tier_def by (auto intro!: ends_intro c split: option.splits)
qed

lemma ends_zombies: "clock_ok m \<Longrightarrow> ends (reclaim_zombie_vmid m cfg vid)"
  unfolding reclaim_zombie_vmid_def by (auto simp: Let_def intro!: ends_intro ends_destroy ends_destroys)

lemma ends_vmid: "clock_ok m \<Longrightarrow> ends (find_vmid m cfg prot taken ex vs)"
  by (induction vs arbitrary: ex) (auto intro!: ends_intro ends_zombies)

lemma ends_one:
  assumes "clock_ok m" "ends stats"
  shows "ends (provision_one m decode stats env live bus s)"
proof -
  have "ends (current_cpu_pct stats)"
    unfolding current_cpu_pct_def by (intro ends_intro assms(2))
  then have a: "ends (admit m stats env s)"
    unfolding admit_def Let_def by (intro ends_intro)
  have "ends (clone_onto m decode env bus vid im b)" for vid im b
    unfolding clone_onto_def by (intro ends_intro ends_clones [OF assms(1)] ends_destroys [OF assms(1)])
  then have "ends (place_on m decode env bus b)" for b
    unfolding place_on_def Let_def by (intro ends_intro ends_vmid [OF assms(1)])
  then show ?thesis unfolding provision_one_def Let_def by (intro ends_intro a)
qed

lemma ends_place:
  assumes "clock_ok m" "ends stats"
  shows "ends (place_dongles m decode stats live base usb s r g pci torn)"
proof -
  have "ends (try_one m decode stats env live bus b)" for env bus b
    unfolding try_one_def by (intro ends_intro ends_one assms)
  then have "ends (clone_batch m decode stats env live now ordered pci torn)" for env now ordered
    unfolding clone_batch_def open_run_def close_run_def Let_def by (intro ends_intro)
  then show ?thesis unfolding place_dongles_def Let_def by (intro ends_intro)
qed

lemma ends_fleet:
  assumes "clock_ok m" "ends stats"
  shows "ends (provision_fleet m decode stats live base hostname usb s r g shed cooldown torn)"
proof -
  have "ends (provision_controllers m decode base hostname usb s)"
    unfolding provision_controllers_def Let_def by (intro ends_intro ends_controllers [OF assms(1)])
  then show ?thesis unfolding provision_fleet_def by (intro ends_intro ends_place assms)
qed

section \<open>The guest watchdogs end\<close>

lemma ends_questions [ends_intro]:
  "ends (guest_sees_dongle m decode vid vp)" "ends (guest_health_probe m decode vid)"
  "ends (guest_radio_scan_refused m decode vid)" "ends (guest_failure_sim_active m decode vid)"
  "ends (guest_visible_ssids m decode vid)" "ends (qm_guest_exec_shell_out m decode sc x y v p)"
  unfolding guest_sees_dongle_def guest_health_probe_def guest_check_def guest_radio_scan_refused_def
    guest_failure_sim_active_def guest_visible_ssids_def qm_guest_exec_shell_out_def
  by (intro ends_intro)+

lemma ends_health: "clock_ok m \<Longrightarrow> ends (dongle_health_check_and_recover m decode cfg present)"
proof -
  assume c: "clock_ok m"
  have u: "ends (usb_port_reset m bus)" "ends (reattach_usb m vid bus)" for bus vid
    unfolding usb_port_reset_def reattach_usb_def record_reset_def Let_def by (intro ends_intro)+
  have "ends (run_stage m cfg bus vid reason stage)" for bus vid reason stage
    unfolding run_stage_def by (intro ends_intro u ladders_end [OF c] ends_destroy [OF c])
  then have e: "ends (escalate m cfg now bus vid ladder reason p)" for now bus vid ladder reason p
    unfolding escalate_def Let_def by (intro ends_intro)
  have "ends (act_on_fault m decode cfg now bus vid h p)" for now bus vid h p
    by (cases h) (auto simp: act_on_fault_def intro!: ends_intro e)
  then have v: "ends (check_visible m decode cfg now bus vid p)" for now bus vid p
    unfolding check_visible_def Let_def by (intro ends_intro)
  have "ends (check_client m decode cfg present now x p)" for now x p
    by (cases x) (auto simp: check_client_def vm_status_def detect_guest_type_def Let_def intro!: ends_intro e v
      split: sum.splits option.splits bool.splits)
  then show ?thesis unfolding dongle_health_check_and_recover_def by (intro ends_intro)
qed

lemma ends_names: "clock_ok m \<Longrightarrow> ends (hostname_audit_and_restamp m decode cfg)"
proof -
  assume c: "clock_ok m"
  have "ends (restamp m decode vid script n)" for vid script n
    by (induction n) (auto intro!: ends_intro)
  then have "ends (fix_name m decode now vid expected actual p)" for now vid expected actual p
    unfolding fix_name_def by (intro ends_intro)
  then have "ends (ask_name m decode now vid expected p)" for now vid expected p
    unfolding ask_name_def Let_def by (intro ends_intro)
  moreover have "ends (give_up m cfg prot now vid p)" for prot now vid p
    unfolding give_up_def by (intro ends_intro ends_destroys [OF c])
  moreover have "ends (skips_template m st vid)" for st vid
    unfolding skips_template_def by (intro ends_intro)
  ultimately have "ends (audit_vm m decode cfg prot st now vid p)" for prot st now vid p
    unfolding audit_vm_def by (intro ends_intro)
  then show ?thesis unfolding hostname_audit_and_restamp_def audit_candidates_def by (intro ends_intro)
qed

lemma ends_pass:
  assumes "clock_ok m" "ends stats"
  shows "ends (provision_pass m decode stats live base hostname usb)"
proof -
  have v: "dongle_vidpids decode usb \<noteq> Inl Diverged"
  proof -
    have "py_iter x \<noteq> Inl Diverged" for x by (cases x) auto
    then show ?thesis unfolding dongle_vidpids_def Let_def by (auto simp: map_sum_def split: sum.splits)
  qed
  have g: "ends (early_gate m decode base usb)"
    unfolding early_gate_def by (intro ends_intro ends_gate [OF assms(1)])
  show ?thesis unfolding provision_pass_def run_provision_loop_def
    by (intro ends_intro v g ends_queues ends_sweeps ends_health ends_names ends_fleet assms)
qed

section \<open>The pass sends no result of its own\<close>

context no_result
begin

lemma pass_clones [emits_intro]:
  "emits P (clone_and_provision m decode prot usb vid bus ty tpl img)"
  "emits P (clone_and_provision_pci m decode prot usb b vid addr tpl tier)"
  unfolding clone_and_provision_def clone_and_provision_pci_def Let_def by (intro emits_intro)+

lemma controllers [emits_intro]: "emits P (provision_pci_tier m decode prot usb b tier vps tpl lo hi)"
proof -
  have "emits P (clone_controllers (\<lambda>vid addr. clone_and_provision_pci m decode prot usb b vid addr t tier) prot lo hi u n free)"
    for t u n free
    by (induction free arbitrary: u n) (auto intro!: emits_intro split: option.splits)
  then show ?thesis unfolding provision_pci_tier_def by (intro emits_intro)
qed

lemma items [emits_intro]: "emits P (on_item bus k)" "emits P (item_ends bus s)"
  by (auto simp: on_item_def item_ends_def intro!: emits_intro emits_modify)

lemma vmid_search [emits_intro]: "emits P (find_vmid m cfg prot taken ex vs)"
  by (induction vs arbitrary: ex) (auto simp: reclaim_zombie_vmid_def intro!: emits_intro)

lemma placing [emits_intro]: "emits P stats \<Longrightarrow> emits P (try_one m decode stats env live bus s)"
  unfolding try_one_def provision_one_def admit_def current_cpu_pct_def place_on_def clone_onto_def Let_def
  by (intro emits_intro)

lemma fleet [emits_intro]:
  assumes "emits P stats"
  shows "emits P (provision_fleet m decode stats live base hostname usb s r g shed cooldown torn)"
proof -
  have "emits P (clone_batch m decode stats env live now ordered pci torn)" for env now ordered pci
    unfolding clone_batch_def open_run_def close_run_def Let_def
    by (intro emits_intro emits_iter assms emits_modify) simp_all
  then have "emits P (place_dongles m decode stats live base usb s r g pci torn)" for pci
    unfolding place_dongles_def Let_def by (intro emits_intro)
  moreover have "emits P (provision_controllers m decode base hostname usb s)"
    unfolding provision_controllers_def Let_def by (intro emits_intro)
  moreover have "emits P (modify clear_stuck_run)"
    by (intro emits_modify) (simp add: clear_stuck_run_def)
  ultimately show ?thesis unfolding provision_fleet_def by (intro emits_intro)
qed

lemma whole_pass: "emits P stats \<Longrightarrow> emits P (provision_pass m decode stats live base hostname usb)"
  unfolding provision_pass_def run_provision_loop_def early_gate_def by (intro emits_intro sweeps)

end

section \<open>Closed gates, and one answer\<close>

text \<open>
  C2: closed gates clone nothing. If a template refresh has paused the passes, or the toggle is
  off, or the host is too busy (the last CPU sample at the ceiling, or an hourly average at its
  threshold whenever it is read), then a whole pass, with its repairs, queues, sweeps, audits and
  guest watchdogs, runs no \<open>qm clone\<close> and reports no new VM, whatever the host answers, also
  when it raises.
\<close>

theorem closed_gates_clone_nothing:
  assumes "br_paused (brain_of w) \<or> \<not> toggle_on usb \<or> too_busy m usb w"
  shows "\<exists>es. trace (snd (provision_pass m decode stats live base hostname usb w)) = trace w @ es
           \<and> list_all calm es
           \<and> (\<forall>rep. fst (provision_pass m decode stats live base hostname usb w) = Inr rep \<longrightarrow> ps_provisioned rep = 0)"
  unfolding provision_pass_def
  by (rule closed_gates_idle [OF assms uncloned.health_sweep uncloned.name_audit])

text \<open>A host at 95 per cent: nothing is cloned.\<close>

theorem closed_gates_clone_nothing_witness:
  "\<exists>es. trace (snd (provision_pass still_host (\<lambda>_. None) (ret []) (\<lambda>_. True) None ''svr-01''
        [(''usb_auto_provision'', PStr ''on''), (''vidpids'', PList [PStr ''0bda:8812''])]
        ((fresh_world 0)\<lparr>cpu_hist := [(0, 95)]\<rparr>))) = es \<and> list_all calm es"
proof -
  have "too_busy still_host [(''usb_auto_provision'', PStr ''on''), (''vidpids'', PList [PStr ''0bda:8812''])]
      ((fresh_world (0 :: rat))\<lparr>cpu_hist := [(0, 95)]\<rparr>)"
    by (simp add: too_busy_def limits_def pct_setting_def cfg_get_def)
  from closed_gates_clone_nothing [OF disjI2 [OF disjI2 [OF this]], of "\<lambda>_. None" "ret []" "\<lambda>_. True" None "''svr-01''"]
  show ?thesis by (auto simp: fresh_world_def)
qed



end
