(* ===== verification/HealthFacts.thy ===== *)
theory HealthFacts
  imports FullPass
begin

text \<open>
  What the dongle-health watchdog promises: ladders are climbed in order and not too fast, one
  sweep acts on two clients at most, and a fault the guest reports must be seen three times.
\<close>

interpretation any_event: no_result "\<lambda>_. True"
  by unfold_locales simp_all

section \<open>One ladder, one attempt at a time\<close>

text \<open>The stages a bus goes through when the sweep finds it bad at the given times.\<close>

fun ladder_run :: "string list \<Rightarrow> int \<Rightarrow> rat list \<Rightarrow> health_entry \<Rightarrow> (rat \<times> string) list" where
  "ladder_run ladder vid [] h = []"
| "ladder_run ladder vid (t # ts) h =
     (case climb t vid ladder h of
        None \<Rightarrow> ladder_run ladder vid ts h
      | Some (stage, h') \<Rightarrow> (t, stage) # ladder_run ladder vid ts h')"

definition spaced :: "rat \<times> string \<Rightarrow> rat \<times> string \<Rightarrow> bool" where
  "spaced a b \<longleftrightarrow> (if snd a = ''reboot'' then REBOOT_BEFORE_RECLONE_S else HEALTH_ATTEMPT_COOLDOWN_S) \<le> fst b - fst a"

lemma climb_Some:
  "climb t vid ladder h = Some (s, h') \<longleftrightarrow> spaced (last_attempt h, dh_stage h) (t, s)
     \<and> s = ladder ! nat (min (dh_fails h) (int (length ladder) - 1))
     \<and> h' = \<lparr>dh_fails = dh_fails h + 1, last_attempt = t, dh_stage = s, dh_vmid = Some vid\<rparr>"
  by (auto simp: climb_def spaced_def Let_def)

lemma ladder_run_stages:
  assumes "dh_fails h = int k" "ladder \<noteq> []"
  shows "map snd (ladder_run ladder vid ts h)
    = map (\<lambda>i. ladder ! min i (length ladder - 1)) [k ..< k + length (ladder_run ladder vid ts h)]"
  using assms(1)
proof (induction ts arbitrary: h k)
  case (Cons t ts)
  show ?case
  proof (cases "climb t vid ladder h")
    case None
    then show ?thesis using Cons by simp
  next
    case (Some p)
    then obtain s h' where p: "climb t vid ladder h = Some (s, h')" by (cases p) auto
    have idx: "nat (min (int k) (int (length ladder) - 1)) = min k (length ladder - 1)"
      using assms(2) by (cases ladder) auto
    have run: "ladder_run ladder vid (t # ts) h = (t, s) # ladder_run ladder vid ts h'" using p by simp
    have s: "s = ladder ! min k (length ladder - 1)" and k: "dh_fails h' = int (Suc k)"
      using p Cons.prems idx by (auto simp: climb_Some)
    show ?thesis unfolding run using Cons.IH [OF k] s by (simp add: upt_conv_Cons del: upt_Suc)
  qed
qed simp

lemma ladder_run_spaced:
  "successively spaced (ladder_run ladder vid ts h)
   \<and> (case ladder_run ladder vid ts h of [] \<Rightarrow> True | a # r \<Rightarrow> spaced (last_attempt h, dh_stage h) a)"
proof (induction ts arbitrary: h)
  case (Cons t ts)
  show ?case
  proof (cases "climb t vid ladder h")
    case None
    then show ?thesis using Cons by simp
  next
    case (Some p)
    then obtain s h' where p: "climb t vid ladder h = Some (s, h')" by (cases p) auto
    then have h': "last_attempt h' = t" "dh_stage h' = s" and first: "spaced (last_attempt h, dh_stage h) (t, s)"
      by (auto simp: climb_Some)
    show ?thesis using Cons [of h'] p h' first
      by (cases "ladder_run ladder vid ts h'") auto
  qed
qed simp



text \<open>
  C34: two ladders share one counter. A dongle that was reset once because the guest could not see
  it, and that the guest then sees but cannot use, has its VM destroyed and cloned anew at the next
  attempt, without the restart that is meant to come before every rebuild.
\<close>

theorem shared_counter_skips_restart:
  assumes "180 \<le> s" "180 \<le> t - s"
  shows "\<exists>h1 h2. climb s vid HEALTH_LADDER new_health = Some (''usb_reset'', h1)
    \<and> climb t vid HEALTH_LADDER_VISIBLE h1 = Some (''reclone'', h2)"
  using assms
  by (simp add: climb_Some spaced_def HEALTH_LADDER_def HEALTH_LADDER_VISIBLE_def new_health_def
      HEALTH_ATTEMPT_COOLDOWN_S_def)

theorem shared_counter_skips_restart_witness:
  "\<exists>h1 h2. climb 1000 90001 HEALTH_LADDER new_health = Some (''usb_reset'', h1)
    \<and> climb 1300 90001 HEALTH_LADDER_VISIBLE h1 = Some (''reclone'', h2)"
  using shared_counter_skips_restart [of 1000 1300 90001] by simp

section \<open>Few and confirmed actions\<close>

text \<open>Events that only ask: the status and configuration of guests, the guest agent, waiting.\<close>

definition probing :: "event \<Rightarrow> bool" where
  "probing e = (case e of
      Cmd a r \<Rightarrow> 2 \<le> length a \<and> a ! 1 \<in> {''status'', ''config'', ''guest'', ''agent''}
    | Slept d \<Rightarrow> True
    | _ \<Rightarrow> False)"

lemma probing_simps [simp]:
  "probing (Cmd (a # b # as) r) \<longleftrightarrow> b \<in> {''status'', ''config'', ''guest'', ''agent''}" "probing (Slept d)"
  by (auto simp: probing_def)

lemma emits_probing [emits_intro]:
  "emits probing (guest_sees_dongle m decode vid vp)" "emits probing (guest_health_probe m decode vid)"
  "emits probing (guest_radio_scan_refused m decode vid)" "emits probing (guest_failure_sim_active m decode vid)"
  "emits probing (guest_visible_ssids m decode vid)" "emits probing (vm_status m vid)"
proof -
  have p: "emits probing (qm_agent_ping m s v q)" "emits probing (qm_guest_exec_shell m decode sc x y v q)"
    "emits probing (qm_guest_exec_shell_out m decode sc x y v q)" for s v q sc x y
    unfolding qm_agent_ping_def qm_guest_exec_shell_def qm_guest_exec_shell_out_def by ((intro emits_intro; simp)+)
  show "emits probing (guest_sees_dongle m decode vid vp)" "emits probing (guest_health_probe m decode vid)"
    "emits probing (guest_radio_scan_refused m decode vid)" "emits probing (guest_failure_sim_active m decode vid)"
    "emits probing (guest_visible_ssids m decode vid)"
    unfolding guest_sees_dongle_def guest_health_probe_def guest_check_def guest_radio_scan_refused_def
      guest_failure_sim_active_def guest_visible_ssids_def by (intro emits_intro p)+
  show "emits probing (vm_status m vid)"
    by (auto simp: vm_status_def detect_guest_type_def Let_def intro!: emits_intro)
qed

lemma emits_probing_bus [emits_intro]: "emits probing (bus_attached m bus)"
proof -
  have "emits probing (any_usbfs m es)" for es by (induction es) (auto intro!: emits_intro)
  then show ?thesis by (auto simp: bus_attached_def intro!: emits_intro)
qed

text \<open>A step that either only asks and counts nothing, or counts one client.\<close>

definition counts_one :: "nat \<Rightarrow> ('h, health_pass) op \<Rightarrow> bool" where
  "counts_one n q \<longleftrightarrow> yields q (\<lambda>r es. case r of
      Inl e \<Rightarrow> True | Inr p \<Rightarrow> if hp_acted p = n then list_all probing es else hp_acted p = Suc n)"

lemma counts_ret: "hp_acted p = n \<Longrightarrow> counts_one n (ret p)" "hp_acted p = n \<Longrightarrow> counts_one n (Pair (Inr p))"
  unfolding counts_one_def by (rule yields_ret, simp) (rule yields_Pair, simp)

lemma counts_after:
  assumes "emits probing p" "\<And>x. counts_one n (f x)"
  shows "counts_one n (bnd p f)"
  using assms(1) unfolding counts_one_def emits_def
  by (rule yields_bnd [OF _ assms(2) [unfolded counts_one_def]]) (auto split: sum.splits)

lemma counts_cases:
  "(b \<Longrightarrow> counts_one n p) \<Longrightarrow> (\<not> b \<Longrightarrow> counts_one n q) \<Longrightarrow> counts_one n (if b then p else q)"
  "counts_one n p \<Longrightarrow> (\<And>x. counts_one n (f x)) \<Longrightarrow> counts_one n (case_option p f o1)"
  by (auto split: option.splits)

lemma acted_of [simp]:
  "hp_acted (drop_health b p) = hp_acted p" "hp_acted (drop_guest b p) = hp_acted p"
  "hp_acted (note_guest b v t s p) = hp_acted p"
  by (simp_all add: drop_health_def drop_guest_def note_guest_def)

lemma counts_escalate: "hp_acted p = n \<Longrightarrow> counts_one n (escalate m cfg now bus vid ladder reason p)"
proof -
  assume n: "hp_acted p = n"
  have s: "counts_one n (bnd (run_stage m cfg bus vid reason stage) (\<lambda>d. ret \<lparr>hp_st = g d, hp_acted = Suc n, hp_dirty = True\<rparr>))"
    for stage g
    unfolding counts_one_def
    by (rule yields_bnd [OF any_event.stages [unfolded emits_def], where QB = "\<lambda>x r es. \<exists>p. r = Inr p \<and> hp_acted p = Suc n"])
       (auto intro: yields_ret)
  show ?thesis unfolding escalate_def n Let_def
    by (intro counts_after emits_pure counts_cases counts_ret) (auto simp: n split: option.split intro!: counts_ret s)
qed

lemma counts_fault: "hp_acted p = n \<Longrightarrow> counts_one n (act_on_fault m decode cfg now bus vid h p)"
  by (cases h) (auto simp: act_on_fault_def intro!: counts_after counts_cases counts_ret counts_escalate emits_intro)

lemma counts_visible: "hp_acted p = n \<Longrightarrow> counts_one n (check_visible m decode cfg now bus vid p)"
  unfolding check_visible_def Let_def
  by (intro counts_after counts_cases counts_ret counts_fault emits_intro) simp_all

lemma counts_client: "hp_acted p = n \<Longrightarrow> counts_one n (check_client m decode cfg present now e p)"
  unfolding check_client_def
  by (cases e) (auto intro!: counts_after counts_cases counts_ret counts_visible counts_escalate emits_intro
      split: sum.split option.split bool.split)

definition within_cap :: "health_pass \<Rightarrow> ('h, health_pass) op \<Rightarrow> bool" where
  "within_cap p q \<longleftrightarrow> yields q (\<lambda>r es. case r of
      Inl e \<Rightarrow> True
    | Inr p' \<Rightarrow> hp_acted p \<le> hp_acted p' \<and> hp_acted p' \<le> HEALTH_MAX_PER_PASS
        \<and> (if hp_acted p' = hp_acted p then list_all probing es else True))"

lemma client_within_cap:
  assumes "hp_acted p \<le> HEALTH_MAX_PER_PASS"
  shows "within_cap p (check_client m decode cfg present now e p)"
proof (cases "HEALTH_MAX_PER_PASS \<le> hp_acted p")
  case True
  then have "check_client m decode cfg present now e p = ret p" by (cases e) (simp add: check_client_def)
  then show ?thesis using assms by (auto simp: within_cap_def intro: yields_ret)
next
  case False
  show ?thesis
    using counts_client [of p "hp_acted p" m decode cfg present now e] False
    unfolding counts_one_def within_cap_def
    by (auto elim!: yields_mono split: sum.splits if_splits)
qed

lemma iter_within_cap:
  assumes "hp_acted p \<le> HEALTH_MAX_PER_PASS"
  shows "within_cap p (iter (check_client m decode cfg present now) es p)"
  using assms
proof (induction es arbitrary: p)
  case Nil
  then show ?case by (auto simp: within_cap_def intro: yields_Pair)
next
  case (Cons e es)
  show ?case unfolding within_cap_def iter.simps
  proof (rule yields_bnd [OF client_within_cap [OF Cons.prems, unfolded within_cap_def]])
    show "yields (iter (check_client m decode cfg present now) es x) (\<lambda>r as. if hp_acted x \<le> HEALTH_MAX_PER_PASS
        then (case r of Inl e \<Rightarrow> True | Inr p' \<Rightarrow> hp_acted x \<le> hp_acted p' \<and> hp_acted p' \<le> HEALTH_MAX_PER_PASS
          \<and> (if hp_acted p' = hp_acted x then list_all probing as else True)) else True)" for x
    proof (cases "hp_acted x \<le> HEALTH_MAX_PER_PASS")
      case True
      then show ?thesis using Cons.IH [OF True] by (simp add: within_cap_def)
    next
      case False
      have "emits (\<lambda>_. True) (iter (check_client m decode cfg present now) es x)" by (intro emits_iter any_event.client_checks)
      then show ?thesis unfolding emits_def by (rule yields_mono) (simp add: False)
    qed
  qed (auto split: sum.splits if_splits)
qed




section \<open>The hostname audit\<close>

text \<open>
  C37: the hostname audit is patient. A VM with fewer than three recorded attempts is only talked to
  (asked for its name, stamped and rebooted from inside through the guest agent): the audit runs no
  command that stops or destroys it, whatever name it answers.
\<close>

theorem audit_destroys_last:
  assumes "hf_attempts (fix_of p vid) < HOSTNAME_FIX_MAX"
  shows "emits probing (audit_vm m decode cfg prot st now vid p)"
proof -
  have g: "emits probing (qm_agent_ping m s v q)" "emits probing (qm_guest_exec_shell m decode sc x y v q)"
    "emits probing (qm_guest_exec_shell_out m decode sc x y v q)" "emits probing (qm_guest_exec m as v q)" for s v q sc x y as
    unfolding qm_agent_ping_def qm_guest_exec_shell_def qm_guest_exec_shell_out_def qm_guest_exec_def
    by ((intro emits_intro; simp)+)
  have "emits probing (restamp m decode vid script n)" for script n
    by (induction n) (auto intro!: emits_intro g)
  then have "emits probing (ask_name m decode now vid expected p)" for expected
    unfolding ask_name_def fix_name_def Let_def by (intro emits_intro g)
  moreover have "emits probing (skips_template m st vid)"
    by (auto simp: skips_template_def is_template_def guest_kind_def detect_guest_type_def Let_def intro!: emits_intro split: option.splits)
  ultimately show ?thesis
    unfolding audit_vm_def using assms by (intro emits_intro) simp_all
qed

theorem audit_destroys_last_witness:
  "emits probing (audit_vm still_host (\<lambda>_. None) None {} new_usb_state 1000 90001
     \<lparr>np_st = new_usb_state\<lparr>hostname_fix := [(str_int 90001, no_fix\<lparr>hf_attempts := 2\<rparr>)]\<rparr>, np_acted = 0, np_dirty = False\<rparr>)"
  by (rule audit_destroys_last) (simp add: fix_of_def HOSTNAME_FIX_MAX_def)

end
