(* ===== verification/Deploy.thy ===== *)
theory Deploy
  imports Text Disk
begin

text \<open>
  The disk as the self-update of the agent sees it: the installation directory, the snapshots
  and the bookkeeping files of the update, and what an interruption (a kill, a reboot of the
  host) can leave behind. Renaming is atomic; copying and removing a tree are not, and while
  they run anything may be found at their target. An action therefore returns, besides its
  result and the next state, the list of all states it passes through, and \<open>triple\<close> is a Hoare
  triple with a third condition, one that holds in every one of them.
\<close>

named_theorems triple_intro "rules of triples with an interruption condition"

section \<open>Trees\<close>

text \<open>A regular file with its text, a directory, or a special file (a socket, a pipe, a device).\<close>

datatype node = FileN string | DirN "(string \<times> node) list" | SpecialN

type_synonym tree = "(string, node) dict"

text \<open>\<open>update_recovery._ignore_special\<close> as the \<open>ignore\<close> hook of \<open>copytree\<close>: special files are left out.\<close>

fun regular :: "node \<Rightarrow> node" where
  "regular (FileN s) = FileN s"
| "regular (DirN cs) = DirN (map (\<lambda>(n, c). (n, regular c)) (filter (\<lambda>(n, c). c \<noteq> SpecialN) cs))"
| "regular SpecialN = SpecialN"

fun plain :: "node \<Rightarrow> bool" where
  "plain (FileN s) = True"
| "plain (DirN cs) = list_all (\<lambda>p. plain (snd p)) cs"
| "plain SpecialN = False"

definition is_dir :: "node option \<Rightarrow> bool" where
  "is_dir x = (case x of Some (DirN cs) \<Rightarrow> True | _ \<Rightarrow> False)"

definition put_node :: "string \<Rightarrow> node option \<Rightarrow> tree \<Rightarrow> tree" where
  "put_node name x t = (case x of None \<Rightarrow> dpop name t | Some n \<Rightarrow> dset name n t)"

lemma dget_put_node [simp]: "dget (put_node name x t) = (dget t)(name := x)"
  by (auto simp: put_node_def split: option.splits)

section \<open>State\<close>

text \<open>
  How one operation on the disk goes. \<open>co_shows\<close> is what is found at its target while it runs
  (arbitrary); if it fails, \<open>co_left\<close> is what it leaves there; \<open>co_text\<close> is how the write of a
  text file ends. The list of courses is the oracle of a run; where it is exhausted, all goes well.
\<close>

record course =
  co_shows :: "node option list"
  co_fails :: bool
  co_left :: "node option"
  co_text :: fault

definition smooth :: course where
  "smooth = \<lparr>co_shows = [], co_fails = False, co_left = None, co_text = WriteOk\<rparr>"

record manifest =
  mf_backup :: string
  mf_from :: string
  mf_to :: string
  mf_ts :: string
  mf_unit :: "string option"
  mf_deadline :: "int option"
  mf_from_commit :: "string option"
  mf_to_commit :: "string option"

record failed_update =
  fu_to :: string
  fu_backup :: string
  fu_reason :: string

record deploy =
  dp_tree :: tree
  dp_backups :: "(string, tree) dict"
  dp_pending :: "manifest stored"
  dp_bad :: "string list stored"
  dp_bad_commits :: "string list stored"
  dp_failed :: "failed_update stored"
  dp_healthy :: bool
  dp_ran :: "string list list"
  dp_courses :: "course list"

section \<open>Actions\<close>

type_synonym 'a act = "deploy \<Rightarrow> 'a result \<times> deploy \<times> deploy list"

definition give :: "'a \<Rightarrow> 'a act" where
  "give x s = (Inr x, s, [])"

definition fail :: "exn \<Rightarrow> 'a act" where
  "fail e s = (Inl e, s, [])"

definition of_result :: "'a result \<Rightarrow> 'a act" where
  "of_result r s = (r, s, [])"

definition look :: "(deploy \<Rightarrow> 'a) \<Rightarrow> 'a act" where
  "look f s = (Inr (f s), s, [])"

definition seq :: "'a act \<Rightarrow> ('a \<Rightarrow> 'b act) \<Rightarrow> 'b act" where
  "seq p f s =
     (case p s of
        (Inl e, t, us) \<Rightarrow> (Inl e, t, us)
      | (Inr x, t, us) \<Rightarrow> (case f x t of (r, v, ws) \<Rightarrow> (r, v, us @ ws)))"

definition rescue :: "'a act \<Rightarrow> (exn \<Rightarrow> 'a act) \<Rightarrow> 'a act" where
  "rescue p h s =
     (case p s of
        (Inr x, t, us) \<Rightarrow> (Inr x, t, us)
      | (Inl e, t, us) \<Rightarrow> (case h e t of (r, v, ws) \<Rightarrow> (r, v, us @ ws)))"

fun for_each :: "('a \<Rightarrow> unit act) \<Rightarrow> 'a list \<Rightarrow> unit act" where
  "for_each f [] = give ()"
| "for_each f (x # xs) = seq (f x) (\<lambda>_. for_each f xs)"

text \<open>One indivisible change.\<close>

definition change :: "(deploy \<Rightarrow> deploy) \<Rightarrow> unit act" where
  "change f s = (Inr (), f s, [f s])"

text \<open>A command of which only the call matters.\<close>

definition ran :: "string list \<Rightarrow> unit act" where
  "ran argv = change (\<lambda>s. s\<lparr>dp_ran := dp_ran s @ [argv]\<rparr>)"

definition next_course :: "deploy \<Rightarrow> course \<times> deploy" where
  "next_course s = (case dp_courses s of [] \<Rightarrow> (smooth, s) | c # cs \<Rightarrow> (c, s\<lparr>dp_courses := cs\<rparr>))"

text \<open>An indivisible change that may fail and then changes nothing.\<close>

definition change_or_fail :: "(deploy \<Rightarrow> deploy) \<Rightarrow> unit act" where
  "change_or_fail f s =
     (case next_course s of (c, s') \<Rightarrow>
        if co_fails c then (Inl OSError, s', []) else (Inr (), f s', [f s']))"

text \<open>
  Copying something to a place: anything may show there while it lasts, and if it fails it
  leaves anything behind.
\<close>

definition copy_to :: "(node option \<Rightarrow> deploy \<Rightarrow> deploy) \<Rightarrow> node \<Rightarrow> unit act" where
  "copy_to put x s =
     (case next_course s of (c, s') \<Rightarrow>
        let during = map (\<lambda>n. put n s') (co_shows c) in
        if co_fails c then (Inl OSError, put (co_left c) s', during @ [put (co_left c) s'])
        else (Inr (), put (Some x) s', during @ [put (Some x) s']))"

text \<open>\<open>rmtree(..., ignore_errors=True)\<close>: it may leave anything, and nobody is told.\<close>

definition remove_from :: "(node option \<Rightarrow> deploy \<Rightarrow> deploy) \<Rightarrow> unit act" where
  "remove_from put s =
     (case next_course s of (c, s') \<Rightarrow>
        let during = map (\<lambda>n. put n s') (co_shows c); rest = (if co_fails c then co_left c else None)
        in (Inr (), put rest s', during @ [put rest s']))"

text \<open>\<open>with open(path, "w") as f: json.dump(x, f)\<close>: emptied, torn, complete.\<close>

definition write_text_file :: "('a stored \<Rightarrow> deploy \<Rightarrow> deploy) \<Rightarrow> 'a \<Rightarrow> unit act" where
  "write_text_file put x s =
     (case next_course s of (c, s') \<Rightarrow>
        case co_text c of
          WriteOk \<Rightarrow> (Inr (), put (Stored x) s', [put EmptyFile s', put Garbled s', put (Stored x) s'])
        | OpenFails \<Rightarrow> (Inl OSError, s', [])
        | TornEmpty \<Rightarrow> (Inl OSError, put EmptyFile s', [put EmptyFile s'])
        | TornPartial \<Rightarrow> (Inl OSError, put Garbled s', [put EmptyFile s', put Garbled s']))"

section \<open>Triples\<close>

text \<open>
  From a state with \<open>P\<close>, every state passed through satisfies \<open>C\<close>; a normal end satisfies \<open>Q\<close>,
  and the state in which an exception is raised satisfies \<open>C\<close>.
\<close>

definition triple :: "(deploy \<Rightarrow> bool) \<Rightarrow> 'a act \<Rightarrow> ('a \<Rightarrow> deploy \<Rightarrow> bool) \<Rightarrow> (deploy \<Rightarrow> bool) \<Rightarrow> bool" where
  "triple P p Q C \<longleftrightarrow>
     (\<forall>s. P s \<longrightarrow> (case p s of (r, t, us) \<Rightarrow> list_all C us \<and> (case r of Inl e \<Rightarrow> C t | Inr x \<Rightarrow> Q x t)))"

lemma tripleI:
  "(\<And>s r t us. P s \<Longrightarrow> p s = (r, t, us) \<Longrightarrow> list_all C us \<and> (case r of Inl e \<Rightarrow> C t | Inr x \<Rightarrow> Q x t)) \<Longrightarrow> triple P p Q C"
  by (fastforce simp: triple_def split: prod.split)

lemma tripleD:
  assumes "triple P p Q C" "P s" "p s = (r, t, us)"
  shows "list_all C us" "r = Inr x \<Longrightarrow> Q x t" "r = Inl e \<Longrightarrow> C t"
  using assms unfolding triple_def by fastforce+

lemma triple_give [triple_intro]: "(\<And>s. P s \<Longrightarrow> Q x s) \<Longrightarrow> triple P (give x) Q C"
  by (simp add: triple_def give_def)

lemma triple_fail [triple_intro]: "(\<And>s. P s \<Longrightarrow> C s) \<Longrightarrow> triple P (fail e) Q C"
  by (simp add: triple_def fail_def)

lemma triple_of_result [triple_intro]:
  "(\<And>s x. r = Inr x \<Longrightarrow> P s \<Longrightarrow> Q x s) \<Longrightarrow> (\<And>s. P s \<Longrightarrow> C s) \<Longrightarrow> triple P (of_result r) Q C"
  by (simp add: triple_def of_result_def split: sum.split)

lemma triple_look [triple_intro]: "(\<And>s. P s \<Longrightarrow> Q (f s) s) \<Longrightarrow> triple P (look f) Q C"
  by (simp add: triple_def look_def)

lemma triple_change [triple_intro]:
  "(\<And>s. P s \<Longrightarrow> Q () (f s)) \<Longrightarrow> (\<And>s. P s \<Longrightarrow> C (f s)) \<Longrightarrow> triple P (change f) Q C"
  by (simp add: triple_def change_def)

lemma triple_seq:
  assumes "triple P p R C" "\<And>x. triple (R x) (f x) Q C"
  shows "triple P (seq p f) Q C"
proof (rule tripleI)
  fix s r t us assume P: "P s" and run: "seq p f s = (r, t, us)"
  obtain ra sa ua where a: "p s = (ra, sa, ua)" by (cases "p s") auto
  note A = tripleD [OF assms(1) P a]
  show "list_all C us \<and> (case r of Inl e \<Rightarrow> C t | Inr x \<Rightarrow> Q x t)"
  proof (cases ra)
    case (Inl e)
    with run a A show ?thesis by (auto simp: seq_def)
  next
    case (Inr x)
    obtain rb sb ub where b: "f x sa = (rb, sb, ub)" by (cases "f x sa") auto
    note B = tripleD [OF assms(2) A(2) [OF Inr] b]
    from run a b A(1) B Inr show ?thesis by (auto simp: seq_def split: sum.splits)
  qed
qed

lemma triple_rescue:
  assumes "triple P p Q C" "\<And>e. triple C (h e) Q C"
  shows "triple P (rescue p h) Q C"
proof (rule tripleI)
  fix s r t us assume P: "P s" and run: "rescue p h s = (r, t, us)"
  obtain ra sa ua where a: "p s = (ra, sa, ua)" by (cases "p s") auto
  note A = tripleD [OF assms(1) P a]
  show "list_all C us \<and> (case r of Inl e \<Rightarrow> C t | Inr x \<Rightarrow> Q x t)"
  proof (cases ra)
    case (Inr x)
    with run a A show ?thesis by (auto simp: rescue_def split: sum.splits)
  next
    case (Inl e)
    obtain rb sb ub where b: "h e sa = (rb, sb, ub)" by (cases "h e sa") auto
    note B = tripleD [OF assms(2) A(3) [OF Inl] b]
    from run a b A(1) B Inl show ?thesis by (auto simp: rescue_def split: sum.splits)
  qed
qed

lemma triple_conseq:
  "triple P' p Q' C' \<Longrightarrow> (\<And>s. P s \<Longrightarrow> P' s) \<Longrightarrow> (\<And>x s. Q' x s \<Longrightarrow> Q x s) \<Longrightarrow> (\<And>s. C' s \<Longrightarrow> C s)
    \<Longrightarrow> triple P p Q C"
  by (fastforce simp: triple_def list_all_iff split: prod.splits sum.splits)

lemma triple_pre: "triple P' p Q C \<Longrightarrow> (\<And>s. P s \<Longrightarrow> P' s) \<Longrightarrow> triple P p Q C"
  by (erule triple_conseq)

lemma triple_if [triple_intro]:
  "(b \<Longrightarrow> triple P p Q C) \<Longrightarrow> (\<not> b \<Longrightarrow> triple P q Q C) \<Longrightarrow> triple P (if b then p else q) Q C"
  by simp

text \<open>A loop: the assertion names the elements still to come.\<close>

lemma triple_for_each:
  assumes "\<And>x xs. triple (I (x # xs)) (f x) (\<lambda>_. I xs) C"
  shows "triple (I xs) (for_each f xs) (\<lambda>_. I []) C"
proof (induction xs)
  case Nil
  show ?case by (simp add: triple_give)
next
  case (Cons x xs)
  show ?case unfolding for_each.simps by (rule triple_seq [OF assms Cons.IH])
qed

text \<open>The operations on the disk; \<open>steady\<close> assertions do not read the oracle.\<close>

definition oracle_free :: "(deploy \<Rightarrow> bool) \<Rightarrow> bool" where
  "oracle_free P \<longleftrightarrow> (\<forall>s cs. P (s\<lparr>dp_courses := cs\<rparr>) = P s)"

lemma next_course_state: "next_course s = (c, t) \<Longrightarrow> t = s\<lparr>dp_courses := tl (dp_courses s)\<rparr>"
  by (cases s) (auto simp: next_course_def split: list.splits)

lemma oracle_next: "oracle_free P \<Longrightarrow> next_course s = (c, t) \<Longrightarrow> P s \<Longrightarrow> P t"
  by (auto simp: oracle_free_def dest: next_course_state)

lemma triple_change_or_fail:
  assumes "oracle_free P" "\<And>s. P s \<Longrightarrow> Q () (f s) \<and> C (f s)" "\<And>s. P s \<Longrightarrow> C s"
  shows "triple P (change_or_fail f) Q C"
  using assms by (intro tripleI) (auto simp: change_or_fail_def split: prod.splits if_splits dest: oracle_next)

lemma triple_copy_to:
  assumes "oracle_free P" "\<And>s. P s \<Longrightarrow> Q () (put (Some x) s)" "\<And>s n. P s \<Longrightarrow> C (put n s)"
  shows "triple P (copy_to put x) Q C"
  using assms by (intro tripleI) (auto simp: copy_to_def Let_def list_all_iff split: prod.splits if_splits dest: oracle_next)

lemma triple_remove_from:
  assumes "oracle_free P" "\<And>s n. P s \<Longrightarrow> Q () (put n s)" "\<And>s n. P s \<Longrightarrow> C (put n s)"
  shows "triple P (remove_from put) Q C"
  using assms by (intro tripleI) (auto simp: remove_from_def Let_def list_all_iff split: prod.splits if_splits dest: oracle_next)

lemma triple_write_text_file:
  assumes "oracle_free P" "\<And>s. P s \<Longrightarrow> Q () (put (Stored x) s)" "\<And>s n. P s \<Longrightarrow> C (put n s)" "\<And>s. P s \<Longrightarrow> C s"
  shows "triple P (write_text_file put x) Q C"
  using assms by (intro tripleI) (auto simp: write_text_file_def split: prod.splits fault.splits dest: oracle_next)

section \<open>Copying into a place that is taken\<close>

text \<open>
  \<open>copytree(..., dirs_exist_ok=True)\<close> onto what is there: directories merge, files are replaced
  (a file meets a directory of its name: \<open>copy2\<close> puts it inside). \<open>None\<close> is the error of a clash
  or of a special file.
\<close>

fun overlay :: "node option \<Rightarrow> string \<Rightarrow> node \<Rightarrow> node option"
  and overlay_all :: "tree \<Rightarrow> (string \<times> node) list \<Rightarrow> tree option" where
  "overlay old name (FileN s) =
     (case old of
        Some (DirN cs) \<Rightarrow> if is_dir (dget cs name) then None else Some (DirN (dset name (FileN s) cs))
      | _ \<Rightarrow> Some (FileN s))"
| "overlay old name SpecialN = None"
| "overlay old name (DirN cs) =
     (case old of
        None \<Rightarrow> map_option DirN (overlay_all [] cs)
      | Some (DirN ds) \<Rightarrow> map_option DirN (overlay_all ds cs)
      | Some _ \<Rightarrow> None)"
| "overlay_all ds [] = Some ds"
| "overlay_all ds ((n, c) # cs) =
     (case overlay (dget ds n) n c of None \<Rightarrow> None | Some x \<Rightarrow> overlay_all (dset n x ds) cs)"

definition copy_over :: "(node option \<Rightarrow> deploy \<Rightarrow> deploy) \<Rightarrow> (deploy \<Rightarrow> node option) \<Rightarrow> string \<Rightarrow> node \<Rightarrow> unit act" where
  "copy_over put get name x s =
     (case overlay (get s) name x of
        Some y \<Rightarrow> copy_to put y s
      | None \<Rightarrow>
          (case next_course s of (c, s') \<Rightarrow>
             (Inl OSError, put (co_left c) s', map (\<lambda>n. put n s') (co_shows c) @ [put (co_left c) s'])))"

text \<open>Names are distinct in every directory.\<close>

fun well_named :: "node \<Rightarrow> bool" where
  "well_named (DirN cs) = (distinct (map fst cs) \<and> list_all (\<lambda>p. well_named (snd p)) cs)"
| "well_named _ = True"

lemma overlay_empty:
  "plain x \<Longrightarrow> well_named x \<Longrightarrow> overlay None n x = Some x"
  "list_all (\<lambda>p. plain (snd p) \<and> well_named (snd p)) cs \<Longrightarrow> distinct (map fst (ds @ cs)) \<Longrightarrow>
     overlay_all ds cs = Some (ds @ cs)"
proof (induction "None :: node option" n x and ds cs rule: overlay_overlay_all.induct)
  case (5 ds n c cs)
  have new: "dget ds n = None" using 5(4) by (auto simp: map_of_eq_None_iff)
  then have one: "overlay (dget ds n) n c = Some c" using 5 by simp
  have "dset n c ds = ds @ [(n, c)]" using new by (induction ds) (auto split: if_splits)
  moreover from this have "overlay_all (dset n c ds) cs = Some ((ds @ [(n, c)]) @ cs)"
    using 5(2) [OF one] 5(3,4) by simp
  ultimately show ?case using one by simp
qed (auto simp: list_all_iff)

lemma regular_plain: "x \<noteq> SpecialN \<Longrightarrow> plain (regular x)"
  by (induction x rule: regular.induct) (auto simp: list_all_iff)

lemma regular_well_named: "well_named x \<Longrightarrow> well_named (regular x)"
proof (induction x rule: regular.induct)
  case (2 cs)
  then show ?case
    by (auto simp: list_all_iff comp_def case_prod_beta intro!: distinct_map_filter)
qed auto

lemma regular_plain_id: "plain x \<Longrightarrow> regular x = x"
proof (induction x rule: regular.induct)
  case (2 cs)
  have "filter (\<lambda>(n, c). c \<noteq> SpecialN) cs = cs"
    using 2(2) by (intro filter_True) (auto simp: list_all_iff)
  moreover have "map (\<lambda>(n, c). (n, regular c)) cs = cs"
    using 2 by (intro map_idI) (fastforce simp: list_all_iff)
  ultimately show ?case by simp
qed auto

lemma triple_copy_over:
  assumes "oracle_free P" "\<And>s y. P s \<Longrightarrow> overlay (get s) name x = Some y \<Longrightarrow> Q () (put (Some y) s)"
    and "\<And>s cs. get (s\<lparr>dp_courses := cs\<rparr>) = get s" "\<And>s n. P s \<Longrightarrow> C (put n s)"
  shows "triple P (copy_over put get name x) Q C"
proof (rule tripleI)
  fix s r t us assume P: "P s" and run: "copy_over put get name x s = (r, t, us)"
  show "list_all C us \<and> (case r of Inl e \<Rightarrow> C t | Inr u \<Rightarrow> Q u t)"
  proof (cases "overlay (get s) name x")
    case None
    with run assms(4) P oracle_next [OF assms(1) _ P] show ?thesis
      by (auto simp: copy_over_def list_all_iff split: prod.splits)
  next
    case (Some y)
    let ?P = "\<lambda>s'. P s' \<and> get s' = get s"
    have "triple ?P (copy_to put y) Q C"
      using assms Some by (intro triple_copy_to) (auto simp: oracle_free_def)
    moreover have "copy_to put y s = (r, t, us)" using run Some by (simp add: copy_over_def)
    ultimately show ?thesis using P tripleD [of ?P "copy_to put y" Q C s] by (cases r) auto
  qed
qed

end
