(* ===== verification/Recovery.thy ===== *)
theory Recovery
  imports Deploy "HOL-Library.List_Lexorder" "HOL-Library.Char_ord"
begin

text \<open>
  \<open>agent/src/update_recovery.py\<close>: snapshots of the code before a swap, the manifest of the update
  in flight, the registries of versions and commits that did not boot, the restore, and the
  command line on top of them. The trees the agent snapshots are entries of its installation
  directory, so a tree is named by one path component here. A document that is JSON of another
  shape than the module writes reads like a missing one.
\<close>

section \<open>Paths and versions\<close>

definition KEEP_BACKUPS :: nat where "KEEP_BACKUPS = 3"

definition DEFAULT_TREE_LIST :: "string list" where "DEFAULT_TREE_LIST = [''core/src'', ''WebUI'']"

text \<open>The name of a tree's copy: its last path component, trailing slashes dropped.\<close>

definition tree_basename :: "string \<Rightarrow> string" where
  "tree_basename tree =
     (let bare = rev (dropWhile (\<lambda>c. c = CHR ''/'') (rev tree));
          slashed = map (\<lambda>c. if c = char_of (92::nat) then CHR ''/'' else c) bare
      in last (split_on (CHR ''/'') slashed))"

definition backup_path :: "string \<Rightarrow> string \<Rightarrow> string" where
  "backup_path state ts = state @ ''/update-backup/'' @ ts"

text \<open>A version as numbers; anything that is not a dotted list of integers is 0.0.0.\<close>

fun ints_of :: "string list \<Rightarrow> int list option" where
  "ints_of [] = Some []"
| "ints_of (s # ss) =
     (case parse_int s of None \<Rightarrow> None | Some i \<Rightarrow> (case ints_of ss of None \<Rightarrow> None | Some is \<Rightarrow> Some (i # is)))"

definition ver_tuple :: "string \<Rightarrow> int list" where
  "ver_tuple v = (case ints_of (split_on (CHR ''.'') (strip v)) of None \<Rightarrow> [0, 0, 0] | Some is \<Rightarrow> is)"

section \<open>Snapshots\<close>

definition backup_at :: "string \<Rightarrow> deploy \<Rightarrow> tree" where
  "backup_at dir s = (case dget (dp_backups s) dir of None \<Rightarrow> [] | Some t \<Rightarrow> t)"

definition put_backup :: "string \<Rightarrow> string \<Rightarrow> node option \<Rightarrow> deploy \<Rightarrow> deploy" where
  "put_backup dir name x s = s\<lparr>dp_backups := dset dir (put_node name x (backup_at dir s)) (dp_backups s)\<rparr>"

definition backup_entry :: "string \<Rightarrow> string \<Rightarrow> deploy \<Rightarrow> node option" where
  "backup_entry dir name s = dget (backup_at dir s) name"

definition snapshot_tree :: "string \<Rightarrow> string \<Rightarrow> unit act" where
  "snapshot_tree dir tree =
     seq (look (\<lambda>s. dget (dp_tree s) tree)) (\<lambda>x.
     if \<not> is_dir x then give ()
     else rescue (copy_over (put_backup dir (tree_basename tree)) (backup_entry dir (tree_basename tree))
                   (tree_basename tree) (regular (the x)))
            (\<lambda>e. give ()))"

definition snapshot_code :: "string \<Rightarrow> string \<Rightarrow> string list \<Rightarrow> string act" where
  "snapshot_code state ts trees =
     (let dir = backup_path state ts in
      seq (change_or_fail (\<lambda>s. if dhas (dp_backups s) dir then s else s\<lparr>dp_backups := dset dir [] (dp_backups s)\<rparr>)) (\<lambda>_.
      seq (for_each (snapshot_tree dir) trees) (\<lambda>_.
      give dir)))"

text \<open>The newest \<open>keep\<close> snapshots stay; \<open>mtime\<close> is the modification time of a directory.\<close>

definition put_backup_dir :: "string \<Rightarrow> node option \<Rightarrow> deploy \<Rightarrow> deploy" where
  "put_backup_dir dir x s =
     s\<lparr>dp_backups := (case x of Some (DirN cs) \<Rightarrow> dset dir cs (dp_backups s) | _ \<Rightarrow> dpop dir (dp_backups s))\<rparr>"

definition newest_first :: "(string \<Rightarrow> rat) \<Rightarrow> string list \<Rightarrow> string list" where
  "newest_first mtime dirs = sort_key (\<lambda>d. - mtime d) dirs"

definition prune_backups :: "(string \<Rightarrow> rat) \<Rightarrow> nat \<Rightarrow> nat act" where
  "prune_backups mtime keep =
     seq (look (\<lambda>s. drop keep (newest_first mtime (dkeys (dp_backups s))))) (\<lambda>stale.
     seq (for_each (\<lambda>d. remove_from (put_backup_dir d)) stale) (\<lambda>_.
     give (length stale)))"

section \<open>The manifest of the update in flight\<close>

abbreviation put_pending :: "manifest stored \<Rightarrow> deploy \<Rightarrow> deploy" where
  "put_pending x s \<equiv> s\<lparr>dp_pending := x\<rparr>"

definition write_pending :: "manifest \<Rightarrow> unit act" where
  "write_pending m = write_text_file put_pending m"

definition read_pending :: "deploy \<Rightarrow> manifest option" where
  "read_pending s = (case dp_pending s of Stored m \<Rightarrow> Some m | _ \<Rightarrow> None)"

definition clear_pending :: "unit act" where
  "clear_pending =
     seq (look dp_pending) (\<lambda>x.
     if x = Missing then give ()
     else rescue (change_or_fail (put_pending Missing)) (\<lambda>e. give ()))"

section \<open>Registries of what did not boot\<close>

abbreviation put_bad :: "string list stored \<Rightarrow> deploy \<Rightarrow> deploy" where
  "put_bad x s \<equiv> s\<lparr>dp_bad := x\<rparr>"

abbreviation put_bad_commits :: "string list stored \<Rightarrow> deploy \<Rightarrow> deploy" where
  "put_bad_commits x s \<equiv> s\<lparr>dp_bad_commits := x\<rparr>"

text \<open>The sets are lists without repetitions; they are written sorted.\<close>

definition read_bad_versions :: "deploy \<Rightarrow> string list" where
  "read_bad_versions s = remdups (read_or [] (dp_bad s))"

definition write_bad_versions :: "string list \<Rightarrow> unit act" where
  "write_bad_versions vs = write_text_file put_bad (sort vs)"

definition add_bad_version :: "string \<Rightarrow> unit act" where
  "add_bad_version v =
     seq (look read_bad_versions) (\<lambda>vs.
     if v \<noteq> [] \<and> v \<notin> set vs then write_bad_versions (v # vs) else give ())"

definition is_version_bad :: "string \<Rightarrow> deploy \<Rightarrow> bool" where
  "is_version_bad v s = (v \<in> set (read_bad_versions s))"

definition clear_bad_versions_older_than :: "string \<Rightarrow> nat act" where
  "clear_bad_versions_older_than threshold =
     seq (look read_bad_versions) (\<lambda>vs.
     let keep = filter (\<lambda>v. ver_tuple threshold \<le> ver_tuple v) vs; removed = length vs - length keep in
     if removed \<noteq> 0 then seq (write_bad_versions keep) (\<lambda>_. give removed) else give removed)"

definition read_bad_commits :: "deploy \<Rightarrow> string list" where
  "read_bad_commits s = remdups (read_or [] (dp_bad_commits s))"

definition write_bad_commits :: "string list \<Rightarrow> unit act" where
  "write_bad_commits cs = write_text_file put_bad_commits (sort cs)"

definition add_bad_commit :: "string \<Rightarrow> unit act" where
  "add_bad_commit c =
     seq (look read_bad_commits) (\<lambda>cs.
     if c \<noteq> [] \<and> c \<notin> set cs then write_bad_commits (c # cs) else give ())"

definition is_bad_commit :: "string \<Rightarrow> deploy \<Rightarrow> bool" where
  "is_bad_commit c s = (c \<in> set (read_bad_commits s))"

abbreviation put_failed :: "failed_update stored \<Rightarrow> deploy \<Rightarrow> deploy" where
  "put_failed x s \<equiv> s\<lparr>dp_failed := x\<rparr>"

definition write_update_failed :: "string \<Rightarrow> string \<Rightarrow> string \<Rightarrow> unit act" where
  "write_update_failed to_version dir reason =
     write_text_file put_failed \<lparr>fu_to = to_version, fu_backup = dir, fu_reason = reason\<rparr>"

section \<open>Restoring a snapshot\<close>

definition put_tree :: "string \<Rightarrow> node option \<Rightarrow> deploy \<Rightarrow> deploy" where
  "put_tree name x s = s\<lparr>dp_tree := put_node name x (dp_tree s)\<rparr>"

definition tree_entry :: "string \<Rightarrow> deploy \<Rightarrow> node option" where
  "tree_entry name s = dget (dp_tree s) name"

definition chown_tree :: "string \<Rightarrow> string \<Rightarrow> unit act" where
  "chown_tree path user = ran [''chown'', ''-R'', user @ '':'' @ user, path]"

definition restore_tree :: "string \<Rightarrow> string \<Rightarrow> string option \<Rightarrow> string \<Rightarrow> bool \<Rightarrow> bool act" where
  "restore_tree dir home user tree ok =
     seq (look (backup_entry dir (tree_basename tree))) (\<lambda>x.
     if \<not> is_dir x then give ok
     else
       seq (remove_from (put_tree tree)) (\<lambda>_.
       seq (rescue (seq (copy_over (put_tree tree) (tree_entry tree) tree (the x)) (\<lambda>_. give True)) (\<lambda>e. give ok)) (\<lambda>ok'.
       case user of
         Some u \<Rightarrow> if u \<noteq> [] then seq (chown_tree (home @ ''/'' @ tree) u) (\<lambda>_. give ok') else give ok'
       | None \<Rightarrow> give ok')))"

fun restore_trees :: "string \<Rightarrow> string \<Rightarrow> string option \<Rightarrow> string list \<Rightarrow> bool \<Rightarrow> bool act" where
  "restore_trees dir home user [] ok = give ok"
| "restore_trees dir home user (tree # trees) ok =
     seq (restore_tree dir home user tree ok) (restore_trees dir home user trees)"

text \<open>
  The first tree is required: without its copy nothing is touched. An empty list of trees is an
  \<open>IndexError\<close>; no caller passes one.
\<close>

definition restore_snapshot :: "string \<Rightarrow> string \<Rightarrow> string list \<Rightarrow> string option \<Rightarrow> bool act" where
  "restore_snapshot dir home trees user =
     (if dir = [] then give False
      else case trees of
        [] \<Rightarrow> fail ValueError
      | tree # rest \<Rightarrow>
          seq (look (backup_entry dir (tree_basename tree))) (\<lambda>x.
          if \<not> is_dir x then give False else restore_trees dir home user (tree # rest) False))"

section \<open>The command line\<close>

datatype cli =
    CliSnapshot string "string option" string string "string list" "string option"
  | CliRollback string string "string list" "string option"
  | CliMarkBad string "string option"
  | CliMarkBadCommit string "string option"
  | CliClearPending
  | CliWriteFailed string string string "string option"
  | CliPrune nat

definition trees_or_default :: "string list \<Rightarrow> string list" where
  "trees_or_default trees = (if trees = [] then DEFAULT_TREE_LIST else trees)"

definition own :: "string option \<Rightarrow> string list \<Rightarrow> string \<Rightarrow> unit act" where
  "own user flags path =
     (case user of
        Some u \<Rightarrow> if u = [] then give () else ran (''chown'' # flags @ [u @ '':'' @ u, path])
      | None \<Rightarrow> give ())"

text \<open>Exit code and what is printed; \<open>clock\<close> is the current time as the default stamp.\<close>

fun run_cli :: "string \<Rightarrow> string \<Rightarrow> (string \<Rightarrow> rat) \<Rightarrow> cli \<Rightarrow> (int \<times> pyval) act" where
  "run_cli state clock mtime (CliSnapshot home ts from_v to_v trees user) =
     (let stamp = (case ts of Some t \<Rightarrow> if t = [] then clock else t | None \<Rightarrow> clock) in
      seq (rescue (seq (snapshot_code state stamp (trees_or_default trees)) (\<lambda>d. give (Some d))) (\<lambda>e. give None)) (\<lambda>r.
      case r of
        None \<Rightarrow> give (1, PStr [])
      | Some dir \<Rightarrow>
          seq (write_pending \<lparr>mf_backup = dir, mf_from = from_v, mf_to = to_v, mf_ts = stamp, mf_unit = None,
                 mf_deadline = None, mf_from_commit = None, mf_to_commit = None\<rparr>) (\<lambda>_.
          seq (own user [''-R''] state) (\<lambda>_. give (0, PStr dir)))))"
| "run_cli state clock mtime (CliRollback home dir trees user) =
     seq (restore_snapshot dir home (trees_or_default trees) user) (\<lambda>ok.
     give (0, PDict [(''ok'', PBool ok), (''backup_dir'', PStr dir),
                     (''reason'', PStr (if ok then [] else ''no snapshot; new version failed to boot''))]))"
| "run_cli state clock mtime (CliMarkBad v user) =
     seq (add_bad_version v) (\<lambda>_. seq (own user [] (state @ ''/bad_versions.json'')) (\<lambda>_. give (0, PNone)))"
| "run_cli state clock mtime (CliMarkBadCommit c user) =
     seq (add_bad_commit c) (\<lambda>_. seq (own user [] (state @ ''/bad_commits.json'')) (\<lambda>_. give (0, PNone)))"
| "run_cli state clock mtime CliClearPending = seq clear_pending (\<lambda>_. give (0, PNone))"
| "run_cli state clock mtime (CliWriteFailed to_v dir reason user) =
     seq (write_update_failed to_v dir reason) (\<lambda>_.
     seq (own user [] (state @ ''/update_failed.json'')) (\<lambda>_. give (0, PNone)))"
| "run_cli state clock mtime (CliPrune keep) =
     seq (prune_backups mtime keep) (\<lambda>n. give (0, PInt (int n)))"

section \<open>The contract of a registry\<close>

locale registry =
  fixes get :: "deploy \<Rightarrow> string list stored" and put :: "string list stored \<Rightarrow> deploy \<Rightarrow> deploy"
  assumes get_put: "get (put x s) = x" and get_courses: "get (s\<lparr>dp_courses := cs\<rparr>) = get s"
begin

text \<open>A write that ends is read back; one that fails may lose what was there, and only that.\<close>

lemma written:
  assumes "write_text_file put vs s = (Inr (), t, us)"
  shows "get t = Stored vs"
  using assms by (auto simp: write_text_file_def get_put split: prod.splits fault.splits)

lemma failed:
  assumes "write_text_file put vs s = (Inl e, t, us)"
  shows "get t = get s \<or> get t = EmptyFile \<or> get t = Garbled"
  using assms by (auto simp: write_text_file_def get_put get_courses next_course_def split: prod.splits fault.splits list.splits)

lemma added:
  assumes "(if v \<noteq> [] \<and> v \<notin> set (remdups (read_or [] (get s))) then write_text_file put (sort (v # remdups (read_or [] (get s)))) else give ()) s
      = (Inr (), t, us)" "v \<noteq> []"
  shows "set (read_or [] (get t)) = insert v (set (read_or [] (get s)))"
proof (cases "v \<in> set (read_or [] (get s))")
  case True
  with assms show ?thesis by (auto simp: give_def)
next
  case False
  with assms have "write_text_file put (sort (v # remdups (read_or [] (get s)))) s = (Inr (), t, us)" by simp
  from written [OF this] show ?thesis by (simp add: set_insort_key)
qed

end

interpretation bad_versions: registry dp_bad put_bad
  by unfold_locales simp_all

interpretation bad_commits: registry dp_bad_commits put_bad_commits
  by unfold_locales simp_all

lemma add_bad_version_set:
  "add_bad_version v s = (Inr (), t, us) \<Longrightarrow> v \<noteq> [] \<Longrightarrow> set (read_bad_versions t) = insert v (set (read_bad_versions s))"
  using bad_versions.added [of v s t us]
  unfolding add_bad_version_def read_bad_versions_def write_bad_versions_def seq_def look_def
  by (simp split: prod.splits sum.splits)

lemma add_bad_commit_set:
  "add_bad_commit c s = (Inr (), t, us) \<Longrightarrow> c \<noteq> [] \<Longrightarrow> set (read_bad_commits t) = insert c (set (read_bad_commits s))"
  using bad_commits.added [of c s t us]
  unfolding add_bad_commit_def read_bad_commits_def write_bad_commits_def seq_def look_def
  by (simp split: prod.splits sum.splits)

end
