(* ===== verification/SelfUpdate.thy ===== *)
theory SelfUpdate
  imports Recovery
begin

text \<open>
  The self-update of \<open>agent/src/agent.py\<close> (\<open>_apply_update\<close>): fetch, compare commits, snapshot
  the code, record the update in flight, swap the new files in one entry at a time, record the
  commit, schedule the external watchdog and exit. What git, pip and the release bring is the
  record \<open>checkout\<close>; the entry \<open>.pxmx_repo\<close> of the installation directory, git's own working
  copy, is not part of the tree.
\<close>

section \<open>What the outside brings\<close>

text \<open>
  In the order of the calls: the name of the current ref, the fetch, the commit of a remote
  ref, HEAD before the pull, the pull, HEAD after it; then the version file of the checkout
  before and after, its directory \<open>agent\<close>, the version files outside the tree, how pip and the
  start of the watchdog end, the process id, the time stamp.
\<close>

record checkout =
  ck_ref :: "string result"
  ck_fetch :: "exn option"
  ck_remote :: "string \<Rightarrow> string result"
  ck_head :: "string result"
  ck_pull :: "exn option"
  ck_pulled :: "string result"
  ck_old_version :: "string option"
  ck_version :: "string option"
  ck_items :: "(string \<times> node) list"
  ck_other_versions :: "string option list"
  ck_pip_ok :: bool
  ck_watchdog_ok :: bool
  ck_pid :: string
  ck_stamp :: string
  ck_home :: string
  ck_helper :: string

datatype verdict = UpToDate | SkippedBad | NoSafePoint | Relaunch int

definition AGENT_STATE_DIR :: string where "AGENT_STATE_DIR = ''/var/lib/pxmx/update-state''"

definition DEPLOYED :: string where "DEPLOYED = ''.pxmx_deployed_sha''"

definition repo_of :: "checkout \<Rightarrow> string" where
  "repo_of k = ck_home k @ ''/.pxmx_repo''"

definition repo_branch :: "checkout \<Rightarrow> string" where
  "repo_branch k =
     (case ck_ref k of
        Inl e \<Rightarrow> ''main''
      | Inr out \<Rightarrow> let b = strip out in if b \<noteq> [] \<and> b \<noteq> ''HEAD'' then b else ''main'')"

definition remote_hash :: "checkout \<Rightarrow> string" where
  "remote_hash k =
     (case ck_fetch k of
        Some e \<Rightarrow> []
      | None \<Rightarrow> (case ck_remote k (''origin/'' @ repo_branch k) of Inl e \<Rightarrow> [] | Inr out \<Rightarrow> strip out))"

definition text_of :: "node option \<Rightarrow> string option" where
  "text_of x = (case x of Some (FileN s) \<Rightarrow> Some s | _ \<Rightarrow> None)"

definition installed_hash :: "deploy \<Rightarrow> string" where
  "installed_hash s = (case text_of (tree_entry DEPLOYED s) of None \<Rightarrow> [] | Some t \<Rightarrow> strip t)"

fun get_version :: "string option list \<Rightarrow> string" where
  "get_version [] = ''unknown''"
| "get_version (c # cs) =
     (case c of Some t \<Rightarrow> if strip t \<noteq> [] then strip t else get_version cs | None \<Rightarrow> get_version cs)"

definition current_version :: "checkout \<Rightarrow> deploy \<Rightarrow> string" where
  "current_version k s = get_version (ck_old_version k # text_of (tree_entry ''VERSION'' s) # ck_other_versions k)"

definition pulled_version :: "checkout \<Rightarrow> string" where
  "pulled_version k = (case ck_version k of None \<Rightarrow> ''?'' | Some t \<Rightarrow> strip t)"

section \<open>The point of return\<close>

definition snapshot_complete :: "string \<Rightarrow> deploy \<Rightarrow> bool" where
  "snapshot_complete dir s =
     (case backup_entry dir ''src'' s of
        Some (DirN cs) \<Rightarrow>
          (case dget cs ''agent.py'' of Some (FileN t) \<Rightarrow> has_infix ''async def run(self)'' t | _ \<Rightarrow> False)
      | _ \<Rightarrow> False)"

definition update_manifest :: "checkout \<Rightarrow> string \<Rightarrow> string \<Rightarrow> string \<Rightarrow> string \<Rightarrow> manifest" where
  "update_manifest k dir current from_commit to_commit =
     \<lparr>mf_backup = dir, mf_from = current, mf_to = pulled_version k, mf_ts = ck_stamp k,
      mf_unit = Some ''lm-pxmx-agent'', mf_deadline = Some 90, mf_from_commit = Some from_commit,
      mf_to_commit = Some to_commit\<rparr>"

text \<open>Whether there is something to return to: a complete snapshot and a manifest that names it.\<close>

definition safe_point :: "checkout \<Rightarrow> string \<Rightarrow> string \<Rightarrow> string \<Rightarrow> bool act" where
  "safe_point k current from_commit to_commit =
     rescue
       (seq (snapshot_code AGENT_STATE_DIR (ck_stamp k) [''src'']) (\<lambda>dir.
        seq (look (snapshot_complete dir)) (\<lambda>ok.
        if \<not> ok then give False
        else seq (write_pending (update_manifest k dir current from_commit to_commit)) (\<lambda>_. give True))))
       (\<lambda>e. give False)"

section \<open>The swap\<close>

definition tmp_new :: "string \<Rightarrow> string \<Rightarrow> string" where
  "tmp_new pid name = ''.'' @ name @ ''.new-'' @ pid"

definition tmp_old :: "string \<Rightarrow> string \<Rightarrow> string" where
  "tmp_old pid name = ''.'' @ name @ ''.old-'' @ pid"

text \<open>\<open>os.rename\<close> and \<open>os.replace\<close>.\<close>

definition can_replace :: "node option \<Rightarrow> node option \<Rightarrow> bool" where
  "can_replace x y =
     (x \<noteq> None \<and> (case y of
        None \<Rightarrow> True
      | Some (DirN cs) \<Rightarrow> cs = [] \<and> is_dir x
      | Some _ \<Rightarrow> \<not> is_dir x))"

definition rename :: "string \<Rightarrow> string \<Rightarrow> unit act" where
  "rename a b =
     seq (look (\<lambda>s. (tree_entry a s, tree_entry b s))) (\<lambda>(x, y).
     if can_replace x y then change_or_fail (\<lambda>s. put_tree b x (put_tree a None s)) else fail OSError)"

definition clear_leftover :: "string \<Rightarrow> unit act" where
  "clear_leftover p =
     seq (look (tree_entry p)) (\<lambda>x.
     if is_dir x then remove_from (put_tree p)
     else if x \<noteq> None then rescue (change_or_fail (put_tree p None)) (\<lambda>e. give ())
     else give ())"

definition copy_fresh :: "string \<Rightarrow> string \<Rightarrow> node \<Rightarrow> unit act" where
  "copy_fresh p name x =
     seq (look (tree_entry p)) (\<lambda>y.
     if y \<noteq> None then fail OSError else copy_over (put_tree p) (tree_entry p) name x)"

definition swap_dir :: "string \<Rightarrow> string \<Rightarrow> node \<Rightarrow> unit act" where
  "swap_dir pid name x =
     seq (copy_fresh (tmp_new pid name) name x) (\<lambda>_.
     seq (look (tree_entry name)) (\<lambda>there.
     seq (if there \<noteq> None then rename name (tmp_old pid name) else give ()) (\<lambda>_.
     seq (rename (tmp_new pid name) name) (\<lambda>_.
     seq (look (tree_entry (tmp_old pid name))) (\<lambda>old.
     if is_dir old then remove_from (put_tree (tmp_old pid name)) else give ())))))"

definition swap_file :: "string \<Rightarrow> string \<Rightarrow> node \<Rightarrow> unit act" where
  "swap_file pid name x =
     seq (copy_over (put_tree (tmp_new pid name)) (tree_entry (tmp_new pid name)) name x) (\<lambda>_.
     rename (tmp_new pid name) name)"

definition KEPT :: "string list" where "KEPT = [''.env'', ''venv'']"

definition clear_leftovers :: "string \<Rightarrow> string \<Rightarrow> unit act" where
  "clear_leftovers pid name = for_each clear_leftover [tmp_new pid name, tmp_old pid name]"

definition swap_item :: "string \<Rightarrow> string \<times> node \<Rightarrow> unit act" where
  "swap_item pid p =
     (case p of (name, x) \<Rightarrow>
        if name \<in> set KEPT then give ()
        else
          seq (clear_leftovers pid name) (\<lambda>_.
          if is_dir (Some x) then swap_dir pid name x else swap_file pid name x))"

section \<open>Recording and relaunching\<close>

fun node_at :: "string list \<Rightarrow> tree \<Rightarrow> node option" where
  "node_at [] t = Some (DirN t)"
| "node_at [n] t = dget t n"
| "node_at (n # m # ns) t = (case dget t n of Some (DirN cs) \<Rightarrow> node_at (m # ns) cs | _ \<Rightarrow> None)"

definition refresh_version :: "checkout \<Rightarrow> unit act" where
  "refresh_version k =
     rescue
       (case ck_version k of
          None \<Rightarrow> fail OSError
        | Some v \<Rightarrow> copy_over (put_tree ''VERSION'') (tree_entry ''VERSION'') ''VERSION'' (FileN v))
       (\<lambda>e. give ())"

definition record_commit :: "string \<Rightarrow> unit act" where
  "record_commit commit =
     rescue
       (seq (look (tree_entry DEPLOYED)) (\<lambda>x.
        if is_dir x then fail OSError else copy_to (put_tree DEPLOYED) (FileN (commit @ [char_of (10::nat)]))))
       (\<lambda>e. give ())"

definition install_requirements :: "checkout \<Rightarrow> unit act" where
  "install_requirements k =
     seq (look (\<lambda>s. node_at [''venv'', ''bin'', ''pip''] (dp_tree s) \<noteq> None \<and> tree_entry ''requirements.txt'' s \<noteq> None)) (\<lambda>there.
     if \<not> there then give ()
     else seq (ran [ck_home k @ ''/venv/bin/pip'', ''install'', ''-r'', ck_home k @ ''/requirements.txt'', ''-q'']) (\<lambda>_.
          if ck_pip_ok k then give () else fail OSError))"

definition WATCHDOG :: string where "WATCHDOG = ''/usr/local/bin/lm-component-update-restart''"

definition schedule_watchdog :: "checkout \<Rightarrow> unit act" where
  "schedule_watchdog k =
     rescue
       (if ck_watchdog_ok k
        then ran [WATCHDOG, ''--unit'', ''lm-pxmx-agent'', ''--state-dir'', AGENT_STATE_DIR, ''--install-dir'', ck_home k,
                  ''--deadline'', ''90'', ''--recovery-py'', ck_helper k]
        else fail OSError)
       (\<lambda>e. give ())"

definition clear_healthy_marker :: "unit act" where
  "clear_healthy_marker =
     seq (look dp_healthy) (\<lambda>h.
     if h then rescue (change_or_fail (\<lambda>s. s\<lparr>dp_healthy := False\<rparr>)) (\<lambda>e. give ()) else give ())"

definition touch_healthy_marker :: "unit act" where
  "touch_healthy_marker = rescue (change_or_fail (\<lambda>s. s\<lparr>dp_healthy := True\<rparr>)) (\<lambda>e. give ())"

definition deploy_new :: "checkout \<Rightarrow> string \<Rightarrow> verdict act" where
  "deploy_new k commit =
     seq (for_each (swap_item (ck_pid k)) (ck_items k)) (\<lambda>_.
     seq (refresh_version k) (\<lambda>_.
     seq (record_commit commit) (\<lambda>_.
     seq (install_requirements k) (\<lambda>_.
     seq (schedule_watchdog k) (\<lambda>_.
     seq clear_healthy_marker (\<lambda>_.
     give (Relaunch 3)))))))"

definition git :: "checkout \<Rightarrow> string list \<Rightarrow> unit act" where
  "git k args = ran (''git'' # ''-C'' # repo_of k # args)"

definition pull :: "checkout \<Rightarrow> (string \<times> string) act" where
  "pull k =
     seq (git k [''rev-parse'', ''HEAD'']) (\<lambda>_.
     seq (of_result (ck_head k)) (\<lambda>before.
     seq (git k [''pull'', ''--rebase'', ''--autostash'']) (\<lambda>_.
     case ck_pull k of
       Some e \<Rightarrow> fail e
     | None \<Rightarrow>
         seq (git k [''rev-parse'', ''HEAD'']) (\<lambda>_.
         seq (of_result (ck_pulled k)) (\<lambda>after.
         give (strip before, strip after))))))"

definition install_pulled :: "checkout \<Rightarrow> string \<Rightarrow> string \<Rightarrow> string \<times> string \<Rightarrow> verdict act" where
  "install_pulled k current installed heads =
     (if installed \<noteq> [] \<and> snd heads = installed then give UpToDate
      else
        seq (look (is_version_bad (pulled_version k))) (\<lambda>bad.
        if bad then seq clear_pending (\<lambda>_. give SkippedBad)
        else
          seq (safe_point k current (if installed \<noteq> [] then installed else fst heads) (snd heads)) (\<lambda>ok.
          if \<not> ok then give NoSafePoint else deploy_new k (snd heads))))"

definition apply_update :: "checkout \<Rightarrow> verdict act" where
  "apply_update k =
     seq (look (current_version k)) (\<lambda>current.
     seq (git k [''rev-parse'', ''--abbrev-ref'', ''HEAD'']) (\<lambda>_.
     seq (git k [''fetch'', ''--quiet'', ''origin'', repo_branch k]) (\<lambda>_.
     seq (if ck_fetch k = None then git k [''rev-parse'', ''origin/'' @ repo_branch k] else give ()) (\<lambda>_.
     seq (look installed_hash) (\<lambda>installed.
     if remote_hash k \<noteq> [] \<and> installed = remote_hash k then give UpToDate
     else seq (pull k) (install_pulled k current installed))))))"

text \<open>One round of the ten-minute check: it applies an update only if git says it is behind.\<close>

definition update_check :: "checkout \<Rightarrow> int result \<Rightarrow> verdict act" where
  "update_check k behind =
     rescue
       (seq (git k [''fetch'', ''--quiet'']) (\<lambda>_.
        seq (git k [''rev-parse'', ''--abbrev-ref'', ''HEAD'']) (\<lambda>_.
        seq (git k [''rev-list'', ''--count'', ''HEAD..origin/'' @ repo_branch k]) (\<lambda>_.
        seq (of_result behind) (\<lambda>n.
        if 0 < n then apply_update k else give UpToDate)))))
       (\<lambda>e. give UpToDate)"

end
