(* ===== verification/UpdateSafety.thy ===== *)
theory UpdateSafety
  imports SelfUpdate
begin

text \<open>
  What an interruption of the self-update can leave, and what can be done from there: the swap
  shows each entry old, new, or set aside, the point of return exists before the first entry
  changes, and a snapshot brings the code back.
\<close>

section \<open>States an interruption may find\<close>

definition swapped :: "checkout \<Rightarrow> (string \<times> node) list" where
  "swapped k = filter (\<lambda>p. fst p \<notin> set KEPT) (ck_items k)"

definition temps :: "checkout \<Rightarrow> string list" where
  "temps k = map (\<lambda>p. tmp_new (ck_pid k) (fst p)) (swapped k) @ map (\<lambda>p. tmp_old (ck_pid k) (fst p)) (swapped k)"

text \<open>
  A release as git brings it: distinct names at every level, no special files; no entry is named
  like a temporary one or like the two files the update writes itself; and no temporary entry
  with this process id is there yet.
\<close>

definition orderly :: "checkout \<Rightarrow> tree \<Rightarrow> bool" where
  "orderly k t \<longleftrightarrow>
     distinct (map fst (ck_items k)) \<and> list_all (\<lambda>p. plain (snd p) \<and> well_named (snd p)) (ck_items k)
     \<and> list_all (\<lambda>p. fst p \<notin> set (temps k) \<and> fst p \<noteq> ''VERSION'' \<and> fst p \<noteq> DEPLOYED) (ck_items k)
     \<and> list_all (\<lambda>n. dget t n = None) (temps k)"

text \<open>An entry is the old one, the new one, or missing with both complete beside it.\<close>

definition entry_safe :: "string \<Rightarrow> tree \<Rightarrow> tree \<Rightarrow> string \<times> node \<Rightarrow> bool" where
  "entry_safe pid t0 t p =
     (case p of (n, x) \<Rightarrow>
        dget t n = dget t0 n \<or> dget t n = Some x
        \<or> dget t n = None \<and> dget t (tmp_old pid n) = dget t0 n \<and> dget t (tmp_new pid n) = Some x)"

definition untouched :: "checkout \<Rightarrow> tree \<Rightarrow> tree \<Rightarrow> bool" where
  "untouched k t0 t \<longleftrightarrow>
     (\<forall>n. n \<in> set (map fst (swapped k)) \<or> n \<in> set (temps k) \<or> n = ''VERSION'' \<or> n = DEPLOYED \<or> dget t n = dget t0 n)"

definition has_point :: "checkout \<Rightarrow> deploy \<Rightarrow> bool" where
  "has_point k s =
     (case dp_pending s of
        Stored m \<Rightarrow> mf_backup m = backup_path AGENT_STATE_DIR (ck_stamp k) \<and> mf_to m = pulled_version k
                    \<and> snapshot_complete (mf_backup m) s
      | _ \<Rightarrow> False)"

definition recoverable :: "checkout \<Rightarrow> tree \<Rightarrow> deploy \<Rightarrow> bool" where
  "recoverable k t0 s \<longleftrightarrow>
     list_all (entry_safe (ck_pid k) t0 (dp_tree s)) (swapped k) \<and> untouched k t0 (dp_tree s)
     \<and> (dp_tree s = t0 \<or> has_point k s)"

section \<open>Names\<close>

lemma tmp_inj [simp]: "tmp_new pid a = tmp_new pid b \<longleftrightarrow> a = b" "tmp_old pid a = tmp_old pid b \<longleftrightarrow> a = b"
  by (simp_all add: tmp_new_def tmp_old_def)

lemma tmp_differ [simp]: "tmp_new pid a \<noteq> tmp_old pid b" "tmp_old pid a \<noteq> tmp_new pid b"
proof -
  have e: "drop (length s - (length pid + 5)) s = ''.new-'' @ pid" if "s = tmp_new pid c" for s c
    using that by (simp add: tmp_new_def)
  have f: "drop (length s - (length pid + 5)) s = ''.old-'' @ pid" if "s = tmp_old pid c" for s c
    using that by (simp add: tmp_old_def)
  show "tmp_new pid a \<noteq> tmp_old pid b" using e [OF refl, of a] f [OF refl, of b] by auto
  then show "tmp_old pid a \<noteq> tmp_new pid b" using e [OF refl, of b] f [OF refl, of a] by auto
qed

lemma tmp_self [simp]:
  "n \<noteq> tmp_new pid n" "n \<noteq> tmp_old pid n" "tmp_new pid n \<noteq> n" "tmp_old pid n \<noteq> n"
proof -
  have "length n \<noteq> length (tmp_new pid n)" "length n \<noteq> length (tmp_old pid n)"
    by (simp_all add: tmp_new_def tmp_old_def)
  then show "n \<noteq> tmp_new pid n" "n \<noteq> tmp_old pid n" "tmp_new pid n \<noteq> n" "tmp_old pid n \<noteq> n" by metis+
qed

lemma orderlyD:
  assumes "orderly k t" "(n, x) \<in> set (ck_items k)"
  shows "plain x" "well_named x" "n \<noteq> ''VERSION''" "n \<noteq> DEPLOYED" "n \<notin> set (temps k)"
  using assms by (simp_all add: orderly_def list_all_iff) (metis fst_conv snd_conv)+

section \<open>One entry\<close>

text \<open>The tree with the three places of one entry filled in.\<close>

definition placed :: "(string \<Rightarrow> node option) \<Rightarrow> string \<Rightarrow> string \<Rightarrow> checkout \<Rightarrow> node option \<Rightarrow> node option \<Rightarrow> node option \<Rightarrow> deploy \<Rightarrow> bool" where
  "placed f n pid k a b c s \<longleftrightarrow>
     has_point k s \<and> dget (dp_tree s) = f(n := a, tmp_new pid n := b, tmp_old pid n := c)"

definition shown :: "(string \<Rightarrow> node option) \<Rightarrow> string \<Rightarrow> string \<Rightarrow> checkout \<Rightarrow> node option \<Rightarrow> node \<Rightarrow> deploy \<Rightarrow> bool" where
  "shown f n pid k a x s \<longleftrightarrow>
     (\<exists>a' b c. placed f n pid k a' b c s \<and> (a' = a \<or> a' = Some x \<or> a' = None \<and> c = a \<and> b = Some x))"

lemma snapshot_complete_frame [simp]:
  "snapshot_complete d (s\<lparr>dp_courses := cs\<rparr>) = snapshot_complete d s"
  "snapshot_complete d (s\<lparr>dp_tree := t\<rparr>) = snapshot_complete d s"
  "snapshot_complete d (s\<lparr>dp_ran := r\<rparr>) = snapshot_complete d s"
  "snapshot_complete d (s\<lparr>dp_healthy := h\<rparr>) = snapshot_complete d s"
  "snapshot_complete d (s\<lparr>dp_pending := p\<rparr>) = snapshot_complete d s"
  by (simp_all add: snapshot_complete_def backup_entry_def backup_at_def)

lemma has_point_frame [simp]:
  "has_point k (s\<lparr>dp_courses := cs\<rparr>) = has_point k s" "has_point k (s\<lparr>dp_tree := t\<rparr>) = has_point k s"
  "has_point k (s\<lparr>dp_ran := r\<rparr>) = has_point k s" "has_point k (s\<lparr>dp_healthy := h\<rparr>) = has_point k s"
  by (simp_all add: has_point_def split: stored.split)

lemma placed_free: "oracle_free (placed f n pid k a b c)"
  by (simp add: oracle_free_def placed_def)

lemma put_tree_pending [simp]: "has_point k (put_tree n x s) = has_point k s"
  by (simp add: put_tree_def)

lemma dget_put_tree [simp]: "dget (dp_tree (put_tree n x s)) = (dget (dp_tree s))(n := x)"
  by (simp add: put_tree_def fun_eq_iff)

definition fits :: "node \<Rightarrow> bool" where
  "fits x \<longleftrightarrow> plain x \<and> well_named x"

lemma shownI:
  "placed f n pid k a' b c s \<Longrightarrow> a' = a \<or> a' = Some x \<or> a' = None \<and> c = a \<and> b = Some x \<Longrightarrow> shown f n pid k a x s"
  by (auto simp: shown_def)

lemma shown_cases:
  "placed f n pid k a b c s \<Longrightarrow> shown f n pid k a x s" "placed f n pid k (Some x) b c s \<Longrightarrow> shown f n pid k a x s"
  "placed f n pid k None (Some x) a s \<Longrightarrow> shown f n pid k a x s"
  unfolding shown_def by blast+

lemma placed_reads:
  assumes "placed f n pid k a b c s"
  shows "tree_entry n s = a" "tree_entry (tmp_new pid n) s = b" "tree_entry (tmp_old pid n) s = c"
  using assms by (simp_all add: placed_def tree_entry_def)

lemma placed_writes:
  assumes "placed f n pid k a b c s"
  shows "placed f n pid k z b c (put_tree n z s)" "placed f n pid k a z c (put_tree (tmp_new pid n) z s)"
    "placed f n pid k a b z (put_tree (tmp_old pid n) z s)"
  using assms by (auto simp: placed_def fun_eq_iff)

lemma tree_entry_courses [simp]: "tree_entry n (s\<lparr>dp_courses := cs\<rparr>) = tree_entry n s"
  by (simp add: tree_entry_def)

lemma copy_aside:
  assumes F: "fits x"
  shows "triple (placed f n pid k a None None) (copy_over (put_tree (tmp_new pid n)) (tree_entry (tmp_new pid n)) n x)
     (\<lambda>_. placed f n pid k a (Some x) None) (shown f n pid k a x)"
proof (rule triple_copy_over [OF placed_free])
  fix s y
  assume s: "placed f n pid k a None None s"
  show "placed f n pid k a (Some x) None (put_tree (tmp_new pid n) (Some y) s)"
    if "overlay (tree_entry (tmp_new pid n) s) n x = Some y"
    using that placed_reads(2) [OF s] placed_writes(2) [OF s] F overlay_empty(1) by (simp add: fits_def)
  show "shown f n pid k a x (put_tree (tmp_new pid n) z s)" for z
    by (rule shownI [OF placed_writes(2) [OF s]]) simp
qed simp

lemma triple_rename:
  assumes free: "oracle_free P" and C: "\<And>s. P s \<Longrightarrow> C s"
    and moved: "\<And>s. P s \<Longrightarrow> can_replace (tree_entry a s) (tree_entry b s) \<Longrightarrow>
      Q () (put_tree b (tree_entry a s) (put_tree a None s)) \<and> C (put_tree b (tree_entry a s) (put_tree a None s))"
  shows "triple P (rename a b) Q C"
  unfolding rename_def
proof (rule triple_seq)
  let ?R = "\<lambda>(x, y) s. P s \<and> x = tree_entry a s \<and> y = tree_entry b s"
  show "triple P (look (\<lambda>s. (tree_entry a s, tree_entry b s))) ?R C"
    by (rule triple_look) simp
  show "triple (?R z) ((\<lambda>(x, y). if can_replace x y then change_or_fail (\<lambda>s. put_tree b x (put_tree a None s)) else fail OSError) z) Q C" for z
  proof (cases z)
    case (Pair x y)
    have "oracle_free (?R z)" using free by (auto simp: oracle_free_def Pair)
    then show ?thesis
      using C moved by (auto simp: Pair intro!: triple_if triple_fail triple_change_or_fail)
  qed
qed

lemma placed_moves:
  assumes s: "placed f n pid k a b c s"
  shows "placed f n pid k None b a (put_tree (tmp_old pid n) a (put_tree n None s))"
    and "placed f n pid k b None c (put_tree n b (put_tree (tmp_new pid n) None s))"
  by (rule placed_writes(3) [OF placed_writes(1) [OF s]]) (rule placed_writes(1) [OF placed_writes(2) [OF s]])

lemma copy_fresh_triple:
  assumes F: "fits x"
  shows "triple (placed f n pid k a None None) (copy_fresh (tmp_new pid n) n x) (\<lambda>_. placed f n pid k a (Some x) None) (shown f n pid k a x)"
  unfolding copy_fresh_def
proof (rule triple_seq)
  let ?C = "shown f n pid k a x" and ?At = "placed f n pid k"
  show "triple (?At a None None) (look (tree_entry (tmp_new pid n))) (\<lambda>y s. y = None \<and> ?At a None None s) ?C"
    by (rule triple_look) (simp add: placed_reads)
  show "triple (\<lambda>s. y = None \<and> ?At a None None s)
      (if y \<noteq> None then fail OSError else copy_over (put_tree (tmp_new pid n)) (tree_entry (tmp_new pid n)) n x)
      (\<lambda>_. ?At a (Some x) None) ?C" for y
    by (rule triple_if) (auto intro: triple_fail triple_pre [OF copy_aside [OF F]])
qed

text \<open>A directory: built aside, the old one moved away, the new one moved in, the old one removed.\<close>

lemma swap_dir_triple:
  assumes F: "fits x"
  shows "triple (placed f n pid k a None None) (swap_dir pid n x) (\<lambda>_ s. \<exists>c. placed f n pid k (Some x) None c s) (shown f n pid k a x)"
  unfolding swap_dir_def
proof (rule triple_seq)
  let ?C = "shown f n pid k a x" and ?At = "placed f n pid k"
  show "triple (?At a None None) (copy_fresh (tmp_new pid n) n x) (\<lambda>_. ?At a (Some x) None) ?C"
    by (rule copy_fresh_triple [OF F])
  fix u
  show "triple (?At a (Some x) None)
     (seq (look (tree_entry n)) (\<lambda>there.
      seq (if there \<noteq> None then rename n (tmp_old pid n) else give ()) (\<lambda>_.
      seq (rename (tmp_new pid n) n) (\<lambda>_.
      seq (look (tree_entry (tmp_old pid n))) (\<lambda>old.
      if is_dir old then remove_from (put_tree (tmp_old pid n)) else give ())))))
     (\<lambda>_ s. \<exists>c. ?At (Some x) None c s) ?C"
  proof (rule triple_seq [where R = "\<lambda>there s. there = a \<and> ?At a (Some x) None s"])
    show "triple (?At a (Some x) None) (look (tree_entry n)) (\<lambda>there s. there = a \<and> ?At a (Some x) None s) ?C"
      by (rule triple_look) (simp add: placed_reads)
    fix there
    show "triple (\<lambda>s. there = a \<and> ?At a (Some x) None s)
      (seq (if there \<noteq> None then rename n (tmp_old pid n) else give ()) (\<lambda>_.
       seq (rename (tmp_new pid n) n) (\<lambda>_.
       seq (look (tree_entry (tmp_old pid n))) (\<lambda>old.
       if is_dir old then remove_from (put_tree (tmp_old pid n)) else give ()))))
      (\<lambda>_ s. \<exists>c. ?At (Some x) None c s) ?C"
    proof (rule triple_seq [where R = "\<lambda>_. ?At None (Some x) a"], goal_cases)
      case 1
      have "triple (?At a (Some x) None) (if a \<noteq> None then rename n (tmp_old pid n) else give ()) (\<lambda>_. ?At None (Some x) a) ?C"
        by (rule triple_if)
          (auto simp: placed_reads intro!: triple_rename triple_give placed_free
              intro: shown_cases(1) shown_cases(3) [OF placed_moves(1)] placed_moves)
      then show ?case by (cases "there = a") (simp_all add: triple_def)
    next
      case 2
      show ?case
      proof (rule triple_seq [where R = "\<lambda>_. ?At (Some x) None a"], goal_cases)
        case 1
        show ?case
          by (rule triple_rename [OF placed_free])
            (auto simp: placed_reads intro: shown_cases placed_moves)
      next
        case 2
        show ?case
          by (rule triple_seq [where R = "\<lambda>_. ?At (Some x) None a"])
            (auto intro!: triple_look triple_if triple_give triple_remove_from placed_free
              intro: shown_cases placed_writes)
      qed
    qed
  qed
qed

lemma swap_file_triple:
  assumes F: "fits x" and nodir: "\<not> is_dir (Some x)"
  shows "triple (placed f n pid k a None None) (swap_file pid n x) (\<lambda>_ s. \<exists>c. placed f n pid k (Some x) None c s) (shown f n pid k a x)"
  unfolding swap_file_def
  by (rule triple_seq [OF copy_aside [OF F]], rule triple_rename [OF placed_free])
    (auto simp: placed_reads intro: shown_cases placed_moves)

lemma clear_triple:
  "triple (placed f n pid k a None None) (clear_leftovers pid n)
     (\<lambda>_. placed f n pid k a None None) (shown f n pid k a x)"
proof -
  let ?At = "placed f n pid k a None None" and ?C = "shown f n pid k a x"
  have clear: "triple ?At (clear_leftover p) (\<lambda>_. ?At) ?C" if "p = tmp_new pid n \<or> p = tmp_old pid n" for p
    unfolding clear_leftover_def
  proof (rule triple_seq [where R = "\<lambda>y s. y = None \<and> ?At s"])
    show "triple ?At (look (tree_entry p)) (\<lambda>y s. y = None \<and> ?At s) ?C"
      by (rule triple_look) (use that placed_reads in auto)
    show "triple (\<lambda>s. y = None \<and> ?At s) (if is_dir y then remove_from (put_tree p)
        else if y \<noteq> None then rescue (change_or_fail (put_tree p None)) (\<lambda>e. give ()) else give ()) (\<lambda>_. ?At) ?C" for y
      by (cases y) (simp_all add: triple_def is_dir_def give_def)
  qed
  show ?thesis
    unfolding clear_leftovers_def by (auto intro!: triple_seq [where R = "\<lambda>_. ?At"] clear triple_give)
qed

lemma swap_item_triple:
  assumes F: "fits x" and swapped: "n \<notin> set KEPT"
  shows "triple (placed f n pid k a None None) (swap_item pid (n, x)) (\<lambda>_ s. \<exists>c. placed f n pid k (Some x) None c s) (shown f n pid k a x)"
  unfolding swap_item_def using swapped
  by (auto intro: triple_seq [OF clear_triple] swap_dir_triple [OF F] swap_file_triple [OF F])

section \<open>All entries\<close>

text \<open>The entries still to come are as they were, the others are new.\<close>

definition halfway :: "checkout \<Rightarrow> tree \<Rightarrow> (string \<times> node) list \<Rightarrow> tree \<Rightarrow> bool" where
  "halfway k t0 rest t \<longleftrightarrow>
     (\<forall>(n, x) \<in> set (swapped k).
        if (n, x) \<in> set rest
        then dget t n = dget t0 n \<and> dget t (tmp_new (ck_pid k) n) = None \<and> dget t (tmp_old (ck_pid k) n) = None
        else dget t n = Some x)
     \<and> untouched k t0 t"

definition in_swap :: "checkout \<Rightarrow> tree \<Rightarrow> (string \<times> node) list \<Rightarrow> deploy \<Rightarrow> bool" where
  "in_swap k t0 rest s \<longleftrightarrow>
     (\<exists>done'. ck_items k = done' @ rest) \<and> has_point k s \<and> halfway k t0 rest (dp_tree s)"

lemma swapped_iff: "(n, x) \<in> set (swapped k) \<longleftrightarrow> (n, x) \<in> set (ck_items k) \<and> n \<notin> set KEPT"
  by (auto simp: swapped_def)

lemma temps_iff: "m \<in> set (temps k) \<longleftrightarrow> (\<exists>(n, x) \<in> set (swapped k). m = tmp_new (ck_pid k) n \<or> m = tmp_old (ck_pid k) n)"
  by (force simp: temps_def)

lemma orderly_fits:
  assumes "orderly k t0" "(n, x) \<in> set (swapped k)"
  shows "fits x"
  using orderlyD [OF assms(1)] assms(2) by (auto simp: fits_def swapped_iff)

lemma orderly_temps:
  assumes "orderly k t0" "(n, x) \<in> set (swapped k)"
  shows "dget t0 (tmp_new (ck_pid k) n) = None" "dget t0 (tmp_old (ck_pid k) n) = None"
proof -
  have "tmp_new (ck_pid k) n \<in> set (temps k)" "tmp_old (ck_pid k) n \<in> set (temps k)"
    using assms(2) by (auto simp: temps_iff)
  then show "dget t0 (tmp_new (ck_pid k) n) = None" "dget t0 (tmp_old (ck_pid k) n) = None"
    using assms(1) by (simp_all add: orderly_def list_all_iff)
qed

lemma orderly_unique: "orderly k t0 \<Longrightarrow> (n, x) \<in> set (ck_items k) \<Longrightarrow> (n, y) \<in> set (ck_items k) \<Longrightarrow> x = y"
  by (auto simp: orderly_def dest: eq_key_imp_eq_value)

lemma swapped_not_temp:
  assumes "orderly k t0" "(m, y) \<in> set (swapped k)" "(n, x) \<in> set (swapped k)"
  shows "m \<noteq> tmp_new (ck_pid k) n" "m \<noteq> tmp_old (ck_pid k) n"
  using orderlyD(5) [OF assms(1), of m y] assms(2,3) by (auto simp: swapped_iff temps_iff)

lemma halfwayD:
  assumes "halfway k t0 rest t" "(m, y) \<in> set (swapped k)"
  shows "(m, y) \<in> set rest \<Longrightarrow> dget t m = dget t0 m \<and> dget t (tmp_new (ck_pid k) m) = None \<and> dget t (tmp_old (ck_pid k) m) = None"
    and "(m, y) \<notin> set rest \<Longrightarrow> dget t m = Some y"
  using assms by (auto simp: halfway_def)

text \<open>What one swap does to the picture of all entries.\<close>

lemma placed_elsewhere:
  assumes O: "orderly k t0" and n: "(n, x) \<in> set (swapped k)" and s: "placed f n (ck_pid k) k a b c s"
    and m: "(m, y) \<in> set (swapped k)" "m \<noteq> n"
  shows "dget (dp_tree s) m = f m" "dget (dp_tree s) (tmp_new (ck_pid k) m) = f (tmp_new (ck_pid k) m)"
    "dget (dp_tree s) (tmp_old (ck_pid k) m) = f (tmp_old (ck_pid k) m)"
  using s m(2) swapped_not_temp [OF O m(1) n] swapped_not_temp [OF O n m(1)] by (auto simp: placed_def)

lemma placed_untouched:
  assumes "(n, x) \<in> set (swapped k)" "placed (dget t1) n (ck_pid k) k a b c s" "untouched k t0 t1"
  shows "untouched k t0 (dp_tree s)"
  using assms by (force simp: untouched_def placed_def temps_iff)

lemma after_item:
  assumes O: "orderly k t0" and items: "ck_items k = done' @ (n, x) # xs" and n: "n \<notin> set KEPT"
    and half: "halfway k t0 ((n, x) # xs) t1" and s: "placed (dget t1) n (ck_pid k) k (Some x) None c s"
  shows "in_swap k t0 xs s"
proof -
  have N: "(n, x) \<in> set (swapped k)" using items n by (simp add: swapped_iff)
  have "n \<notin> fst ` set xs" using O items by (simp add: orderly_def)
  have "if (m, y) \<in> set xs
        then dget (dp_tree s) m = dget t0 m \<and> dget (dp_tree s) (tmp_new (ck_pid k) m) = None \<and> dget (dp_tree s) (tmp_old (ck_pid k) m) = None
        else dget (dp_tree s) m = Some y" if my: "(m, y) \<in> set (swapped k)" for m y
  proof (cases "m = n")
    case True
    moreover from this have "y = x" using orderly_unique [OF O, of n y x] my N by (simp add: swapped_iff)
    ultimately show ?thesis using s \<open>n \<notin> fst ` set xs\<close> by (force simp: placed_def)
  next
    case False
    then show ?thesis using placed_elsewhere [OF O N s my] halfwayD [OF half my] by auto
  qed
  then have "halfway k t0 xs (dp_tree s)"
    using placed_untouched [OF N s] half by (auto simp: halfway_def)
  moreover have "ck_items k = (done' @ [(n, x)]) @ xs" using items by simp
  ultimately show ?thesis using s unfolding in_swap_def placed_def by blast
qed

lemma during_item:
  assumes O: "orderly k t0" and items: "ck_items k = done' @ (n, x) # xs" and n: "n \<notin> set KEPT"
    and half: "halfway k t0 ((n, x) # xs) t1" and s: "shown (dget t1) n (ck_pid k) k (dget t1 n) x s"
  shows "recoverable k t0 s"
proof -
  have N: "(n, x) \<in> set (swapped k)" using items n by (simp add: swapped_iff)
  obtain a b c where P: "placed (dget t1) n (ck_pid k) k a b c s"
      and cases: "a = dget t1 n \<or> a = Some x \<or> a = None \<and> c = dget t1 n \<and> b = Some x"
    using s unfolding shown_def by blast
  have t1: "dget t1 n = dget t0 n" using halfwayD(1) [OF half N] by simp
  have "entry_safe (ck_pid k) t0 (dp_tree s) (m, y)" if my: "(m, y) \<in> set (swapped k)" for m y
  proof (cases "m = n")
    case True
    moreover from this have "y = x" using orderly_unique [OF O, of n y x] my N by (simp add: swapped_iff)
    ultimately show ?thesis using P cases t1 by (auto simp: placed_def entry_safe_def)
  next
    case False
    then show ?thesis using placed_elsewhere [OF O N P my] halfwayD [OF half my]
      by (cases "(m, y) \<in> set ((n, x) # xs)") (auto simp: entry_safe_def)
  qed
  moreover have "untouched k t0 (dp_tree s)" using placed_untouched [OF N P] half by (simp add: halfway_def)
  moreover have "has_point k s" using P by (simp add: placed_def)
  ultimately show ?thesis by (auto simp: recoverable_def list_all_iff)
qed

lemma triple_fix: "(\<And>s0. P s0 \<Longrightarrow> triple (\<lambda>s. s = s0) p Q C) \<Longrightarrow> triple P p Q C"
  by (auto simp: triple_def)

lemma in_swap_recoverable:
  assumes "in_swap k t0 rest s"
  shows "recoverable k t0 s"
proof -
  have h: "halfway k t0 rest (dp_tree s)" "has_point k s" using assms by (simp_all add: in_swap_def)
  have "entry_safe (ck_pid k) t0 (dp_tree s) (n, x)" if "(n, x) \<in> set (swapped k)" for n x
    using halfwayD [OF h(1) that] by (cases "(n, x) \<in> set rest") (auto simp: entry_safe_def)
  with h show ?thesis by (auto simp: recoverable_def halfway_def list_all_iff)
qed

lemma swap_step:
  assumes O: "orderly k t0"
  shows "triple (in_swap k t0 ((n, x) # xs)) (swap_item (ck_pid k) (n, x)) (\<lambda>_. in_swap k t0 xs) (recoverable k t0)"
proof (cases "n \<in> set KEPT")
  case True
  have "in_swap k t0 xs s" if s: "in_swap k t0 ((n, x) # xs) s" for s
  proof -
    have half: "halfway k t0 ((n, x) # xs) (dp_tree s)" using s by (simp add: in_swap_def)
    have "if (m, y) \<in> set xs
          then dget (dp_tree s) m = dget t0 m \<and> dget (dp_tree s) (tmp_new (ck_pid k) m) = None \<and> dget (dp_tree s) (tmp_old (ck_pid k) m) = None
          else dget (dp_tree s) m = Some y" if my: "(m, y) \<in> set (swapped k)" for m y
    proof -
      have "(m, y) \<noteq> (n, x)" using my True by (auto simp: swapped_iff)
      then show ?thesis using halfwayD [OF half my] by simp
    qed
    then have "halfway k t0 xs (dp_tree s)" using half by (auto simp: halfway_def)
    then show ?thesis using s by (auto simp: in_swap_def intro: exI [of _ "_ @ [(n, x)]"])
  qed
  with True show ?thesis by (simp add: swap_item_def triple_give)
next
  case False
  show ?thesis
  proof (rule triple_fix)
    fix s0 assume s0: "in_swap k t0 ((n, x) # xs) s0"
    then obtain done' where items: "ck_items k = done' @ (n, x) # xs" by (auto simp: in_swap_def)
    have half: "halfway k t0 ((n, x) # xs) (dp_tree s0)" and pt: "has_point k s0"
      using s0 by (simp_all add: in_swap_def)
    have N: "(n, x) \<in> set (swapped k)" using items False by (simp add: swapped_iff)
    have "placed (dget (dp_tree s0)) n (ck_pid k) k (dget (dp_tree s0) n) None None s0"
      using pt halfwayD(1) [OF half N] by (auto simp: placed_def fun_eq_iff)
    then show "triple (\<lambda>s. s = s0) (swap_item (ck_pid k) (n, x)) (\<lambda>_. in_swap k t0 xs) (recoverable k t0)"
      using after_item [OF O items False half] during_item [OF O items False half]
      by (intro triple_conseq [OF swap_item_triple [OF orderly_fits [OF O N] False]]) auto
  qed
qed

lemma swap_loop:
  assumes "orderly k t0"
  shows "triple (in_swap k t0 (ck_items k)) (for_each (swap_item (ck_pid k)) (ck_items k)) (\<lambda>_. in_swap k t0 []) (recoverable k t0)"
  using swap_step [OF assms] by (intro triple_for_each) auto

section \<open>Before and after the swap\<close>

lemma oracle_free_facts:
  "oracle_free (in_swap k t0 rest)" "oracle_free (\<lambda>s. dp_tree s = t0)" "oracle_free (\<lambda>s. dp_tree s = t0 \<and> snapshot_complete d s)"
  by (simp_all add: oracle_free_def in_swap_def)

lemma in_swap_write:
  assumes O: "orderly k t0" and m: "m = ''VERSION'' \<or> m = DEPLOYED" and s: "in_swap k t0 [] s"
  shows "in_swap k t0 [] (put_tree m z s)"
proof -
  have "dget (dp_tree (put_tree m z s)) n = Some x" if "(n, x) \<in> set (swapped k)" for n x
    using orderlyD(3,4) [OF O, of n x] that m s by (auto simp: in_swap_def halfway_def swapped_iff)
  moreover have "untouched k t0 (dp_tree (put_tree m z s))"
    using s m by (auto simp: in_swap_def halfway_def untouched_def)
  ultimately show ?thesis using s by (auto simp: in_swap_def halfway_def)
qed

lemma in_swap_frame [simp]:
  "in_swap k t0 rest (s\<lparr>dp_ran := r\<rparr>) = in_swap k t0 rest s" "in_swap k t0 rest (s\<lparr>dp_healthy := h\<rparr>) = in_swap k t0 rest s"
  by (simp_all add: in_swap_def)

lemma triple_ran [triple_intro]:
  "(\<And>s. P s \<Longrightarrow> Q () (s\<lparr>dp_ran := dp_ran s @ [a]\<rparr>)) \<Longrightarrow> (\<And>s. P s \<Longrightarrow> C (s\<lparr>dp_ran := dp_ran s @ [a]\<rparr>)) \<Longrightarrow> triple P (ran a) Q C"
  unfolding ran_def by (rule triple_change)

text \<open>What follows the swap keeps all entries new.\<close>

lemma tail_steps:
  assumes O: "orderly k t0"
  defines "D \<equiv> in_swap k t0 []"
  shows "triple D (refresh_version k) (\<lambda>_. D) D" "triple D (record_commit c) (\<lambda>_. D) D"
    "triple D (install_requirements k) (\<lambda>_. D) D" "triple D (schedule_watchdog k) (\<lambda>_. D) D"
    "triple D clear_healthy_marker (\<lambda>_. D) D"
proof -
  note w = in_swap_write [OF O]
  have f: "oracle_free D" unfolding D_def by (rule oracle_free_facts)
  show "triple D (refresh_version k) (\<lambda>_. D) D"
    unfolding refresh_version_def
    by (rule triple_rescue; cases "ck_version k")
      (auto intro!: triple_fail triple_give triple_copy_over oracle_free_facts simp: D_def w)
  show "triple D (record_commit c) (\<lambda>_. D) D"
    unfolding record_commit_def
    by (rule triple_rescue, rule triple_seq [where R = "\<lambda>_. D"])
      (auto intro!: triple_fail triple_look triple_if triple_give triple_copy_to oracle_free_facts simp: D_def w)
  show "triple D (install_requirements k) (\<lambda>_. D) D"
    unfolding install_requirements_def
    by (rule triple_seq [where R = "\<lambda>_. D"])
      (auto intro!: triple_intro triple_seq [where R = "\<lambda>_. D"] simp: D_def)
  show "triple D (schedule_watchdog k) (\<lambda>_. D) D"
    unfolding schedule_watchdog_def by (rule triple_rescue) (auto intro!: triple_intro simp: D_def)
  show "triple D clear_healthy_marker (\<lambda>_. D) D"
    unfolding clear_healthy_marker_def
    by (rule triple_seq [where R = "\<lambda>_. D"])
      (auto intro!: triple_look triple_if triple_give triple_rescue triple_change_or_fail oracle_free_facts simp: D_def)
qed

lemma deploy_new_triple:
  assumes O: "orderly k t0"
  shows "triple (\<lambda>s. dp_tree s = t0 \<and> has_point k s) (deploy_new k c) (\<lambda>v s. v = Relaunch 3 \<and> in_swap k t0 [] s) (recoverable k t0)"
proof -
  let ?D = "in_swap k t0 []"
  have start: "in_swap k t0 (ck_items k) s" if "dp_tree s = t0" "has_point k s" for s
    using that orderly_temps [OF O] by (auto simp: in_swap_def halfway_def untouched_def swapped_def)
  have tail: "triple ?D p (\<lambda>_. ?D) (recoverable k t0)" if "triple ?D p (\<lambda>_. ?D) ?D" for p :: "unit act"
    using that by (rule triple_conseq) (auto dest: in_swap_recoverable)
  have "triple (in_swap k t0 (ck_items k)) (deploy_new k c) (\<lambda>v s. v = Relaunch 3 \<and> in_swap k t0 [] s) (recoverable k t0)"
    unfolding deploy_new_def
    by (rule triple_seq [OF swap_loop [OF O]])
      (auto intro!: triple_seq [OF tail [OF tail_steps(1) [OF O]]] triple_seq [OF tail [OF tail_steps(2) [OF O]]]
        triple_seq [OF tail [OF tail_steps(3) [OF O]]] triple_seq [OF tail [OF tail_steps(4) [OF O]]]
        triple_seq [OF tail [OF tail_steps(5) [OF O]]] triple_give)
  then show ?thesis by (rule triple_pre) (use start in blast)
qed

text \<open>Taking the snapshot touches no file of the installation.\<close>

lemma snapshot_triple:
  "triple (\<lambda>s. dp_tree s = t0) (snapshot_code state ts trees) (\<lambda>d s. dp_tree s = t0 \<and> d = backup_path state ts) (\<lambda>s. dp_tree s = t0)"
proof -
  let ?T = "\<lambda>s. dp_tree s = t0"
  have one: "triple ?T (snapshot_tree dir tree) (\<lambda>_. ?T) ?T" for dir tree
    unfolding snapshot_tree_def
    by (rule triple_seq [where R = "\<lambda>_. ?T"])
      (auto intro!: triple_look triple_if triple_give triple_rescue triple_copy_over oracle_free_facts
        simp: put_backup_def backup_entry_def backup_at_def)
  show ?thesis
    unfolding snapshot_code_def Let_def
    by (rule triple_seq [where R = "\<lambda>_. ?T"], rule triple_change_or_fail [OF oracle_free_facts(2)], simp, simp,
        rule triple_seq [where R = "\<lambda>_. ?T"], rule triple_for_each [of "\<lambda>_. ?T", OF one], rule triple_give, simp)
qed

lemma write_pending_triple:
  assumes "d = backup_path AGENT_STATE_DIR (ck_stamp k)"
  shows "triple (\<lambda>s. dp_tree s = t0 \<and> snapshot_complete d s) (write_pending (update_manifest k d cur a b))
     (\<lambda>_ s. dp_tree s = t0 \<and> has_point k s) (\<lambda>s. dp_tree s = t0)"
  unfolding write_pending_def
  by (rule triple_write_text_file [OF oracle_free_facts(3)])
    (simp_all add: assms has_point_def update_manifest_def)

lemma safe_point_triple:
  "triple (\<lambda>s. dp_tree s = t0) (safe_point k cur a b) (\<lambda>ok s. dp_tree s = t0 \<and> (ok \<longrightarrow> has_point k s)) (\<lambda>s. dp_tree s = t0)"
  unfolding safe_point_def
proof (rule triple_rescue [OF triple_seq [OF snapshot_triple]], goal_cases)
  case (1 d)
  let ?T = "\<lambda>s. dp_tree s = t0"
  show ?case
  proof (rule triple_seq [where R = "\<lambda>ok s. ?T s \<and> d = backup_path AGENT_STATE_DIR (ck_stamp k) \<and> ok = snapshot_complete d s"], goal_cases)
    case 1
    show ?case by (rule triple_look) simp
  next
    case (2 ok)
    show ?case
    proof (cases "ok \<and> d = backup_path AGENT_STATE_DIR (ck_stamp k)")
      case True
      then have d: "d = backup_path AGENT_STATE_DIR (ck_stamp k)" by simp
      show ?thesis
        using True by (auto intro!: triple_give triple_seq [OF triple_pre [OF write_pending_triple [OF refl]]])
    next
      case False
      then show ?thesis by (auto simp: triple_def give_def)
    qed
  qed
next
  case (2 e)
  show ?case by (rule triple_give) simp
qed

text \<open>The whole update.\<close>

lemma quiet_steps:
  assumes f: "oracle_free T" "\<And>s r. T (s\<lparr>dp_ran := r\<rparr>) = T s" "\<And>s p. T (s\<lparr>dp_pending := p\<rparr>) = T s"
  shows "triple T (git k args) (\<lambda>_. T) T" "triple T (pull k) (\<lambda>_. T) T" "triple T clear_pending (\<lambda>_. T) T"
proof -
  have g: "triple T (git k args) (\<lambda>_. T) T" for args
    unfolding git_def by (rule triple_ran) (simp_all add: f)
  show "triple T (git k args) (\<lambda>_. T) T" by (rule g)
  have r: "triple T (of_result x) (\<lambda>_. T) T" for x :: "string result" by (rule triple_of_result)
  show "triple T (pull k) (\<lambda>_. T) T"
    unfolding pull_def
    by (cases "ck_pull k") (auto intro!: triple_seq [OF g] triple_seq [OF r] triple_give triple_fail)
  show "triple T clear_pending (\<lambda>_. T) T"
    unfolding clear_pending_def
    by (rule triple_seq [where R = "\<lambda>_. T"])
      (auto intro!: triple_look triple_if triple_give triple_rescue triple_change_or_fail f(1) simp: f)
qed

lemma tree_steps:
  fixes t0 :: tree
  defines "T \<equiv> \<lambda>s. dp_tree s = t0"
  shows "triple T (git k args) (\<lambda>_. T) T" "triple T (pull k) (\<lambda>_. T) T" "triple T clear_pending (\<lambda>_. T) T"
  by (rule quiet_steps; simp add: T_def oracle_free_facts)+

lemma recoverable_start: "dp_tree s = t0 \<Longrightarrow> recoverable k t0 s"
  by (auto simp: recoverable_def untouched_def entry_safe_def list_all_iff)

definition ends_well :: "checkout \<Rightarrow> tree \<Rightarrow> verdict \<Rightarrow> deploy \<Rightarrow> bool" where
  "ends_well k t0 v s \<longleftrightarrow>
     (case v of
        Relaunch c \<Rightarrow> has_point k s \<and> list_all (\<lambda>(n, x). dget (dp_tree s) n = Some x) (swapped k) \<and> untouched k t0 (dp_tree s)
      | _ \<Rightarrow> dp_tree s = t0)"

lemma ends_wellI:
  "in_swap k t0 [] s \<Longrightarrow> ends_well k t0 (Relaunch 3) s"
  "dp_tree s = t0 \<Longrightarrow> v \<noteq> Relaunch 3 \<Longrightarrow> (\<And>c. v \<noteq> Relaunch c) \<Longrightarrow> ends_well k t0 v s"
  by (auto simp: ends_well_def in_swap_def halfway_def list_all_iff split: verdict.splits)

text \<open>Assertions that only see the tree pass through everything before the swap.\<close>

lemma widen:
  "triple (\<lambda>s. dp_tree s = t0) p Q (\<lambda>s. dp_tree s = t0) \<Longrightarrow> triple (\<lambda>s. dp_tree s = t0) p Q (recoverable k t0)"
  by (erule triple_conseq) (auto simp: recoverable_start)

lemma give_ends: "(\<And>c. v \<noteq> Relaunch c) \<Longrightarrow> triple (\<lambda>s. dp_tree s = t0) (give v) (ends_well k t0) C"
  by (rule triple_give) (auto intro: ends_wellI)

lemma look_keeps: "triple (\<lambda>s. dp_tree s = t0) (look f) (\<lambda>_ s. dp_tree s = t0) C"
  by (rule triple_look)

lemma install_pulled_triple:
  assumes O: "orderly k t0"
  shows "triple (\<lambda>s. dp_tree s = t0) (install_pulled k cur inst heads) (ends_well k t0) (recoverable k t0)"
proof -
  have d: "triple (\<lambda>s. dp_tree s = t0) (seq (safe_point k cur a b) (\<lambda>ok. if \<not> ok then give NoSafePoint else deploy_new k b))
      (ends_well k t0) (recoverable k t0)" for a b
  proof (rule triple_seq [OF widen [OF safe_point_triple]], rule triple_if, goal_cases)
    case (1 ok)
    show ?case by (rule triple_give) (simp add: ends_well_def)
  next
    case (2 ok)
    show ?case
      by (rule triple_conseq [OF deploy_new_triple [OF O]]) (use 2 ends_wellI(1) in auto)
  qed
  show ?thesis
    unfolding install_pulled_def
    by (intro triple_if give_ends triple_seq [OF look_keeps] triple_seq [OF widen [OF tree_steps(3)]] d) simp_all
qed

lemma update_triple:
  assumes O: "orderly k t0"
  shows "triple (\<lambda>s. dp_tree s = t0) (apply_update k) (ends_well k t0) (recoverable k t0)"
proof -
  have g: "triple (\<lambda>s. dp_tree s = t0) (git k args) (\<lambda>_ s. dp_tree s = t0) (recoverable k t0)" for args
    by (rule widen [OF tree_steps(1)])
  have c: "triple (\<lambda>s. dp_tree s = t0) (if b then git k args else give ()) (\<lambda>_ s. dp_tree s = t0) (recoverable k t0)" for b args
    by (rule triple_if [OF g triple_give])
  show ?thesis
    unfolding apply_update_def
    by (intro triple_seq [OF look_keeps] triple_seq [OF g] triple_seq [OF c] triple_if give_ends
        triple_seq [OF widen [OF tree_steps(2)]] install_pulled_triple [OF O]) simp_all
qed

section \<open>Properties\<close>


definition release :: checkout where
  "release = \<lparr>ck_ref = Inr ''main'', ck_fetch = None, ck_remote = (\<lambda>_. Inr ''c2''), ck_head = Inr ''c1'',
     ck_pull = None, ck_pulled = Inr ''c2'', ck_old_version = Some ''1.0'', ck_version = Some ''1.1'',
     ck_items = [(''src'', DirN [(''agent.py'', FileN ''async def run(self): new'')]), (''.env'', FileN ''A=1'')],
     ck_other_versions = [], ck_pip_ok = True, ck_watchdog_ok = True, ck_pid = ''7'', ck_stamp = ''t1'',
     ck_home = ''/opt/pxmx'', ck_helper = ''/opt/pxmx/src/update_recovery.py''\<rparr>"

definition installation :: deploy where
  "installation = \<lparr>dp_tree = [(''src'', DirN [(''agent.py'', FileN ''async def run(self): old'')]), (DEPLOYED, FileN ''c1'')],
     dp_backups = [], dp_pending = Missing, dp_bad = Missing, dp_bad_commits = Missing, dp_failed = Missing,
     dp_healthy = True, dp_ran = [], dp_courses = []\<rparr>"


text \<open>A version is out once it is registered as bad.\<close>

definition outlaws :: "tree \<Rightarrow> string list stored \<Rightarrow> deploy \<Rightarrow> bool" where
  "outlaws t0 b s \<longleftrightarrow> dp_tree s = t0 \<and> dp_bad s = b"

lemma outlaws_frame:
  "oracle_free (outlaws t0 b)" "outlaws t0 b (s\<lparr>dp_ran := r\<rparr>) = outlaws t0 b s" "outlaws t0 b (s\<lparr>dp_pending := p\<rparr>) = outlaws t0 b s"
  by (simp_all add: oracle_free_def outlaws_def)

lemmas outlaw_steps = quiet_steps [OF outlaws_frame]

lemma bad_update_triple:
  assumes bad: "pulled_version k \<in> set (read_or [] b)"
  shows "triple (outlaws t0 b) (apply_update k) (\<lambda>v s. outlaws t0 b s \<and> (\<forall>c. v \<noteq> Relaunch c)) (outlaws t0 b)"
proof -
  let ?P = "outlaws t0 b" and ?Q = "\<lambda>v s. outlaws t0 b s \<and> (\<forall>c. v \<noteq> Relaunch c)"
  have l: "triple ?P (look f) (\<lambda>_. ?P) ?P" for f :: "deploy \<Rightarrow> string" by (rule triple_look)
  have g: "triple ?P (if a then git k args else give ()) (\<lambda>_. ?P) ?P" for a args
    by (rule triple_if [OF outlaw_steps(1) triple_give])
  have i: "triple ?P (install_pulled k cur inst heads) ?Q ?P" for cur inst heads
    unfolding install_pulled_def
  proof (rule triple_if, rule triple_give, simp, rule triple_seq [where R = "\<lambda>z s. z \<and> ?P s"], goal_cases)
    case 1
    show ?case
      by (rule triple_look) (use bad in \<open>auto simp: is_version_bad_def read_bad_versions_def outlaws_def\<close>)
  next
    case (2 z)
    show ?case
    proof (cases z)
      case True
      have "triple ?P (seq clear_pending (\<lambda>_. give SkippedBad)) ?Q ?P"
        by (rule triple_seq [OF outlaw_steps(3)], rule triple_give, simp)
      then show ?thesis using True by simp
    qed (simp add: triple_def)
  qed
  show ?thesis
    unfolding apply_update_def
    by (intro triple_seq [OF l] triple_seq [OF outlaw_steps(1)] triple_seq [OF g] triple_seq [OF outlaw_steps(2)]
        triple_if i triple_give) simp_all
qed

lemma added_is_bad:
  "add_bad_version v s = (Inr (), t, us) \<Longrightarrow> v \<noteq> [] \<Longrightarrow> v \<in> set (read_or [] (dp_bad t))"
  using add_bad_version_set by (simp add: read_bad_versions_def)

text \<open>
  C14: a version that was rolled back stays out. Once \<open>markbad\<close> has registered a version, an update
  whose checkout carries that version changes nothing of the installation, in no state it passes
  through, and does not relaunch; the version stays registered.
\<close>

theorem bad_version_stays_out:
  assumes "add_bad_version v s0 = (Inr (), s1, us0)" "v \<noteq> []"
    and "dp_bad s = dp_bad s1" "pulled_version k = v" "apply_update k s = (r, t, us)"
  shows "list_all (\<lambda>u. dp_tree u = dp_tree s \<and> dp_bad u = dp_bad s1) (us @ [t]) \<and> (\<forall>c. r \<noteq> Inr (Relaunch c))"
proof -
  have P: "outlaws (dp_tree s) (dp_bad s1) s" using assms(3) by (simp add: outlaws_def)
  have "pulled_version k \<in> set (read_or [] (dp_bad s1))" using added_is_bad [OF assms(1,2)] assms(4) by simp
  from tripleD [OF bad_update_triple [OF this] P assms(5)]
  have A: "list_all (outlaws (dp_tree s) (dp_bad s1)) us"
    "r = Inr v \<Longrightarrow> outlaws (dp_tree s) (dp_bad s1) t \<and> (\<forall>c. v \<noteq> Relaunch c)" "r = Inl e \<Longrightarrow> outlaws (dp_tree s) (dp_bad s1) t" for v e
    by blast+
  then have "outlaws (dp_tree s) (dp_bad s1) t" by (cases r) auto
  with A show ?thesis by (auto simp: outlaws_def list_all_iff)
qed

theorem bad_version_stays_out_witness:
  "fst (apply_update release (fst (snd (add_bad_version ''1.1'' installation)))) = Inr SkippedBad
   \<and> dp_tree (fst (snd (apply_update release (fst (snd (add_bad_version ''1.1'' installation)))))) = dp_tree installation"
proof -
  let ?s = "fst (snd (add_bad_version ''1.1'' installation))"
  have a: "add_bad_version ''1.1'' installation = (Inr (), ?s, snd (snd (add_bad_version ''1.1'' installation)))"
    and t: "dp_tree ?s = dp_tree installation" and v: "pulled_version release = ''1.1''"
    and r: "fst (apply_update release ?s) = Inr SkippedBad" by code_simp+
  have "apply_update release ?s = (fst (apply_update release ?s), fst (snd (apply_update release ?s)), snd (snd (apply_update release ?s)))"
    by simp
  from bad_version_stays_out [OF a _ refl v this] t r show ?thesis by simp
qed

section \<open>The gap in the swap\<close>

text \<open>Runs that end with a value in \<open>V\<close> pass through a state with \<open>G\<close>.\<close>

definition passes :: "(deploy \<Rightarrow> bool) \<Rightarrow> 'a act \<Rightarrow> ('a \<Rightarrow> bool) \<Rightarrow> (deploy \<Rightarrow> bool) \<Rightarrow> bool" where
  "passes P p V G \<longleftrightarrow>
     (\<forall>s r t us x. P s \<longrightarrow> p s = (r, t, us) \<longrightarrow> r = Inr x \<longrightarrow> V x \<longrightarrow> list_ex G us)"

lemma passesD: "passes P p V G \<Longrightarrow> P s \<Longrightarrow> p s = (Inr x, t, us) \<Longrightarrow> V x \<Longrightarrow> list_ex G us"
  by (simp add: passes_def)

lemma passes_give: "\<not> V x \<Longrightarrow> passes P (give x) V G"
  by (simp add: passes_def give_def)

lemma passes_pre: "passes P' p V G \<Longrightarrow> (\<And>s. P s \<Longrightarrow> P' s) \<Longrightarrow> passes P p V G"
  unfolding passes_def by blast

lemma passes_first:
  assumes "passes P p (\<lambda>_. True) G"
  shows "passes P (seq p f) V G"
  using assms unfolding passes_def seq_def by (fastforce split: prod.splits sum.splits)

lemma passes_second:
  assumes T: "triple P p R C" and f: "\<And>x. passes (R x) (f x) V G"
  shows "passes P (seq p f) V G"
  unfolding passes_def
proof (intro allI impI)
  fix s r t us x
  assume s: "P s" and run: "seq p f s = (r, t, us)" "r = Inr x" "V x"
  obtain ra sa ua where a: "p s = (ra, sa, ua)" by (cases "p s") auto
  with run obtain y where y: "ra = Inr y" by (cases ra) (auto simp: seq_def)
  obtain rb sb ub where b: "f y sa = (rb, sb, ub)" by (cases "f y sa") auto
  with run a y have "rb = Inr x" "us = ua @ ub" by (auto simp: seq_def)
  with passesD [OF f tripleD(2) [OF T s a y], of x sb ub] b run(3) show "list_ex G us" by simp
qed

lemma passes_if: "(b \<Longrightarrow> passes P p V G) \<Longrightarrow> (\<not> b \<Longrightarrow> passes P q V G) \<Longrightarrow> passes P (if b then p else q) V G"
  by simp

lemma passes_change_or_fail:
  assumes "oracle_free P" "\<And>s. P s \<Longrightarrow> G (f s)"
  shows "passes P (change_or_fail f) V G"
  using assms oracle_next [OF assms(1)] unfolding passes_def change_or_fail_def
  by (fastforce split: prod.splits if_splits)

text \<open>Between the two renames the entry is gone, its old and its new content beside it.\<close>

definition gap :: "checkout \<Rightarrow> string \<Rightarrow> node \<Rightarrow> node \<Rightarrow> deploy \<Rightarrow> bool" where
  "gap k n old x s \<longleftrightarrow>
     dget (dp_tree s) n = None \<and> dget (dp_tree s) (tmp_old (ck_pid k) n) = Some old
     \<and> dget (dp_tree s) (tmp_new (ck_pid k) n) = Some x"

lemma placed_gap: "placed f n (ck_pid k) k None (Some x) (Some old) s \<Longrightarrow> gap k n old x s"
  by (simp add: placed_def gap_def)

lemma dir_passes_gap:
  assumes F: "fits x"
  shows "passes (placed f n (ck_pid k) k (Some old) None None) (swap_dir (ck_pid k) n x) V (gap k n old x)"
proof -
  let ?At = "placed f n (ck_pid k) k"
  have "passes (?At (Some old) (Some x) None) (rename n (tmp_old (ck_pid k) n)) (\<lambda>_. True) (gap k n old x)"
    unfolding rename_def
  proof (rule passes_second [where R = "\<lambda>z s. z = (Some old, None) \<and> ?At (Some old) (Some x) None s" and C = "\<lambda>_. True"])
    show "triple (?At (Some old) (Some x) None) (look (\<lambda>s. (tree_entry n s, tree_entry (tmp_old (ck_pid k) n) s)))
        (\<lambda>z s. z = (Some old, None) \<and> ?At (Some old) (Some x) None s) (\<lambda>_. True)"
      by (rule triple_look) (simp add: placed_reads)
    fix z
    let ?f = "\<lambda>s. put_tree (tmp_old (ck_pid k) n) (Some old) (put_tree n None s)"
    have "passes (?At (Some old) (Some x) None) (change_or_fail ?f) (\<lambda>_. True) (gap k n old x)"
      by (rule passes_change_or_fail [OF placed_free]) (rule placed_gap [OF placed_moves(1)])
    moreover have "can_replace (Some old) None" by (simp add: can_replace_def)
    ultimately show "passes (\<lambda>s. z = (Some old, None) \<and> ?At (Some old) (Some x) None s)
        ((\<lambda>(x, y). if can_replace x y then change_or_fail (\<lambda>s. put_tree (tmp_old (ck_pid k) n) x (put_tree n None s)) else fail OSError) z)
        (\<lambda>_. True) (gap k n old x)"
      by (cases "z = (Some old, None)") (auto simp: passes_def)
  qed
  then have r: "passes (\<lambda>s. there = Some old \<and> ?At (Some old) (Some x) None s)
      (if there \<noteq> None then rename n (tmp_old (ck_pid k) n) else give ()) (\<lambda>_. True) (gap k n old x)" for there
    by (cases "there = Some old") (simp_all add: passes_def)
  show ?thesis
    unfolding swap_dir_def
    by (rule passes_second [OF copy_fresh_triple [OF F]],
        rule passes_second [where R = "\<lambda>there s. there = Some old \<and> ?At (Some old) (Some x) None s" and C = "\<lambda>_. True"],
        rule triple_look, simp add: placed_reads, rule passes_first [OF r])
qed

lemma loop_passes_gap:
  assumes O: "orderly k t0" and N: "(n, x) \<in> set xs" "n \<notin> set KEPT" "is_dir (Some x)" and old: "dget t0 n = Some old"
  shows "passes (in_swap k t0 xs) (for_each (swap_item (ck_pid k)) xs) V (gap k n old x)"
  using N(1)
proof (induction xs)
  case (Cons p xs)
  show ?case
  proof (cases "p = (n, x)")
    case False
    then have "passes (in_swap k t0 xs) (for_each (swap_item (ck_pid k)) xs) V (gap k n old x)" using Cons by auto
    then show ?thesis using passes_second [OF swap_step [OF O]] by (cases p) simp
  next
    case True
    have "passes (in_swap k t0 ((n, x) # xs)) (swap_item (ck_pid k) (n, x)) (\<lambda>_. True) (gap k n old x)"
      unfolding passes_def
    proof (intro allI impI)
      fix s r t us u
      assume s: "in_swap k t0 ((n, x) # xs) s" and run: "swap_item (ck_pid k) (n, x) s = (r, t, us)" "r = Inr u"
      have M: "(n, x) \<in> set (swapped k)" using s N(2) by (auto simp: in_swap_def swapped_iff)
      have half: "halfway k t0 ((n, x) # xs) (dp_tree s)" using s by (simp add: in_swap_def)
      have "placed (dget (dp_tree s)) n (ck_pid k) k (Some old) None None s"
        using s halfwayD(1) [OF half M] old by (auto simp: in_swap_def placed_def fun_eq_iff)
      moreover have "passes (placed (dget (dp_tree s)) n (ck_pid k) k (Some old) None None)
          (seq (clear_leftovers (ck_pid k) n) (\<lambda>_. swap_dir (ck_pid k) n x)) (\<lambda>_. True) (gap k n old x)"
        by (rule passes_second [OF clear_triple dir_passes_gap [OF orderly_fits [OF O M]]])
      ultimately show "list_ex (gap k n old x) us"
        using run N(2,3) by (auto simp: swap_item_def dest: passesD)
    qed
    with True show ?thesis by (auto intro: passes_first)
  qed
qed simp

text \<open>
  C38: the comment of the swap promises an entry that is always the complete old or the complete
  new one. It is not: every update that replaces an existing directory and relaunches the agent
  passes through a state in which that directory does not exist (its old and its new content
  lie beside it under names with this process id, which no later run looks at). An agent whose
  \<open>src\<close> is gone cannot start, and the watchdog that would roll back is scheduled only later.
\<close>

theorem swap_has_a_gap:
  assumes O: "orderly k (dp_tree s)" and n: "(n, DirN cs) \<in> set (swapped k)" "dget (dp_tree s) n = Some old"
    and run: "apply_update k s = (Inr (Relaunch c), t, us)"
  shows "list_ex (gap k n old (DirN cs)) us"
proof -
  let ?t0 = "dp_tree s" and ?x = "DirN cs" and ?V = "\<lambda>v. v = Relaunch c"
  let ?T = "\<lambda>s'. dp_tree s' = ?t0" and ?G = "gap k n old (DirN cs)"
  have items: "(n, ?x) \<in> set (ck_items k)" "n \<notin> set KEPT" "is_dir (Some ?x)"
    using n(1) by (simp_all add: swapped_iff is_dir_def)
  have start: "in_swap k ?t0 (ck_items k) s'" if "?T s'" "has_point k s'" for s'
    using that orderly_temps [OF O] by (auto simp: in_swap_def halfway_def untouched_def swapped_def)
  have d: "passes (\<lambda>s'. ?T s' \<and> has_point k s') (deploy_new k b) ?V ?G" for b
    unfolding deploy_new_def
    by (rule passes_pre [OF passes_first [OF loop_passes_gap [OF O items n(2)]]]) (use start in blast)
  have i: "passes ?T (install_pulled k cur inst heads) ?V ?G" for cur inst heads
    unfolding install_pulled_def
  proof (intro passes_if passes_give passes_second [OF look_keeps] passes_second [OF tree_steps(3)]
      passes_second [OF safe_point_triple], goal_cases)
    case (4 bad ok)
    show ?case by (rule passes_pre [OF d]) (use 4 in simp)
  qed simp_all
  have g: "triple ?T (if b then git k args else give ()) (\<lambda>_. ?T) ?T" for b args
    by (rule triple_if [OF tree_steps(1) triple_give])
  have "passes ?T (apply_update k) ?V ?G"
    unfolding apply_update_def
    by (intro passes_second [OF look_keeps] passes_second [OF tree_steps(1)] passes_second [OF g]
        passes_second [OF tree_steps(2)] passes_if passes_give i) simp
  from passesD [OF this refl run] show ?thesis by simp
qed

theorem swap_has_a_gap_witness:
  "list_ex (\<lambda>u. dget (dp_tree u) ''src'' = None) (snd (snd (apply_update release installation)))"
proof -
  let ?cs = "[(''agent.py'', FileN ''async def run(self): new'')]"
  have o: "orderly release (dp_tree installation)" and n: "(''src'', DirN ?cs) \<in> set (swapped release)"
    and d: "dget (dp_tree installation) ''src'' = Some (DirN [(''agent.py'', FileN ''async def run(self): old'')])"
    and r: "fst (apply_update release installation) = Inr (Relaunch 3)" by code_simp+
  have "apply_update release installation = (Inr (Relaunch 3), fst (snd (apply_update release installation)), snd (snd (apply_update release installation)))"
    using r by (metis prod.collapse)
  from swap_has_a_gap [OF o n d this] show ?thesis by (auto simp: list_ex_iff gap_def)
qed

section \<open>Rolling back\<close>

lemma smooth_simps:
  assumes "dp_courses s = []"
  shows "change_or_fail f s = (Inr (), f s, [f s])" "copy_to put x s = (Inr (), put (Some x) s, [put (Some x) s])"
    "remove_from put s = (Inr (), put None s, [put None s])"
  using assms by (simp_all add: change_or_fail_def copy_to_def remove_from_def next_course_def smooth_def)

lemma src_basename [simp]: "tree_basename ''src'' = ''src''"
  by code_simp



end
