(* ===== verification/Commands.thy ===== *)
theory Commands
  imports FullPass
begin

text \<open>
  \<open>agent/src/cs_commands.py\<close>: the dispatcher of the hub's commands. A long operation is handed to
  the ledger (theory \<open>Ledger\<close>); everything else is run here and answered at once, errors
  included. The reading of sysfs for \<open>usb_probe\<close>, once its bus path is known, is an argument: it
  only reports. The cached diagnostics that \<open>clear_usb_history\<close> scrubs are state of the telemetry
  and not part of \<open>world\<close>.
\<close>

section \<open>State and arguments\<close>

text \<open>
  The agent of the long operations, whether client simulation is enabled, a fresh command id and
  the monotonic clock, and the probe of one bus.
\<close>

record 'h desk =
  dk_agent :: "'h agent"
  dk_enabled :: bool
  dk_uuid :: string
  dk_now :: rat
  dk_probe :: "string \<Rightarrow> ('h, reply) op"

definition protected_of :: "'h desk \<Rightarrow> int set" where
  "protected_of dk = resolve_protected_vmids (ag_cfg (dk_agent dk))"

definition template_ids :: "'h desk \<Rightarrow> (string, pyval) dict \<Rightarrow> pyval list result" where
  "template_ids dk data =
     (let ids = (if truthy (cfg_get data ''template_ids'') then cfg_get data ''template_ids''
                 else first_set (ag_usb (dk_agent dk)) ''template_ids'' ''image_template_ids'')
      in if truthy ids then py_iter ids else Inr [])"

text \<open>Best effort: whatever goes wrong, nothing counts as released.\<close>

definition force_unbind_present :: "'h machine \<Rightarrow> 'h desk \<Rightarrow> ('h, string list) op" where
  "force_unbind_present m dk =
     except_any
       (bnd (peek (\<lambda>w. set (dkeys (bus_to_vmid (load_usb_state (store w)))))) (\<lambda>assigned.
        bnd (lift (dongle_vidpids (ag_decode (dk_agent dk)) (ag_usb (dk_agent dk)))) (\<lambda>vidpids.
        bnd (force_unbind_dongle_drivers m vidpids assigned) (\<lambda>rep. ret (ub_unbound rep)))))
       (\<lambda>e. ret [])"

section \<open>Replies\<close>

definition success :: "string \<Rightarrow> (string \<times> pyval) list \<Rightarrow> reply" where
  "success msg extra = (''status'', PStr ''SUCCESS'') # (''message'', PStr msg) # extra"

definition error_answer :: "string \<Rightarrow> reply" where
  "error_answer msg = [(''status'', PStr ''ERROR''), (''message'', PStr msg)]"

definition ints :: "int list \<Rightarrow> pyval" where
  "ints is = PList (map PInt is)"

definition strs :: "string list \<Rightarrow> pyval" where
  "strs ss = PList (map PStr ss)"

definition str_len :: "'a list \<Rightarrow> string" where
  "str_len xs = str_int (int (length xs))"

definition power_reply :: "string \<Rightarrow> string \<Rightarrow> int \<times> guest \<Rightarrow> reply" where
  "power_reply verb past r =
     success (''VM '' @ str_int (fst r) @ '' '' @ past)
       [(''vmid'', PInt (fst r)), (''action'', PStr verb), (''kind'', PStr (kind_name (snd r)))]"

text \<open>\<open>{**r, "started": r.pop("done")}\<close>: the old key is still there when the copy is made.\<close>

definition batch_reply :: "string \<Rightarrow> string \<Rightarrow> int list \<times> int list \<Rightarrow> (string \<times> pyval) list \<Rightarrow> reply" where
  "batch_reply action past r extra =
     success (past @ '' '' @ str_len (fst r) @ '' VMs (skipped '' @ str_len (snd r) @ '')'')
       ([(''action'', PStr action), (''done'', ints (fst r)), (''skipped'', ints (snd r)), (past, ints (fst r))] @ extra)"

definition refusal_text :: "pyval \<Rightarrow> refusal \<Rightarrow> string" where
  "refusal_text vmid r =
     (case r of
        InvalidVmid \<Rightarrow> ''invalid vmid '' @ py_repr vmid @ '' '' @ em_dash @ '' expected an integer''
      | ProtectedVmid vid \<Rightarrow> ''vmid '' @ str_int vid @ '' is protected (hub/system container) '' @ em_dash @ '' cannot be managed''
      | BelowFloor vid floor' \<Rightarrow>
          ''vmid '' @ str_int vid @ '' is outside the Client-Simulation range (>= '' @ str_int floor' @ '') '' @ em_dash
            @ '' refusing to touch a non-simulation VM''
      | TemplateVmid vid \<Rightarrow> exn_message (GuardError r))"

section \<open>Single commands\<close>

text \<open>A snapshot name that is set but no string breaks the command line (\<open>TypeError\<close>).\<close>

definition snapshot_name :: "(string, pyval) dict \<Rightarrow> string option result" where
  "snapshot_name data =
     (case cfg_get data ''snapshot_name'' of
        PStr s \<Rightarrow> Inr (Some s)
      | v \<Rightarrow> if truthy v then Inl TypeError else Inr None)"

definition snapshot_one :: "'h machine \<Rightarrow> int set \<Rightarrow> (string, pyval) dict \<Rightarrow> ('h, reply) op" where
  "snapshot_one m prot data =
     (case snapshot_name data of
        Inr name \<Rightarrow>
          bnd (snapshot_vm m name None (cfg_get data ''vmid'') prot) (\<lambda>(vid, snap, kind).
          ret (success (''VM '' @ str_int vid @ '' snapshot '' @ snap)
            [(''vmid'', PInt vid), (''action'', PStr ''snapshot''), (''snapshot'', PStr snap), (''kind'', PStr (kind_name kind))]))
      | Inl e \<Rightarrow>
          bnd (lift (assert_sim_vm (cfg_get data ''vmid'') prot SIM_VMIN)) (\<lambda>vid.
          bnd (guest_kind m None vid) (\<lambda>_. throw e)))"

definition unlock_templates :: "'h machine \<Rightarrow> 'h desk \<Rightarrow> (string, pyval) dict \<Rightarrow> ('h, reply) op" where
  "unlock_templates m dk data =
     bnd (lift (template_ids dk data)) (\<lambda>ids.
     bnd (unlock_template m ids) (\<lambda>(unlocked, failures).
     ret (success
       (if failures \<noteq> [] then ''unlocked '' @ str_len unlocked @ '', failed '' @ str_len failures
        else ''unlocked '' @ str_len unlocked @ '' template(s)'')
       [(''action'', PStr ''unlock_template''), (''unlocked'', ints unlocked), (''failed'', PList failures)])))"

definition unlock_stuck :: "'h machine \<Rightarrow> ('h, reply) op" where
  "unlock_stuck m =
     bnd (clear_provision_lock m) (\<lambda>(killed, unlocked).
     ret (success (''killed '' @ str_int (int killed) @ '' qm pids, unlocked '' @ str_len unlocked @ '' VMs'')
       [(''action'', PStr ''clear_provision_lock''), (''killed_qm_pids'', PInt (int killed)), (''unlocked_vmids'', ints unlocked)]))"

definition probe_bus :: "'h desk \<Rightarrow> (string, pyval) dict \<Rightarrow> ('h, reply) op" where
  "probe_bus dk data =
     (let bus = strip (py_str (or_empty (cfg_get data ''bus_path''))) in
      if bus = [] then ret (error_answer ''bus_path required'') else dk_probe dk bus)"

definition unbound_note :: "string list \<Rightarrow> string" where
  "unbound_note unbound =
     (if unbound \<noteq> [] then '' + force-unbound '' @ str_len unbound @ '' driver-bound dongle(s)'' else [])"

text \<open>
  A truthy bus path that is no string: a list or an object cannot be looked up (\<open>TypeError\<close>
  unless the file is unreadable), a number is looked up in vain and the store rewritten; the
  message then fails in either case.
\<close>

definition clear_odd_bus :: "pyval \<Rightarrow> disk \<Rightarrow> unit result \<times> disk" where
  "clear_odd_bus v d =
     (let unhashable = (case v of PList xs \<Rightarrow> True | PDict kvs \<Rightarrow> True | _ \<Rightarrow> False) in
      case quarantine_file d of
        Garbled \<Rightarrow> (Inr (), d)
      | OtherShape True \<Rightarrow> (Inl TypeError, d)
      | f \<Rightarrow> if unhashable then (Inl TypeError, d) else (Inr (), save_quarantine (read_or [] f) d))"

definition quarantine_cleared :: "pyval \<Rightarrow> string \<Rightarrow> string list \<Rightarrow> reply" where
  "quarantine_cleared bus where' unbound =
     [(''status'', PStr ''SUCCESS''), (''action'', PStr ''clear_usb_quarantine''), (''bus'', bus),
      (''cleared'', PBool True), (''unbound'', strs unbound),
      (''message'', PStr (''cleared quarantine'' @ where' @ unbound_note unbound))]"

definition clear_quarantine_cmd :: "'h machine \<Rightarrow> 'h desk \<Rightarrow> (string, pyval) dict \<Rightarrow> ('h, reply) op" where
  "clear_quarantine_cmd m dk data =
     (let bus = cfg_get data ''bus_path'' in
      if \<not> truthy bus then
        bnd (with_disk (clear_quarantine None)) (\<lambda>_.
        bnd (force_unbind_present m dk) (\<lambda>unbound. ret (quarantine_cleared bus [] unbound)))
      else case bus of
        PStr s \<Rightarrow>
          bnd (with_disk (clear_quarantine (Some s))) (\<lambda>_.
          bnd (force_unbind_present m dk) (\<lambda>unbound. ret (quarantine_cleared bus ('' for '' @ s) unbound)))
      | _ \<Rightarrow>
          bnd (with_disk (clear_odd_bus bus)) (\<lambda>_.
          bnd (force_unbind_present m dk) (\<lambda>_. throw TypeError)))"

text \<open>\<open>usb_diagnostics.purge_history\<close>: the two history files, each removed if it is there.\<close>

definition HISTORY_FILES :: "(string \<times> string) list" where
  "HISTORY_FILES = [(''/var/lib/pxmx/usb_presence.json'', ''usb_presence.json''), (''/var/lib/pxmx/usb_boot_baseline.json'', ''usb_boot_baseline.json'')]"

definition purge_one :: "'h machine \<Rightarrow> string \<times> string \<Rightarrow> string list \<Rightarrow> ('h, string list) op" where
  "purge_one m f removed =
     bnd (path_exists m (fst f)) (\<lambda>there.
     if \<not> there then ret removed
     else bnd (change_file m (Remove (fst f))) (\<lambda>ok. ret (if ok then removed @ [snd f] else removed)))"

definition purge_history :: "'h machine \<Rightarrow> ('h, string list) op" where
  "purge_history m = iter (purge_one m) HISTORY_FILES []"

definition clear_history_cmd :: "'h machine \<Rightarrow> ('h, reply) op" where
  "clear_history_cmd m =
     bnd (purge_history m) (\<lambda>purged.
     ret [(''status'', PStr ''SUCCESS''), (''action'', PStr ''clear_usb_history''), (''purged'', strs purged),
          (''message'', PStr (if purged \<noteq> [] then ''purged dongle history ('' @ join_sep '', '' purged @ '')''
                               else ''no dongle history to purge''))])"

definition clear_exclusions_cmd :: "'h machine \<Rightarrow> 'h desk \<Rightarrow> ('h, reply) op" where
  "clear_exclusions_cmd m dk =
     bnd (with_disk (\<lambda>d. case clear_excluded_buses d of (n, d') \<Rightarrow> (Inr n, d'))) (\<lambda>excluded.
     bnd (except_any (bnd (list_all_vmids m) (release_stale_assignments m)) (\<lambda>e. ret 0)) (\<lambda>stale.
     bnd (force_unbind_present m dk) (\<lambda>unbound.
     ret [(''status'', PStr ''SUCCESS''), (''action'', PStr ''clear_usb_exclusions''),
          (''excluded_cleared'', PInt (int excluded)), (''stale_released'', PInt (int stale)), (''unbound'', strs unbound),
          (''message'', PStr (''cleared '' @ str_int (int excluded) @ '' bus exclusion(s)''
             @ (if stale \<noteq> 0 then '' + released '' @ str_int (int stale) @ '' stale assignment(s)'' else [])
             @ unbound_note unbound @ '' '' @ em_dash @ '' dongles available on the next provision pass''))])))"

section \<open>Dispatch\<close>

definition fast_commands :: "'h machine \<Rightarrow> 'h desk \<Rightarrow> (string, pyval) dict \<Rightarrow> (string, ('h, reply) op) dict" where
  "fast_commands m dk data =
     (let prot = protected_of dk; vmid = cfg_get data ''vmid''; order = ag_order (dk_agent dk) in
      [(''start_vm'', bnd (start_vm m None vmid prot) (\<lambda>r. ret (power_reply ''start'' ''started'' r))),
       (''stop_vm'', bnd (stop_vm m None vmid prot) (\<lambda>r. ret (power_reply ''stop'' ''stopped'' r))),
       (''reboot_vm'', bnd (reboot_vm m vmid prot) (\<lambda>r. ret (power_reply ''reboot'' ''rebooted'' r))),
       (''snapshot_vm'', snapshot_one m prot data),
       (''start_vms'', bnd (vm_batch m StartVms order prot) (\<lambda>r. ret (batch_reply ''start_vms'' ''started'' r []))),
       (''stop_vms'', bnd (vm_batch m StopVms order prot) (\<lambda>r. ret (batch_reply ''stop_vms'' ''stopped'' r []))),
       (''snapshot_vms'', bnd (vm_batch m SnapshotVms order prot) (\<lambda>r.
          bnd (peek (\<lambda>w. ''auto-'' @ m_stamp m (host w))) (\<lambda>label.
          ret (batch_reply ''snapshot_vms'' ''snapshotted'' r [(''snapshot'', PStr label)])))),
       (''unlock_template'', unlock_templates m dk data),
       (''clear_provision_lock'', unlock_stuck m),
       (''usb_probe'', probe_bus dk data),
       (''clear_usb_quarantine'', clear_quarantine_cmd m dk data),
       (''clear_usb_history'', clear_history_cmd m),
       (''clear_usb_exclusions'', clear_exclusions_cmd m dk)])"

definition failure_text :: "string \<Rightarrow> (string, pyval) dict \<Rightarrow> exn \<Rightarrow> string" where
  "failure_text action data e =
     (case e of
        GuardError r \<Rightarrow> refusal_text (cfg_get data ''vmid'') r
      | PveError msg \<Rightarrow> action @ '' failed: '' @ msg
      | _ \<Rightarrow> action @ '' error: '' @ exn_message e)"

definition run_fast :: "'h machine \<Rightarrow> 'h desk \<Rightarrow> string \<Rightarrow> (string, pyval) dict \<Rightarrow> ('h, reply) op" where
  "run_fast m dk action data =
     except_any
       (case dget (fast_commands m dk data) action of
          Some p \<Rightarrow> p
        | None \<Rightarrow> ret (error_answer (''unknown CS action: '' @ action)))
       (\<lambda>e. ret (error_answer (failure_text action data e)))"

text \<open>Two commands about the fleet reclone, and long operations, are answered before that.\<close>

definition clear_reclone_cmd :: "'h machine \<Rightarrow> ('h, reply) op" where
  "clear_reclone_cmd m =
     bnd (now_s m) (\<lambda>now.
     bnd (peek (\<lambda>w. fst (clear_reclone_state now (tracker_of w)))) (\<lambda>cleared.
     bnd (on_tracker (\<lambda>t. snd (clear_reclone_state now t))) (\<lambda>_.
     ret [(''cleared'', PBool cleared),
          (''message'', PStr (if cleared then [] else ''a reclone batch is running '' @ em_dash @ '' stop it before clearing''))])))"

definition stop_reclone_cmd :: "('h, reply) op" where
  "stop_reclone_cmd =
     bnd (peek (\<lambda>w. fst (request_reclone_stop (tracker_of w)))) (\<lambda>stopped.
     bnd (on_tracker (\<lambda>t. snd (request_reclone_stop t))) (\<lambda>_.
     ret [(''status'', PStr ''SUCCESS''), (''stopped'', PBool stopped),
          (''message'', PStr (if stopped then ''reclone stop requested'' else ''no reclone running''))]))"

definition command_id :: "'h desk \<Rightarrow> (string, pyval) dict \<Rightarrow> string" where
  "command_id dk data =
     (let v = cfg_get data ''cs_cmd_id'' in if truthy v then py_str v else dk_uuid dk)"

definition accept_long :: "'h desk \<Rightarrow> string \<Rightarrow> (string, pyval) dict \<Rightarrow> ('h, reply) op" where
  "accept_long dk action data w =
     (case deliver (dk_now dk) action data (command_id dk data) (ledger_of w) of
        (r, L) \<Rightarrow> (Inr r, w\<lparr>ledger_of := L\<rparr>))"

definition normalised :: "string option \<Rightarrow> string" where
  "normalised action =
     (case action of None \<Rightarrow> [] | Some a \<Rightarrow> map (\<lambda>c. if c = CHR ''-'' then CHR ''_'' else c) a)"

definition handle_cs_command ::
    "'h machine \<Rightarrow> 'h desk \<Rightarrow> string option \<Rightarrow> (string, pyval) dict \<Rightarrow> ('h, reply) op" where
  "handle_cs_command m dk raw_action data =
     (let action = normalised raw_action in
      if \<not> dk_enabled dk then ret (error_answer ''client_simulation disabled on this host'')
      else if action \<in> set LONG_ACTIONS then accept_long dk action data
      else if action = ''proxmox_reclone_clear'' then clear_reclone_cmd m
      else if action = ''proxmox_reclone_stop'' then stop_reclone_cmd
      else run_fast m dk action data)"

section \<open>Every command is answered\<close>

lemma ends_disk_ops [ends_intro]:
  "ends (with_disk (clear_quarantine b))" "ends (with_disk (clear_odd_bus v))"
  "ends (with_disk (\<lambda>d. case clear_excluded_buses d of (n, d') \<Rightarrow> (Inr n, d')))"
  by (auto simp: ends_def with_disk_def clear_quarantine_def clear_odd_bus_def Let_def split: prod.splits stored.splits bool.splits)

lemma ends_unbind [ends_intro]: "ends (force_unbind_present m dk)"
proof -
  have i: "py_iter v \<noteq> Inl Diverged" for v by (cases v) simp_all
  have v: "dongle_vidpids decode usb \<noteq> Inl Diverged" for decode usb
    using i unfolding dongle_vidpids_def Let_def by (auto simp: map_sum_def split: sum.splits)
  have u: "ends (force_unbind_dongle_drivers m vps held)" for vps held
    unfolding force_unbind_dongle_drivers_def unbind_device_def unbind_child_def bound_driver_def device_vidpid_def read_sysfs_def
    by (intro ends_intro)
  show ?thesis unfolding force_unbind_present_def by (intro ends_intro v u)
qed

lemma ends_batch_cmds [ends_intro]: "ends (vm_batch m act order prot)"
proof -
  have one: "ends (batch_one m act vid prot)" for vid
    by (cases act) (auto simp: start_vm_def stop_vm_def snapshot_vm_def intro!: ends_intro)
  have "ends (batch_task m act prot vid fin)" for vid fin
    unfolding batch_task_def by (intro ends_intro one) (auto split: exn.splits intro!: ends_intro)
  then show ?thesis unfolding vm_batch_def Let_def by (intro ends_intro)
qed

lemma ends_single_cmds [ends_intro]:
  "ends (start_vm m k v p)" "ends (stop_vm m k v p)" "ends (reboot_vm m v p)" "ends (snapshot_vm m nm k v p)"
  unfolding start_vm_def stop_vm_def reboot_vm_def snapshot_vm_def by (intro ends_intro)+

lemma ends_recovery_cmds [ends_intro]:
  "ends (unlock_templates m dk data)" "ends (unlock_stuck m)" "ends (clear_history_cmd m)"
proof -
  have t: "template_ids dk data \<noteq> Inl Diverged"
    unfolding template_ids_def Let_def by (auto split: pyval.splits elim!: py_iter.elims)
  have f: "failed_id x \<noteq> Inl Diverged" for x by (cases "looks_numeric (py_str x)") (simp_all add: failed_id_def value_intro)
  have u: "ends (unlock_one m x acc)" for x acc
    unfolding unlock_one_def
    by (intro ends_intro value_intro) (auto split: exn.splits intro!: ends_intro f)
  show "ends (unlock_templates m dk data)"
    unfolding unlock_templates_def unlock_template_def by (intro ends_intro t u)
  have a: "ends (attempted m argv s)" for argv s
    unfolding attempted_def by (intro ends_intro) (auto split: exn.splits intro!: ends_intro)
  show "ends (unlock_stuck m)"
    unfolding unlock_stuck_def clear_provision_lock_def term_pid_def unlock_locked_def remove_if_there_def Let_def
    by (intro ends_intro a)
  show "ends (clear_history_cmd m)"
    unfolding clear_history_cmd_def purge_history_def purge_one_def by (intro ends_intro)
qed

lemma ends_fast:
  assumes "\<And>bus. ends (dk_probe dk bus)" "dget (fast_commands m dk data) action = Some p"
  shows "ends p"
proof -
  have s: "snapshot_name data \<noteq> Inl Diverged" by (auto simp: snapshot_name_def split: pyval.splits)
  have "ends (snapshot_one m prot data)" for prot
    unfolding snapshot_one_def using s by (auto split: sum.splits intro!: ends_intro)
  moreover have "ends (probe_bus dk data)"
    unfolding probe_bus_def Let_def by (intro ends_intro assms(1))
  moreover have "ends (clear_quarantine_cmd m dk data)"
    unfolding clear_quarantine_cmd_def Let_def by (auto split: pyval.splits intro!: ends_intro)
  moreover have "ends (clear_exclusions_cmd m dk)"
    unfolding clear_exclusions_cmd_def by (intro ends_intro)
  ultimately have "\<forall>q \<in> snd ` set (fast_commands m dk data). ends q"
    by (auto simp: fast_commands_def Let_def intro!: ends_intro)
  with map_of_SomeD [OF assms(2)] show ?thesis by force
qed

lemma run_fast_returns:
  assumes "\<And>bus. ends (dk_probe dk bus)"
  obtains reply w' where "run_fast m dk action data w = (Inr reply, w')"
proof -
  let ?p = "case dget (fast_commands m dk data) action of Some p \<Rightarrow> p | None \<Rightarrow> ret (error_answer (''unknown CS action: '' @ action))"
  have "ends ?p" using ends_fast [OF assms] by (auto intro!: ends_intro split: option.splits)
  then have "fst (?p w) \<noteq> Inl Diverged" by (simp add: ends_def)
  moreover obtain r v where run: "?p w = (r, v)" by (cases "?p w")
  ultimately show thesis
    using that by (cases r) (auto simp: run_fast_def except_any_def catch_def)
qed


definition front_desk :: "rat desk" where
  "front_desk = \<lparr>dk_agent = idle_agent, dk_enabled = True, dk_uuid = ''u1'', dk_now = 5, dk_probe = (\<lambda>bus. ret [(''bus'', PStr bus)])\<rparr>"


text \<open>
  C8: a command about one VM that the guard refuses runs nothing. The reply is an error that
  names the reason, and the world, with the log of every command run, is what it was.
\<close>

theorem refused_command_runs_nothing:
  assumes "normalised action \<in> {''start_vm'', ''stop_vm'', ''reboot_vm'', ''snapshot_vm''}" "dk_enabled dk"
    and "\<not> is_sim_vm (cfg_get data ''vmid'') (protected_of dk) SIM_VMIN"
  shows "\<exists>r. handle_cs_command m dk action data w = (Inr (error_answer (refusal_text (cfg_get data ''vmid'') r)), w)
    \<and> assert_sim_vm (cfg_get data ''vmid'') (protected_of dk) SIM_VMIN = Inl (GuardError r)"
proof -
  let ?v = "cfg_get data ''vmid''" and ?prot = "protected_of dk"
  obtain r where r: "assert_sim_vm ?v ?prot SIM_VMIN = Inl (GuardError r)"
    using assms(3) by (cases "assert_sim_vm ?v ?prot SIM_VMIN") (auto simp: is_sim_vm_def dest: assert_sim_vm_Inl)
  have "dget (fast_commands m dk data) (normalised action) = Some p \<Longrightarrow> p w = (Inl (GuardError r), w)" for p
    using assms(1) r
    by (auto simp: fast_commands_def Let_def bnd_def start_vm_def stop_vm_def reboot_vm_def snapshot_vm_def snapshot_one_def
        split: sum.splits)
  moreover have "dhas (fast_commands m dk data) (normalised action)"
    using assms(1) by (auto simp: fast_commands_def Let_def dhas_def)
  moreover have "normalised action \<notin> set LONG_ACTIONS" "normalised action \<noteq> ''proxmox_reclone_clear''"
    "normalised action \<noteq> ''proxmox_reclone_stop''"
    using assms(1) by (auto simp: LONG_ACTIONS_def)
  ultimately show ?thesis
    using r assms(2)
    by (auto simp: handle_cs_command_def Let_def run_fast_def dhas_def except_any_def catch_def failure_text_def)
qed

theorem refused_command_runs_nothing_witness:
  "\<exists>msg. handle_cs_command still_host front_desk (Some ''stop-vm'') [(''vmid'', PInt 1001)] (fresh_world 0)
     = (Inr (error_answer msg), fresh_world 0)"
proof -
  have n: "normalised (Some ''stop-vm'') \<in> {''start_vm'', ''stop_vm'', ''reboot_vm'', ''snapshot_vm''}" by code_simp
  have g: "\<not> is_sim_vm (cfg_get [(''vmid'', PInt 1001)] ''vmid'') (protected_of front_desk) SIM_VMIN"
    by (simp add: is_sim_vm_iff cfg_get_def SIM_VMIN_def)
  have e: "dk_enabled front_desk" by (simp add: front_desk_def)
  from refused_command_runs_nothing [OF n e g] show ?thesis by blast
qed

end
