(* ===== verification/Tuning.thy ===== *)
theory Tuning
  imports Crontab Reclone
begin

text \<open>
  \<open>agent/src/host_tuning.py\<close>: the settings of the host the agent re-asserts at every start, the
  threshold of the memory-merging daemon in its configuration file and the units of the
  network watchdog. A file that cannot be read counts as absent.
\<close>

section \<open>One value of a configuration file\<close>

text \<open>
  Whether a line sets the key, commented out or not (\<open>^\s*#?\s*KEY\s*=\<close>); a key begins with
  neither a blank nor \<open>#\<close>.
\<close>

definition uncommented :: "string \<Rightarrow> string" where
  "uncommented l = (case lstrip l of [] \<Rightarrow> [] | c # cs \<Rightarrow> if c = CHR ''#'' then lstrip cs else c # cs)"

definition mentions :: "string \<Rightarrow> string \<Rightarrow> bool" where
  "mentions key l =
     (let u = uncommented l in
      has_prefix key u \<and> (case lstrip (drop (length key) u) of [] \<Rightarrow> False | c # cs \<Rightarrow> c = CHR ''=''))"

text \<open>The lines written back, and whether they count as changed; \<open>seen\<close> tells of an earlier line.\<close>

fun set_lines :: "string \<Rightarrow> string \<Rightarrow> bool \<Rightarrow> string list \<Rightarrow> string list \<times> bool" where
  "set_lines key want seen [] = (if seen then ([], False) else ([want], True))"
| "set_lines key want seen (l # ls) =
     (if mentions key l then
        if seen then set_lines key want True ls
        else (case set_lines key want True ls of (out, changed) \<Rightarrow>
                if strip l \<noteq> want then (want # out, True) else (l # out, changed))
      else (case set_lines key want seen ls of (out, changed) \<Rightarrow> (l # out, changed)))"

definition setting :: "string \<Rightarrow> string \<Rightarrow> string" where
  "setting key value = key @ ''='' @ value"

definition set_conf_value :: "'h machine \<Rightarrow> string \<Rightarrow> string \<Rightarrow> string \<Rightarrow> ('h, bool option) op" where
  "set_conf_value m path key value =
     bnd (read_text m path) (\<lambda>t. case t of
       None \<Rightarrow> ret None
     | Some text \<Rightarrow>
         (case set_lines key (setting key value) False (splitlines text) of (out, changed) \<Rightarrow>
            if \<not> changed then ret (Some False)
            else
              bnd (change_file m (WriteText (path @ ''.lmtmp'') (join_sep nl out @ nl))) (\<lambda>written.
              if \<not> written then ret None
              else bnd (change_file m (Rename (path @ ''.lmtmp'') path)) (\<lambda>moved.
                   ret (if moved then Some True else None)))))"

section \<open>Services\<close>

text \<open>\<open>_run\<close> never raises: a missing program or a timeout is a failure without output.\<close>

definition run_quiet :: "'h machine \<Rightarrow> string list \<Rightarrow> ('h, int \<times> string) op" where
  "run_quiet m argv =
     bnd (run_command m argv 20) (\<lambda>r. ret (case r of Exited rc out err \<Rightarrow> (rc, strip out) | _ \<Rightarrow> (1, [])))"

definition systemctl :: "'h machine \<Rightarrow> string list \<Rightarrow> ('h, bool) op" where
  "systemctl m words = bnd (run_quiet m (''systemctl'' # words)) (\<lambda>r. ret (fst r = 0))"

definition KSMTUNED_CONF :: string where "KSMTUNED_CONF = ''/etc/ksmtuned.conf''"
definition KSMTUNED_SERVICE :: string where "KSMTUNED_SERVICE = ''ksmtuned''"

datatype conf_state = ConfMissing | ConfUpdated | ConfAlreadySet | ConfUnwritable

fun conf_state_of :: "bool option \<Rightarrow> conf_state" where
  "conf_state_of None = ConfUnwritable"
| "conf_state_of (Some True) = ConfUpdated"
| "conf_state_of (Some False) = ConfAlreadySet"

record ksm_report =
  ks_conf :: conf_state
  ks_enabled :: "bool option"
  ks_active :: "bool option"
  ks_restarted :: bool
  ks_coef :: int

definition ensure_ksm :: "'h machine \<Rightarrow> int \<Rightarrow> ('h, ksm_report) op" where
  "ensure_ksm m coef =
     bnd (path_exists m KSMTUNED_CONF) (\<lambda>there.
     if \<not> there
     then ret \<lparr>ks_conf = ConfMissing, ks_enabled = None, ks_active = None, ks_restarted = False, ks_coef = coef\<rparr>
     else
       bnd (set_conf_value m KSMTUNED_CONF ''KSM_THRES_COEF'' (str_int coef)) (\<lambda>changed.
       bnd (systemctl m [''is-enabled'', ''--quiet'', KSMTUNED_SERVICE]) (\<lambda>on.
       bnd (if on then ret True else systemctl m [''enable'', KSMTUNED_SERVICE]) (\<lambda>_.
       bnd (systemctl m [''is-enabled'', ''--quiet'', KSMTUNED_SERVICE]) (\<lambda>enabled.
       bnd (systemctl m [''is-active'', ''--quiet'', KSMTUNED_SERVICE]) (\<lambda>active.
       if changed = Some True \<or> \<not> active then
         bnd (systemctl m [''restart'', KSMTUNED_SERVICE]) (\<lambda>_.
         bnd (systemctl m [''is-active'', ''--quiet'', KSMTUNED_SERVICE]) (\<lambda>up.
         ret \<lparr>ks_conf = conf_state_of changed, ks_enabled = Some enabled, ks_active = Some up,
              ks_restarted = True, ks_coef = coef\<rparr>))
       else
         ret \<lparr>ks_conf = conf_state_of changed, ks_enabled = Some enabled, ks_active = Some active,
              ks_restarted = False, ks_coef = coef\<rparr>))))))"

section \<open>The network watchdog\<close>

definition NET_WATCHDOG_TIMER :: string where "NET_WATCHDOG_TIMER = ''lm-pxmx-net-watchdog.timer''"

text \<open>The shipped file, where it goes, its mode (0755 and 0644).\<close>

definition NET_WATCHDOG_UNITS :: "(string \<times> string \<times> int) list" where
  "NET_WATCHDOG_UNITS =
     [(''lm-pxmx-net-watchdog.sh'', ''/usr/local/bin/lm-pxmx-net-watchdog'', 493),
      (''lm-pxmx-net-watchdog.service'', ''/etc/systemd/system/lm-pxmx-net-watchdog.service'', 420),
      (''lm-pxmx-net-watchdog.timer'', ''/etc/systemd/system/lm-pxmx-net-watchdog.timer'', 420)]"

definition parent_dir :: "string \<Rightarrow> string" where
  "parent_dir path = rev (drop 1 (dropWhile (\<lambda>c. c \<noteq> CHR ''/'') (rev path)))"

definition same_contents :: "string option \<Rightarrow> string option \<Rightarrow> bool" where
  "same_contents a b \<longleftrightarrow> a \<noteq> None \<and> a = b"

definition install_unit ::
    "'h machine \<Rightarrow> string \<Rightarrow> string \<times> string \<times> int \<Rightarrow> string list \<Rightarrow> ('h, string list) op" where
  "install_unit m dir u copied =
     (case u of (name, dest, mode) \<Rightarrow>
        bnd (read_text m (dir @ ''/'' @ name)) (\<lambda>shipped.
        bnd (read_text m dest) (\<lambda>there.
        if shipped = None \<or> same_contents shipped there then ret copied
        else
          bnd (change_file m (MakeDir (parent_dir dest))) (\<lambda>made.
          if \<not> made then ret copied
          else bnd (change_file m (CopyFile (dir @ ''/'' @ name) dest)) (\<lambda>ok.
               if \<not> ok then ret copied
               else bnd (change_file m (Chmod dest mode)) (\<lambda>ok.
                    ret (if ok then copied @ [dest] else copied)))))))"

record net_report =
  nr_copied :: "string list"
  nr_enabled :: bool
  nr_active :: bool

definition ensure_net_watchdog :: "'h machine \<Rightarrow> string \<Rightarrow> ('h, net_report) op" where
  "ensure_net_watchdog m dir =
     bnd (iter (install_unit m dir) NET_WATCHDOG_UNITS []) (\<lambda>copied.
     bnd (if copied \<noteq> [] then systemctl m [''daemon-reload''] else ret True) (\<lambda>_.
     bnd (systemctl m [''is-enabled'', ''--quiet'', NET_WATCHDOG_TIMER]) (\<lambda>on.
     bnd (if \<not> on then systemctl m [''enable'', ''--now'', NET_WATCHDOG_TIMER]
          else bnd (systemctl m [''is-active'', ''--quiet'', NET_WATCHDOG_TIMER]) (\<lambda>up.
               if up then ret True else systemctl m [''start'', NET_WATCHDOG_TIMER])) (\<lambda>_.
     bnd (systemctl m [''is-enabled'', ''--quiet'', NET_WATCHDOG_TIMER]) (\<lambda>enabled.
     bnd (systemctl m [''is-active'', ''--quiet'', NET_WATCHDOG_TIMER]) (\<lambda>active.
     ret \<lparr>nr_copied = copied, nr_enabled = enabled, nr_active = active\<rparr>))))))"

text \<open>Both, each failing on its own.\<close>

definition apply_all :: "'h machine \<Rightarrow> int \<Rightarrow> string \<Rightarrow> ('h, (exn + ksm_report) \<times> (exn + net_report)) op" where
  "apply_all m coef dir =
     bnd (except_any (bnd (ensure_ksm m coef) (\<lambda>r. ret (Inr r))) (\<lambda>e. ret (Inl e))) (\<lambda>ksm.
     bnd (except_any (bnd (ensure_net_watchdog m dir) (\<lambda>r. ret (Inr r))) (\<lambda>e. ret (Inl e))) (\<lambda>net.
     ret (ksm, net)))"

section \<open>What a rewritten file holds\<close>

definition proper_key :: "string \<Rightarrow> bool" where
  "proper_key key \<longleftrightarrow> key \<noteq> [] \<and> \<not> is_space (hd key) \<and> hd key \<noteq> CHR ''#''"

text \<open>The value a shell that reads the file ends up with: the last assignment counts.\<close>

definition assigns :: "string \<Rightarrow> string \<Rightarrow> bool" where
  "assigns key l = has_prefix (key @ ''='') (strip l)"

definition effective :: "string \<Rightarrow> string list \<Rightarrow> string option" where
  "effective key ls =
     (case filter (assigns key) ls of [] \<Rightarrow> None | xs \<Rightarrow> Some (drop (length key + 1) (strip (last xs))))"

lemma set_lines_seen: "set_lines key want True ls = (filter (\<lambda>l. \<not> mentions key l) ls, False)"
  by (induction ls) auto

lemma set_lines_first:
  assumes "mentions key want" "strip want = want"
  shows "case set_lines key want False ls of (out, changed) \<Rightarrow>
      filter (\<lambda>l. \<not> mentions key l) out = filter (\<lambda>l. \<not> mentions key l) ls
      \<and> (\<exists>l. filter (mentions key) out = [l] \<and> strip l = want)
      \<and> set_lines key want False out = (out, False) \<and> set out \<subseteq> insert want (set ls)
      \<and> (\<not> changed \<longrightarrow> set_lines key want False ls = (out, False))"
proof (induction ls)
  case Nil
  show ?case using assms by (simp add: set_lines_seen)
next
  case (Cons l ls)
  then show ?case using assms by (auto simp: set_lines_seen split: prod.splits)
qed

lemma mentions_proper: "proper_key key \<Longrightarrow> mentions key (setting key value)"
  by (cases key) (auto simp: proper_key_def setting_def mentions_def uncommented_def lstrip_def has_prefix_iff is_space_def Let_def)

lemma assigns_mentions:
  assumes "proper_key key" "assigns key l"
  shows "mentions key l"
proof -
  obtain rest where rest: "strip l = key @ CHR ''='' # rest" using assms(2) by (auto simp: assigns_def has_prefix_iff)
  obtain c cs where key: "key = c # cs" "\<not> is_space c" "c \<noteq> CHR ''#''"
    using assms(1) by (cases key) (auto simp: proper_key_def)
  obtain tail where "lstrip l = strip l @ tail"
    by (metis append_take_drop_id rstrip_def strip_def dropWhile_eq_drop rev_drop rev_rev_ident)
  then have "lstrip l = key @ CHR ''='' # rest @ tail" using rest by simp
  with key show ?thesis by (simp add: mentions_def uncommented_def Let_def has_prefix_iff lstrip_def is_space_def)
qed

lemma effective_single:
  assumes "proper_key key" "filter (mentions key) ls = [l]" "strip l = setting key value"
  shows "effective key ls = Some value"
proof -
  have "filter (assigns key) ls = filter (assigns key) (filter (mentions key) ls)"
    using assigns_mentions [OF assms(1)] by (auto simp: filter_filter intro: filter_cong)
  moreover have "assigns key l" using assms(3) by (simp add: assigns_def setting_def has_prefix_iff)
  ultimately show ?thesis using assms by (simp add: effective_def setting_def)
qed

text \<open>Files keep what is written to them, and a rename moves it.\<close>

definition stores_files :: "'h machine \<Rightarrow> bool" where
  "stores_files m \<longleftrightarrow>
     (\<forall>p t h h'. m_write m (WriteText p t) h = (True, h') \<longrightarrow> m_file m p h' = Some t)
     \<and> (\<forall>p q h h'. m_write m (Rename p q) h = (True, h') \<longrightarrow> m_file m q h' = m_file m p h)"

text \<open>
  C0: setting a value settles the file. Whenever \<open>set_conf_value\<close> does not give up, the file
  afterwards has the operator's other lines in their order, a second call finds nothing to
  change and writes nothing, and if the file was rewritten, the key occurs on exactly one line
  and a shell that reads the file sees the new value.
\<close>

theorem conf_value_settles:
  assumes "stores_files m" "proper_key key" "strip (setting key value) = setting key value"
    and "plain (setting key value)" "m_file m path (host w) = Some old"
    and run: "set_conf_value m path key value w = (Inr (Some b), w')"
  shows "\<exists>text'. m_file m path (host w') = Some text'
    \<and> filter (\<lambda>l. \<not> mentions key l) (splitlines text') = filter (\<lambda>l. \<not> mentions key l) (splitlines old)
    \<and> set_conf_value m path key value w' = (Inr (Some False), w')
    \<and> (b \<longrightarrow> length (filter (mentions key) (splitlines text')) = 1 \<and> effective key (splitlines text') = Some value)"
proof -
  let ?want = "setting key value"
  obtain out changed where s: "set_lines key ?want False (splitlines old) = (out, changed)" by fastforce
  note spec = set_lines_first [OF mentions_proper [OF assms(2)] assms(3), where ls = "splitlines old", unfolded s prod.case]
  show ?thesis
  proof (cases changed)
    case False
    then show ?thesis using run assms(5) s by (auto simp: set_conf_value_def read_text_def bnd_def)
  next
    case True
    have "out \<noteq> []" using spec by auto
    moreover have "list_all plain out"
      using spec assms(4) splitlines_plain [of old] by (fastforce simp: list_all_iff)
    ultimately have lines: "splitlines (join_sep nl out @ nl) = out"
      using splitlines_join [of out "[]"] by (simp add: splitlines_def)
    have there: "b" "m_file m path (host w') = Some (join_sep nl out @ nl)"
      using run assms(1,5) s True
      by (auto simp: set_conf_value_def read_text_def bnd_def change_file_def stores_files_def split: prod.splits if_splits)
    have again: "set_conf_value m path key value w' = (Inr (Some False), w')"
      using there(2) spec by (simp add: set_conf_value_def read_text_def bnd_def lines)
    show ?thesis
      using spec there again effective_single [OF assms(2)] by (auto simp: lines)
  qed
qed

text \<open>A host whose files are a dictionary.\<close>

definition file_host :: "(string, string) dict machine" where
  "file_host =
     \<lparr>m_exec = \<lambda>a t h. (NoProgram, h), m_clock = \<lambda>h. 0, m_pause = \<lambda>d h. h, m_file = \<lambda>p h. dget h p,
      m_dir = \<lambda>p h. False, m_list = \<lambda>p h. [], m_link = \<lambda>p h. None, m_which = \<lambda>p h. False,
      m_write = \<lambda>c h. (case c of
         WriteText p t \<Rightarrow> (True, dset p t h)
       | Rename p q \<Rightarrow> (case dget h p of None \<Rightarrow> (False, h) | Some t \<Rightarrow> (True, dset q t (dpop p h)))
       | _ \<Rightarrow> (False, h)),
      m_stamp = \<lambda>h. [], m_names = [], m_node = ''pve''\<rparr>"

lemma file_host_writes:
  "m_write file_host (WriteText p t) h = (True, dset p t h)"
  "m_write file_host (Rename p q) h = (case dget h p of None \<Rightarrow> (False, h) | Some t \<Rightarrow> (True, dset q t (dpop p h)))"
  by (simp_all add: file_host_def)

lemma changed_pair: "snd p \<Longrightarrow> p = (fst p, True)"
  by (cases p) simp

lemma tuned_file:
  assumes "m_file file_host path (host w) = Some old" "set_lines key (setting key value) False (splitlines old) = (out, True)"
  shows "\<exists>w'. set_conf_value file_host path key value w = (Inr (Some True), w')"
  using assms by (simp add: set_conf_value_def read_text_def bnd_def change_file_def file_host_writes dget_dset)

definition shipped_conf :: string where
  "shipped_conf = join_sep nl [''# How long to sleep'', ''KSM_SLEEP_MSEC=10'', ''# KSM_THRES_COEF=20'', []]"

theorem conf_value_settles_witness:
  "\<exists>w'. set_conf_value file_host KSMTUNED_CONF ''KSM_THRES_COEF'' ''80'' (fresh_world [(KSMTUNED_CONF, shipped_conf)])
      = (Inr (Some True), w')
    \<and> set_conf_value file_host KSMTUNED_CONF ''KSM_THRES_COEF'' ''80'' w' = (Inr (Some False), w')"
proof -
  let ?w = "fresh_world [(KSMTUNED_CONF, shipped_conf)]"
  have st: "stores_files file_host"
    by (auto simp: stores_files_def file_host_def dget_dset split: option.splits)
  have k: "proper_key ''KSM_THRES_COEF''" by code_simp
  have s: "strip (setting ''KSM_THRES_COEF'' ''80'') = setting ''KSM_THRES_COEF'' ''80''"
    "plain (setting ''KSM_THRES_COEF'' ''80'')" by code_simp+
  have f: "m_file file_host KSMTUNED_CONF (host ?w) = Some shipped_conf"
    by (simp add: file_host_def fresh_world_def)
  have c: "snd (set_lines ''KSM_THRES_COEF'' (setting ''KSM_THRES_COEF'' ''80'') False (splitlines shipped_conf))" by code_simp
  obtain w' where run: "set_conf_value file_host KSMTUNED_CONF ''KSM_THRES_COEF'' ''80'' ?w = (Inr (Some True), w')"
    using tuned_file [OF f changed_pair [OF c]] by blast
  from conf_value_settles [OF st k s f run] run show ?thesis by blast
qed

text \<open>
  A key set twice. When the first of its lines is already right, the file does not count as
  changed: the later line stays, and it is the one that takes effect.
\<close>

theorem duplicate_survives:
  "set_conf_value (m\<lparr>m_file := \<lambda>p h. Some (join_sep nl [''KSM_THRES_COEF=80'', ''KSM_THRES_COEF=20''])\<rparr>) path ''KSM_THRES_COEF'' ''80'' w
     = (Inr (Some False), w)
   \<and> effective ''KSM_THRES_COEF'' (splitlines (join_sep nl [''KSM_THRES_COEF=80'', ''KSM_THRES_COEF=20''])) = Some ''20''"
proof
  let ?t = "join_sep nl [''KSM_THRES_COEF=80'', ''KSM_THRES_COEF=20'']"
  have "set_lines ''KSM_THRES_COEF'' (setting ''KSM_THRES_COEF'' ''80'') False (splitlines ?t) = ([''KSM_THRES_COEF=80''], False)"
    by code_simp
  then show "set_conf_value (m\<lparr>m_file := \<lambda>p h. Some ?t\<rparr>) path ''KSM_THRES_COEF'' ''80'' w = (Inr (Some False), w)"
    by (simp add: set_conf_value_def read_text_def bnd_def)
qed code_simp

section \<open>Start-up is never blocked\<close>

lemma returns_services [returns_intro]: "returns (run_quiet m argv)" "returns (systemctl m ws)"
  unfolding systemctl_def run_quiet_def by (auto simp: returns_def run_command_def bnd_def split: prod.splits)

lemma returns_set_conf [returns_intro]: "returns (set_conf_value m path key value)"
  unfolding set_conf_value_def by (intro returns_intro)

lemma returns_tuning [returns_intro]: "returns (ensure_ksm m coef)" "returns (ensure_net_watchdog m dir)"
proof -
  show "returns (ensure_ksm m coef)" unfolding ensure_ksm_def by (intro returns_intro)
  have "returns (install_unit m dir u s)" for u s unfolding install_unit_def by (intro returns_intro)
  then show "returns (ensure_net_watchdog m dir)" unfolding ensure_net_watchdog_def by (intro returns_intro) auto
qed

text \<open>Tuning reports both results at every start, whatever the programs and the files of the host do.\<close>

lemma swallowed:
  "returns p \<Longrightarrow> \<exists>x v'. except_any (bnd p (\<lambda>r. ret (Inr r))) h v = (Inr (Inr x), v')"
  by (drule returnsD [of _ v]) (auto simp: except_any_def catch_def bnd_def)

theorem tuning_never_fails: "\<exists>k n. fst (apply_all m coef dir w) = Inr (Inr k, Inr n)"
proof -
  let ?guard = "\<lambda>p. except_any (bnd p (\<lambda>r. ret (Inr r))) (\<lambda>e. ret (Inl e))"
  obtain k w1 where k: "?guard (ensure_ksm m coef) w = (Inr (Inr k), w1)"
    using swallowed [OF returns_tuning(1)] by blast
  obtain n w2 where n: "except_any (bnd (ensure_net_watchdog m dir) (\<lambda>r. ret (Inr r))) (\<lambda>e. ret (Inl e)) w1 = (Inr (Inr n), w2)"
    using swallowed [OF returns_tuning(2)] by blast
  show ?thesis unfolding apply_all_def by (simp add: bnd_def k n)
qed

end
