(* ===== verification/Spec2Isabelle.thy ===== *)
theory Spec2Isabelle
  imports Guard Pressure UsbStore Quarantine Ghosts Host Pve Marks Destroy ProvConfig Pci Gate GuestWatchdog Batch Crontab Frame Clone Templates Reclone Ledger HostOps LongOps Reporting UsbBus PostProv Resets Sweeps Alloc Pass Health Names FullPass HealthFacts Deploy Recovery SelfUpdate UpdateSafety Commands Tuning
begin

text \<open>
  A verification of the Proxmox agent of this repository (\<open>agent/src\<close>): the process that runs
  on a Proxmox host, hands USB and PCI dongles to simulation VMs, clones, watches, repairs and
  destroys those VMs on behalf of a hub, and updates itself.

  The parts of the program and where they are modelled.

  \<^item> Vocabulary. \<open>Prelude\<close> (dictionaries in insertion order as association lists, decimal
    strings, \<open>strip\<close>), \<open>Text\<close> (\<open>split\<close>, \<open>splitlines\<close>, \<open>partition\<close>), \<open>PyValue\<close> (values decoded
    from JSON, with Python's truthiness and \<open>int()\<close>), \<open>Disk\<close> (files with write faults: a write
    that truncates and then dies leaves an empty or torn file).
  \<^item> The guard, \<open>cs_guard.py\<close>, in \<open>Guard\<close>: which VMIDs a destructive command may name.
  \<^item> Pure policy: \<open>resource_pressure.py\<close> in \<open>Pressure\<close>, the configuration readers of
    \<open>usb_provision.py\<close> in \<open>ProvConfig\<close>, \<open>security_utils.py\<close> in \<open>Frame\<close>.
  \<^item> Persistent state: \<open>usb_state_store.py\<close> in \<open>UsbStore\<close> (the two-way map between VMs and
    buses) and \<open>Ghosts\<close>; \<open>usb_quarantine.py\<close> and the quarantine steps of the provisioning loop
    in \<open>Quarantine\<close>; \<open>managed_crontab.py\<close> in \<open>Crontab\<close>; the log of the agent's own port resets
    (\<open>usb_diagnostics.py\<close>) in \<open>Resets\<close>.
  \<^item> The host. \<open>Host\<close> gives the state \<open>world\<close> and the effects of a coroutine: \<open>'a op\<close> is a
    state function that yields a value or an error, \<open>bnd\<close> sequences, \<open>catch\<close> is \<open>try/except\<close>.
    What \<open>qm\<close>, \<open>pct\<close>, \<open>pvesh\<close> and the kernel answer is not code of the repository: it is the
    parameter \<open>machine\<close> of every operation, a record of functions that map a command line and a
    host state to the answer and the next host state. Every command is logged, and the safety
    properties are statements about that log for every machine.
  \<^item> \<open>pve_cmds.py\<close> in \<open>Pve\<close> (guarded commands, ladders, batches) and \<open>HostOps\<close> (host commands
    without a VMID: maintenance, pools, storages, templates); \<open>cs_sim.py\<close>'s teardown and batch
    delete in \<open>Destroy\<close>; the marks other tasks read in \<open>Marks\<close>; \<open>usb_resource_gate.py\<close> in \<open>Gate\<close>;
    \<open>guest_watchdog.py\<close> in \<open>GuestWatchdog\<close>; PCI devices in \<open>Pci\<close>.
  \<^item> Provisioning (\<open>usb_provision.py\<close>), bottom up: \<open>UsbBus\<close> (the sysfs scan, the driver blacklist),
    \<open>Clone\<close> (clone, attach, \<open>finish_clone\<close>, the PCI tiers), \<open>Templates\<close> (template choice, image
    shares, pools), \<open>PostProv\<close> (the retry and the settle-reboot queue), \<open>Sweeps\<close> (out-of-block,
    detached, missing and moved dongles), \<open>Alloc\<close> (which dongle gets which image on which VMID),
    \<open>Pass\<close> (\<open>run_provision_loop\<close> with its gates in order), \<open>Health\<close> (the dongle-health ladder),
    \<open>Names\<close> (the hostname audit), \<open>FullPass\<close> (the pass with both plugged in).
  \<^item> Long operations of the hub: \<open>Batch\<close> (the tracker of the fleet reclone), \<open>Reclone\<close> (one VM or
    the fleet destroyed and rebuilt), \<open>LongOps\<close> (the other handlers and \<open>run_long_op\<close>), \<open>Ledger\<close>
    (which delivery starts a task: the cache of seen commands and the two slots), \<open>Reporting\<close>
    (what each sends back), \<open>Commands\<close> (\<open>cs_commands.py\<close>, the dispatcher).
  \<^item> The self-update. \<open>Deploy\<close> (the disk as it may be found after an interruption, and a logic for
    it), \<open>Recovery\<close> (\<open>update_recovery.py\<close>: snapshots, manifest, registries of bad releases, the
    command line), \<open>SelfUpdate\<close> (\<open>_apply_update\<close> in \<open>agent.py\<close>).

  How they interact. The guard is called by every wrapper of \<open>Pve\<close> that changes a VM; \<open>Destroy\<close>,
  \<open>Gate\<close>, \<open>GuestWatchdog\<close>, \<open>Clone\<close>, \<open>Reclone\<close> and the pass reach the host only through \<open>Pve\<close>, so
  that its confinement lemmas carry over. They share \<open>usb_state.json\<close> (field of the disk in
  \<open>world\<close>), the in-memory copy of the provisioning pass (\<open>pass_state\<close>) and the marks. \<open>Commands\<close>
  hands a long operation to \<open>Ledger\<close> and runs every other command at once; \<open>FullPass\<close> is the pass
  that \<open>LongOps\<close> takes as an argument. The self-update shares nothing with the rest but the disk.

  What the lemmas show. Collections named \<open>keeps_intro\<close>, \<open>emits_intro\<close>, \<open>ends_intro\<close> and the like
  prove frame conditions, confinement and termination of whole coroutines by following their
  structure; locales state the contracts (a guarded command, a store that survives faults, a
  register whose marks expire, an observation no operation below a level changes, a registry of
  bad releases) and each is interpreted on the model. The properties are: the guard accepts
  exactly the simulation VMs, and no operation modifies another VM; the assignment map stays a
  bijection under every update, placement and roll-back; the allocator reclaims only leftovers and
  respects the shares; quarantine counts, escalates and never forgets a permanent entry; destroy
  reports success only when the VM is gone and keeps the books accordingly; a pass behind a closed
  gate clones nothing; ladders are climbed in order and capped; the ledger starts no command twice;
  every command and every long operation returns and is answered once; an interrupted update can
  always be undone and a release known to be bad stays out; parsers and printers are inverse to
  one another. Where the code does not keep what its comments promise, a theorem shows the case
  (\<open>swap_has_a_gap\<close>, \<open>shared_counter_skips_restart\<close>, \<open>end_marker_escapes\<close>, \<open>protected_hole_blocks\<close>).

  Bounds. No fuel is needed by a loop of the code that the code itself bounds: the poll loops
  (40 pings, 3 hostname stamps, 61 one-second polls after a stop) recurse on that very number.
  Loops that wait until a deadline recurse on the number of polls that fit into the deadline, given
  that a sleep advances the clock by at least what it asks for (\<open>clock_ok\<close>); \<open>Diverged\<close> is the
  value of a wait that outlives them, and the termination theorems show that it is never reached.

  Abstractions. Times and loads are rationals in place of floats. Text is ASCII, the long dash of
  some messages its UTF-8 bytes; the text of an exception raised by Python itself is the function
  \<open>exn_message\<close>. One task runs at a time: what the other tasks do between two awaits is not
  modelled, except that the stop request of the fleet reclone may arrive before any VM (a parameter
  says where), and that deliveries and tasks interleave freely in \<open>Ledger\<close>; clones that the code
  gathers are taken one after the other. HMAC-SHA256 and the JSON decoder are parameters, and so are
  the contents of the git checkout and the way each tree operation of the update goes (\<open>checkout\<close>,
  \<open>course\<close>): done, failed at any point, or interrupted.

  Not modelled: websocket sessions and the task loops of \<open>agent.py\<close>, the hub-side spoke (\<open>src/\<close>),
  telemetry frames, drive health and diagnostics reports (text over the output of system tools) and installers. The manifest lists
  each part with its reason.
\<close>

end
